(* ===== verification/GoPrelude.thy ===== *)
theory GoPrelude
  imports Main "HOL-Library.Word" "HOL-Library.AList" "HOL-Library.List_Lexorder"
    "HOL-Library.Char_ord" "HOL-Library.Product_Lexorder" "HOL-Library.Multiset"
begin

text \<open>
  Shared vocabulary of the development: the parts of Go and of its standard library that
  every component uses, the error values of the program, and the generic lemmas the component
  theories share.

  \<^item> Strings. A Go string is a \<open>string\<close> whose characters are its runes, restricted to
    the Latin-1 block (U+0000 to U+00FF), the block Go classifies by its own table
    (\<open>unicode.IsSpace\<close>, \<open>IsLetter\<close>, \<open>IsUpper\<close>, \<open>ToUpper\<close>).
    Runes U+0080 and above take two bytes in UTF-8, which \<open>go_len\<close> counts as Go's
    \<open>len\<close> does. Strings with runes above U+00FF are outside the model, and so are the two
    lower-case letters U+00B5 and U+00FF, whose upper case lies above the block (the model leaves
    them unchanged). The order of strings is the lexicographic order of their runes,
    which is the order of their UTF-8 bytes.
  \<^item> \<open>int64\<close> is a 64-bit word read with \<open>sint\<close>; \<open>+\<close> and \<open>-\<close> wrap.
  \<^item> \<open>time.Time\<close> is an instant in nanoseconds since Go's zero time, so that
    \<open>IsZero\<close> is \<open>t = 0\<close>, \<open>UTC\<close> is the identity and
    \<open>After\<close>, \<open>Before\<close>, \<open>Equal\<close> are the order of \<open>int\<close>.
  \<^item> A Go map is an association list with distinct keys; its list order stands for one of the
    iteration orders Go may choose.
  \<^item> A method that may fail and change the state is an action: a function from the state to an
    \<open>error + 'a\<close> and the new state.
\<close>

section \<open>Collections of rules\<close>

named_theorems act_simps "case analysis of successful actions"
named_theorems op_success "what a successful call of an operation says"
named_theorems go_eval "definitions unfolded to evaluate the model on a concrete input"

section \<open>Types\<close>

type_synonym int64 = "64 word"
type_synonym time = int
type_synonym duration = int
type_synonym bytes = "char list"
type_synonym 'v gomap = "(string \<times> 'v) list"

section \<open>Errors\<close>

text \<open>
  Each sentinel error of the program (\<open>var Err... = errors.New(...)\<close>) is a constructor.
  \<open>ErrMsg\<close> is an error made in place by \<open>errors.New\<close> or \<open>fmt.Errorf\<close> without
  \<open>%w\<close>; \<open>CtxErr\<close> is what \<open>ctx.Err()\<close> returns; \<open>DbErr\<close> is an error of
  the database driver that the code passes on; \<open>Wrapped\<close> is \<open>fmt.Errorf("prefix: %w", err)\<close>
  and \<open>Joined\<close> is \<open>errors.Join\<close>.
\<close>

datatype error =
    ErrMsg string
  | CtxErr string
  | DbErr string
  | Wrapped string error
  | Joined error error
  | ErrMerchantNotFound | ErrDuplicateMerchant
  | ErrPayerNotFound | ErrDuplicatePayer | ErrPayerVersionConflict
  | ErrPaymentNotFound | ErrDuplicatePayment | ErrHoldNotFound | ErrDuplicateHold
  | ErrMerchantCannotCreatePayments | ErrPayerCurrencyMismatch
  | ErrInsufficientAvailableBalance | ErrPaymentNotCapturable | ErrAuthorizationExpired
  | ErrEventNotFound | ErrDuplicateEvent
  | ErrEventNotClaimable | ErrEventNotPublishable | ErrEventNotFailable
  | ErrPublisherRequired | ErrOutboxRepositoryRequired | ErrOutboxTransactorRequired
  | ErrInvalidKey | ErrInvalidRequestHash | ErrInvalidStatus
  | ErrRecordNotFound | ErrDuplicateKey | ErrRequestHashMismatch | ErrExpiredIdempotencyKey
  | ErrRequestInProgress | ErrCachedResponseNotFound
  | ErrInvalidSettlementWindow | ErrInvalidBatchStatus | ErrInvalidLineItemAmount
  | ErrBatchNotFound | ErrLineItemNotFound | ErrDuplicateLineItem | ErrDuplicateBatch
  | ErrPaymentAlreadySettled
  | ErrSettlementRepositoryRequired | ErrPaymentRepositoryRequired | ErrSettlementTransactorRequired
  | ErrLimiterUnavailable | ErrClientRequired | ErrLimitRequired | ErrWindowRequired | ErrTTLRequired
  | ErrBrokerRequired | ErrTopicRequired

text \<open>\<open>errors.Is\<close>: the target is compared with the error and with everything it wraps.\<close>

fun errors_is :: "error \<Rightarrow> error \<Rightarrow> bool" where
  "errors_is (Wrapped p e) t \<longleftrightarrow> Wrapped p e = t \<or> errors_is e t"
| "errors_is (Joined e f) t \<longleftrightarrow> Joined e f = t \<or> errors_is e t \<or> errors_is f t"
| "errors_is e t \<longleftrightarrow> e = t"

section \<open>Strings\<close>

definition rune :: "char \<Rightarrow> nat" where
  "rune c = of_char c"

definition go_is_space :: "char \<Rightarrow> bool" where
  "go_is_space c \<longleftrightarrow> rune c \<in> {9, 10, 11, 12, 13, 32, 0x85, 0xA0}"

definition trim_left :: "string \<Rightarrow> string" where
  "trim_left s = dropWhile go_is_space s"

definition trim_space :: "string \<Rightarrow> string" where
  "trim_space s = rev (trim_left (rev (trim_left s)))"

definition go_to_upper_rune :: "char \<Rightarrow> char" where
  "go_to_upper_rune c =
     (let n = rune c in
      if 97 \<le> n \<and> n \<le> 122 \<or> 0xE0 \<le> n \<and> n \<le> 0xFE \<and> n \<noteq> 0xF7 then char_of (n - 32)
      else c)"

definition to_upper :: "string \<Rightarrow> string" where
  "to_upper s = map go_to_upper_rune s"

definition go_is_upper :: "char \<Rightarrow> bool" where
  "go_is_upper c \<longleftrightarrow>
     (let n = rune c in 65 \<le> n \<and> n \<le> 90 \<or> 0xC0 \<le> n \<and> n \<le> 0xDE \<and> n \<noteq> 0xD7)"

definition go_is_letter :: "char \<Rightarrow> bool" where
  "go_is_letter c \<longleftrightarrow>
     (let n = rune c in
      65 \<le> n \<and> n \<le> 90 \<or> 97 \<le> n \<and> n \<le> 122 \<or> n \<in> {0xAA, 0xB5, 0xBA} \<or>
      0xC0 \<le> n \<and> n \<noteq> 0xD7 \<and> n \<noteq> 0xF7)"

definition rune_bytes :: "char \<Rightarrow> nat" where
  "rune_bytes c = (if rune c < 128 then 1 else 2)"

definition go_len :: "string \<Rightarrow> nat" where
  "go_len s = sum_list (map rune_bytes s)"

lemmas go_string_defs =
  rune_def go_is_space_def trim_left_def trim_space_def go_to_upper_rune_def to_upper_def
  go_is_upper_def go_is_letter_def rune_bytes_def go_len_def

declare go_string_defs [go_eval]

section \<open>Time and durations\<close>

text \<open>
  Durations are nanoseconds. \<open>Time.Sub\<close> saturates at the bounds of an \<open>int64\<close>;
  \<open>Truncate\<close> rounds down to a multiple of the duration since the zero time.
\<close>

definition second :: duration where "second = 1000000000"
definition minute :: duration where "minute = 60 * second"
definition hour :: duration where "hour = 60 * minute"

definition utc :: "time \<Rightarrow> time" where "utc t = t"

definition is_zero :: "time \<Rightarrow> bool" where "is_zero t \<longleftrightarrow> t = 0"

definition time_sub :: "time \<Rightarrow> time \<Rightarrow> duration" where
  "time_sub t u = max (- (2 ^ 63)) (min (2 ^ 63 - 1) (t - u))"

definition truncate_time :: "time \<Rightarrow> duration \<Rightarrow> time" where
  "truncate_time t d = (if d \<le> 0 then t else t - t mod d)"

lemmas go_time_defs = second_def minute_def hour_def utc_def is_zero_def

declare go_time_defs [go_eval] time_sub_def [go_eval] truncate_time_def [go_eval]

section \<open>Maps\<close>

text \<open>
  \<open>m[k] = v\<close> is \<open>AList.update k v m\<close>, a lookup is \<open>map_of m k\<close>, and
  \<open>range m\<close> visits \<open>gm_values m\<close>.
\<close>

definition gm_values :: "'v gomap \<Rightarrow> 'v list" where
  "gm_values m = map snd m"

definition gm_wf :: "('v \<Rightarrow> string) \<Rightarrow> 'v gomap \<Rightarrow> bool" where
  "gm_wf key m \<longleftrightarrow> distinct (map fst m) \<and> (\<forall>(k, v) \<in> set m. key v = k)"

definition msum :: "('v \<Rightarrow> int) \<Rightarrow> 'v gomap \<Rightarrow> int" where
  "msum f m = (\<Sum>v \<leftarrow> gm_values m. f v)"

section \<open>Actions\<close>

type_synonym ('s, 'a) act = "'s \<Rightarrow> (error + 'a) \<times> 's"

definition act_return :: "'a \<Rightarrow> ('s, 'a) act" where
  "act_return x s = (Inr x, s)"

definition act_fail :: "error \<Rightarrow> ('s, 'a) act" where
  "act_fail e s = (Inl e, s)"

text \<open>A pure call that may fail, such as an entity method.\<close>

definition act_lift :: "error + 'a \<Rightarrow> ('s, 'a) act" where
  "act_lift r s = (r, s)"

text \<open>\<open>x, err := m(); if err != nil { return err }; ...\<close>\<close>

definition act_bind :: "('s, 'a) act \<Rightarrow> ('a \<Rightarrow> ('s, 'b) act) \<Rightarrow> ('s, 'b) act" where
  "act_bind m f s = (case m s of (Inl e, s') \<Rightarrow> (Inl e, s') | (Inr x, s') \<Rightarrow> f x s')"

lemmas act_defs = act_return_def act_fail_def act_lift_def act_bind_def

declare act_defs [go_eval]

section \<open>Lemmas on strings\<close>

lemma rune_less_256: "rune c < 256"
  unfolding rune_def by (rule nat_of_char_less_256)

lemma rune_eqD: "rune c = rune d \<Longrightarrow> c = d"
  unfolding rune_def by (metis char_of_char)

lemma rune_char_of [simp]: "rune (char_of n) = n mod 256"
  unfolding rune_def by simp

lemma rune_to_upper:
  "rune (go_to_upper_rune c) =
     (if 97 \<le> rune c \<and> rune c \<le> 122 \<or> 224 \<le> rune c \<and> rune c \<le> 254 \<and> rune c \<noteq> 247
      then rune c - 32 else rune c)"
  using rune_less_256 [of c] by (auto simp: go_to_upper_rune_def Let_def)

lemma go_is_space_to_upper [simp]: "go_is_space (go_to_upper_rune c) = go_is_space c"
  by (auto simp: go_is_space_def rune_to_upper split: if_splits)

lemma go_to_upper_rune_idem [simp]:
  "go_to_upper_rune (go_to_upper_rune c) = go_to_upper_rune c"
  by (rule rune_eqD) (auto simp: rune_to_upper)

lemma to_upper_idem [simp]: "to_upper (to_upper s) = to_upper s"
  by (simp add: to_upper_def o_def)

lemma to_upper_trim_left: "to_upper (trim_left s) = trim_left (to_upper s)"
  by (simp add: to_upper_def trim_left_def dropWhile_map o_def)

lemma to_upper_rev: "to_upper (rev s) = rev (to_upper s)"
  by (simp add: to_upper_def rev_map)

lemma to_upper_trim_space: "to_upper (trim_space s) = trim_space (to_upper s)"
  by (simp add: trim_space_def to_upper_rev to_upper_trim_left)

lemma trim_left_idem [simp]: "trim_left (trim_left s) = trim_left s"
  by (simp add: trim_left_def dropWhile_idem)

lemma trim_left_fixed: "s = [] \<or> \<not> go_is_space (hd s) \<Longrightarrow> trim_left s = s"
  by (cases s) (auto simp: trim_left_def)

lemma trim_left_hd: "trim_left s = [] \<or> \<not> go_is_space (hd (trim_left s))"
  unfolding trim_left_def by (metis hd_dropWhile)

lemma trim_left_rev_trim_left:
  "trim_left (rev (trim_left (rev (trim_left s)))) = rev (trim_left (rev (trim_left s)))"
proof (rule trim_left_fixed)
  let ?t = "trim_left s"
  obtain p where p: "rev ?t = p @ trim_left (rev ?t)"
    unfolding trim_left_def by (metis takeWhile_dropWhile_id)
  then have t: "?t = rev (trim_left (rev ?t)) @ rev p"
    by (metis rev_append rev_rev_ident)
  show "rev (trim_left (rev ?t)) = [] \<or> \<not> go_is_space (hd (rev (trim_left (rev ?t))))"
    using trim_left_hd [of s] t by (metis append_is_Nil_conv hd_append2)
qed

lemma trim_space_idem [simp]: "trim_space (trim_space s) = trim_space s"
  by (simp add: trim_space_def trim_left_rev_trim_left)

section \<open>Lemmas on 64-bit integers\<close>

lemma sint64_bounds: "- (2 ^ 63) \<le> sint (a :: int64)" "sint (a :: int64) < 2 ^ 63"
  using sint_ge [of a] sint_lt [of a] by simp_all

lemma sint_add64:
  "- (2 ^ 63) \<le> sint a + sint b \<Longrightarrow> sint a + sint b < 2 ^ 63 \<Longrightarrow>
   sint (a + b :: int64) = sint a + sint b"
  by (simp add: sint_word_ariths signed_take_bit_int_eq_self)

lemma sint_sub64:
  "- (2 ^ 63) \<le> sint a - sint b \<Longrightarrow> sint a - sint b < 2 ^ 63 \<Longrightarrow>
   sint (a - b :: int64) = sint a - sint b"
  by (simp add: sint_word_ariths signed_take_bit_int_eq_self)

section \<open>Lemmas on maps\<close>

lemma member_le_sum_list_int: "x \<in> set xs \<Longrightarrow> \<forall>y \<in> set xs. (0::int) \<le> y \<Longrightarrow> x \<le> sum_list xs"
proof (induction xs)
  case (Cons a xs)
  then have "0 \<le> sum_list xs" by (auto intro!: sum_list_nonneg)
  with Cons show ?case by auto
qed simp

lemma map_of_update [simp]: "map_of (AList.update k v m) = (map_of m)(k \<mapsto> v)"
  by (rule update_conv')

lemma gm_wf_empty [simp]: "gm_wf key []"
  by (simp add: gm_wf_def)

lemma set_update_subset: "set (AList.update k v m) \<subseteq> insert (k, v) (set m)"
  by (induction m) auto

lemma gm_wf_update: "gm_wf key m \<Longrightarrow> key v = k \<Longrightarrow> gm_wf key (AList.update k v m)"
  using set_update_subset [of k v m] by (auto simp: gm_wf_def distinct_update)

lemma gm_wf_key: "gm_wf key m \<Longrightarrow> map_of m k = Some v \<Longrightarrow> key v = k"
  by (auto simp: gm_wf_def dest: map_of_SomeD)

lemma gm_wf_distinct: "gm_wf key m \<Longrightarrow> distinct (map fst m)"
  by (simp add: gm_wf_def)

lemma gm_values_lookup:
  "gm_wf key m \<Longrightarrow> v \<in> set (gm_values m) \<longleftrightarrow> map_of m (key v) = Some v"
  by (force simp: gm_wf_def gm_values_def dest: map_of_SomeD)

lemma map_of_gm_values: "map_of m k = Some v \<Longrightarrow> v \<in> set (gm_values m)"
  by (force simp: gm_values_def dest: map_of_SomeD)

lemma distinct_gm_values: "gm_wf key m \<Longrightarrow> distinct (map key (gm_values m))"
proof -
  assume wf: "gm_wf key m"
  then have "map key (gm_values m) = map fst m"
    by (auto simp: gm_wf_def gm_values_def)
  with wf show ?thesis by (simp add: gm_wf_def)
qed

lemma msum_update_new:
  "map_of m k = None \<Longrightarrow> msum f (AList.update k v m) = msum f m + f v"
  by (induction m) (auto simp: msum_def gm_values_def split: if_splits)

lemma msum_update_old:
  "distinct (map fst m) \<Longrightarrow> map_of m k = Some v0 \<Longrightarrow>
   msum f (AList.update k v m) = msum f m - f v0 + f v"
  by (induction m) (auto simp: msum_def gm_values_def split: if_splits)

lemma msum_nonneg: "(\<And>k v. map_of m k = Some v \<Longrightarrow> 0 \<le> f v) \<Longrightarrow> distinct (map fst m) \<Longrightarrow> 0 \<le> msum f m"
  by (auto simp: msum_def gm_values_def intro!: sum_list_nonneg)

lemma msum_ge_member:
  assumes "distinct (map fst m)" "map_of m k = Some v"
    and "\<And>k v. map_of m k = Some v \<Longrightarrow> 0 \<le> f v"
  shows "f v \<le> msum f m"
proof -
  have "f v \<in> set (map f (gm_values m))"
    using assms(2) by (auto dest: map_of_gm_values)
  moreover have "\<forall>x \<in> set (map f (gm_values m)). 0 \<le> x"
    using assms(1,3) by (auto simp: gm_values_def)
  ultimately show ?thesis
    unfolding msum_def by (meson member_le_sum_list_int)
qed

section \<open>Lemmas on sorting\<close>

text \<open>
  A sort by a key that identifies the element gives one result, whatever the order in which the
  map is iterated: \<open>sort.Slice\<close> is not stable, and need not be here.
\<close>

lemma gm_values_mset_cong:
  assumes "gm_wf key m1" "gm_wf key m2" "map_of m1 = map_of m2"
  shows "mset (gm_values m1) = mset (gm_values m2)"
proof -
  have "set m1 = set m2"
    using assms by (metis gm_wf_distinct map_of_inject_set)
  moreover have "distinct m1" "distinct m2"
    using assms by (auto simp: distinct_map dest!: gm_wf_distinct)
  ultimately have "mset m1 = mset m2"
    by (simp add: set_eq_iff_mset_eq_distinct)
  then show ?thesis by (simp add: gm_values_def)
qed

lemma sort_key_mset_cong:
  assumes "mset xs = mset ys" "inj_on f (set xs)"
  shows "sort_key f xs = sort_key f ys"
  using assms by (intro sort_key_inj_key_eq) auto

text \<open>The first elements of a sorted list: a prefix of it, and nothing left out comes before.\<close>

lemma sort_key_prefix:
  assumes "sort_key f xs = ys @ zs"
  shows "sorted (map f ys)" "\<And>y z. y \<in> set ys \<Longrightarrow> z \<in> set xs \<Longrightarrow> z \<notin> set ys \<Longrightarrow> f y \<le> f z"
    "set ys \<subseteq> set xs" "distinct (map g xs) \<Longrightarrow> distinct (map g ys)"
proof -
  have sorted: "sorted (map f (ys @ zs))" using assms by (metis sorted_sort_key)
  then show "sorted (map f ys)" by (simp add: sorted_append)
  have set: "set xs = set ys \<union> set zs" using assms by (metis set_append set_sort)
  then show "set ys \<subseteq> set xs" by simp
  show "f y \<le> f z" if "y \<in> set ys" "z \<in> set xs" "z \<notin> set ys" for y z
    using that sorted set by (auto simp: sorted_append)
  show "distinct (map g ys)" if "distinct (map g xs)"
  proof -
    have "mset (map g xs) = mset (map g (ys @ zs))"
      using assms by (metis mset_map mset_sort)
    then show ?thesis using that by (metis distinct_append map_append mset_eq_imp_distinct_iff)
  qed
qed

section \<open>Lemmas on actions\<close>

lemma act_bind_Inr [act_simps]:
  "act_bind m f s = (Inr y, s2) \<longleftrightarrow> (\<exists>x s1. m s = (Inr x, s1) \<and> f x s1 = (Inr y, s2))"
  by (auto simp: act_bind_def split: prod.splits sum.splits)

lemma act_return_Inr [act_simps]: "act_return x s = (Inr y, s') \<longleftrightarrow> x = y \<and> s' = s"
  by (auto simp: act_return_def)

lemma act_fail_Inr [act_simps]: "act_fail e s = (Inr y, s') \<longleftrightarrow> False"
  by (auto simp: act_fail_def)

lemma act_lift_Inr [act_simps]: "act_lift r s = (Inr y, s') \<longleftrightarrow> r = Inr y \<and> s' = s"
  by (auto simp: act_lift_def)

text \<open>Stepping through an action whose next call is known to succeed, or to fail.\<close>

lemma act_bind_step: "m s = (Inr x, s1) \<Longrightarrow> act_bind m f s = f x s1"
  by (simp add: act_bind_def)

lemma act_bind_stop: "m s = (Inl e, s1) \<Longrightarrow> act_bind m f s = (Inl e, s1)"
  by (simp add: act_bind_def)

lemma act_bind_return [simp]: "act_bind (act_return x) f = f x"
  by (simp add: fun_eq_iff act_bind_def act_return_def)

lemma act_bind_fail [simp]: "act_bind (act_fail e) f = act_fail e"
  by (simp add: fun_eq_iff act_bind_def act_fail_def)

lemma act_bind_lift_Inr [simp]: "act_bind (act_lift (Inr x)) f = f x"
  by (simp add: fun_eq_iff act_bind_def act_lift_def)

lemma act_bind_lift_Inl [simp]: "act_bind (act_lift (Inl e)) f = act_fail e"
  by (simp add: fun_eq_iff act_bind_def act_lift_def act_fail_def)

text \<open>An invariant of the state that an action keeps, whatever it returns.\<close>

definition act_keeps :: "('s \<Rightarrow> bool) \<Rightarrow> ('s, 'a) act \<Rightarrow> bool" where
  "act_keeps P m \<longleftrightarrow> (\<forall>s. P s \<longrightarrow> P (snd (m s)))"

lemma act_keepsD: "act_keeps P m \<Longrightarrow> m s = (r, s') \<Longrightarrow> P s \<Longrightarrow> P s'"
  unfolding act_keeps_def by (metis snd_conv)

lemma act_keeps_return [intro, simp]: "act_keeps P (act_return x)"
  by (simp add: act_keeps_def act_return_def)

lemma act_keeps_fail [intro, simp]: "act_keeps P (act_fail e)"
  by (simp add: act_keeps_def act_fail_def)

lemma act_keeps_lift [intro, simp]: "act_keeps P (act_lift r)"
  by (simp add: act_keeps_def act_lift_def)

lemma act_keeps_bind [intro]:
  "act_keeps P m \<Longrightarrow> (\<And>x. act_keeps P (f x)) \<Longrightarrow> act_keeps P (act_bind m f)"
  unfolding act_keeps_def act_bind_def
  by (auto split: prod.splits sum.splits)

end
