(* ===== verification/Currency.thy ===== *)
theory Currency
  imports GoPrelude
begin

text \<open>
  \<open>internal/shared/currency\<close> (normalisation and validation of currency codes) and
  \<open>internal/shared/id\<close> (prefixed random identifiers).
  The bytes of \<open>crypto/rand\<close> are an argument: \<open>Inl e\<close> when \<open>rand.Read\<close> fails.
\<close>

section \<open>Currency codes\<close>

definition NormalizeCurrency :: "string \<Rightarrow> string" where
  "NormalizeCurrency currency = to_upper (trim_space currency)"

definition IsValidCurrency :: "string \<Rightarrow> bool" where
  "IsValidCurrency currency0 =
     (let currency = NormalizeCurrency currency0 in
      if go_len currency \<noteq> 3 then False
      else list_all (\<lambda>char. \<not> (\<not> go_is_letter char \<or> \<not> go_is_upper char)) currency)"

section \<open>Identifiers\<close>

type_synonym rand = "error + nat list"

definition hex_digit :: "nat \<Rightarrow> char" where
  "hex_digit n = ''0123456789abcdef'' ! (n mod 16)"

definition hex_encode :: "nat list \<Rightarrow> string" where
  "hex_encode bs = concat (map (\<lambda>b. [hex_digit (b div 16), hex_digit b]) bs)"

definition new_id :: "string \<Rightarrow> rand \<Rightarrow> error + string" where
  "new_id prefix0 rnd =
     (let prefix = trim_space prefix0 in
      if prefix = '''' then Inl (ErrMsg ''id prefix is required'')
      else case rnd of
        Inl err \<Rightarrow> Inl (Wrapped ''generate id: '' err)
      | Inr bytes \<Rightarrow> Inr (prefix @ ''_'' @ hex_encode bytes))"

declare NormalizeCurrency_def [go_eval] IsValidCurrency_def [go_eval]
  hex_digit_def [go_eval] hex_encode_def [go_eval] new_id_def [go_eval]

section \<open>Normalisation\<close>

lemma NormalizeCurrency_idem [simp]:
  "NormalizeCurrency (NormalizeCurrency c) = NormalizeCurrency c"
  by (simp add: NormalizeCurrency_def to_upper_trim_space)

lemma NormalizeCurrency_no_lower:
  "c \<in> set (NormalizeCurrency s) \<Longrightarrow> go_to_upper_rune c = c"
  by (auto simp: NormalizeCurrency_def to_upper_def)

lemma IsValidCurrency_normalized:
  "IsValidCurrency (NormalizeCurrency c) = IsValidCurrency c"
  by (simp add: IsValidCurrency_def)

lemma IsValidCurrency_iff:
  "IsValidCurrency s \<longleftrightarrow> go_len (NormalizeCurrency s) = 3 \<and>
     (\<forall>c \<in> set (NormalizeCurrency s). go_is_letter c \<and> go_is_upper c)"
  by (simp add: IsValidCurrency_def Let_def list_all_iff)

lemma sum_list_rune_bytes_ascii:
  "\<forall>c \<in> set s. rune c < 128 \<Longrightarrow> go_len s = length s"
  unfolding go_len_def by (induction s) (auto simp: rune_bytes_def)

text \<open>On ASCII text a valid code has exactly three letters A to Z.\<close>

lemma IsValidCurrency_ascii:
  assumes "\<forall>c \<in> set (NormalizeCurrency s). rune c < 128"
  shows "IsValidCurrency s \<longleftrightarrow>
    length (NormalizeCurrency s) = 3 \<and>
    (\<forall>c \<in> set (NormalizeCurrency s). 65 \<le> rune c \<and> rune c \<le> 90)"
  using assms sum_list_rune_bytes_ascii [OF assms]
  by (fastforce simp: IsValidCurrency_iff go_is_upper_def go_is_letter_def Let_def)

section \<open>Shape of identifiers\<close>

lemma length_hex_encode: "length (hex_encode bs) = 2 * length bs"
  by (induction bs) (auto simp: hex_encode_def)

lemma hex_digit_inj:
  assumes "hex_digit m = hex_digit n"
  shows "m mod 16 = n mod 16"
proof -
  have *: "distinct ''0123456789abcdef''" by code_simp
  have len: "length ''0123456789abcdef'' = 16" by code_simp
  show ?thesis
    using assms nth_eq_iff_index_eq [OF *, of "m mod 16" "n mod 16"]
    unfolding hex_digit_def len by simp
qed

lemma hex_encode_inj:
  "length as = length bs \<Longrightarrow> \<forall>a \<in> set as. a < 256 \<Longrightarrow> \<forall>b \<in> set bs. b < 256 \<Longrightarrow>
   hex_encode as = hex_encode bs \<Longrightarrow> as = bs"
proof (induction as bs rule: list_induct2)
  case (Cons a as b bs)
  then have "hex_digit (a div 16) = hex_digit (b div 16)" "hex_digit a = hex_digit b"
    by (auto simp: hex_encode_def)
  from this [THEN hex_digit_inj] Cons.prems have "a div 16 = b div 16" "a mod 16 = b mod 16"
    by (simp_all add: less_mult_imp_div_less)
  then have "a = b" by (metis div_mult_mod_eq)
  with Cons show ?case by (auto simp: hex_encode_def)
qed simp

lemma new_id_success [op_success]:
  "new_id p rnd = Inr i \<longleftrightarrow>
   trim_space p \<noteq> [] \<and> (\<exists>bs. rnd = Inr bs \<and> i = trim_space p @ ''_'' @ hex_encode bs)"
  by (auto simp: new_id_def Let_def split: sum.splits)

text \<open>Different random bytes give different identifiers of one prefix.\<close>

lemma new_id_inj:
  assumes "new_id p (Inr as) = Inr i" "new_id p (Inr bs) = Inr i" "length as = length bs"
    and "\<forall>a \<in> set as. a < 256" "\<forall>b \<in> set bs. b < 256"
  shows "as = bs"
  using assms by (auto simp: new_id_success intro: hex_encode_inj)

lemma trim_prefixes [simp]:
  "trim_space ''pay'' = ''pay''" "trim_space ''hold'' = ''hold''" "trim_space ''evt'' = ''evt''"
  "trim_space ''setbat'' = ''setbat''" "trim_space ''setitem'' = ''setitem''"
  by code_simp+

lemma new_id_nonempty: "new_id p rnd = Inr i \<Longrightarrow> i \<noteq> []"
  by (auto simp: new_id_success)


subsection \<open>Identifiers have no blanks at their ends\<close>

lemma trim_space_fixed:
  "s = [] \<or> \<not> go_is_space (hd s) \<and> \<not> go_is_space (last s) \<Longrightarrow> trim_space s = s"
  by (cases "s = []") (auto simp: trim_space_def trim_left_def hd_rev trim_left_fixed [unfolded trim_left_def])

lemma trim_space_hd: "trim_space p \<noteq> [] \<Longrightarrow> \<not> go_is_space (hd (trim_space p))"
  by (metis trim_left_hd trim_left_rev_trim_left trim_space_def)

lemma hex_digit_not_space: "\<not> go_is_space (hex_digit n)"
proof -
  have all: "list_all (\<lambda>c. \<not> go_is_space c) ''0123456789abcdef''" by code_simp
  have "n mod 16 < length ''0123456789abcdef''" by simp
  with all show ?thesis
    unfolding hex_digit_def list_all_length by blast
qed

lemma hex_encode_not_space: "c \<in> set (hex_encode bs) \<Longrightarrow> \<not> go_is_space c"
  by (auto simp: hex_encode_def hex_digit_not_space)

lemma new_id_trim: "new_id p rnd = Inr i \<Longrightarrow> trim_space i = i"
proof (rule trim_space_fixed)
  assume "new_id p rnd = Inr i"
  then obtain bs where p: "trim_space p \<noteq> []" and i: "i = trim_space p @ ''_'' @ hex_encode bs"
    by (auto simp: new_id_success)
  have "\<not> go_is_space (hd i)" using trim_space_hd [OF p] p i by simp
  moreover have "\<not> go_is_space (last i)"
  proof (cases "hex_encode bs = []")
    case True
    moreover have "\<not> go_is_space (CHR ''_'')" by code_simp
    ultimately show ?thesis by (simp add: i)
  next
    case False
    then show ?thesis using hex_encode_not_space [of "last (hex_encode bs)" bs] by (simp add: i)
  qed
  ultimately show "i = [] \<or> \<not> go_is_space (hd i) \<and> \<not> go_is_space (last i)" by blast
qed


section \<open>Properties\<close>

text \<open>
  On ASCII input a currency is accepted exactly when, trimmed and upper-cased, it is three
  letters A to Z; in particular padding and case do not matter.
\<close>

theorem currency_ascii_iso:
  assumes "\<forall>c \<in> set s. rune c < 128"
  shows "IsValidCurrency s \<longleftrightarrow> length (NormalizeCurrency s) = 3 \<and>
    (\<forall>c \<in> set (NormalizeCurrency s). 65 \<le> rune c \<and> rune c \<le> 90)"
proof (rule IsValidCurrency_ascii)
  have "set (trim_space s) \<subseteq> set s"
    unfolding trim_space_def trim_left_def by (auto dest!: set_dropWhileD)
  moreover have "rune (go_to_upper_rune c) < 128" if "rune c < 128" for c
    using that by (auto simp: rune_to_upper)
  ultimately show "\<forall>c \<in> set (NormalizeCurrency s). rune c < 128"
    using assms unfolding NormalizeCurrency_def to_upper_def by auto
qed

theorem currency_ascii_iso_witness:
  "IsValidCurrency '' usd '' \<and> NormalizeCurrency '' usd '' = ''USD''"
proof -
  have a: "\<forall>c \<in> set '' usd ''. rune c < 128" by code_simp
  have n: "NormalizeCurrency '' usd '' = ''USD''" by code_simp
  show ?thesis using currency_ascii_iso [OF a] unfolding n by (simp add: rune_def)
qed

text \<open>
  Outside ASCII the length is counted in bytes: the two-letter text of U+00C0 and \<open>A\<close>
  is accepted as a currency, although the code means three letters.
\<close>

theorem currency_counts_bytes:
  "IsValidCurrency [char_of (0xC0 :: nat), CHR ''A''] \<and>
   length (NormalizeCurrency [char_of (0xC0 :: nat), CHR ''A'']) = 2"
  by code_simp

text \<open>
  Identifiers made from different random bytes differ, whatever the prefix: the hexadecimal
  encoding loses nothing.
\<close>

theorem new_id_distinct:
  assumes "length as = length bs" "\<forall>a \<in> set as. a < 256" "\<forall>b \<in> set bs. b < 256" "as \<noteq> bs"
    and "trim_space p \<noteq> ''''"
  shows "\<exists>i j. new_id p (Inr as) = Inr i \<and> new_id p (Inr bs) = Inr j \<and> i \<noteq> j"
proof -
  obtain i where i: "new_id p (Inr as) = Inr i" using assms(5) by (auto simp: op_success)
  obtain j where j: "new_id p (Inr bs) = Inr j" using assms(5) by (auto simp: op_success)
  have "i \<noteq> j" using new_id_inj [of p as i bs] i j assms by auto
  then show ?thesis using i j by blast
qed

theorem new_id_distinct_witness:
  "\<exists>i j. new_id ''pay'' (Inr [1, 2]) = Inr i \<and> new_id ''pay'' (Inr [1, 3]) = Inr j \<and> i \<noteq> j"
  by (rule new_id_distinct) simp_all

end
