(* ===== verification/Merchant.thy ===== *)
theory Merchant
  imports Currency
begin

text \<open>
  \<open>internal/merchant\<close>: the entity (\<open>entity.go\<close>), the in-memory repository
  (\<open>adapters/memory/repository.go\<close>) and the service (\<open>service.go\<close>).
  A repository call takes first what \<open>ctx.Err()\<close> returns at its start
  (\<open>None\<close> for a live context).
\<close>

section \<open>Entity\<close>

datatype merchant_status = MerchantStatusActive | MerchantStatusSuspended | MerchantStatusClosed

record merchant =
  merchant_ID :: string
  merchant_Name :: string
  merchant_Status :: merchant_status
  SettlementCurrency :: string
  merchant_CreatedAt :: time
  merchant_UpdatedAt :: time

definition NewMerchant :: "string \<Rightarrow> string \<Rightarrow> string \<Rightarrow> time \<Rightarrow> error + merchant" where
  "NewMerchant id0 name0 settlementCurrency0 now =
     (let ident = trim_space id0;
          name = trim_space name0;
          settlementCurrency = NormalizeCurrency settlementCurrency0
      in if ident = '''' then Inl (ErrMsg ''merchant id is required'')
      else if name = '''' then Inl (ErrMsg ''merchant name is required'')
      else if \<not> IsValidCurrency settlementCurrency
        then Inl (ErrMsg ''settlement currency must be a 3-letter ISO currency code'')
      else Inr \<lparr>merchant_ID = ident, merchant_Name = name, merchant_Status = MerchantStatusActive,
        SettlementCurrency = settlementCurrency,
        merchant_CreatedAt = utc now, merchant_UpdatedAt = utc now\<rparr>)"

definition CanCreatePayments :: "merchant \<Rightarrow> bool" where
  "CanCreatePayments m \<longleftrightarrow> merchant_Status m = MerchantStatusActive"

section \<open>In-memory repository\<close>

definition CreateMerchant :: "error option \<Rightarrow> merchant \<Rightarrow> (merchant gomap, merchant) act" where
  "CreateMerchant ctx_err m merchants =
     (case ctx_err of Some err \<Rightarrow> (Inl err, merchants)
      | None \<Rightarrow>
        (case map_of merchants (merchant_ID m) of
           Some _ \<Rightarrow> (Inl ErrDuplicateMerchant, merchants)
         | None \<Rightarrow> (Inr m, AList.update (merchant_ID m) m merchants)))"

definition GetMerchant :: "error option \<Rightarrow> string \<Rightarrow> (merchant gomap, merchant) act" where
  "GetMerchant ctx_err merchantID merchants =
     (case ctx_err of Some err \<Rightarrow> (Inl err, merchants)
      | None \<Rightarrow>
        (case map_of merchants merchantID of
           None \<Rightarrow> (Inl ErrMerchantNotFound, merchants)
         | Some m \<Rightarrow> (Inr m, merchants)))"

definition ListMerchants :: "error option \<Rightarrow> (merchant gomap, merchant list) act" where
  "ListMerchants ctx_err merchants =
     (case ctx_err of Some err \<Rightarrow> (Inl err, merchants)
      | None \<Rightarrow> (Inr (gm_values merchants), merchants))"

section \<open>Service\<close>

record create_merchant_input =
  cmi_ID :: string
  cmi_Name :: string
  cmi_SettlementCurrency :: string

text \<open>The service over any repository: \<open>create\<close> is its \<open>CreateMerchant\<close>.\<close>

definition MerchantService_CreateMerchant ::
  "(merchant \<Rightarrow> ('s, merchant) act) \<Rightarrow> time \<Rightarrow> create_merchant_input \<Rightarrow> ('s, merchant) act" where
  "MerchantService_CreateMerchant create now input =
     act_bind (act_lift (NewMerchant (cmi_ID input) (cmi_Name input) (cmi_SettlementCurrency input) now))
       create"

text \<open>The other methods pass on to the repository.\<close>

definition MerchantService_GetMerchant :: "(string \<Rightarrow> ('s, merchant) act) \<Rightarrow> string \<Rightarrow> ('s, merchant) act" where
  [simp]: "MerchantService_GetMerchant get merchantID = get merchantID"

definition MerchantService_ListMerchants :: "('s, merchant list) act \<Rightarrow> ('s, merchant list) act" where
  [simp]: "MerchantService_ListMerchants list_merchants = list_merchants"

declare NewMerchant_def [go_eval] CanCreatePayments_def [go_eval] CreateMerchant_def [go_eval]
  GetMerchant_def [go_eval] ListMerchants_def [go_eval] MerchantService_CreateMerchant_def [go_eval]

section \<open>Well-formed merchants\<close>

definition merchant_ok :: "merchant \<Rightarrow> bool" where
  "merchant_ok m \<longleftrightarrow> merchant_ID m \<noteq> '''' \<and> trim_space (merchant_ID m) = merchant_ID m \<and>
     merchant_Name m \<noteq> ''''"

lemma NewMerchant_success [op_success]:
  "NewMerchant i n c now = Inr m \<longleftrightarrow>
   trim_space i \<noteq> '''' \<and> trim_space n \<noteq> '''' \<and> IsValidCurrency c \<and>
   m = \<lparr>merchant_ID = trim_space i, merchant_Name = trim_space n,
     merchant_Status = MerchantStatusActive, SettlementCurrency = NormalizeCurrency c,
     merchant_CreatedAt = now, merchant_UpdatedAt = now\<rparr>"
  by (auto simp: NewMerchant_def Let_def utc_def IsValidCurrency_normalized)

lemma NewMerchant_ok:
  "NewMerchant i n c now = Inr m \<Longrightarrow> merchant_ok m \<and> CanCreatePayments m \<and>
   IsValidCurrency (SettlementCurrency m) \<and>
   NormalizeCurrency (SettlementCurrency m) = SettlementCurrency m"
  by (auto simp: NewMerchant_success merchant_ok_def CanCreatePayments_def IsValidCurrency_normalized)

lemma CreateMerchant_success [op_success]:
  "CreateMerchant ce m ms = (Inr m', ms') \<longleftrightarrow>
   ce = None \<and> map_of ms (merchant_ID m) = None \<and> m' = m \<and> ms' = AList.update (merchant_ID m) m ms"
  by (auto simp: CreateMerchant_def split: option.splits)

lemma CreateMerchant_error: "CreateMerchant ce m ms = (Inl e, ms') \<Longrightarrow> ms' = ms"
  by (auto simp: CreateMerchant_def split: option.splits)

lemma GetMerchant_success [op_success]:
  "GetMerchant ce i ms = (Inr m, ms') \<longleftrightarrow> ce = None \<and> map_of ms i = Some m \<and> ms' = ms"
  by (auto simp: GetMerchant_def split: option.splits)

lemma GetMerchant_state: "snd (GetMerchant ce i ms) = ms"
  by (auto simp: GetMerchant_def split: option.splits)

end
