(* ===== verification/Payer.thy ===== *)
theory Payer
  imports Currency
begin

text \<open>
  \<open>internal/payer\<close>: the balance entity (\<open>entity.go\<close>), the in-memory repository with
  optimistic versioning (\<open>adapters/memory/repository.go\<close>) and the service (\<open>service.go\<close>).
  Balances and versions are 64-bit words; comparisons are signed.
\<close>

section \<open>Entity\<close>

record payer =
  payer_ID :: string
  AvailableBalanceMinor :: int64
  HeldBalanceMinor :: int64
  payer_Currency :: string
  payer_Version :: int64
  payer_CreatedAt :: time
  payer_UpdatedAt :: time

definition NewPayer :: "string \<Rightarrow> int64 \<Rightarrow> string \<Rightarrow> time \<Rightarrow> error + payer" where
  "NewPayer id0 availableBalanceMinor currency0 now =
     (let ident = trim_space id0;
          currency = NormalizeCurrency currency0
      in if ident = '''' then Inl (ErrMsg ''payer id is required'')
      else if sint availableBalanceMinor < 0
        then Inl (ErrMsg ''available balance cannot be negative'')
      else if \<not> IsValidCurrency currency
        then Inl (ErrMsg ''currency must be a 3-letter ISO currency code'')
      else Inr \<lparr>payer_ID = ident, AvailableBalanceMinor = availableBalanceMinor,
        HeldBalanceMinor = 0, payer_Currency = currency, payer_Version = 0,
        payer_CreatedAt = utc now, payer_UpdatedAt = utc now\<rparr>)"

definition CanAuthorize :: "payer \<Rightarrow> int64 \<Rightarrow> string \<Rightarrow> bool" where
  "CanAuthorize p amountMinor currency =
     (if sint amountMinor \<le> 0 then False
      else if payer_Currency p \<noteq> NormalizeCurrency currency then False
      else sint (AvailableBalanceMinor p) \<ge> sint amountMinor)"

definition Reserve :: "payer \<Rightarrow> int64 \<Rightarrow> string \<Rightarrow> time \<Rightarrow> error + payer" where
  "Reserve p amountMinor currency now =
     (if sint amountMinor \<le> 0 then Inl (ErrMsg ''reserve amount must be positive'')
      else if payer_Currency p \<noteq> NormalizeCurrency currency
        then Inl (ErrMsg ''reserve currency does not match payer currency'')
      else if sint (AvailableBalanceMinor p) < sint amountMinor
        then Inl (ErrMsg ''insufficient available balance'')
      else Inr (p\<lparr>AvailableBalanceMinor := AvailableBalanceMinor p - amountMinor,
                  HeldBalanceMinor := HeldBalanceMinor p + amountMinor,
                  payer_Version := payer_Version p + 1,
                  payer_UpdatedAt := utc now\<rparr>))"

definition Release :: "payer \<Rightarrow> int64 \<Rightarrow> string \<Rightarrow> time \<Rightarrow> error + payer" where
  "Release p amountMinor currency now =
     (if sint amountMinor \<le> 0 then Inl (ErrMsg ''release amount must be positive'')
      else if payer_Currency p \<noteq> NormalizeCurrency currency
        then Inl (ErrMsg ''release currency does not match payer currency'')
      else if sint (HeldBalanceMinor p) < sint amountMinor
        then Inl (ErrMsg ''insufficient held balance'')
      else Inr (p\<lparr>AvailableBalanceMinor := AvailableBalanceMinor p + amountMinor,
                  HeldBalanceMinor := HeldBalanceMinor p - amountMinor,
                  payer_Version := payer_Version p + 1,
                  payer_UpdatedAt := utc now\<rparr>))"

definition CaptureHeld :: "payer \<Rightarrow> int64 \<Rightarrow> string \<Rightarrow> time \<Rightarrow> error + payer" where
  "CaptureHeld p amountMinor currency now =
     (if sint amountMinor \<le> 0 then Inl (ErrMsg ''capture amount must be positive'')
      else if payer_Currency p \<noteq> NormalizeCurrency currency
        then Inl (ErrMsg ''capture currency does not match payer currency'')
      else if sint (HeldBalanceMinor p) < sint amountMinor
        then Inl (ErrMsg ''insufficient held balance'')
      else Inr (p\<lparr>HeldBalanceMinor := HeldBalanceMinor p - amountMinor,
                  payer_Version := payer_Version p + 1,
                  payer_UpdatedAt := utc now\<rparr>))"

section \<open>In-memory repository\<close>

definition CreatePayer :: "error option \<Rightarrow> payer \<Rightarrow> (payer gomap, payer) act" where
  "CreatePayer ctx_err p payers =
     (case ctx_err of Some err \<Rightarrow> (Inl err, payers)
      | None \<Rightarrow>
        (case map_of payers (payer_ID p) of
           Some _ \<Rightarrow> (Inl ErrDuplicatePayer, payers)
         | None \<Rightarrow> (Inr p, AList.update (payer_ID p) p payers)))"

definition GetPayer :: "error option \<Rightarrow> string \<Rightarrow> (payer gomap, payer) act" where
  "GetPayer ctx_err payerID payers =
     (case ctx_err of Some err \<Rightarrow> (Inl err, payers)
      | None \<Rightarrow>
        (case map_of payers payerID of
           None \<Rightarrow> (Inl ErrPayerNotFound, payers)
         | Some p \<Rightarrow> (Inr p, payers)))"

definition ListPayers :: "error option \<Rightarrow> (payer gomap, payer list) act" where
  "ListPayers ctx_err payers =
     (case ctx_err of Some err \<Rightarrow> (Inl err, payers)
      | None \<Rightarrow> (Inr (gm_values payers), payers))"

definition UpdatePayer :: "error option \<Rightarrow> payer \<Rightarrow> (payer gomap, payer) act" where
  "UpdatePayer ctx_err p payers =
     (case ctx_err of Some err \<Rightarrow> (Inl err, payers)
      | None \<Rightarrow>
        (case map_of payers (payer_ID p) of
           None \<Rightarrow> (Inl ErrPayerNotFound, payers)
         | Some current \<Rightarrow>
             if payer_Version p \<noteq> payer_Version current + 1
             then (Inl ErrPayerVersionConflict, payers)
             else (Inr p, AList.update (payer_ID p) p payers)))"

section \<open>Service\<close>

record create_payer_input =
  cpi_ID :: string
  cpi_AvailableBalanceMinor :: int64
  cpi_Currency :: string

definition PayerService_CreatePayer ::
  "(payer \<Rightarrow> ('s, payer) act) \<Rightarrow> time \<Rightarrow> create_payer_input \<Rightarrow> ('s, payer) act" where
  "PayerService_CreatePayer create now input =
     act_bind (act_lift (NewPayer (cpi_ID input) (cpi_AvailableBalanceMinor input) (cpi_Currency input) now))
       create"

text \<open>The other methods pass on to the repository.\<close>

definition PayerService_GetPayer :: "(string \<Rightarrow> ('s, payer) act) \<Rightarrow> string \<Rightarrow> ('s, payer) act" where
  [simp]: "PayerService_GetPayer get payerID = get payerID"

definition PayerService_ListPayers :: "('s, payer list) act \<Rightarrow> ('s, payer list) act" where
  [simp]: "PayerService_ListPayers list_payers = list_payers"

definition PayerService_UpdatePayer :: "(payer \<Rightarrow> ('s, payer) act) \<Rightarrow> payer \<Rightarrow> ('s, payer) act" where
  [simp]: "PayerService_UpdatePayer update p = update p"

lemmas payer_defs = NewPayer_def CanAuthorize_def Reserve_def Release_def CaptureHeld_def
  CreatePayer_def GetPayer_def ListPayers_def UpdatePayer_def PayerService_CreatePayer_def

declare payer_defs [go_eval]

section \<open>Well-formed payers and their funds\<close>

text \<open>
  The balances are non-negative and their sum fits an \<open>int64\<close>, so no operation below can
  overflow: \<open>payer_total\<close> is the money the payer still has, held or not.
\<close>

definition payer_total :: "payer \<Rightarrow> int" where
  "payer_total p = sint (AvailableBalanceMinor p) + sint (HeldBalanceMinor p)"

definition payer_ok :: "payer \<Rightarrow> bool" where
  "payer_ok p \<longleftrightarrow> payer_ID p \<noteq> '''' \<and> trim_space (payer_ID p) = payer_ID p \<and>
     0 \<le> sint (AvailableBalanceMinor p) \<and> 0 \<le> sint (HeldBalanceMinor p) \<and>
     payer_total p < 2 ^ 63"

lemma NewPayer_success [op_success]:
  "NewPayer i a c now = Inr p \<longleftrightarrow>
   trim_space i \<noteq> '''' \<and> 0 \<le> sint a \<and> IsValidCurrency c \<and>
   p = \<lparr>payer_ID = trim_space i, AvailableBalanceMinor = a, HeldBalanceMinor = 0,
     payer_Currency = NormalizeCurrency c, payer_Version = 0,
     payer_CreatedAt = now, payer_UpdatedAt = now\<rparr>"
  by (auto simp: NewPayer_def Let_def utc_def IsValidCurrency_normalized)

lemma NewPayer_ok: "NewPayer i a c now = Inr p \<Longrightarrow> payer_ok p \<and> payer_total p = sint a"
  using sint64_bounds [of a]
  by (auto simp: NewPayer_success payer_ok_def payer_total_def IsValidCurrency_normalized)

lemma Reserve_success [op_success]:
  "Reserve p a c now = Inr p' \<longleftrightarrow>
   0 < sint a \<and> payer_Currency p = NormalizeCurrency c \<and>
   sint a \<le> sint (AvailableBalanceMinor p) \<and>
   p' = p\<lparr>AvailableBalanceMinor := AvailableBalanceMinor p - a,
          HeldBalanceMinor := HeldBalanceMinor p + a,
          payer_Version := payer_Version p + 1, payer_UpdatedAt := now\<rparr>"
  by (auto simp: Reserve_def utc_def)

lemma Release_success [op_success]:
  "Release p a c now = Inr p' \<longleftrightarrow>
   0 < sint a \<and> payer_Currency p = NormalizeCurrency c \<and>
   sint a \<le> sint (HeldBalanceMinor p) \<and>
   p' = p\<lparr>AvailableBalanceMinor := AvailableBalanceMinor p + a,
          HeldBalanceMinor := HeldBalanceMinor p - a,
          payer_Version := payer_Version p + 1, payer_UpdatedAt := now\<rparr>"
  by (auto simp: Release_def utc_def)

lemma CaptureHeld_success [op_success]:
  "CaptureHeld p a c now = Inr p' \<longleftrightarrow>
   0 < sint a \<and> payer_Currency p = NormalizeCurrency c \<and>
   sint a \<le> sint (HeldBalanceMinor p) \<and>
   p' = p\<lparr>HeldBalanceMinor := HeldBalanceMinor p - a,
          payer_Version := payer_Version p + 1, payer_UpdatedAt := now\<rparr>"
  by (auto simp: CaptureHeld_def utc_def)

lemma CanAuthorize_iff_Reserve: "CanAuthorize p a c \<longleftrightarrow> (\<exists>p'. Reserve p a c now = Inr p')"
  by (auto simp: CanAuthorize_def Reserve_def)

text \<open>What each operation does to the balances of a well-formed payer, without wrap-around.\<close>

lemma Reserve_balances:
  assumes "payer_ok p" "Reserve p a c now = Inr p'"
  shows "sint (AvailableBalanceMinor p') = sint (AvailableBalanceMinor p) - sint a"
    and "sint (HeldBalanceMinor p') = sint (HeldBalanceMinor p) + sint a"
    and "payer_total p' = payer_total p"
    and "payer_ok p'"
  using assms sint_sub64 [of "AvailableBalanceMinor p" a] sint_add64 [of "HeldBalanceMinor p" a]
  by (simp_all add: op_success payer_ok_def payer_total_def)

lemma Release_balances:
  assumes "payer_ok p" "Release p a c now = Inr p'"
  shows "sint (AvailableBalanceMinor p') = sint (AvailableBalanceMinor p) + sint a"
    and "sint (HeldBalanceMinor p') = sint (HeldBalanceMinor p) - sint a"
    and "payer_total p' = payer_total p"
    and "payer_ok p'"
  using assms sint_add64 [of "AvailableBalanceMinor p" a] sint_sub64 [of "HeldBalanceMinor p" a]
  by (simp_all add: op_success payer_ok_def payer_total_def)

lemma CaptureHeld_balances:
  assumes "payer_ok p" "CaptureHeld p a c now = Inr p'"
  shows "AvailableBalanceMinor p' = AvailableBalanceMinor p"
    and "sint (HeldBalanceMinor p') = sint (HeldBalanceMinor p) - sint a"
    and "payer_total p' = payer_total p - sint a"
    and "payer_ok p'"
  using assms sint_sub64 [of "HeldBalanceMinor p" a]
  by (simp_all add: op_success payer_ok_def payer_total_def)

text \<open>A reservation that is released leaves the balances as they were.\<close>

lemma Reserve_then_Release:
  assumes "payer_ok p" "Reserve p a c now = Inr p1" "NormalizeCurrency c' = payer_Currency p"
  shows "Release p1 a c' later =
    Inr (p\<lparr>payer_Version := payer_Version p + 2, payer_UpdatedAt := later\<rparr>)"
  using assms Reserve_balances(2) [OF assms(1,2)]
  by (auto simp: op_success payer_ok_def)

lemma Reserve_then_CaptureHeld:
  assumes "payer_ok p" "Reserve p a c now = Inr p1" "NormalizeCurrency c' = payer_Currency p"
  shows "CaptureHeld p1 a c' later =
    Inr (p\<lparr>AvailableBalanceMinor := AvailableBalanceMinor p - a,
      payer_Version := payer_Version p + 2, payer_UpdatedAt := later\<rparr>)"
  using assms Reserve_balances(2) [OF assms(1,2)]
  by (auto simp: op_success payer_ok_def)

section \<open>Repository lemmas\<close>

lemma CreatePayer_success [op_success]:
  "CreatePayer ce p ps = (Inr p', ps') \<longleftrightarrow>
   ce = None \<and> map_of ps (payer_ID p) = None \<and> p' = p \<and> ps' = AList.update (payer_ID p) p ps"
  by (auto simp: CreatePayer_def split: option.splits)

lemma CreatePayer_error: "CreatePayer ce p ps = (Inl e, ps') \<Longrightarrow> ps' = ps"
  by (auto simp: CreatePayer_def split: option.splits)

lemma GetPayer_success [op_success]:
  "GetPayer ce i ps = (Inr p, ps') \<longleftrightarrow> ce = None \<and> map_of ps i = Some p \<and> ps' = ps"
  by (auto simp: GetPayer_def split: option.splits)

lemma GetPayer_state: "snd (GetPayer ce i ps) = ps"
  by (auto simp: GetPayer_def split: option.splits)

lemma UpdatePayer_success [op_success]:
  "UpdatePayer ce p ps = (Inr p', ps') \<longleftrightarrow>
   ce = None \<and> p' = p \<and> ps' = AList.update (payer_ID p) p ps \<and>
   (\<exists>cur. map_of ps (payer_ID p) = Some cur \<and> payer_Version p = payer_Version cur + 1)"
  by (auto simp: UpdatePayer_def split: option.splits)

lemma UpdatePayer_error: "UpdatePayer ce p ps = (Inl e, ps') \<Longrightarrow> ps' = ps"
  by (auto simp: UpdatePayer_def split: option.splits if_splits)

end
