(* ===== verification/Payment.thy ===== *)
theory Payment
  imports Currency
begin

text \<open>
  \<open>internal/payment\<close>: the payment (\<open>entity.go\<close>) and its authorization hold
  (\<open>hold.go\<close>), their life cycles, and the in-memory store of both
  (\<open>adapters/memory/repository.go\<close>). A \<open>*time.Time\<close> is a \<open>time option\<close>.
\<close>

section \<open>Payment\<close>

datatype payment_status =
  StatusPending | StatusAuthorized | StatusCaptured | StatusSettled | StatusExpired | StatusFailed

fun payment_status_string :: "payment_status \<Rightarrow> string" where
  "payment_status_string StatusPending = ''PENDING''"
| "payment_status_string StatusAuthorized = ''AUTHORIZED''"
| "payment_status_string StatusCaptured = ''CAPTURED''"
| "payment_status_string StatusSettled = ''SETTLED''"
| "payment_status_string StatusExpired = ''EXPIRED''"
| "payment_status_string StatusFailed = ''FAILED''"

record payment =
  payment_ID :: string
  payment_MerchantID :: string
  payment_PayerID :: string
  payment_AmountMinor :: int64
  payment_Currency :: string
  payment_Status :: payment_status
  AuthorizationHoldID :: string
  AuthorizedAt :: time
  payment_ExpiresAt :: time
  CapturedAt :: "time option"
  SettledAt :: "time option"
  payment_CreatedAt :: time
  payment_UpdatedAt :: time

record new_payment_input =
  npi_ID :: string
  npi_MerchantID :: string
  npi_PayerID :: string
  npi_AmountMinor :: int64
  npi_Currency :: string
  npi_AuthorizationHoldID :: string
  npi_Now :: time
  npi_ExpiresAt :: time

definition NewAuthorizedPayment :: "new_payment_input \<Rightarrow> error + payment" where
  "NewAuthorizedPayment input =
     (let ident = trim_space (npi_ID input);
          merchantID = trim_space (npi_MerchantID input);
          payerID = trim_space (npi_PayerID input);
          holdID = trim_space (npi_AuthorizationHoldID input);
          currency = NormalizeCurrency (npi_Currency input)
      in if ident = '''' then Inl (ErrMsg ''payment id is required'')
      else if merchantID = '''' then Inl (ErrMsg ''merchant id is required'')
      else if payerID = '''' then Inl (ErrMsg ''payer id is required'')
      else if holdID = '''' then Inl (ErrMsg ''authorization hold id is required'')
      else if sint (npi_AmountMinor input) \<le> 0 then Inl (ErrMsg ''amount must be positive'')
      else if \<not> IsValidCurrency currency
        then Inl (ErrMsg ''currency must be a 3-letter ISO currency code'')
      else let now = utc (npi_Now input); expiresAt = utc (npi_ExpiresAt input)
      in if \<not> expiresAt > now
        then Inl (ErrMsg ''authorization expiry must be after authorization time'')
      else Inr \<lparr>payment_ID = ident, payment_MerchantID = merchantID, payment_PayerID = payerID,
        payment_AmountMinor = npi_AmountMinor input, payment_Currency = currency,
        payment_Status = StatusAuthorized, AuthorizationHoldID = holdID,
        AuthorizedAt = now, payment_ExpiresAt = expiresAt,
        CapturedAt = None, SettledAt = None,
        payment_CreatedAt = now, payment_UpdatedAt = now\<rparr>)"

definition CanCapture :: "payment \<Rightarrow> time \<Rightarrow> bool" where
  "CanCapture p now =
     (if payment_Status p \<noteq> StatusAuthorized then False
      else utc now < payment_ExpiresAt p \<or> utc now = payment_ExpiresAt p)"

definition Payment_Capture :: "payment \<Rightarrow> time \<Rightarrow> error + payment" where
  "Payment_Capture p now0 =
     (if payment_Status p \<noteq> StatusAuthorized
        then Inl (ErrMsg ''only authorized payments can be captured'')
      else let now = utc now0
      in if now > payment_ExpiresAt p then Inl (ErrMsg ''authorization has expired'')
      else Inr (p\<lparr>payment_Status := StatusCaptured, CapturedAt := Some now,
                  payment_UpdatedAt := now\<rparr>))"

definition Payment_Expire :: "payment \<Rightarrow> time \<Rightarrow> error + payment" where
  "Payment_Expire p now =
     (if payment_Status p \<noteq> StatusAuthorized
        then Inl (ErrMsg ''only authorized payments can expire'')
      else Inr (p\<lparr>payment_Status := StatusExpired, payment_UpdatedAt := utc now\<rparr>))"

definition Payment_Settle :: "payment \<Rightarrow> time \<Rightarrow> error + payment" where
  "Payment_Settle p now0 =
     (if payment_Status p \<noteq> StatusCaptured
        then Inl (ErrMsg ''only captured payments can be settled'')
      else let now = utc now0
      in Inr (p\<lparr>payment_Status := StatusSettled, SettledAt := Some now, payment_UpdatedAt := now\<rparr>))"

section \<open>Authorization hold\<close>

datatype hold_status = HoldStatusHeld | HoldStatusCaptured | HoldStatusReleased

fun hold_status_string :: "hold_status \<Rightarrow> string" where
  "hold_status_string HoldStatusHeld = ''HELD''"
| "hold_status_string HoldStatusCaptured = ''CAPTURED''"
| "hold_status_string HoldStatusReleased = ''RELEASED''"

record hold =
  hold_ID :: string
  hold_PaymentID :: string
  hold_PayerID :: string
  hold_AmountMinor :: int64
  hold_Currency :: string
  hold_Status :: hold_status
  hold_CreatedAt :: time
  hold_UpdatedAt :: time

record new_hold_input =
  nhi_ID :: string
  nhi_PaymentID :: string
  nhi_PayerID :: string
  nhi_AmountMinor :: int64
  nhi_Currency :: string
  nhi_Now :: time

definition NewHold :: "new_hold_input \<Rightarrow> error + hold" where
  "NewHold input =
     (let ident = trim_space (nhi_ID input);
          paymentID = trim_space (nhi_PaymentID input);
          payerID = trim_space (nhi_PayerID input);
          currency = NormalizeCurrency (nhi_Currency input)
      in if ident = '''' then Inl (ErrMsg ''hold id is required'')
      else if paymentID = '''' then Inl (ErrMsg ''payment id is required'')
      else if payerID = '''' then Inl (ErrMsg ''payer id is required'')
      else if sint (nhi_AmountMinor input) \<le> 0 then Inl (ErrMsg ''hold amount must be positive'')
      else if \<not> IsValidCurrency currency
        then Inl (ErrMsg ''currency must be a 3-letter ISO currency code'')
      else let now = utc (nhi_Now input)
      in Inr \<lparr>hold_ID = ident, hold_PaymentID = paymentID, hold_PayerID = payerID,
        hold_AmountMinor = nhi_AmountMinor input, hold_Currency = currency,
        hold_Status = HoldStatusHeld, hold_CreatedAt = now, hold_UpdatedAt = now\<rparr>)"

definition Hold_Capture :: "hold \<Rightarrow> time \<Rightarrow> error + hold" where
  "Hold_Capture h now =
     (if hold_Status h \<noteq> HoldStatusHeld then Inl (ErrMsg ''only held holds can be captured'')
      else Inr (h\<lparr>hold_Status := HoldStatusCaptured, hold_UpdatedAt := utc now\<rparr>))"

definition Hold_Release :: "hold \<Rightarrow> time \<Rightarrow> error + hold" where
  "Hold_Release h now =
     (if hold_Status h \<noteq> HoldStatusHeld then Inl (ErrMsg ''only held holds can be released'')
      else Inr (h\<lparr>hold_Status := HoldStatusReleased, hold_UpdatedAt := utc now\<rparr>))"

lemmas payment_defs = NewAuthorizedPayment_def CanCapture_def Payment_Capture_def
  Payment_Expire_def Payment_Settle_def NewHold_def Hold_Capture_def Hold_Release_def

declare payment_defs [go_eval]

section \<open>In-memory store\<close>

record payment_store =
  ps_payments :: "payment gomap"
  ps_holds :: "hold gomap"
  holdIDByPaymentID :: "string gomap"

definition empty_payment_store :: payment_store where
  "empty_payment_store = \<lparr>ps_payments = [], ps_holds = [], holdIDByPaymentID = []\<rparr>"

definition CreatePayment :: "error option \<Rightarrow> payment \<Rightarrow> (payment_store, payment) act" where
  "CreatePayment ctx_err p s =
     (case ctx_err of Some err \<Rightarrow> (Inl err, s)
      | None \<Rightarrow>
        (case map_of (ps_payments s) (payment_ID p) of
           Some _ \<Rightarrow> (Inl ErrDuplicatePayment, s)
         | None \<Rightarrow> (Inr p, s\<lparr>ps_payments := AList.update (payment_ID p) p (ps_payments s)\<rparr>)))"

definition GetPayment :: "error option \<Rightarrow> string \<Rightarrow> (payment_store, payment) act" where
  "GetPayment ctx_err paymentID s =
     (case ctx_err of Some err \<Rightarrow> (Inl err, s)
      | None \<Rightarrow>
        (case map_of (ps_payments s) paymentID of
           None \<Rightarrow> (Inl ErrPaymentNotFound, s)
         | Some p \<Rightarrow> (Inr p, s)))"

text \<open>The order of \<open>sort.Slice\<close>: expiry, then identifier.\<close>

definition expiry_key :: "payment \<Rightarrow> time \<times> string" where
  "expiry_key p = (payment_ExpiresAt p, payment_ID p)"

definition expired_authorized :: "time \<Rightarrow> payment \<Rightarrow> bool" where
  "expired_authorized now p \<longleftrightarrow>
     payment_Status p = StatusAuthorized \<and> \<not> payment_ExpiresAt p > now"

definition take_limit :: "int \<Rightarrow> 'a list \<Rightarrow> 'a list" where
  "take_limit limit results =
     (if limit > 0 \<and> int (length results) > limit then take (nat limit) results else results)"

definition ListExpiredAuthorizedPayments ::
  "error option \<Rightarrow> time \<Rightarrow> int \<Rightarrow> (payment_store, payment list) act" where
  "ListExpiredAuthorizedPayments ctx_err now0 limit s =
     (case ctx_err of Some err \<Rightarrow> (Inl err, s)
      | None \<Rightarrow>
        let now = utc now0;
            results = sort_key expiry_key
              (filter (expired_authorized now) (gm_values (ps_payments s)))
        in (Inr (take_limit limit results), s))"

definition UpdatePayment :: "error option \<Rightarrow> payment \<Rightarrow> (payment_store, payment) act" where
  "UpdatePayment ctx_err p s =
     (case ctx_err of Some err \<Rightarrow> (Inl err, s)
      | None \<Rightarrow>
        (case map_of (ps_payments s) (payment_ID p) of
           None \<Rightarrow> (Inl ErrPaymentNotFound, s)
         | Some _ \<Rightarrow> (Inr p, s\<lparr>ps_payments := AList.update (payment_ID p) p (ps_payments s)\<rparr>)))"

definition CreateHold :: "error option \<Rightarrow> hold \<Rightarrow> (payment_store, hold) act" where
  "CreateHold ctx_err h s =
     (case ctx_err of Some err \<Rightarrow> (Inl err, s)
      | None \<Rightarrow>
        (case map_of (ps_holds s) (hold_ID h) of
           Some _ \<Rightarrow> (Inl ErrDuplicateHold, s)
         | None \<Rightarrow>
           (case map_of (holdIDByPaymentID s) (hold_PaymentID h) of
              Some _ \<Rightarrow> (Inl ErrDuplicateHold, s)
            | None \<Rightarrow>
              (Inr h, s\<lparr>ps_holds := AList.update (hold_ID h) h (ps_holds s),
                 holdIDByPaymentID :=
                   AList.update (hold_PaymentID h) (hold_ID h) (holdIDByPaymentID s)\<rparr>))))"

definition GetHold :: "error option \<Rightarrow> string \<Rightarrow> (payment_store, hold) act" where
  "GetHold ctx_err holdID s =
     (case ctx_err of Some err \<Rightarrow> (Inl err, s)
      | None \<Rightarrow>
        (case map_of (ps_holds s) holdID of
           None \<Rightarrow> (Inl ErrHoldNotFound, s)
         | Some h \<Rightarrow> (Inr h, s)))"

definition GetHoldByPaymentID :: "error option \<Rightarrow> string \<Rightarrow> (payment_store, hold) act" where
  "GetHoldByPaymentID ctx_err paymentID s =
     (case ctx_err of Some err \<Rightarrow> (Inl err, s)
      | None \<Rightarrow>
        (case map_of (holdIDByPaymentID s) paymentID of
           None \<Rightarrow> (Inl ErrHoldNotFound, s)
         | Some holdID \<Rightarrow>
           (case map_of (ps_holds s) holdID of
              None \<Rightarrow> (Inl ErrHoldNotFound, s)
            | Some h \<Rightarrow> (Inr h, s))))"

definition UpdateHold :: "error option \<Rightarrow> hold \<Rightarrow> (payment_store, hold) act" where
  "UpdateHold ctx_err h s =
     (case ctx_err of Some err \<Rightarrow> (Inl err, s)
      | None \<Rightarrow>
        (case map_of (ps_holds s) (hold_ID h) of
           None \<Rightarrow> (Inl ErrHoldNotFound, s)
         | Some _ \<Rightarrow>
           (Inr h, s\<lparr>ps_holds := AList.update (hold_ID h) h (ps_holds s),
              holdIDByPaymentID :=
                AList.update (hold_PaymentID h) (hold_ID h) (holdIDByPaymentID s)\<rparr>)))"

lemmas payment_store_defs = CreatePayment_def GetPayment_def ListExpiredAuthorizedPayments_def
  UpdatePayment_def CreateHold_def GetHold_def GetHoldByPaymentID_def UpdateHold_def

declare payment_store_defs [go_eval] take_limit_def [go_eval]
 expiry_key_def [go_eval] expired_authorized_def [go_eval]
  empty_payment_store_def [go_eval]

section \<open>The life cycle as an order\<close>

text \<open>
  Statuses in the order of \<open>entity.go\<close>'s constants; every transition of the entity moves
  up in it.
\<close>

fun status_rank :: "payment_status \<Rightarrow> nat" where
  "status_rank StatusPending = 0"
| "status_rank StatusAuthorized = 1"
| "status_rank StatusCaptured = 2"
| "status_rank StatusSettled = 3"
| "status_rank StatusExpired = 4"
| "status_rank StatusFailed = 5"

lemma status_rank_inj: "status_rank a = status_rank b \<Longrightarrow> a = b"
  by (cases a; cases b) auto

instantiation payment_status :: linorder
begin

definition less_eq_payment_status :: "payment_status \<Rightarrow> payment_status \<Rightarrow> bool" where
  "less_eq_payment_status a b \<longleftrightarrow> status_rank a \<le> status_rank b"

definition less_payment_status :: "payment_status \<Rightarrow> payment_status \<Rightarrow> bool" where
  "less_payment_status a b \<longleftrightarrow> status_rank a < status_rank b"

instance
  by standard (auto simp: less_eq_payment_status_def less_payment_status_def intro: status_rank_inj)

end

section \<open>Entity lemmas\<close>

lemma NewAuthorizedPayment_success [op_success]:
  "NewAuthorizedPayment i = Inr p \<longleftrightarrow>
   trim_space (npi_ID i) \<noteq> '''' \<and> trim_space (npi_MerchantID i) \<noteq> '''' \<and>
   trim_space (npi_PayerID i) \<noteq> '''' \<and> trim_space (npi_AuthorizationHoldID i) \<noteq> '''' \<and>
   0 < sint (npi_AmountMinor i) \<and> IsValidCurrency (npi_Currency i) \<and>
   npi_Now i < npi_ExpiresAt i \<and>
   p = \<lparr>payment_ID = trim_space (npi_ID i), payment_MerchantID = trim_space (npi_MerchantID i),
     payment_PayerID = trim_space (npi_PayerID i), payment_AmountMinor = npi_AmountMinor i,
     payment_Currency = NormalizeCurrency (npi_Currency i), payment_Status = StatusAuthorized,
     AuthorizationHoldID = trim_space (npi_AuthorizationHoldID i),
     AuthorizedAt = npi_Now i, payment_ExpiresAt = npi_ExpiresAt i,
     CapturedAt = None, SettledAt = None,
     payment_CreatedAt = npi_Now i, payment_UpdatedAt = npi_Now i\<rparr>"
  by (auto simp: NewAuthorizedPayment_def Let_def utc_def IsValidCurrency_normalized)

lemma NewHold_success [op_success]:
  "NewHold i = Inr h \<longleftrightarrow>
   trim_space (nhi_ID i) \<noteq> '''' \<and> trim_space (nhi_PaymentID i) \<noteq> '''' \<and>
   trim_space (nhi_PayerID i) \<noteq> '''' \<and> 0 < sint (nhi_AmountMinor i) \<and>
   IsValidCurrency (nhi_Currency i) \<and>
   h = \<lparr>hold_ID = trim_space (nhi_ID i), hold_PaymentID = trim_space (nhi_PaymentID i),
     hold_PayerID = trim_space (nhi_PayerID i), hold_AmountMinor = nhi_AmountMinor i,
     hold_Currency = NormalizeCurrency (nhi_Currency i), hold_Status = HoldStatusHeld,
     hold_CreatedAt = nhi_Now i, hold_UpdatedAt = nhi_Now i\<rparr>"
  by (auto simp: NewHold_def Let_def utc_def IsValidCurrency_normalized)

lemma Payment_Capture_success [op_success]:
  "Payment_Capture p now = Inr p' \<longleftrightarrow>
   payment_Status p = StatusAuthorized \<and> now \<le> payment_ExpiresAt p \<and>
   p' = p\<lparr>payment_Status := StatusCaptured, CapturedAt := Some now, payment_UpdatedAt := now\<rparr>"
  by (auto simp: Payment_Capture_def utc_def Let_def)

lemma Payment_Expire_success [op_success]:
  "Payment_Expire p now = Inr p' \<longleftrightarrow>
   payment_Status p = StatusAuthorized \<and>
   p' = p\<lparr>payment_Status := StatusExpired, payment_UpdatedAt := now\<rparr>"
  by (auto simp: Payment_Expire_def utc_def)

lemma Payment_Settle_success [op_success]:
  "Payment_Settle p now = Inr p' \<longleftrightarrow>
   payment_Status p = StatusCaptured \<and>
   p' = p\<lparr>payment_Status := StatusSettled, SettledAt := Some now, payment_UpdatedAt := now\<rparr>"
  by (auto simp: Payment_Settle_def utc_def Let_def)

lemma Hold_Capture_success [op_success]:
  "Hold_Capture h now = Inr h' \<longleftrightarrow>
   hold_Status h = HoldStatusHeld \<and>
   h' = h\<lparr>hold_Status := HoldStatusCaptured, hold_UpdatedAt := now\<rparr>"
  by (auto simp: Hold_Capture_def utc_def)

lemma Hold_Release_success [op_success]:
  "Hold_Release h now = Inr h' \<longleftrightarrow>
   hold_Status h = HoldStatusHeld \<and>
   h' = h\<lparr>hold_Status := HoldStatusReleased, hold_UpdatedAt := now\<rparr>"
  by (auto simp: Hold_Release_def utc_def)

lemma CanCapture_iff: "CanCapture p now \<longleftrightarrow> (\<exists>p'. Payment_Capture p now = Inr p')"
  by (auto simp: CanCapture_def Payment_Capture_def utc_def Let_def)

lemma payment_transitions_move_up:
  "Payment_Capture p now = Inr p' \<Longrightarrow> payment_Status p < payment_Status p'"
  "Payment_Expire p now = Inr p' \<Longrightarrow> payment_Status p < payment_Status p'"
  "Payment_Settle p now = Inr p' \<Longrightarrow> payment_Status p < payment_Status p'"
  by (auto simp: op_success less_payment_status_def)

section \<open>Store lemmas\<close>

lemma CreatePayment_success [op_success]:
  "CreatePayment ce p s = (Inr p', s') \<longleftrightarrow>
   ce = None \<and> map_of (ps_payments s) (payment_ID p) = None \<and> p' = p \<and>
   s' = s\<lparr>ps_payments := AList.update (payment_ID p) p (ps_payments s)\<rparr>"
  by (auto simp: CreatePayment_def split: option.splits)

lemma GetPayment_success [op_success]:
  "GetPayment ce i s = (Inr p, s') \<longleftrightarrow> ce = None \<and> map_of (ps_payments s) i = Some p \<and> s' = s"
  by (auto simp: GetPayment_def split: option.splits)

lemma UpdatePayment_success [op_success]:
  "UpdatePayment ce p s = (Inr p', s') \<longleftrightarrow>
   ce = None \<and> map_of (ps_payments s) (payment_ID p) \<noteq> None \<and> p' = p \<and>
   s' = s\<lparr>ps_payments := AList.update (payment_ID p) p (ps_payments s)\<rparr>"
  by (auto simp: UpdatePayment_def split: option.splits)

lemma CreateHold_success [op_success]:
  "CreateHold ce h s = (Inr h', s') \<longleftrightarrow>
   ce = None \<and> map_of (ps_holds s) (hold_ID h) = None \<and>
   map_of (holdIDByPaymentID s) (hold_PaymentID h) = None \<and> h' = h \<and>
   s' = s\<lparr>ps_holds := AList.update (hold_ID h) h (ps_holds s),
     holdIDByPaymentID := AList.update (hold_PaymentID h) (hold_ID h) (holdIDByPaymentID s)\<rparr>"
  by (auto simp: CreateHold_def split: option.splits)

lemma GetHold_success [op_success]:
  "GetHold ce i s = (Inr h, s') \<longleftrightarrow> ce = None \<and> map_of (ps_holds s) i = Some h \<and> s' = s"
  by (auto simp: GetHold_def split: option.splits)

lemma GetHoldByPaymentID_success [op_success]:
  "GetHoldByPaymentID ce i s = (Inr h, s') \<longleftrightarrow>
   ce = None \<and> s' = s \<and>
   (\<exists>hid. map_of (holdIDByPaymentID s) i = Some hid \<and> map_of (ps_holds s) hid = Some h)"
  by (auto simp: GetHoldByPaymentID_def split: option.splits)

lemma UpdateHold_success [op_success]:
  "UpdateHold ce h s = (Inr h', s') \<longleftrightarrow>
   ce = None \<and> map_of (ps_holds s) (hold_ID h) \<noteq> None \<and> h' = h \<and>
   s' = s\<lparr>ps_holds := AList.update (hold_ID h) h (ps_holds s),
     holdIDByPaymentID := AList.update (hold_PaymentID h) (hold_ID h) (holdIDByPaymentID s)\<rparr>"
  by (auto simp: UpdateHold_def split: option.splits)

lemma ListExpiredAuthorizedPayments_success [op_success]:
  "ListExpiredAuthorizedPayments ce now limit s = (Inr ps, s') \<longleftrightarrow>
   ce = None \<and> s' = s \<and>
   ps = take_limit limit
     (sort_key expiry_key (filter (expired_authorized now) (gm_values (ps_payments s))))"
  by (auto simp: ListExpiredAuthorizedPayments_def utc_def Let_def split: option.splits)

lemma take_limit_prefix: "\<exists>rest. xs = take_limit n xs @ rest"
  by (metis append.right_neutral append_take_drop_id take_limit_def)

lemma length_take_limit: "0 < n \<Longrightarrow> int (length (take_limit n xs)) \<le> n"
  by (auto simp: take_limit_def)

lemma payment_store_error_state:
  "CreatePayment ce p s = (Inl e, s') \<Longrightarrow> s' = s"
  "UpdatePayment ce p s = (Inl e, s') \<Longrightarrow> s' = s"
  "CreateHold ce h s = (Inl e, s') \<Longrightarrow> s' = s"
  "UpdateHold ce h s = (Inl e, s') \<Longrightarrow> s' = s"
  by (auto simp: payment_store_defs split: option.splits)

lemma payment_store_reads:
  "snd (GetPayment ce i s) = s" "snd (GetHold ce i s) = s" "snd (GetHoldByPaymentID ce i s) = s"
  "snd (ListExpiredAuthorizedPayments ce now limit s) = s"
  by (auto simp: payment_store_defs Let_def split: option.splits)

subsection \<open>The index of holds by payment\<close>

definition hold_index_ok :: "payment_store \<Rightarrow> bool" where
  "hold_index_ok s \<longleftrightarrow> gm_wf hold_ID (ps_holds s) \<and>
     (\<forall>pid hid. map_of (holdIDByPaymentID s) pid = Some hid \<longrightarrow>
        (\<exists>h. map_of (ps_holds s) hid = Some h \<and> hold_PaymentID h = pid)) \<and>
     (\<forall>hid h. map_of (ps_holds s) hid = Some h \<longrightarrow>
        map_of (holdIDByPaymentID s) (hold_PaymentID h) = Some hid)"

lemma hold_index_ok_empty [simp]: "hold_index_ok empty_payment_store"
  by (simp add: hold_index_ok_def empty_payment_store_def)

lemma hold_index_ok_payments [simp]:
  "hold_index_ok (s\<lparr>ps_payments := ps\<rparr>) = hold_index_ok s"
  by (simp add: hold_index_ok_def)

lemma hold_index_okI:
  assumes "gm_wf hold_ID (ps_holds s)"
    and "\<And>pid hid. map_of (holdIDByPaymentID s) pid = Some hid \<Longrightarrow>
      \<exists>h. map_of (ps_holds s) hid = Some h \<and> hold_PaymentID h = pid"
    and "\<And>hid h. map_of (ps_holds s) hid = Some h \<Longrightarrow>
      map_of (holdIDByPaymentID s) (hold_PaymentID h) = Some hid"
  shows "hold_index_ok s"
  using assms unfolding hold_index_ok_def by blast

lemma hold_index_okD:
  assumes "hold_index_ok s"
  shows "gm_wf hold_ID (ps_holds s)"
    and "map_of (holdIDByPaymentID s) pid = Some hid \<Longrightarrow>
      \<exists>h. map_of (ps_holds s) hid = Some h \<and> hold_PaymentID h = pid"
    and "map_of (ps_holds s) hid = Some h \<Longrightarrow>
      map_of (holdIDByPaymentID s) (hold_PaymentID h) = Some hid"
  using assms unfolding hold_index_ok_def by blast+

lemma CreateHold_index_ok:
  assumes ok: "hold_index_ok s" and "CreateHold ce h s = (Inr h', s')"
  shows "hold_index_ok s'"
proof -
  have new: "map_of (ps_holds s) (hold_ID h) = None"
    "map_of (holdIDByPaymentID s) (hold_PaymentID h) = None"
    and s': "s' = s\<lparr>ps_holds := AList.update (hold_ID h) h (ps_holds s),
      holdIDByPaymentID := AList.update (hold_PaymentID h) (hold_ID h) (holdIDByPaymentID s)\<rparr>"
    using assms(2) by (auto simp: op_success)
  note D = hold_index_okD [OF ok]
  show ?thesis
  proof (rule hold_index_okI)
    show "gm_wf hold_ID (ps_holds s')" using D(1) by (simp add: s' gm_wf_update)
    show "\<exists>h. map_of (ps_holds s') hid = Some h \<and> hold_PaymentID h = pid"
      if "map_of (holdIDByPaymentID s') pid = Some hid" for pid hid
      using that D(2) [of pid hid] new by (auto simp: s' split: if_splits)
    show "map_of (holdIDByPaymentID s') (hold_PaymentID g) = Some hid"
      if "map_of (ps_holds s') hid = Some g" for hid g
      using that D(3) [of hid g] new by (auto simp: s' split: if_splits)
  qed
qed

lemma UpdateHold_index_ok:
  assumes ok: "hold_index_ok s" and "UpdateHold ce h s = (Inr h', s')"
    and old: "map_of (ps_holds s) (hold_ID h) = Some h0" "hold_PaymentID h0 = hold_PaymentID h"
  shows "hold_index_ok s'"
proof -
  note D = hold_index_okD [OF ok]
  have ix: "map_of (holdIDByPaymentID s) (hold_PaymentID h) = Some (hold_ID h)"
    using D(3) old by metis
  then have s': "s' = s\<lparr>ps_holds := AList.update (hold_ID h) h (ps_holds s)\<rparr>"
    using assms(2) by (auto simp: op_success update_triv)
  show ?thesis
  proof (rule hold_index_okI)
    show "gm_wf hold_ID (ps_holds s')" using D(1) by (simp add: s' gm_wf_update)
    show "\<exists>h. map_of (ps_holds s') hid = Some h \<and> hold_PaymentID h = pid"
      if "map_of (holdIDByPaymentID s') pid = Some hid" for pid hid
      using that D(2) [of pid hid] old by (auto simp: s')
    show "map_of (holdIDByPaymentID s') (hold_PaymentID g) = Some hid"
      if "map_of (ps_holds s') hid = Some g" for hid g
      using that D(3) [of hid g] ix by (auto simp: s' split: if_splits)
  qed
qed

subsection \<open>The list of expired payments\<close>

lemma inj_on_expiry_key:
  "gm_wf payment_ID m \<Longrightarrow> inj_on expiry_key (set (filter P (gm_values m)))"
proof (rule inj_onI)
  fix p q
  assume wf: "gm_wf payment_ID m" and "p \<in> set (filter P (gm_values m))"
    "q \<in> set (filter P (gm_values m))" and eq: "expiry_key p = expiry_key q"
  then have "map_of m (payment_ID p) = Some p" "map_of m (payment_ID q) = Some q"
    using gm_values_lookup [OF wf, of p] gm_values_lookup [OF wf, of q] by auto
  moreover have "payment_ID p = payment_ID q"
    using eq by (simp add: expiry_key_def)
  ultimately show "p = q" by (metis option.inject)
qed

lemma ListExpired_iteration_order:
  assumes "gm_wf payment_ID (ps_payments s1)" "gm_wf payment_ID (ps_payments s2)"
    and "map_of (ps_payments s1) = map_of (ps_payments s2)"
  shows "fst (ListExpiredAuthorizedPayments ce now limit s1) =
    fst (ListExpiredAuthorizedPayments ce now limit s2)"
proof -
  have "sort_key expiry_key (filter (expired_authorized now) (gm_values (ps_payments s1)))
      = sort_key expiry_key (filter (expired_authorized now) (gm_values (ps_payments s2)))"
    using gm_values_mset_cong [OF assms] inj_on_expiry_key [OF assms(1)]
    by (intro sort_key_mset_cong) (auto simp: mset_filter)
  then show ?thesis
    unfolding ListExpiredAuthorizedPayments_def utc_def Let_def by (simp split: option.split)
qed

text \<open>What a list of expired payments must be, whoever computes it.\<close>

definition expired_list_ok :: "payment gomap \<Rightarrow> time \<Rightarrow> payment list \<Rightarrow> bool" where
  "expired_list_ok m now ps \<longleftrightarrow>
     (\<forall>p \<in> set ps. map_of m (payment_ID p) = Some p \<and> expired_authorized now p) \<and>
     distinct (map payment_ID ps) \<and> sorted (map expiry_key ps)"

lemma expired_list_ok_prefix:
  assumes "gm_wf payment_ID m"
    and "sort_key expiry_key (filter (\<lambda>p. expired_authorized now p \<and> P p) (gm_values m)) = ps @ rest"
  shows "expired_list_ok m now ps"
proof -
  note pre = sort_key_prefix [OF assms(2)]
  have "distinct (map payment_ID (filter (\<lambda>p. expired_authorized now p \<and> P p) (gm_values m)))"
    using distinct_gm_values [OF assms(1)] by (rule distinct_map_filter)
  then show ?thesis
    using pre(1,3,4) gm_values_lookup [OF assms(1)] unfolding expired_list_ok_def by auto
qed

lemma ListExpired_ok:
  assumes "gm_wf payment_ID (ps_payments s)"
    and "ListExpiredAuthorizedPayments ce now limit s = (Inr ps, s')"
  shows "expired_list_ok (ps_payments s) now ps"
proof -
  let ?r = "sort_key expiry_key (filter (expired_authorized now) (gm_values (ps_payments s)))"
  have "ps = take_limit limit ?r"
    using assms(2) by (simp add: op_success)
  then obtain rest where "?r = ps @ rest"
    by (metis take_limit_prefix)
  then show ?thesis
    using expired_list_ok_prefix [OF assms(1), of now "\<lambda>_. True" ps rest] by simp
qed

end
