(* ===== verification/Outbox.thy ===== *)
theory Outbox
  imports Currency
begin

text \<open>
  \<open>internal/outbox\<close>: the event and its delivery states (\<open>event.go\<close>), the no-op
  repository (\<open>repository.go\<close>) and the in-memory repository
  (\<open>adapters/memory/repository.go\<close>). A payload is the JSON tree that
  \<open>json.Marshal\<close> serialises; marshalling fails when a time has a year outside 0 to 9999.
\<close>

section \<open>JSON payloads\<close>

datatype json =
    JString string
  | JInt int64
  | JTime time
  | JObject "(string \<times> json) list"

definition min_json_time :: time where "min_json_time = - (366 * 24 * hour)"
definition max_json_time :: time where "max_json_time = 3652059 * 24 * hour"

fun json_times_ok :: "json \<Rightarrow> bool" where
  "json_times_ok (JTime t) \<longleftrightarrow> min_json_time \<le> t \<and> t < max_json_time"
| "json_times_ok (JObject fields) \<longleftrightarrow> (\<forall>(k, j) \<in> set fields. json_times_ok j)"
| "json_times_ok (JString s) \<longleftrightarrow> True"
| "json_times_ok (JInt n) \<longleftrightarrow> True"

definition json_marshal :: "json \<Rightarrow> error + json" where
  "json_marshal j =
     (if json_times_ok j then Inr j
      else Inl (ErrMsg ''Time.MarshalJSON: year outside of range [0,9999]''))"

section \<open>Event\<close>

datatype event_status = EventPending | EventInProgress | EventPublished | EventFailed

record event =
  event_ID :: string
  AggregateType :: string
  AggregateID :: string
  EventType :: string
  Payload :: json
  event_Status :: event_status
  Attempts :: int64
  AvailableAt :: time
  event_CreatedAt :: time
  event_UpdatedAt :: time
  LockedAt :: "time option"
  LockedBy :: "string option"
  PublishedAt :: "time option"
  event_LastError :: "string option"

record new_event_input =
  nei_AggregateType :: string
  nei_AggregateID :: string
  nei_EventType :: string
  nei_Payload :: json
  nei_Now :: time

definition NewEvent :: "new_event_input \<Rightarrow> rand \<Rightarrow> error + event" where
  "NewEvent input rnd =
     (let aggregateType = trim_space (nei_AggregateType input);
          aggregateID = trim_space (nei_AggregateID input);
          eventType = trim_space (nei_EventType input)
      in if aggregateType = '''' then Inl (ErrMsg ''aggregate type is required'')
      else if aggregateID = '''' then Inl (ErrMsg ''aggregate id is required'')
      else if eventType = '''' then Inl (ErrMsg ''event type is required'')
      else case json_marshal (nei_Payload input) of
        Inl err \<Rightarrow> Inl err
      | Inr payload \<Rightarrow>
        (case new_id ''evt'' rnd of
           Inl err \<Rightarrow> Inl err
         | Inr eventID \<Rightarrow>
           let now = utc (nei_Now input)
           in Inr \<lparr>event_ID = eventID, AggregateType = aggregateType, AggregateID = aggregateID,
                EventType = eventType, Payload = payload, event_Status = EventPending,
                Attempts = 0, AvailableAt = now, event_CreatedAt = now, event_UpdatedAt = now,
                LockedAt = None, LockedBy = None, PublishedAt = None, event_LastError = None\<rparr>))"

definition Claim :: "event \<Rightarrow> string \<Rightarrow> time \<Rightarrow> error + event" where
  "Claim e workerID0 now0 =
     (let workerID = trim_space workerID0
      in if workerID = '''' then Inl (ErrMsg ''worker id is required'')
      else if event_Status e \<noteq> EventPending \<and> event_Status e \<noteq> EventFailed
        then Inl ErrEventNotClaimable
      else let now = utc now0
      in Inr (e\<lparr>event_Status := EventInProgress, Attempts := Attempts e + 1,
                LockedAt := Some now, LockedBy := Some workerID, event_LastError := None,
                event_UpdatedAt := now\<rparr>))"

definition MarkPublished :: "event \<Rightarrow> time \<Rightarrow> error + event" where
  "MarkPublished e now0 =
     (if event_Status e \<noteq> EventInProgress then Inl ErrEventNotPublishable
      else let now = utc now0
      in Inr (e\<lparr>event_Status := EventPublished, PublishedAt := Some now, LockedAt := None,
                LockedBy := None, event_LastError := None, event_UpdatedAt := now\<rparr>))"

definition MarkFailed :: "event \<Rightarrow> string \<Rightarrow> time \<Rightarrow> time \<Rightarrow> error + event" where
  "MarkFailed e errorMessage0 nextAvailableAt now =
     (if event_Status e \<noteq> EventInProgress then Inl ErrEventNotFailable
      else let errorMessage = trim_space errorMessage0
      in if errorMessage = '''' then Inl (ErrMsg ''error message is required'')
      else Inr (e\<lparr>event_Status := EventFailed, AvailableAt := utc nextAvailableAt,
                  LockedAt := None, LockedBy := None, PublishedAt := None,
                  event_LastError := Some errorMessage, event_UpdatedAt := utc now\<rparr>))"

section \<open>Repository inputs and the no-op repository\<close>

record claim_input =
  ci_WorkerID :: string
  ci_Limit :: int
  ci_Now :: time

record mark_failed_input =
  mfi_EventID :: string
  mfi_ErrorMessage :: string
  mfi_NextAvailable :: time
  mfi_Now :: time

record stats =
  PendingEvents :: int
  PublishLag :: duration

definition zero_stats :: stats where
  "zero_stats = \<lparr>PendingEvents = 0, PublishLag = 0\<rparr>"

definition ctx_guard :: "error option \<Rightarrow> error + 'a \<Rightarrow> ('s, 'a) act" where
  "ctx_guard ctx_err r s = (case ctx_err of Some err \<Rightarrow> (Inl err, s) | None \<Rightarrow> (r, s))"

definition Noop_CreateEvent :: "error option \<Rightarrow> event \<Rightarrow> ('s, event) act" where
  "Noop_CreateEvent ctx_err e = ctx_guard ctx_err (Inr e)"

definition Noop_ClaimPendingEvents :: "error option \<Rightarrow> claim_input \<Rightarrow> ('s, event list) act" where
  "Noop_ClaimPendingEvents ctx_err input = ctx_guard ctx_err (Inr [])"

definition Noop_MarkEventPublished :: "error option \<Rightarrow> string \<Rightarrow> time \<Rightarrow> ('s, event) act" where
  "Noop_MarkEventPublished ctx_err eventID now = ctx_guard ctx_err (Inl ErrEventNotFound)"

definition Noop_MarkEventFailed :: "error option \<Rightarrow> mark_failed_input \<Rightarrow> ('s, event) act" where
  "Noop_MarkEventFailed ctx_err input = ctx_guard ctx_err (Inl ErrEventNotFound)"

definition Noop_Stats :: "error option \<Rightarrow> time \<Rightarrow> ('s, stats) act" where
  "Noop_Stats ctx_err now = ctx_guard ctx_err (Inr zero_stats)"

section \<open>In-memory repository\<close>

definition CreateEvent :: "error option \<Rightarrow> event \<Rightarrow> (event gomap, event) act" where
  "CreateEvent ctx_err e events =
     (case ctx_err of Some err \<Rightarrow> (Inl err, events)
      | None \<Rightarrow>
        (case map_of events (event_ID e) of
           Some _ \<Rightarrow> (Inl ErrDuplicateEvent, events)
         | None \<Rightarrow> (Inr e, AList.update (event_ID e) e events)))"

definition claim_key :: "event \<Rightarrow> time \<times> time \<times> string" where
  "claim_key e = (AvailableAt e, event_CreatedAt e, event_ID e)"

definition claimable :: "time \<Rightarrow> event \<Rightarrow> bool" where
  "claimable now e \<longleftrightarrow>
     \<not> AvailableAt e > now \<and> (event_Status e = EventPending \<or> event_Status e = EventFailed)"

fun claim_loop :: "string \<Rightarrow> time \<Rightarrow> event list \<Rightarrow> (event gomap, event list) act" where
  "claim_loop workerID now [] events = (Inr [], events)"
| "claim_loop workerID now (e # es) events =
     (case Claim e workerID now of
        Inl err \<Rightarrow> (Inl err, events)
      | Inr claimedEvent \<Rightarrow>
        (case claim_loop workerID now es (AList.update (event_ID claimedEvent) claimedEvent events) of
           (Inl err, events') \<Rightarrow> (Inl err, events')
         | (Inr claimed, events') \<Rightarrow> (Inr (claimedEvent # claimed), events')))"

definition ClaimPendingEvents :: "error option \<Rightarrow> claim_input \<Rightarrow> (event gomap, event list) act" where
  "ClaimPendingEvents ctx_err input events =
     (case ctx_err of Some err \<Rightarrow> (Inl err, events)
      | None \<Rightarrow>
        if ci_Limit input \<le> 0 then (Inr [], events)
        else let candidates = sort_key claim_key (filter (claimable (ci_Now input)) (gm_values events));
                 candidates' = (if int (length candidates) > ci_Limit input
                                then take (nat (ci_Limit input)) candidates else candidates)
        in claim_loop (ci_WorkerID input) (ci_Now input) candidates' events)"

definition MarkEventPublished :: "error option \<Rightarrow> string \<Rightarrow> time \<Rightarrow> (event gomap, event) act" where
  "MarkEventPublished ctx_err eventID now events =
     (case ctx_err of Some err \<Rightarrow> (Inl err, events)
      | None \<Rightarrow>
        (case map_of events eventID of
           None \<Rightarrow> (Inl ErrEventNotFound, events)
         | Some e \<Rightarrow>
           (case MarkPublished e now of
              Inl err \<Rightarrow> (Inl err, events)
            | Inr published \<Rightarrow> (Inr published, AList.update eventID published events))))"

definition MarkEventFailed :: "error option \<Rightarrow> mark_failed_input \<Rightarrow> (event gomap, event) act" where
  "MarkEventFailed ctx_err input events =
     (case ctx_err of Some err \<Rightarrow> (Inl err, events)
      | None \<Rightarrow>
        (case map_of events (mfi_EventID input) of
           None \<Rightarrow> (Inl ErrEventNotFound, events)
         | Some e \<Rightarrow>
           (case MarkFailed e (mfi_ErrorMessage input) (mfi_NextAvailable input) (mfi_Now input) of
              Inl err \<Rightarrow> (Inl err, events)
            | Inr failed \<Rightarrow> (Inr failed, AList.update (mfi_EventID input) failed events))))"

definition ListEvents :: "error option \<Rightarrow> (event gomap, event list) act" where
  "ListEvents ctx_err events =
     (case ctx_err of Some err \<Rightarrow> (Inl err, events) | None \<Rightarrow> (Inr (gm_values events), events))"

text \<open>
  \<open>Stats\<close> counts what could be claimed at \<open>now\<close> and how long the oldest of it has waited;
  \<open>wall\<close> is \<open>time.Now()\<close>, used when the input time is zero.
\<close>

fun stats_loop :: "time \<Rightarrow> int \<Rightarrow> time option \<Rightarrow> event list \<Rightarrow> int \<times> time option" where
  "stats_loop now pending oldest [] = (pending, oldest)"
| "stats_loop now pending oldest (e # es) =
     (if event_Status e \<noteq> EventPending \<and> event_Status e \<noteq> EventFailed
        then stats_loop now pending oldest es
      else if AvailableAt e > now then stats_loop now pending oldest es
      else stats_loop now (pending + 1)
        (case oldest of
           None \<Rightarrow> Some (AvailableAt e)
         | Some t \<Rightarrow> if AvailableAt e < t then Some (AvailableAt e) else Some t) es)"

definition publish_lag :: "time \<Rightarrow> time option \<Rightarrow> duration" where
  "publish_lag now oldest =
     (case oldest of None \<Rightarrow> 0
      | Some t \<Rightarrow> let lag = time_sub now t in if lag < 0 then 0 else lag)"

definition Stats :: "error option \<Rightarrow> time \<Rightarrow> time \<Rightarrow> (event gomap, stats) act" where
  "Stats ctx_err wall now0 events =
     (case ctx_err of Some err \<Rightarrow> (Inl err, events)
      | None \<Rightarrow>
        let now = (if is_zero (utc now0) then utc wall else utc now0);
            (pending, oldest) = stats_loop now 0 None (gm_values events)
        in (Inr \<lparr>PendingEvents = pending, PublishLag = publish_lag now oldest\<rparr>, events))"

lemmas outbox_defs = NewEvent_def Claim_def MarkPublished_def MarkFailed_def json_marshal_def
  min_json_time_def max_json_time_def
  CreateEvent_def ClaimPendingEvents_def MarkEventPublished_def MarkEventFailed_def ListEvents_def
  Stats_def publish_lag_def claim_key_def claimable_def zero_stats_def
  ctx_guard_def Noop_CreateEvent_def Noop_ClaimPendingEvents_def Noop_MarkEventPublished_def
  Noop_MarkEventFailed_def Noop_Stats_def

declare outbox_defs [go_eval]

end
