(* ===== verification/Ledger.thy ===== *)
theory Ledger
  imports Merchant Payer Payment Outbox
begin

text \<open>
  What the payment service sees of its repositories. \<open>ledger\<close> is the content of the four
  stores the service works on; \<open>repos\<close> is the record of repository methods the service
  holds (\<open>merchant.MerchantRepository\<close>, \<open>payer.PayerRepository\<close>,
  \<open>payment.Repository\<close> and \<open>outbox.Repository\<close>'s \<open>CreateEvent\<close>), over any
  state \<open>'s\<close>; \<open>transactor\<close> is \<open>internal/shared/db\<close>.
  The first argument of a method, of type \<open>'c\<close>, is what its surroundings do to the call:
  a cancelled context, an answer of the database.
  The ledger invariant \<open>ledger_ok\<close> ties payments, holds and payer balances together.
\<close>

section \<open>Contents and methods of the repositories\<close>

record ledger =
  l_merchants :: "merchant gomap"
  l_payers :: "payer gomap"
  l_payments :: "payment gomap"
  l_holds :: "hold gomap"
  l_events :: "event gomap"

record ('c, 's) repos =
  r_GetMerchant :: "'c \<Rightarrow> string \<Rightarrow> ('s, merchant) act"
  r_GetPayer :: "'c \<Rightarrow> string \<Rightarrow> ('s, payer) act"
  r_UpdatePayer :: "'c \<Rightarrow> payer \<Rightarrow> ('s, payer) act"
  r_CreatePayment :: "'c \<Rightarrow> payment \<Rightarrow> ('s, payment) act"
  r_GetPayment :: "'c \<Rightarrow> string \<Rightarrow> ('s, payment) act"
  r_ListExpiredAuthorizedPayments :: "'c \<Rightarrow> time \<Rightarrow> int \<Rightarrow> ('s, payment list) act"
  r_UpdatePayment :: "'c \<Rightarrow> payment \<Rightarrow> ('s, payment) act"
  r_CreateHold :: "'c \<Rightarrow> hold \<Rightarrow> ('s, hold) act"
  r_GetHoldByPaymentID :: "'c \<Rightarrow> string \<Rightarrow> ('s, hold) act"
  r_UpdateHold :: "'c \<Rightarrow> hold \<Rightarrow> ('s, hold) act"
  r_CreateEvent :: "'c \<Rightarrow> event \<Rightarrow> ('s, event) act"

section \<open>Transactions\<close>

text \<open>
  \<open>db.NoopTransactor\<close> runs the function; \<open>db.PostgresTransactor\<close> runs it between
  \<open>Begin\<close> and \<open>Commit\<close> and rolls the state back when it fails. What the database
  answers to the three calls is the record \<open>tx_answers\<close>; when \<open>Commit\<close> reports an
  error, \<open>tx_commit_applied\<close> says whether the server had applied it all the same.
  \<open>InTx\<close> is a context that already carries a transaction, which the function joins.
\<close>

record tx_answers =
  tx_begin :: "error option"
  tx_commit :: "error option"
  tx_commit_applied :: bool
  tx_rollback :: "error option"

datatype transactor = NoopTransactor | InTx | PostgresTransactor tx_answers

fun WithinTx :: "transactor \<Rightarrow> ('s, 'a) act \<Rightarrow> ('s, 'a) act" where
  "WithinTx NoopTransactor fn s = fn s"
| "WithinTx InTx fn s = fn s"
| "WithinTx (PostgresTransactor db) fn s =
     (case tx_begin db of
        Some err \<Rightarrow> (Inl (Wrapped ''begin transaction: '' err), s)
      | None \<Rightarrow>
        (case fn s of
           (Inl err, s') \<Rightarrow>
             (case tx_rollback db of
                Some rollbackErr \<Rightarrow>
                  (Inl (Joined err (Wrapped ''rollback transaction: '' rollbackErr)), s)
              | None \<Rightarrow> (Inl err, s))
         | (Inr x, s') \<Rightarrow>
             (case tx_commit db of
                Some err \<Rightarrow>
                  (Inl (Wrapped ''commit transaction: '' err), if tx_commit_applied db then s' else s)
              | None \<Rightarrow> (Inr x, s'))))"

definition live_tx :: tx_answers where
  "live_tx = \<lparr>tx_begin = None, tx_commit = None, tx_commit_applied = True, tx_rollback = None\<rparr>"

lemma WithinTx_success:
  "WithinTx tr fn s = (Inr x, s') \<Longrightarrow> fn s = (Inr x, s')"
  by (cases tr) (auto split: option.splits prod.splits sum.splits)

lemma WithinTx_live:
  "fn s = (Inr x, s') \<Longrightarrow> tr \<in> {NoopTransactor, InTx, PostgresTransactor live_tx} \<Longrightarrow>
   WithinTx tr fn s = (Inr x, s')"
  by (auto simp: live_tx_def)

text \<open>All or nothing: the state after a transaction is the state before it or the function's.\<close>

lemma WithinTx_atomic:
  assumes "WithinTx (PostgresTransactor db) fn s = (r, s')"
  shows "s' = s \<or> (\<exists>x. fn s = (Inr x, s'))"
  using assms by (auto split: option.splits prod.splits sum.splits if_splits)

lemma WithinTx_error_rolls_back:
  assumes "WithinTx (PostgresTransactor db) fn s = (Inl e, s')" "fst (fn s) = Inl e0"
  shows "s' = s" "errors_is e t \<longleftrightarrow> (case tx_begin db of
    Some b \<Rightarrow> Wrapped ''begin transaction: '' b = t \<or> errors_is b t
  | None \<Rightarrow> errors_is e t)"
  using assms by (auto split: option.splits prod.splits sum.splits if_splits)

section \<open>Sums over the ledger\<close>

text \<open>Money held for a payer by its live holds, and money taken from it by captured payments.\<close>

definition held_by :: "string \<Rightarrow> hold \<Rightarrow> int" where
  "held_by pid h =
     (if hold_PayerID h = pid \<and> hold_Status h = HoldStatusHeld then sint (hold_AmountMinor h) else 0)"

definition held_total :: "ledger \<Rightarrow> string \<Rightarrow> int" where
  "held_total L pid = msum (held_by pid) (l_holds L)"

definition captured_of :: "string \<Rightarrow> payment \<Rightarrow> int" where
  "captured_of pid p =
     (if payment_PayerID p = pid \<and> payment_Status p \<in> {StatusCaptured, StatusSettled}
      then sint (payment_AmountMinor p) else 0)"

definition captured_total :: "ledger \<Rightarrow> string \<Rightarrow> int" where
  "captured_total L pid = msum (captured_of pid) (l_payments L)"

text \<open>The money a payer was created with: what it has left plus what was captured from it.\<close>

definition funds :: "ledger \<Rightarrow> string \<Rightarrow> int option" where
  "funds L pid = map_option (\<lambda>p. payer_total p + captured_total L pid) (map_of (l_payers L) pid)"

section \<open>Records up to their timestamps\<close>

text \<open>
  What a repository returns and stores for the record it was given: the record itself, but for
  the precision of its timestamps.
\<close>

definition same_payer :: "payer \<Rightarrow> payer \<Rightarrow> bool" where
  "same_payer y y' \<longleftrightarrow>
     y' = y\<lparr>payer_CreatedAt := payer_CreatedAt y', payer_UpdatedAt := payer_UpdatedAt y'\<rparr>"

definition same_payment :: "payment \<Rightarrow> payment \<Rightarrow> bool" where
  "same_payment p p' \<longleftrightarrow>
     p' = p\<lparr>AuthorizedAt := AuthorizedAt p', payment_ExpiresAt := payment_ExpiresAt p',
       CapturedAt := CapturedAt p', SettledAt := SettledAt p',
       payment_CreatedAt := payment_CreatedAt p', payment_UpdatedAt := payment_UpdatedAt p'\<rparr>"

definition same_hold :: "hold \<Rightarrow> hold \<Rightarrow> bool" where
  "same_hold h h' \<longleftrightarrow>
     h' = h\<lparr>hold_CreatedAt := hold_CreatedAt h', hold_UpdatedAt := hold_UpdatedAt h'\<rparr>"

definition same_event :: "event \<Rightarrow> event \<Rightarrow> bool" where
  "same_event e e' \<longleftrightarrow>
     e' = e\<lparr>AvailableAt := AvailableAt e', event_CreatedAt := event_CreatedAt e',
       event_UpdatedAt := event_UpdatedAt e', LockedAt := LockedAt e',
       PublishedAt := PublishedAt e'\<rparr>"

lemma same_refl [simp]: "same_payer y y" "same_payment p p" "same_hold h h" "same_event e e"
  by (simp_all add: same_payer_def same_payment_def same_hold_def same_event_def)

lemma same_payment_trans: "same_payment p q \<Longrightarrow> same_payment q r \<Longrightarrow> same_payment p r"
proof -
  assume "same_payment p q" "same_payment q r"
  then obtain a b c d e f a' b' c' d' e' f' where
    q: "q = p\<lparr>AuthorizedAt := a, payment_ExpiresAt := b, CapturedAt := c, SettledAt := d,
      payment_CreatedAt := e, payment_UpdatedAt := f\<rparr>" and
    r: "r = q\<lparr>AuthorizedAt := a', payment_ExpiresAt := b', CapturedAt := c', SettledAt := d',
      payment_CreatedAt := e', payment_UpdatedAt := f'\<rparr>"
    unfolding same_payment_def by blast
  show ?thesis by (simp add: r q same_payment_def)
qed

lemma same_payment_status:
  "same_payment p q \<Longrightarrow> same_payment (p\<lparr>payment_Status := st\<rparr>) (q\<lparr>payment_Status := st\<rparr>)"
proof -
  assume "same_payment p q"
  then obtain a b c d e f where
    q: "q = p\<lparr>AuthorizedAt := a, payment_ExpiresAt := b, CapturedAt := c, SettledAt := d,
      payment_CreatedAt := e, payment_UpdatedAt := f\<rparr>"
    unfolding same_payment_def by blast
  show ?thesis by (simp add: q same_payment_def)
qed

lemma same_payment_touch: "same_payment p (p\<lparr>payment_UpdatedAt := u\<rparr>)"
  by (simp add: same_payment_def)

lemma same_payerD:
  assumes "same_payer y y'"
  shows "payer_ID y' = payer_ID y" "AvailableBalanceMinor y' = AvailableBalanceMinor y"
    "HeldBalanceMinor y' = HeldBalanceMinor y" "payer_Currency y' = payer_Currency y"
    "payer_Version y' = payer_Version y" "payer_total y' = payer_total y" "payer_ok y' = payer_ok y"
proof -
  define t u where "t = payer_CreatedAt y'" and "u = payer_UpdatedAt y'"
  then have y': "y' = y\<lparr>payer_CreatedAt := t, payer_UpdatedAt := u\<rparr>"
    using assms by (simp add: same_payer_def)
  show "payer_ID y' = payer_ID y" "AvailableBalanceMinor y' = AvailableBalanceMinor y"
    "HeldBalanceMinor y' = HeldBalanceMinor y" "payer_Currency y' = payer_Currency y"
    "payer_Version y' = payer_Version y" "payer_total y' = payer_total y" "payer_ok y' = payer_ok y"
    by (simp_all add: y' payer_total_def payer_ok_def)
qed

lemma same_paymentD:
  assumes "same_payment p p'"
  shows "payment_ID p' = payment_ID p" "payment_MerchantID p' = payment_MerchantID p"
    "payment_PayerID p' = payment_PayerID p" "payment_AmountMinor p' = payment_AmountMinor p"
    "payment_Currency p' = payment_Currency p" "payment_Status p' = payment_Status p"
    "AuthorizationHoldID p' = AuthorizationHoldID p" "captured_of i p' = captured_of i p"
proof -
  obtain a b c d e f where p': "p' = p\<lparr>AuthorizedAt := a, payment_ExpiresAt := b,
       CapturedAt := c, SettledAt := d, payment_CreatedAt := e, payment_UpdatedAt := f\<rparr>"
    using assms unfolding same_payment_def by blast
  show "payment_ID p' = payment_ID p" "payment_MerchantID p' = payment_MerchantID p"
    "payment_PayerID p' = payment_PayerID p" "payment_AmountMinor p' = payment_AmountMinor p"
    "payment_Currency p' = payment_Currency p" "payment_Status p' = payment_Status p"
    "AuthorizationHoldID p' = AuthorizationHoldID p" "captured_of i p' = captured_of i p"
    by (auto simp: p' captured_of_def)
qed

lemma same_holdD:
  assumes "same_hold h h'"
  shows "hold_ID h' = hold_ID h" "hold_PaymentID h' = hold_PaymentID h"
    "hold_PayerID h' = hold_PayerID h" "hold_AmountMinor h' = hold_AmountMinor h"
    "hold_Currency h' = hold_Currency h" "hold_Status h' = hold_Status h"
proof -
  obtain a b where h': "h' = h\<lparr>hold_CreatedAt := a, hold_UpdatedAt := b\<rparr>"
    using assms unfolding same_hold_def by blast
  show "hold_ID h' = hold_ID h" "hold_PaymentID h' = hold_PaymentID h"
    "hold_PayerID h' = hold_PayerID h" "hold_AmountMinor h' = hold_AmountMinor h"
    "hold_Currency h' = hold_Currency h" "hold_Status h' = hold_Status h"
    by (simp_all add: h')
qed

lemma same_eventD:
  assumes "same_event e e'"
  shows "event_ID e' = event_ID e" "EventType e' = EventType e" "AggregateID e' = AggregateID e"
    "Payload e' = Payload e" "event_Status e' = event_Status e"
proof -
  obtain a b c d f where e': "e' = e\<lparr>AvailableAt := a, event_CreatedAt := b,
       event_UpdatedAt := c, LockedAt := d, PublishedAt := f\<rparr>"
    using assms unfolding same_event_def by blast
  show "event_ID e' = event_ID e" "EventType e' = EventType e" "AggregateID e' = AggregateID e"
    "Payload e' = Payload e" "event_Status e' = event_Status e"
    by (simp_all add: e')
qed

section \<open>The ledger invariant\<close>

text \<open>A payment and its hold agree, and their statuses go together.\<close>

fun statuses_agree :: "payment_status \<Rightarrow> hold_status \<Rightarrow> bool" where
  "statuses_agree StatusAuthorized hs \<longleftrightarrow> hs = HoldStatusHeld"
| "statuses_agree StatusCaptured hs \<longleftrightarrow> hs = HoldStatusCaptured"
| "statuses_agree StatusSettled hs \<longleftrightarrow> hs = HoldStatusCaptured"
| "statuses_agree StatusExpired hs \<longleftrightarrow> hs = HoldStatusReleased"
| "statuses_agree StatusPending hs \<longleftrightarrow> False"
| "statuses_agree StatusFailed hs \<longleftrightarrow> False"

definition hold_matches :: "payment \<Rightarrow> hold \<Rightarrow> bool" where
  "hold_matches p h \<longleftrightarrow> hold_ID h = AuthorizationHoldID p \<and> hold_PaymentID h = payment_ID p \<and>
     hold_PayerID h = payment_PayerID p \<and> hold_AmountMinor h = payment_AmountMinor p \<and>
     hold_Currency h = payment_Currency p \<and> statuses_agree (payment_Status p) (hold_Status h)"

definition payment_ok :: "payment \<Rightarrow> bool" where
  "payment_ok p \<longleftrightarrow> payment_ID p \<noteq> '''' \<and> trim_space (payment_ID p) = payment_ID p \<and>
     0 < sint (payment_AmountMinor p) \<and>
     NormalizeCurrency (payment_Currency p) = payment_Currency p \<and>
     AuthorizedAt p < payment_ExpiresAt p \<and>
     (payment_Status p = StatusCaptured \<longrightarrow> CapturedAt p \<noteq> None) \<and>
     (payment_Status p = StatusSettled \<longrightarrow> SettledAt p \<noteq> None)"

text \<open>
  A stored payment: its merchant exists, its payer exists with its currency, and the hold it names
  matches it.
\<close>

definition payment_linked :: "ledger \<Rightarrow> payment \<Rightarrow> bool" where
  "payment_linked L p \<longleftrightarrow> payment_ok p \<and> map_of (l_merchants L) (payment_MerchantID p) \<noteq> None \<and>
     (\<exists>y. map_of (l_payers L) (payment_PayerID p) = Some y \<and> payment_Currency p = payer_Currency y) \<and>
     (\<exists>h. map_of (l_holds L) (AuthorizationHoldID p) = Some h \<and> hold_matches p h)"

definition ledger_keys_ok :: "ledger \<Rightarrow> bool" where
  "ledger_keys_ok L \<longleftrightarrow> gm_wf merchant_ID (l_merchants L) \<and> gm_wf payer_ID (l_payers L) \<and>
     gm_wf payment_ID (l_payments L) \<and> gm_wf hold_ID (l_holds L) \<and> gm_wf event_ID (l_events L)"

definition ledger_ok :: "ledger \<Rightarrow> bool" where
  "ledger_ok L \<longleftrightarrow> ledger_keys_ok L \<and>
     (\<forall>i m. map_of (l_merchants L) i = Some m \<longrightarrow> merchant_ok m) \<and>
     (\<forall>i y. map_of (l_payers L) i = Some y \<longrightarrow>
        payer_ok y \<and> sint (HeldBalanceMinor y) = held_total L i) \<and>
     (\<forall>i p. map_of (l_payments L) i = Some p \<longrightarrow> payment_linked L p) \<and>
     (\<forall>i h. map_of (l_holds L) i = Some h \<longrightarrow>
        (\<exists>p. map_of (l_payments L) (hold_PaymentID h) = Some p \<and> AuthorizationHoldID p = i))"

definition empty_ledger :: ledger where
  "empty_ledger = \<lparr>l_merchants = [], l_payers = [], l_payments = [], l_holds = [], l_events = []\<rparr>"

lemma ledger_ok_empty: "ledger_ok empty_ledger"
  by (simp add: ledger_ok_def ledger_keys_ok_def empty_ledger_def)

lemma ledger_okI:
  assumes "ledger_keys_ok L"
    and "\<And>i m. map_of (l_merchants L) i = Some m \<Longrightarrow> merchant_ok m"
    and "\<And>i y. map_of (l_payers L) i = Some y \<Longrightarrow> payer_ok y"
    and "\<And>i y. map_of (l_payers L) i = Some y \<Longrightarrow> sint (HeldBalanceMinor y) = held_total L i"
    and "\<And>i p. map_of (l_payments L) i = Some p \<Longrightarrow> payment_linked L p"
    and "\<And>i h. map_of (l_holds L) i = Some h \<Longrightarrow>
      \<exists>p. map_of (l_payments L) (hold_PaymentID h) = Some p \<and> AuthorizationHoldID p = i"
  shows "ledger_ok L"
  using assms unfolding ledger_ok_def by blast

lemma ledger_okD:
  assumes "ledger_ok L"
  shows "ledger_keys_ok L"
    and "map_of (l_merchants L) i = Some m \<Longrightarrow> merchant_ok m"
    and "map_of (l_payers L) i = Some y \<Longrightarrow> payer_ok y"
    and "map_of (l_payers L) i = Some y \<Longrightarrow> sint (HeldBalanceMinor y) = held_total L i"
    and "map_of (l_payments L) i = Some p \<Longrightarrow> payment_linked L p"
    and "map_of (l_holds L) i = Some h \<Longrightarrow>
      \<exists>p. map_of (l_payments L) (hold_PaymentID h) = Some p \<and> AuthorizationHoldID p = i"
  using assms unfolding ledger_ok_def by blast+

lemma ledger_keys_okD:
  assumes "ledger_keys_ok L"
  shows "gm_wf merchant_ID (l_merchants L)" "gm_wf payer_ID (l_payers L)"
    "gm_wf payment_ID (l_payments L)" "gm_wf hold_ID (l_holds L)" "gm_wf event_ID (l_events L)"
  using assms unfolding ledger_keys_ok_def by simp_all

text \<open>The hold of a stored payment, found by the payment's identifier.\<close>

lemma hold_of_payment:
  assumes "ledger_ok L" "map_of (l_payments L) pid = Some p"
    and "map_of (l_holds L) hid = Some h" "hold_PaymentID h = pid"
  shows "hid = AuthorizationHoldID p" "hold_matches p h"
proof -
  show "hid = AuthorizationHoldID p"
    using ledger_okD(6) [OF assms(1,3)] assms(2,4) by auto
  with ledger_okD(5) [OF assms(1,2)] assms(3) show "hold_matches p h"
    unfolding payment_linked_def by auto
qed

end
