(* ===== verification/OutboxFacts.thy ===== *)
theory OutboxFacts
  imports Outbox
begin

text \<open>
  Lemmas on the outbox: what each transition of an event does, what a claim takes and leaves,
  the claim loop, and the reference definition of the statistics.
\<close>

section \<open>Event transitions\<close>

text \<open>What an event is about: its type and its aggregate. No transition changes it.\<close>

definition event_label :: "event \<Rightarrow> string \<times> string" where
  "event_label e = (EventType e, AggregateID e)"

text \<open>The event as a successful claim returns it.\<close>

definition claimed_by :: "string \<Rightarrow> time \<Rightarrow> event \<Rightarrow> event" where
  "claimed_by workerID now e = e\<lparr>event_Status := EventInProgress, Attempts := Attempts e + 1,
     LockedAt := Some now, LockedBy := Some workerID, event_LastError := None,
     event_UpdatedAt := now\<rparr>"

lemma claimed_by_simps [simp]:
  "event_ID (claimed_by w now e) = event_ID e"
  "event_Status (claimed_by w now e) = EventInProgress"
  "Payload (claimed_by w now e) = Payload e"
  "AvailableAt (claimed_by w now e) = AvailableAt e"
  "event_label (claimed_by w now e) = event_label e"
  by (simp_all add: claimed_by_def event_label_def)

lemma NewEvent_success [op_success]:
  "NewEvent i rnd = Inr e \<longleftrightarrow>
   trim_space (nei_AggregateType i) \<noteq> '''' \<and> trim_space (nei_AggregateID i) \<noteq> '''' \<and>
   trim_space (nei_EventType i) \<noteq> '''' \<and> json_times_ok (nei_Payload i) \<and>
   (\<exists>eid. new_id ''evt'' rnd = Inr eid \<and>
     e = \<lparr>event_ID = eid, AggregateType = trim_space (nei_AggregateType i),
       AggregateID = trim_space (nei_AggregateID i), EventType = trim_space (nei_EventType i),
       Payload = nei_Payload i, event_Status = EventPending, Attempts = 0,
       AvailableAt = nei_Now i, event_CreatedAt = nei_Now i, event_UpdatedAt = nei_Now i,
       LockedAt = None, LockedBy = None, PublishedAt = None, event_LastError = None\<rparr>)"
  by (auto simp: NewEvent_def Let_def utc_def json_marshal_def split: sum.splits)

lemma Claim_success [op_success]:
  "Claim e w now = Inr e' \<longleftrightarrow>
   trim_space w \<noteq> '''' \<and> (event_Status e = EventPending \<or> event_Status e = EventFailed) \<and>
   e' = claimed_by (trim_space w) now e"
  by (auto simp: Claim_def Let_def utc_def claimed_by_def)

lemma MarkPublished_success [op_success]:
  "MarkPublished e now = Inr e' \<longleftrightarrow>
   event_Status e = EventInProgress \<and>
   e' = e\<lparr>event_Status := EventPublished, PublishedAt := Some now, LockedAt := None,
          LockedBy := None, event_LastError := None, event_UpdatedAt := now\<rparr>"
  by (auto simp: MarkPublished_def Let_def utc_def)

lemma MarkFailed_success [op_success]:
  "MarkFailed e msg nxt now = Inr e' \<longleftrightarrow>
   event_Status e = EventInProgress \<and> trim_space msg \<noteq> '''' \<and>
   e' = e\<lparr>event_Status := EventFailed, AvailableAt := nxt, LockedAt := None, LockedBy := None,
          PublishedAt := None, event_LastError := Some (trim_space msg), event_UpdatedAt := now\<rparr>"
  by (auto simp: MarkFailed_def Let_def utc_def)

section \<open>Repository lemmas\<close>

lemma CreateEvent_success [op_success]:
  "CreateEvent ce e m = (Inr e', m') \<longleftrightarrow>
   ce = None \<and> map_of m (event_ID e) = None \<and> e' = e \<and> m' = AList.update (event_ID e) e m"
  by (auto simp: CreateEvent_def split: option.splits)

lemma CreateEvent_error: "CreateEvent ce e m = (Inl err, m') \<Longrightarrow> m' = m"
  by (auto simp: CreateEvent_def split: option.splits)

lemma MarkEventPublished_success [op_success]:
  "MarkEventPublished ce i now m = (Inr e', m') \<longleftrightarrow>
   ce = None \<and> m' = AList.update i e' m \<and>
   (\<exists>e. map_of m i = Some e \<and> MarkPublished e now = Inr e')"
  by (auto simp: MarkEventPublished_def split: option.splits sum.splits)

lemma MarkEventFailed_success [op_success]:
  "MarkEventFailed ce i m = (Inr e', m') \<longleftrightarrow>
   ce = None \<and> m' = AList.update (mfi_EventID i) e' m \<and>
   (\<exists>e. map_of m (mfi_EventID i) = Some e \<and>
     MarkFailed e (mfi_ErrorMessage i) (mfi_NextAvailable i) (mfi_Now i) = Inr e')"
  by (auto simp: MarkEventFailed_def split: option.splits sum.splits)

lemma mark_error_state:
  "MarkEventPublished ce i now m = (Inl err, m') \<Longrightarrow> m' = m"
  "MarkEventFailed ce j m = (Inl err, m') \<Longrightarrow> m' = m"
  by (auto simp: MarkEventPublished_def MarkEventFailed_def split: option.splits sum.splits)

subsection \<open>Claims\<close>

text \<open>The rows a claim may take, oldest first, and the table after it has taken some of them.\<close>

definition candidates :: "time \<Rightarrow> event gomap \<Rightarrow> event list" where
  "candidates now m = sort_key claim_key (filter (claimable now) (gm_values m))"

fun update_all :: "event list \<Rightarrow> event gomap \<Rightarrow> event gomap" where
  "update_all [] m = m"
| "update_all (e # es) m = update_all es (AList.update (event_ID e) e m)"

lemma gm_wf_update_all: "gm_wf event_ID m \<Longrightarrow> gm_wf event_ID (update_all es m)"
  by (induction es arbitrary: m) (auto simp: gm_wf_update)

lemma map_of_update_all_other:
  "i \<notin> event_ID ` set es \<Longrightarrow> map_of (update_all es m) i = map_of m i"
  by (induction es arbitrary: m) auto

lemma map_of_update_all_member:
  "distinct (map event_ID es) \<Longrightarrow> e \<in> set es \<Longrightarrow> map_of (update_all es m) (event_ID e) = Some e"
proof (induction es arbitrary: m)
  case (Cons a es)
  then show ?case
    by (cases "e = a") (auto simp: map_of_update_all_other)
qed simp

text \<open>The loop of \<open>ClaimPendingEvents\<close>: with a worker id it claims everything it is given.\<close>

lemma claim_loop_all:
  assumes "trim_space w \<noteq> ''''" "\<forall>e \<in> set es. claimable now' e"
  shows "claim_loop w now es m =
    (Inr (map (claimed_by (trim_space w) now) es), update_all (map (claimed_by (trim_space w) now) es) m)"
  using assms(2)
proof (induction es arbitrary: m)
  case (Cons e es)
  then have "Claim e w now = Inr (claimed_by (trim_space w) now e)"
    using assms(1) by (auto simp: op_success claimable_def)
  with Cons show ?case by simp
qed simp

lemma claim_loop_no_worker:
  "trim_space w = '''' \<Longrightarrow> claim_loop w now es m =
    (if es = [] then Inr [] else Inl (ErrMsg ''worker id is required''), m)"
  by (cases es) (auto simp: Claim_def)

lemma set_candidates:
  "gm_wf event_ID m \<Longrightarrow> e \<in> set (candidates now m) \<longleftrightarrow>
     map_of m (event_ID e) = Some e \<and> claimable now e"
  by (auto simp: candidates_def gm_values_lookup)

lemma ClaimPendingEvents_eq:
  assumes "trim_space (ci_WorkerID i) \<noteq> ''''" "gm_wf event_ID m"
  shows "ClaimPendingEvents None i m =
    (let es = map (claimed_by (trim_space (ci_WorkerID i)) (ci_Now i))
                (take (nat (ci_Limit i)) (candidates (ci_Now i) m))
     in (Inr es, update_all es m))"
proof (cases "ci_Limit i \<le> 0")
  case False
  let ?c = "candidates (ci_Now i) m"
  have t: "(if int (length ?c) > ci_Limit i then take (nat (ci_Limit i)) ?c else ?c) =
      take (nat (ci_Limit i)) ?c"
    by auto
  have "\<forall>e \<in> set (take (nat (ci_Limit i)) ?c). claimable (ci_Now i) e"
    using set_candidates [OF assms(2)] by (meson in_set_takeD)
  from claim_loop_all [OF assms(1) this] False show ?thesis
    unfolding ClaimPendingEvents_def Let_def candidates_def [symmetric] t by simp
qed (simp add: ClaimPendingEvents_def)

lemma ClaimPendingEvents_no_worker:
  "trim_space (ci_WorkerID i) = '''' \<Longrightarrow> snd (ClaimPendingEvents ce i m) = m"
  by (simp add: ClaimPendingEvents_def claim_loop_no_worker Let_def split: option.splits)

lemma distinct_candidates: "gm_wf event_ID m \<Longrightarrow> distinct (map event_ID (candidates now m))"
proof -
  assume wf: "gm_wf event_ID m"
  have "distinct (map event_ID (filter (claimable now) (gm_values m)))"
    using distinct_gm_values [OF wf] by (rule distinct_map_filter)
  then show ?thesis
    unfolding candidates_def by (metis append_Nil2 sort_key_prefix(4))
qed

text \<open>What a claim promises, for any repository: see the interface below.\<close>

definition claim_ok :: "event gomap \<Rightarrow> claim_input \<Rightarrow> event list \<Rightarrow> event gomap \<Rightarrow> bool" where
  "claim_ok m i es m' \<longleftrightarrow>
     distinct (map event_ID es) \<and> int (length es) \<le> max 0 (ci_Limit i) \<and>
     (\<forall>e \<in> set es. map_of m' (event_ID e) = Some e \<and>
        (\<exists>old w. map_of m (event_ID e) = Some old \<and> claimable (ci_Now i) old \<and>
           e = claimed_by w (ci_Now i) old)) \<and>
     (\<forall>k. k \<notin> event_ID ` set es \<longrightarrow> map_of m' k = map_of m k)"

lemma claim_ok_update_all:
  assumes wf: "gm_wf event_ID m" and sub: "set cs \<subseteq> set (candidates (ci_Now i) m)"
    and dist: "distinct (map event_ID cs)" and len: "int (length cs) \<le> max 0 (ci_Limit i)"
  shows "claim_ok m i (map (claimed_by w (ci_Now i)) cs)
    (update_all (map (claimed_by w (ci_Now i)) cs) m)"
proof -
  let ?es = "map (claimed_by w (ci_Now i)) cs"
  have ids: "map event_ID ?es = map event_ID cs" by simp
  then have d: "distinct (map event_ID ?es)" using dist by (simp only:)
  have "map_of (update_all ?es m) (event_ID e) = Some e" if "e \<in> set ?es" for e
    using map_of_update_all_member [OF d that] .
  moreover have "\<exists>old w. map_of m (event_ID e) = Some old \<and> claimable (ci_Now i) old \<and>
      e = claimed_by w (ci_Now i) old" if "e \<in> set ?es" for e
    using that sub set_candidates [OF wf] by fastforce
  moreover have "map_of (update_all ?es m) k = map_of m k" if "k \<notin> event_ID ` set ?es" for k
    using map_of_update_all_other [OF that] .
  ultimately show ?thesis
    using d len unfolding claim_ok_def by simp
qed

lemma ClaimPendingEvents_ok:
  assumes "gm_wf event_ID m" "ClaimPendingEvents ce i m = (Inr es, m')"
  shows "claim_ok m i es m'" "gm_wf event_ID m'"
proof -
  have ce: "ce = None" using assms(2) by (auto simp: ClaimPendingEvents_def split: option.splits)
  have "claim_ok m i es m' \<and> gm_wf event_ID m'"
  proof (cases "trim_space (ci_WorkerID i) = ''''")
    case True
    then have "es = []" "m' = m"
      using assms(2) ce
      by (auto simp: ClaimPendingEvents_def claim_loop_no_worker Let_def split: if_splits)
    then show ?thesis using assms(1) by (simp add: claim_ok_def)
  next
    case False
    let ?cs = "take (nat (ci_Limit i)) (candidates (ci_Now i) m)"
    have "es = map (claimed_by (trim_space (ci_WorkerID i)) (ci_Now i)) ?cs" "m' = update_all es m"
      using assms(2) ce ClaimPendingEvents_eq [OF False assms(1)] by (auto simp: Let_def)
    moreover have "distinct (map event_ID ?cs)"
      using distinct_candidates [OF assms(1)] by (simp add: take_map [symmetric])
    moreover have "set ?cs \<subseteq> set (candidates (ci_Now i) m)" by (rule set_take_subset)
    moreover have "int (length ?cs) \<le> max 0 (ci_Limit i)" by simp
    ultimately show ?thesis
      using claim_ok_update_all [OF assms(1), of ?cs i] gm_wf_update_all [OF assms(1)] by simp
  qed
  then show "claim_ok m i es m'" "gm_wf event_ID m'" by simp_all
qed

lemma ClaimPendingEvents_error:
  assumes "gm_wf event_ID m" "ClaimPendingEvents ce i m = (Inl err, m')"
  shows "m' = m"
  using assms ClaimPendingEvents_eq [OF _ assms(1), of i] ClaimPendingEvents_no_worker [of i ce m]
  by (cases "trim_space (ci_WorkerID i) = ''''"; cases ce)
    (auto simp: Let_def ClaimPendingEvents_def [of "Some _"])

section \<open>Statistics\<close>

text \<open>The reference: the number of claimable events and the least of their availability times.\<close>

definition oldest_available :: "time \<Rightarrow> event list \<Rightarrow> time option" where
  "oldest_available now es =
     (let ts = map AvailableAt (filter (claimable now) es) in
      if ts = [] then None else Some (Min (set ts)))"

lemma stats_loop_spec:
  "stats_loop now n oldest es =
     (n + int (length (filter (claimable now) es)),
      (case (oldest, oldest_available now es) of
         (None, t) \<Rightarrow> t | (Some t, None) \<Rightarrow> Some t | (Some t, Some u) \<Rightarrow> Some (min t u)))"
proof (induction es arbitrary: n oldest)
  case Nil
  then show ?case by (simp add: oldest_available_def split: option.split)
next
  case (Cons e es)
  show ?case
  proof (cases "claimable now e")
    case False
    then have "oldest_available now (e # es) = oldest_available now es"
      by (simp add: oldest_available_def)
    with False Cons show ?thesis by (auto simp: claimable_def)
  next
    case True
    have *: "oldest_available now (e # es) = Some (case oldest_available now es of
        None \<Rightarrow> AvailableAt e | Some u \<Rightarrow> min (AvailableAt e) u)"
    proof (cases "filter (claimable now) es = []")
      case none: True
      with True show ?thesis by (simp add: oldest_available_def)
    next
      case False
      then have "set (map AvailableAt (filter (claimable now) es)) \<noteq> {}"
        by (metis map_is_Nil_conv set_empty)
      with False True show ?thesis
        unfolding oldest_available_def Let_def
        by (simp only: filter.simps if_True list.simps(9) list.set(2) map_is_Nil_conv if_False
            option.case Min_insert finite_set list.distinct) simp
    qed
    from True have step: "stats_loop now n oldest (e # es) = stats_loop now (n + 1)
        (case oldest of None \<Rightarrow> Some (AvailableAt e)
         | Some t \<Rightarrow> if AvailableAt e < t then Some (AvailableAt e) else Some t) es"
      by (auto simp: claimable_def)
    show ?thesis
      unfolding step Cons * using True by (auto simp: min_def split: option.split)
  qed
qed

lemma Stats_success:
  assumes "is_zero now = False"
  shows "Stats None wall now m =
    (Inr \<lparr>PendingEvents = int (length (filter (claimable now) (gm_values m))),
      PublishLag = publish_lag now (oldest_available now (gm_values m))\<rparr>, m)"
  using assms by (simp add: Stats_def utc_def stats_loop_spec)

end
