(* ===== verification/LedgerSteps.thy ===== *)
theory LedgerSteps
  imports Ledger OutboxFacts
begin

text \<open>
  The abstract specification of the payment service: each use case is one write of a payer, a
  payment, a hold and an event to the ledger. These lemmas say that the writes keep the ledger
  invariant and every payer's \<open>funds\<close>; they know nothing of repositories or transactions.
\<close>

section \<open>New events\<close>

lemma length_update_new: "map_of m k = None \<Longrightarrow> length (AList.update k v m) = Suc (length m)"
  by (induction m) (auto split: if_splits)

text \<open>\<open>n\<close> events are new, and the old ones are as they were.\<close>

definition events_added :: "event gomap \<Rightarrow> nat \<Rightarrow> event gomap \<Rightarrow> bool" where
  "events_added es n es' \<longleftrightarrow> length es' = length es + n \<and> map_of es \<subseteq>\<^sub>m map_of es'"

lemma events_added_refl [simp]: "events_added es 0 es"
  by (simp add: events_added_def)

lemma events_added_new:
  assumes new: "map_of es k = None" and rest: "events_added (AList.update k e es) n es'"
  shows "events_added es (Suc n) es'"
proof -
  have "map_of es \<subseteq>\<^sub>m map_of (AList.update k e es)" using new by (auto simp: map_le_def)
  then show ?thesis
    using rest length_update_new [OF new, of e] map_le_trans unfolding events_added_def by force
qed

text \<open>A new event with the type and the aggregate \<open>l\<close>; events with the labels \<open>ls\<close>, one after the other.\<close>

definition event_for :: "string \<times> string \<Rightarrow> event \<Rightarrow> bool" where
  "event_for l e \<longleftrightarrow> event_label e = l \<and> event_Status e = EventPending"

fun events_for :: "(string \<times> string) list \<Rightarrow> event gomap \<Rightarrow> event gomap \<Rightarrow> bool" where
  "events_for [] es es' \<longleftrightarrow> es' = es"
| "events_for (l # ls) es es' \<longleftrightarrow> (\<exists>e. event_for l e \<and> map_of es (event_ID e) = None \<and>
     events_for ls (AList.update (event_ID e) e es) es')"

lemma events_for_added: "events_for ls es es' \<Longrightarrow> events_added es (length ls) es'"
  by (induction ls arbitrary: es) (auto intro: events_added_new)

lemma events_for_member:
  assumes "events_for ls es es'" "l \<in> set ls"
  shows "\<exists>e. event_for l e \<and> map_of es (event_ID e) = None \<and> map_of es' (event_ID e) = Some e"
  using assms
proof (induction ls arbitrary: es)
  case (Cons l' ls)
  then obtain e where e: "event_for l' e" "map_of es (event_ID e) = None"
    "events_for ls (AList.update (event_ID e) e es) es'" by auto
  show ?case
  proof (cases "l = l'")
    case True
    have "map_of es' (event_ID e) = Some e"
      using events_for_added [OF e(3)] unfolding events_added_def map_le_def by auto
    then show ?thesis using e True by blast
  next
    case False
    then obtain x where "event_for l x" "map_of (AList.update (event_ID e) e es) (event_ID x) = None"
      "map_of es' (event_ID x) = Some x"
      using Cons.IH [OF e(3)] Cons.prems(2) by auto
    then show ?thesis by (auto split: if_splits)
  qed
qed simp

lemma NewEvent_label:
  assumes "NewEvent i rnd = Inr e0" "same_event e0 e"
    and "trim_space (nei_AggregateID i) = nei_AggregateID i" "trim_space (nei_EventType i) = nei_EventType i"
  shows "event_for (nei_EventType i, nei_AggregateID i) e"
  using assms(1,3,4) same_eventD [OF assms(2)] by (auto simp: NewEvent_success event_for_def event_label_def)

section \<open>One write to the ledger\<close>

definition ledger_write :: "payer \<Rightarrow> payment \<Rightarrow> hold \<Rightarrow> event \<Rightarrow> ledger \<Rightarrow> ledger" where
  "ledger_write y p h e L = L\<lparr>
     l_payers := AList.update (payer_ID y) y (l_payers L),
     l_payments := AList.update (payment_ID p) p (l_payments L),
     l_holds := AList.update (hold_ID h) h (l_holds L),
     l_events := AList.update (event_ID e) e (l_events L)\<rparr>"

lemma ledger_write_sel [simp]:
  "l_merchants (ledger_write y p h e L) = l_merchants L"
  "l_payers (ledger_write y p h e L) = AList.update (payer_ID y) y (l_payers L)"
  "l_payments (ledger_write y p h e L) = AList.update (payment_ID p) p (l_payments L)"
  "l_holds (ledger_write y p h e L) = AList.update (hold_ID h) h (l_holds L)"
  "l_events (ledger_write y p h e L) = AList.update (event_ID e) e (l_events L)"
  by (simp_all add: ledger_write_def)

lemma ledger_keys_ok_write: "ledger_keys_ok L \<Longrightarrow> ledger_keys_ok (ledger_write y p h e L)"
  by (simp add: ledger_keys_ok_def gm_wf_update)

subsection \<open>Sums after a write\<close>

lemma held_total_write_new:
  "map_of (l_holds L) (hold_ID h) = None \<Longrightarrow>
   held_total (ledger_write y p h e L) i = held_total L i + held_by i h"
  by (simp add: held_total_def msum_update_new)

lemma held_total_write_old:
  "ledger_keys_ok L \<Longrightarrow> map_of (l_holds L) (hold_ID h) = Some h0 \<Longrightarrow>
   held_total (ledger_write y p h e L) i = held_total L i - held_by i h0 + held_by i h"
  using msum_update_old [OF gm_wf_distinct [OF ledger_keys_okD(4)]]
  by (simp add: held_total_def)

lemma captured_total_write_new:
  "map_of (l_payments L) (payment_ID p) = None \<Longrightarrow>
   captured_total (ledger_write y p h e L) i = captured_total L i + captured_of i p"
  by (simp add: captured_total_def msum_update_new)

lemma captured_total_write_old:
  "ledger_keys_ok L \<Longrightarrow> map_of (l_payments L) (payment_ID p) = Some p0 \<Longrightarrow>
   captured_total (ledger_write y p h e L) i = captured_total L i - captured_of i p0 + captured_of i p"
  using msum_update_old [OF gm_wf_distinct [OF ledger_keys_okD(3)]]
  by (simp add: captured_total_def)

text \<open>
  The writes a payment has cost its payer: one when it is authorized, one more when its authorization
  ends. A payer's version counts them.
\<close>

definition turns_of :: "string \<Rightarrow> payment \<Rightarrow> int" where
  "turns_of pid p = (if payment_PayerID p \<noteq> pid then 0 else if payment_Status p = StatusAuthorized then 1 else 2)"

definition turns :: "ledger \<Rightarrow> string \<Rightarrow> int" where
  "turns L pid = msum (turns_of pid) (l_payments L)"

lemma turns_bounds: "0 \<le> turns L i \<and> turns L i \<le> 2 * int (length (l_payments L))"
proof -
  have "0 \<le> msum (turns_of i) m \<and> msum (turns_of i) m \<le> 2 * int (length m)" for m
    by (induction m) (auto simp: msum_def gm_values_def turns_of_def)
  then show ?thesis by (simp add: turns_def)
qed

lemma turns_write_new:
  "map_of (l_payments L) (payment_ID p) = None \<Longrightarrow> turns (ledger_write y p h e L) i = turns L i + turns_of i p"
  by (simp add: turns_def msum_update_new)

lemma turns_write_old:
  "ledger_keys_ok L \<Longrightarrow> map_of (l_payments L) (payment_ID p) = Some p0 \<Longrightarrow>
   turns (ledger_write y p h e L) i = turns L i - turns_of i p0 + turns_of i p"
  using msum_update_old [OF gm_wf_distinct [OF ledger_keys_okD(3)]] by (simp add: turns_def)

lemma held_total_covers:
  assumes "ledger_ok L" "map_of (l_holds L) hid = Some h"
    and "hold_Status h = HoldStatusHeld"
  shows "sint (hold_AmountMinor h) \<le> held_total L (hold_PayerID h)"
proof -
  have nonneg: "0 \<le> held_by i g" if g: "map_of (l_holds L) k = Some g" for i k g
  proof -
    obtain p where p: "map_of (l_payments L) (hold_PaymentID g) = Some p"
      using ledger_okD(6) [OF assms(1) g] by blast
    then have "hold_matches p g" "payment_ok p"
      using hold_of_payment(2) [OF assms(1) p g refl] ledger_okD(5) [OF assms(1) p]
      by (auto simp: payment_linked_def)
    then show ?thesis by (auto simp: held_by_def hold_matches_def payment_ok_def)
  qed
  have "distinct (map fst (l_holds L))"
    using gm_wf_distinct [OF ledger_keys_okD(4) [OF ledger_okD(1) [OF assms(1)]]] .
  from msum_ge_member [OF this assms(2), of "held_by (hold_PayerID h)"] nonneg
  have "held_by (hold_PayerID h) h \<le> held_total L (hold_PayerID h)"
    unfolding held_total_def by blast
  then show ?thesis using assms(3) by (simp add: held_by_def)
qed

section \<open>A new payment with its hold\<close>

text \<open>What \<open>AuthorizePayment\<close> writes, in terms of the ledger before it.\<close>

definition authorize_writes :: "ledger \<Rightarrow> payer \<Rightarrow> payer \<Rightarrow> payment \<Rightarrow> hold \<Rightarrow> bool" where
  "authorize_writes L y0 y p h \<longleftrightarrow>
     map_of (l_payers L) (payer_ID y0) = Some y0 \<and>
     (\<exists>c now y1. Reserve y0 (payment_AmountMinor p) c now = Inr y1 \<and> same_payer y1 y) \<and>
     map_of (l_payments L) (payment_ID p) = None \<and> map_of (l_holds L) (hold_ID h) = None \<and>
     map_of (l_merchants L) (payment_MerchantID p) \<noteq> None \<and>
     payment_ok p \<and> payment_Status p = StatusAuthorized \<and> hold_matches p h \<and>
     payment_PayerID p = payer_ID y0 \<and> payment_Currency p = payer_Currency y0"

lemma authorize_writesD:
  assumes ok: "ledger_ok L" and w: "authorize_writes L y0 y p h"
  shows "map_of (l_payers L) (payer_ID y0) = Some y0" "payer_ID y = payer_ID y0"
    "payer_Currency y = payer_Currency y0" "payer_ok y" "payer_total y = payer_total y0"
    "sint (HeldBalanceMinor y) = sint (HeldBalanceMinor y0) + sint (payment_AmountMinor p)"
proof -
  obtain c now y1 where R: "Reserve y0 (payment_AmountMinor p) c now = Inr y1" and y: "same_payer y1 y"
    using w by (auto simp: authorize_writes_def)
  show y0: "map_of (l_payers L) (payer_ID y0) = Some y0"
    using w by (simp add: authorize_writes_def)
  have y0_ok: "payer_ok y0" using ledger_okD(3) [OF ok y0] .
  show "payer_ID y = payer_ID y0" "payer_Currency y = payer_Currency y0"
    using R same_payerD [OF y] by (auto simp: op_success)
  show "payer_ok y" "payer_total y = payer_total y0"
    "sint (HeldBalanceMinor y) = sint (HeldBalanceMinor y0) + sint (payment_AmountMinor p)"
    using Reserve_balances [OF y0_ok R] same_payerD [OF y] by simp_all
qed

lemma authorize_writes_ok:
  assumes ok: "ledger_ok L" and w: "authorize_writes L y0 y p h"
  shows "ledger_ok (ledger_write y p h e L)"
proof -
  note D = authorize_writesD [OF ok w]
  note y0 = D(1) and ids = D(2,3)
  have new: "map_of (l_payments L) (payment_ID p) = None" "map_of (l_holds L) (hold_ID h) = None"
    and match: "hold_matches p h" and p: "payment_ok p" "payment_Status p = StatusAuthorized"
      "payment_PayerID p = payer_ID y0" "payment_Currency p = payer_Currency y0"
      "map_of (l_merchants L) (payment_MerchantID p) \<noteq> None"
    using w by (simp_all add: authorize_writes_def)
  have by_h: "held_by i h = (if i = payer_ID y0 then sint (payment_AmountMinor p) else 0)" for i
    using match p(2,3) by (auto simp: held_by_def hold_matches_def)
  note held = held_total_write_new [OF new(2), of y p e] by_h
  show ?thesis
  proof (rule ledger_okI)
    show "ledger_keys_ok (ledger_write y p h e L)"
      using ledger_okD(1) [OF ok] by (rule ledger_keys_ok_write)
    show "merchant_ok m" if "map_of (l_merchants (ledger_write y p h e L)) i = Some m" for i m
      using that ledger_okD(2) [OF ok] by auto
    show "payer_ok z" if "map_of (l_payers (ledger_write y p h e L)) i = Some z" for i z
      using that ledger_okD(3) [OF ok] D(4) by (auto split: if_splits)
    show "sint (HeldBalanceMinor z) = held_total (ledger_write y p h e L) i"
      if "map_of (l_payers (ledger_write y p h e L)) i = Some z" for i z
      using that ledger_okD(4) [OF ok] y0 D(6) by (auto simp: held ids split: if_splits)
    show "payment_linked (ledger_write y p h e L) q"
      if "map_of (l_payments (ledger_write y p h e L)) i = Some q" for i q
    proof (cases "i = payment_ID p")
      case True
      with that p match ids show ?thesis
        by (auto simp: payment_linked_def hold_matches_def)
    next
      case False
      with that have "payment_linked L q" using ledger_okD(5) [OF ok] by auto
      then show ?thesis using new(2) y0 ids by (fastforce simp: payment_linked_def)
    qed
    show "\<exists>q. map_of (l_payments (ledger_write y p h e L)) (hold_PaymentID g) = Some q \<and>
        AuthorizationHoldID q = i"
      if "map_of (l_holds (ledger_write y p h e L)) i = Some g" for i g
    proof (cases "i = hold_ID h")
      case True
      with that match show ?thesis by (auto simp: hold_matches_def)
    next
      case False
      with that obtain q where "map_of (l_payments L) (hold_PaymentID g) = Some q"
        "AuthorizationHoldID q = i"
        using ledger_okD(6) [OF ok, of i g] by auto
      with new(1) show ?thesis by auto
    qed
  qed
qed

lemma authorize_writes_funds:
  assumes ok: "ledger_ok L" and w: "authorize_writes L y0 y p h"
  shows "funds (ledger_write y p h e L) i = funds L i"
proof -
  have "captured_total (ledger_write y p h e L) j = captured_total L j" for j
    using w captured_total_write_new [of L p] by (auto simp: authorize_writes_def captured_of_def)
  then show ?thesis
    using authorize_writesD [OF ok w] by (simp add: funds_def)
qed

lemma authorize_writes_turns:
  assumes ok: "ledger_ok L" and w: "authorize_writes L y0 y p h"
  shows "turns (ledger_write y p h e L) i = turns L i + (if i = payer_ID y0 then 1 else 0)"
    and "payer_Version y = payer_Version y0 + 1"
proof -
  show "turns (ledger_write y p h e L) i = turns L i + (if i = payer_ID y0 then 1 else 0)"
    using w by (simp add: authorize_writes_def turns_write_new turns_of_def)
  obtain c now y1 where "Reserve y0 (payment_AmountMinor p) c now = Inr y1" "same_payer y1 y"
    using w unfolding authorize_writes_def by blast
  then show "payer_Version y = payer_Version y0 + 1" by (auto simp: op_success same_payerD(5))
qed

section \<open>A payment that ends its authorization\<close>

text \<open>What \<open>CapturePayment\<close> and \<open>ExpireAuthorizedPayments\<close> write.\<close>

definition finish_writes ::
  "ledger \<Rightarrow> payer \<Rightarrow> payer \<Rightarrow> payment \<Rightarrow> payment \<Rightarrow> hold \<Rightarrow> hold \<Rightarrow> bool" where
  "finish_writes L y0 y p0 p h0 h \<longleftrightarrow>
     map_of (l_payments L) (payment_ID p0) = Some p0 \<and>
     map_of (l_holds L) (hold_ID h0) = Some h0 \<and> hold_PaymentID h0 = payment_ID p0 \<and>
     map_of (l_payers L) (payment_PayerID p0) = Some y0 \<and>
     payment_ok p \<and>
     (\<exists>now p1 h1 y1. same_payment p1 p \<and> same_hold h1 h \<and> same_payer y1 y \<and>
       (Payment_Capture p0 now = Inr p1 \<and> Hold_Capture h0 now = Inr h1 \<and>
        CaptureHeld y0 (payment_AmountMinor p0) (payment_Currency p0) now = Inr y1 \<or>
        Payment_Expire p0 now = Inr p1 \<and> Hold_Release h0 now = Inr h1 \<and>
        Release y0 (payment_AmountMinor p0) (payment_Currency p0) now = Inr y1))"

text \<open>What both have in common.\<close>

lemma finish_writesD:
  assumes ok: "ledger_ok L" and w: "finish_writes L y0 y p0 p h0 h"
  shows "payer_ID y = payer_ID y0" "payer_Currency y = payer_Currency y0"
    "map_of (l_payers L) (payer_ID y0) = Some y0" "payer_ID y0 = payment_PayerID p0"
    "payment_ID p = payment_ID p0" "hold_ID h = hold_ID h0" "hold_PaymentID h = hold_PaymentID h0"
    "payment_PayerID p = payment_PayerID p0" "AuthorizationHoldID p = AuthorizationHoldID p0"
    "payment_Currency p = payment_Currency p0" "payment_AmountMinor p = payment_AmountMinor p0"
    "hold_matches p0 h0" "hold_matches p h" "payment_ok p"
    "payment_Status p0 = StatusAuthorized" "hold_Status h0 = HoldStatusHeld"
    "hold_Status h \<noteq> HoldStatusHeld"
    "payer_ok y" "sint (HeldBalanceMinor y) = sint (HeldBalanceMinor y0) - sint (payment_AmountMinor p0)"
    "payer_total y = payer_total y0 - (if payment_Status p = StatusCaptured then sint (payment_AmountMinor p0) else 0)"
    "payment_Status p \<in> {StatusCaptured, StatusExpired}"
    "payment_MerchantID p = payment_MerchantID p0"
    "payer_Version y = payer_Version y0 + 1"
proof -
  have stored: "map_of (l_payments L) (payment_ID p0) = Some p0"
    "map_of (l_holds L) (hold_ID h0) = Some h0" "hold_PaymentID h0 = payment_ID p0"
    "map_of (l_payers L) (payment_PayerID p0) = Some y0"
    using w by (simp_all add: finish_writes_def)
  show y0_id: "payer_ID y0 = payment_PayerID p0"
    using stored(4) ledger_okD(1) [OF ok] by (auto simp: ledger_keys_ok_def dest: gm_wf_key)
  then show "map_of (l_payers L) (payer_ID y0) = Some y0" using stored(4) by simp
  show match0: "hold_matches p0 h0" using hold_of_payment(2) [OF ok stored(1-3)] .
  have y0_ok: "payer_ok y0" using ledger_okD(3) [OF ok stored(4)] .
  obtain now p1 h1 y1 where same: "same_payment p1 p" "same_hold h1 h" "same_payer y1 y"
    and fin: "Payment_Capture p0 now = Inr p1 \<and> Hold_Capture h0 now = Inr h1 \<and>
        CaptureHeld y0 (payment_AmountMinor p0) (payment_Currency p0) now = Inr y1 \<or>
        Payment_Expire p0 now = Inr p1 \<and> Hold_Release h0 now = Inr h1 \<and>
        Release y0 (payment_AmountMinor p0) (payment_Currency p0) now = Inr y1"
    using w unfolding finish_writes_def by blast
  note same = same_paymentD [OF same(1)] same_holdD [OF same(2)] same_payerD [OF same(3)]
  show "payer_ID y = payer_ID y0" "payer_Currency y = payer_Currency y0"
    "payment_ID p = payment_ID p0" "hold_ID h = hold_ID h0" "hold_PaymentID h = hold_PaymentID h0"
    "payment_PayerID p = payment_PayerID p0" "AuthorizationHoldID p = AuthorizationHoldID p0"
    "payment_Currency p = payment_Currency p0" "payment_AmountMinor p = payment_AmountMinor p0"
    "payment_Status p0 = StatusAuthorized" "hold_Status h0 = HoldStatusHeld"
    "hold_Status h \<noteq> HoldStatusHeld" "payment_Status p \<in> {StatusCaptured, StatusExpired}"
    "payment_MerchantID p = payment_MerchantID p0" "payer_Version y = payer_Version y0 + 1"
    using fin by (auto simp: same op_success)
  show "hold_matches p h" using fin match0 by (auto simp: same op_success hold_matches_def)
  show "payment_ok p" using w by (simp add: finish_writes_def)
  show "payer_ok y" "sint (HeldBalanceMinor y) = sint (HeldBalanceMinor y0) - sint (payment_AmountMinor p0)"
    using fin CaptureHeld_balances [OF y0_ok] Release_balances [OF y0_ok] by (auto simp: same)
  show "payer_total y = payer_total y0 - (if payment_Status p = StatusCaptured then sint (payment_AmountMinor p0) else 0)"
    using fin CaptureHeld_balances [OF y0_ok] Release_balances [OF y0_ok]
    by (auto simp: same Payment_Expire_success Payment_Capture_success)
qed

text \<open>What never changes in a payment, and the order of its statuses.\<close>

definition same_deal :: "payment \<Rightarrow> payment \<Rightarrow> bool" where
  "same_deal p0 p \<longleftrightarrow> payment_ID p = payment_ID p0 \<and> payment_MerchantID p = payment_MerchantID p0 \<and>
     payment_PayerID p = payment_PayerID p0 \<and> payment_AmountMinor p = payment_AmountMinor p0 \<and>
     payment_Currency p = payment_Currency p0 \<and> AuthorizationHoldID p = AuthorizationHoldID p0"

lemma same_dealD: "same_deal p0 p \<Longrightarrow> payment_ID p = payment_ID p0"
  unfolding same_deal_def by simp

lemma same_deal_refl [simp]: "same_deal p p"
  unfolding same_deal_def by simp

lemma same_deal_trans: "same_deal p q \<Longrightarrow> same_deal q r \<Longrightarrow> same_deal p r"
  unfolding same_deal_def by simp

lemma same_payment_deal: "same_payment p q \<Longrightarrow> same_deal p q"
  using same_paymentD [of p q] unfolding same_deal_def by simp

lemma finish_writes_deal:
  assumes ok: "ledger_ok L" and w: "finish_writes L y0 y p0 p h0 h"
  shows "same_deal p0 p"
  using finish_writesD [OF ok w] unfolding same_deal_def by simp

lemma finish_writes_ok:
  assumes ok: "ledger_ok L" and w: "finish_writes L y0 y p0 p h0 h"
  shows "ledger_ok (ledger_write y p h e L)"
proof -
  note D = finish_writesD [OF ok w]
  have stored: "map_of (l_payments L) (payment_ID p) = Some p0"
    "map_of (l_holds L) (hold_ID h) = Some h0"
    using w D(5,6) by (simp_all add: finish_writes_def)
  have by_h: "held_by i h = 0"
    "held_by i h0 = (if i = payer_ID y0 then sint (payment_AmountMinor p0) else 0)" for i
    using D(4,12,16,17) by (auto simp: held_by_def hold_matches_def)
  note held = held_total_write_old [OF ledger_okD(1) [OF ok] stored(2), of y p e] by_h
  show ?thesis
  proof (rule ledger_okI)
    show "ledger_keys_ok (ledger_write y p h e L)"
      using ledger_okD(1) [OF ok] by (rule ledger_keys_ok_write)
    show "merchant_ok m" if "map_of (l_merchants (ledger_write y p h e L)) i = Some m" for i m
      using that ledger_okD(2) [OF ok] by auto
    show "payer_ok z" if "map_of (l_payers (ledger_write y p h e L)) i = Some z" for i z
      using that ledger_okD(3) [OF ok] D(18) by (auto split: if_splits)
    show "sint (HeldBalanceMinor z) = held_total (ledger_write y p h e L) i"
      if "map_of (l_payers (ledger_write y p h e L)) i = Some z" for i z
      using that ledger_okD(4) [OF ok] D(1,3,19) by (auto simp: held split: if_splits)
    show "payment_linked (ledger_write y p h e L) q"
      if "map_of (l_payments (ledger_write y p h e L)) i = Some q" for i q
    proof (cases "i = payment_ID p")
      case True
      then have "q = p" using that by simp
      moreover have "payment_linked L p0" using ledger_okD(5) [OF ok stored(1)] .
      ultimately show ?thesis
        using D(1-4,8,10,13,14,22) by (auto simp: payment_linked_def hold_matches_def)
    next
      case False
      with that have q: "map_of (l_payments L) i = Some q" by simp
      then have link: "payment_linked L q" using ledger_okD(5) [OF ok] by auto
      have "AuthorizationHoldID q \<noteq> hold_ID h"
      proof
        assume "AuthorizationHoldID q = hold_ID h"
        with link stored(2) have "hold_PaymentID h0 = payment_ID q"
          by (auto simp: payment_linked_def hold_matches_def)
        moreover have "payment_ID q = i"
          using q ledger_okD(1) [OF ok] by (auto simp: ledger_keys_ok_def dest: gm_wf_key)
        ultimately show False using False D(5,12) by (simp add: hold_matches_def)
      qed
      with link D(1-3) show ?thesis by (fastforce simp: payment_linked_def)
    qed
    show "\<exists>q. map_of (l_payments (ledger_write y p h e L)) (hold_PaymentID g) = Some q \<and>
        AuthorizationHoldID q = i"
      if "map_of (l_holds (ledger_write y p h e L)) i = Some g" for i g
    proof (cases "i = hold_ID h")
      case True
      with that D(13) show ?thesis by (auto simp: hold_matches_def)
    next
      case False
      with that obtain q where "map_of (l_payments L) (hold_PaymentID g) = Some q"
        "AuthorizationHoldID q = i"
        using ledger_okD(6) [OF ok, of i g] by auto
      then show ?thesis using stored(1) D(9) by auto
    qed
  qed
qed

lemma finish_writes_funds:
  assumes ok: "ledger_ok L" and w: "finish_writes L y0 y p0 p h0 h"
  shows "funds (ledger_write y p h e L) i = funds L i"
proof -
  note D = finish_writesD [OF ok w]
  have stored: "map_of (l_payments L) (payment_ID p) = Some p0"
    using w D(5) by (simp add: finish_writes_def)
  have "captured_of j p0 = 0" "captured_of j p =
      (if j = payer_ID y0 \<and> payment_Status p = StatusCaptured then sint (payment_AmountMinor p0) else 0)" for j
    using D(4,8,11,15,21) by (auto simp: captured_of_def)
  then show ?thesis
    using captured_total_write_old [OF ledger_okD(1) [OF ok] stored, of y h e] D(1,3,20)
    by (auto simp: funds_def)
qed

lemma finish_writes_turns:
  assumes ok: "ledger_ok L" and w: "finish_writes L y0 y p0 p h0 h"
  shows "turns (ledger_write y p h e L) i = turns L i + (if i = payer_ID y0 then 1 else 0)"
proof -
  note D = finish_writesD [OF ok w]
  have stored: "map_of (l_payments L) (payment_ID p) = Some p0"
    using w D(5) by (simp add: finish_writes_def)
  show ?thesis
    using turns_write_old [OF ledger_okD(1) [OF ok] stored, of y h e i] D(4,8,15,21) by (auto simp: turns_of_def)
qed

section \<open>An authorized payment can end its authorization\<close>

text \<open>
  Under the invariant the hold of an authorized payment is live and its payer holds the money:
  neither a capture nor a release can fail for lack of it.
\<close>

lemma authorized_can_finish:
  assumes ok: "ledger_ok L" and p0: "map_of (l_payments L) pid = Some p0"
    and auth: "payment_Status p0 = StatusAuthorized"
  obtains h0 y0 where "map_of (l_holds L) (hold_ID h0) = Some h0" "hold_PaymentID h0 = payment_ID p0"
    "hold_Status h0 = HoldStatusHeld"
    "map_of (l_payers L) (payment_PayerID p0) = Some y0"
    "sint (payment_AmountMinor p0) \<le> sint (HeldBalanceMinor y0)" "0 < sint (payment_AmountMinor p0)"
    "payer_Currency y0 = NormalizeCurrency (payment_Currency p0)"
    "\<forall>j g. map_of (l_holds L) j = Some g \<longrightarrow> hold_PaymentID g = payment_ID p0 \<longrightarrow> j = hold_ID h0"
proof -
  have link: "payment_linked L p0" using ledger_okD(5) [OF ok p0] .
  have pid: "payment_ID p0 = pid"
    using gm_wf_key [OF ledger_keys_okD(3) [OF ledger_okD(1) [OF ok]] p0] .
  obtain h0 where h0: "map_of (l_holds L) (AuthorizationHoldID p0) = Some h0" "hold_matches p0 h0"
    using link by (auto simp: payment_linked_def)
  obtain y0 where y0: "map_of (l_payers L) (payment_PayerID p0) = Some y0"
      "payment_Currency p0 = payer_Currency y0"
    using link by (auto simp: payment_linked_def)
  have m: "hold_ID h0 = AuthorizationHoldID p0" "hold_PaymentID h0 = payment_ID p0"
    "hold_Status h0 = HoldStatusHeld" "hold_PayerID h0 = payment_PayerID p0"
    "hold_AmountMinor h0 = payment_AmountMinor p0"
    using h0(2) auth by (auto simp: hold_matches_def)
  have "sint (payment_AmountMinor p0) \<le> held_total L (payment_PayerID p0)"
    using held_total_covers [OF ok h0(1) m(3)] m by simp
  then have covers: "sint (payment_AmountMinor p0) \<le> sint (HeldBalanceMinor y0)"
    using ledger_okD(4) [OF ok y0(1)] by simp
  have p0_ok: "0 < sint (payment_AmountMinor p0)" "payer_Currency y0 = NormalizeCurrency (payment_Currency p0)"
    using link y0(2) by (auto simp: payment_linked_def payment_ok_def)
  have only: "j = hold_ID h0" if "map_of (l_holds L) j = Some g" "hold_PaymentID g = payment_ID p0" for j g
    using hold_of_payment(1) [OF ok p0 that(1)] that(2) pid m(1) by simp
  show thesis
    by (rule that [OF _ m(2,3) y0(1) covers p0_ok])
      (use h0(1) m(1) only in \<open>simp, blast\<close>)
qed

section \<open>A payment written again\<close>

text \<open>
  A payment replaced by one that agrees with it but for its status, when the hold still fits: the
  settlement of a captured payment, or an update of its timestamps.
\<close>

definition ledger_put_payment :: "payment \<Rightarrow> ledger \<Rightarrow> ledger" where
  "ledger_put_payment p L = L\<lparr>l_payments := AList.update (payment_ID p) p (l_payments L)\<rparr>"

definition payment_succeeds :: "payment \<Rightarrow> payment \<Rightarrow> bool" where
  "payment_succeeds p0 p \<longleftrightarrow> payment_ID p = payment_ID p0 \<and>
     payment_MerchantID p = payment_MerchantID p0 \<and> payment_PayerID p = payment_PayerID p0 \<and>
     payment_AmountMinor p = payment_AmountMinor p0 \<and> payment_Currency p = payment_Currency p0 \<and>
     AuthorizationHoldID p = AuthorizationHoldID p0 \<and>
     (payment_Status p = payment_Status p0 \<or>
      payment_Status p0 = StatusCaptured \<and> payment_Status p = StatusSettled)"

lemma put_payment_sel [simp]:
  "l_merchants (ledger_put_payment p L) = l_merchants L"
  "l_payers (ledger_put_payment p L) = l_payers L"
  "l_payments (ledger_put_payment p L) = AList.update (payment_ID p) p (l_payments L)"
  "l_holds (ledger_put_payment p L) = l_holds L"
  "l_events (ledger_put_payment p L) = l_events L"
  by (simp_all add: ledger_put_payment_def)

lemma payment_succeeds_holds:
  "payment_succeeds p0 p \<Longrightarrow> hold_matches p0 h \<Longrightarrow> hold_matches p h"
  by (auto simp: payment_succeeds_def hold_matches_def)

lemma payment_succeeds_captured: "payment_succeeds p0 p \<Longrightarrow> captured_of i p = captured_of i p0"
  by (auto simp: payment_succeeds_def captured_of_def)

lemma put_payment_ok:
  assumes ok: "ledger_ok L" and p0: "map_of (l_payments L) (payment_ID p) = Some p0"
    and suc: "payment_succeeds p0 p" and p_ok: "payment_ok p"
  shows "ledger_ok (ledger_put_payment p L)" "funds (ledger_put_payment p L) i = funds L i"
proof -
  let ?L = "ledger_put_payment p L"
  note D = ledger_okD [OF ok] and K = ledger_keys_okD [OF ledger_okD(1) [OF ok]]
  have link: "payment_linked L p0" using D(5) [OF p0] .
  have held: "held_total ?L j = held_total L j" for j by (simp add: held_total_def)
  show "ledger_ok ?L"
  proof (rule ledger_okI)
    show "ledger_keys_ok ?L"
      using D(1) by (simp add: ledger_keys_ok_def gm_wf_update)
    show "payment_linked ?L q" if q: "map_of (l_payments ?L) j = Some q" for j q
    proof (cases "j = payment_ID p")
      case True
      then have "q = p" using q by simp
      then show ?thesis
        using link p_ok suc payment_succeeds_holds [OF suc]
        unfolding payment_linked_def payment_succeeds_def by auto
    next
      case False
      then have "payment_linked L q" using q D(5) [of j q] by simp
      then show ?thesis by (simp add: payment_linked_def)
    qed
    show "\<exists>q. map_of (l_payments ?L) (hold_PaymentID g) = Some q \<and> AuthorizationHoldID q = j"
      if g: "map_of (l_holds ?L) j = Some g" for j g
    proof (cases "hold_PaymentID g = payment_ID p")
      case True
      then have "AuthorizationHoldID p0 = j" using D(6) [of j g] g p0 by simp
      then show ?thesis using True suc by (simp add: payment_succeeds_def)
    next
      case False
      then show ?thesis using D(6) [of j g] g by simp
    qed
    show "sint (HeldBalanceMinor z) = held_total ?L j" if "map_of (l_payers ?L) j = Some z" for j z
      using that D(4) held by simp
  qed (use D in auto)
  have "captured_total ?L j = captured_total L j" for j
    using msum_update_old [OF gm_wf_distinct [OF K(3)] p0] payment_succeeds_captured [OF suc]
    by (simp add: captured_total_def)
  then show "funds ?L i = funds L i" by (simp add: funds_def)
qed

lemma add_event_ok:
  assumes ok: "ledger_ok L"
  shows "ledger_ok (L\<lparr>l_events := AList.update (event_ID e) e (l_events L)\<rparr>)"
    "funds (L\<lparr>l_events := AList.update (event_ID e) e (l_events L)\<rparr>) i = funds L i"
  using ok unfolding ledger_ok_def
  by (simp_all add: ledger_keys_ok_def gm_wf_update payment_linked_def held_total_def funds_def
      captured_total_def)

lemma settle_succeeds:
  "Payment_Settle p0 now = Inr p1 \<Longrightarrow> same_payment p1 p \<Longrightarrow> payment_succeeds p0 p"
  using same_paymentD [of p1 p] by (auto simp: op_success payment_succeeds_def)

section \<open>New merchants and payers\<close>

definition ledger_add_merchant :: "merchant \<Rightarrow> ledger \<Rightarrow> ledger" where
  "ledger_add_merchant m L = L\<lparr>l_merchants := AList.update (merchant_ID m) m (l_merchants L)\<rparr>"

definition ledger_add_payer :: "payer \<Rightarrow> ledger \<Rightarrow> ledger" where
  "ledger_add_payer y L = L\<lparr>l_payers := AList.update (payer_ID y) y (l_payers L)\<rparr>"

lemma add_merchant_ok:
  assumes ok: "ledger_ok L" and m: "merchant_ok m"
  shows "ledger_ok (ledger_add_merchant m L)" "funds (ledger_add_merchant m L) i = funds L i"
proof -
  show "ledger_ok (ledger_add_merchant m L)"
    using ok m unfolding ledger_ok_def ledger_add_merchant_def
    by (auto simp: ledger_keys_ok_def gm_wf_update payment_linked_def held_total_def split: if_splits)
  show "funds (ledger_add_merchant m L) i = funds L i"
    by (simp add: funds_def ledger_add_merchant_def captured_total_def)
qed

text \<open>A new payer has no holds: a hold belongs to a payment, whose payer exists.\<close>

lemma held_total_unknown:
  assumes ok: "ledger_ok L" and "map_of (l_payers L) i = None"
  shows "held_total L i = 0"
proof -
  have "held_by i h = 0" if "h \<in> set (gm_values (l_holds L))" for h
  proof -
    have h: "map_of (l_holds L) (hold_ID h) = Some h"
      using that gm_values_lookup [OF ledger_keys_okD(4) [OF ledger_okD(1) [OF ok]]] by simp
    then obtain p where p: "map_of (l_payments L) (hold_PaymentID h) = Some p"
      using ledger_okD(6) [OF ok h] by blast
    then have "hold_PayerID h = payment_PayerID p" "map_of (l_payers L) (payment_PayerID p) \<noteq> None"
      using hold_of_payment(2) [OF ok p h refl] ledger_okD(5) [OF ok p]
      by (auto simp: hold_matches_def payment_linked_def)
    with assms(2) show ?thesis by (auto simp: held_by_def)
  qed
  then show ?thesis unfolding held_total_def msum_def by (simp cong: map_cong)
qed

lemma captured_total_unknown:
  assumes ok: "ledger_ok L" and "map_of (l_payers L) i = None"
  shows "captured_total L i = 0"
proof -
  have "captured_of i p = 0" if "p \<in> set (gm_values (l_payments L))" for p
  proof -
    have "map_of (l_payments L) (payment_ID p) = Some p"
      using that gm_values_lookup [OF ledger_keys_okD(3) [OF ledger_okD(1) [OF ok]]] by simp
    from ledger_okD(5) [OF ok this] assms(2) show ?thesis
      by (auto simp: payment_linked_def captured_of_def)
  qed
  then show ?thesis unfolding captured_total_def msum_def by (simp cong: map_cong)
qed

lemma add_payer_ok:
  assumes ok: "ledger_ok L" and y: "payer_ok y" "HeldBalanceMinor y = 0"
    and new: "map_of (l_payers L) (payer_ID y) = None"
  shows "ledger_ok (ledger_add_payer y L)"
    and "funds (ledger_add_payer y L) i = (if i = payer_ID y then Some (payer_total y) else funds L i)"
proof -
  let ?L = "ledger_add_payer y L"
  have sel: "l_payers ?L = AList.update (payer_ID y) y (l_payers L)" "l_merchants ?L = l_merchants L"
    "l_payments ?L = l_payments L" "l_holds ?L = l_holds L" "l_events ?L = l_events L"
    by (simp_all add: ledger_add_payer_def)
  have held: "held_total ?L j = held_total L j" "captured_total ?L j = captured_total L j" for j
    by (simp_all add: held_total_def captured_total_def sel)
  show "ledger_ok ?L"
  proof (rule ledger_okI)
    show "ledger_keys_ok ?L"
      using ledger_okD(1) [OF ok] by (simp add: ledger_keys_ok_def sel gm_wf_update)
    show "payment_linked ?L q" if "map_of (l_payments ?L) j = Some q" for j q
      using that ledger_okD(5) [OF ok, of j q] new by (auto simp: payment_linked_def sel)
    show "sint (HeldBalanceMinor z) = held_total ?L j" if "map_of (l_payers ?L) j = Some z" for j z
      using that ledger_okD(4) [OF ok] held_total_unknown [OF ok new] y(2)
      by (auto simp: sel held split: if_splits)
  qed (use ledger_okD [OF ok] y(1) in \<open>auto simp: sel split: if_splits\<close>)
  show "funds ?L i = (if i = payer_ID y then Some (payer_total y) else funds L i)"
    using captured_total_unknown [OF ok new] by (simp add: funds_def held sel)
qed

end
