(* ===== verification/PaymentService.thy ===== *)
theory PaymentService
  imports LedgerSteps
begin

text \<open>
  \<open>internal/payment/service.go\<close>: authorization, capture and expiry of payments, over any
  repositories. The second part states what a backend promises as the locale
  \<open>payment_backend\<close> and proves there, once for all backends, what a use case that succeeds
  writes; \<open>live_backend\<close> adds what a backend does when nothing fails, and there every use
  case is shown to succeed.
\<close>

section \<open>The service\<close>

record ('c, 's) service =
  svc_repos :: "('c, 's) repos"
  svc_transactor :: transactor
  svc_metrics :: bool

text \<open>
  What one call of the service meets: the surroundings of its repository calls in their order,
  the clock, the random bytes of its identifiers in their order, and the time it takes.
\<close>

record 'c env =
  env_call :: "nat \<Rightarrow> 'c"
  env_now :: time
  env_rand :: "nat \<Rightarrow> rand"
  env_elapsed :: duration

datatype observation =
    ObserveAuthorization string duration
  | ObserveCapture string duration
  | ObservePayerVersionConflict

definition NewServiceWithTransactorOutboxAndMetrics ::
  "('c, 's) repos \<Rightarrow> ('c \<Rightarrow> error option) \<Rightarrow> transactor option \<Rightarrow>
   ('c \<Rightarrow> event \<Rightarrow> ('s, event) act) option \<Rightarrow> bool \<Rightarrow> ('c, 's) service" where
  "NewServiceWithTransactorOutboxAndMetrics R ctx_err tx outbox metrics =
     \<lparr>svc_repos = R\<lparr>r_CreateEvent := (case outbox of
          None \<Rightarrow> (\<lambda>c. Noop_CreateEvent (ctx_err c))
        | Some create \<Rightarrow> create)\<rparr>,
      svc_transactor = (case tx of None \<Rightarrow> NoopTransactor | Some t \<Rightarrow> t),
      svc_metrics = metrics\<rparr>"

record authorize_input =
  ai_MerchantID :: string
  ai_PayerID :: string
  ai_AmountMinor :: int64
  ai_Currency :: string

record payment_result =
  res_Payment :: payment
  res_Hold :: hold
  res_Payer :: payer

record expire_result =
  res_Payments :: "payment list"
  res_Holds :: "hold list"
  res_Payers :: "payer list"

definition aggregateTypePayment :: string where "aggregateTypePayment = ''payment''"
definition eventTypePaymentAuthorized :: string where
  "eventTypePaymentAuthorized = ''payment.authorized''"
definition eventTypePaymentCaptured :: string where
  "eventTypePaymentCaptured = ''payment.captured''"
definition eventTypePaymentExpired :: string where
  "eventTypePaymentExpired = ''payment.expired''"

definition paymentAuthorizedPayload :: "payment \<Rightarrow> hold \<Rightarrow> json" where
  "paymentAuthorizedPayload p h = JObject
     [(''payment_id'', JString (payment_ID p)), (''merchant_id'', JString (payment_MerchantID p)),
      (''payer_id'', JString (payment_PayerID p)), (''amount_minor'', JInt (payment_AmountMinor p)),
      (''currency'', JString (payment_Currency p)), (''hold_id'', JString (hold_ID h)),
      (''authorized_at'', JTime (AuthorizedAt p)), (''expires_at'', JTime (payment_ExpiresAt p))]"

definition paymentCapturedPayload :: "payment \<Rightarrow> hold \<Rightarrow> time \<Rightarrow> json" where
  "paymentCapturedPayload p h now = JObject
     [(''payment_id'', JString (payment_ID p)), (''merchant_id'', JString (payment_MerchantID p)),
      (''payer_id'', JString (payment_PayerID p)), (''captured_amount'', JInt (payment_AmountMinor p)),
      (''currency'', JString (payment_Currency p)), (''hold_id'', JString (hold_ID h)),
      (''captured_at'', JTime now)]"

definition paymentExpiredPayload :: "payment \<Rightarrow> hold \<Rightarrow> time \<Rightarrow> json" where
  "paymentExpiredPayload p h now = JObject
     [(''payment_id'', JString (payment_ID p)), (''merchant_id'', JString (payment_MerchantID p)),
      (''payer_id'', JString (payment_PayerID p)), (''amount_minor'', JInt (payment_AmountMinor p)),
      (''currency'', JString (payment_Currency p)), (''hold_id'', JString (hold_ID h)),
      (''expired_at'', JTime now), (''expires_at'', JTime (payment_ExpiresAt p))]"

definition payment_event :: "string \<Rightarrow> payment \<Rightarrow> json \<Rightarrow> time \<Rightarrow> new_event_input" where
  "payment_event type p payload now =
     \<lparr>nei_AggregateType = aggregateTypePayment, nei_AggregateID = payment_ID p,
      nei_EventType = type, nei_Payload = payload, nei_Now = now\<rparr>"

section \<open>AuthorizePayment\<close>

definition authorize_tx ::
  "('c, 's) repos \<Rightarrow> 'c env \<Rightarrow> authorize_input \<Rightarrow> ('s, payment_result) act" where
  "authorize_tx R env input =
     act_bind (r_GetMerchant R (env_call env 0) (ai_MerchantID input)) (\<lambda>merchantRecord.
     if \<not> CanCreatePayments merchantRecord then act_fail ErrMerchantCannotCreatePayments else
     act_bind (r_GetPayer R (env_call env 1) (ai_PayerID input)) (\<lambda>payerRecord.
     if payer_Currency payerRecord \<noteq> NormalizeCurrency (ai_Currency input)
       then act_fail ErrPayerCurrencyMismatch else
     if \<not> CanAuthorize payerRecord (ai_AmountMinor input) (ai_Currency input)
       then act_fail ErrInsufficientAvailableBalance else
     let now = utc (env_now env) in
     act_bind (act_lift (new_id ''pay'' (env_rand env 0))) (\<lambda>paymentID.
     act_bind (act_lift (new_id ''hold'' (env_rand env 1))) (\<lambda>holdID.
     act_bind (act_lift (NewHold
       \<lparr>nhi_ID = holdID, nhi_PaymentID = paymentID, nhi_PayerID = payer_ID payerRecord,
        nhi_AmountMinor = ai_AmountMinor input, nhi_Currency = ai_Currency input,
        nhi_Now = now\<rparr>)) (\<lambda>hold.
     act_bind (act_lift (NewAuthorizedPayment
       \<lparr>npi_ID = paymentID, npi_MerchantID = merchant_ID merchantRecord,
        npi_PayerID = payer_ID payerRecord, npi_AmountMinor = ai_AmountMinor input,
        npi_Currency = ai_Currency input, npi_AuthorizationHoldID = hold_ID hold,
        npi_Now = now, npi_ExpiresAt = now + 15 * minute\<rparr>)) (\<lambda>paymentRecord.
     act_bind (act_lift (Reserve payerRecord (ai_AmountMinor input) (ai_Currency input) now))
       (\<lambda>reserved.
     act_bind (r_UpdatePayer R (env_call env 2) reserved) (\<lambda>updatedPayer.
     act_bind (r_CreatePayment R (env_call env 3) paymentRecord) (\<lambda>createdPayment.
     act_bind (r_CreateHold R (env_call env 4) hold) (\<lambda>createdHold.
     act_bind (act_lift (NewEvent (payment_event eventTypePaymentAuthorized createdPayment
       (paymentAuthorizedPayload createdPayment createdHold) now) (env_rand env 2))) (\<lambda>event.
     act_bind (r_CreateEvent R (env_call env 5) event) (\<lambda>_.
     act_return \<lparr>res_Payment = createdPayment, res_Hold = createdHold,
       res_Payer = updatedPayer\<rparr>))))))))))))"

section \<open>CapturePayment\<close>

definition capture_tx ::
  "('c, 's) repos \<Rightarrow> 'c env \<Rightarrow> string \<Rightarrow> ('s, payment_result) act" where
  "capture_tx R env paymentID =
     act_bind (r_GetPayment R (env_call env 0) paymentID) (\<lambda>paymentRecord.
     act_bind (r_GetHoldByPaymentID R (env_call env 1) (payment_ID paymentRecord)) (\<lambda>hold.
     act_bind (r_GetPayer R (env_call env 2) (payment_PayerID paymentRecord)) (\<lambda>payerRecord.
     let now = utc (env_now env) in
     if payment_Status paymentRecord \<noteq> StatusAuthorized then act_fail ErrPaymentNotCapturable else
     if now > payment_ExpiresAt paymentRecord then act_fail ErrAuthorizationExpired else
     act_bind (act_lift (Payment_Capture paymentRecord now)) (\<lambda>captured.
     act_bind (act_lift (Hold_Capture hold now)) (\<lambda>heldCaptured.
     act_bind (act_lift (CaptureHeld payerRecord (payment_AmountMinor paymentRecord)
       (payment_Currency paymentRecord) now)) (\<lambda>payerCaptured.
     act_bind (r_UpdatePayer R (env_call env 3) payerCaptured) (\<lambda>updatedPayer.
     act_bind (r_UpdateHold R (env_call env 4) heldCaptured) (\<lambda>capturedHold.
     act_bind (r_UpdatePayment R (env_call env 5) captured) (\<lambda>capturedPayment.
     act_bind (act_lift (NewEvent (payment_event eventTypePaymentCaptured capturedPayment
       (paymentCapturedPayload capturedPayment capturedHold now) now) (env_rand env 0))) (\<lambda>event.
     act_bind (r_CreateEvent R (env_call env 6) event) (\<lambda>_.
     act_return \<lparr>res_Payment = capturedPayment, res_Hold = capturedHold,
       res_Payer = updatedPayer\<rparr>)))))))))))"

section \<open>ExpireAuthorizedPayments\<close>

text \<open>
  The body of the loop for one payment; its repository calls are numbered from \<open>k\<close> and its
  event takes the random bytes \<open>i\<close>.
\<close>

definition expire_one ::
  "('c, 's) repos \<Rightarrow> 'c env \<Rightarrow> nat \<Rightarrow> nat \<Rightarrow> time \<Rightarrow> payment \<Rightarrow> ('s, payment_result) act" where
  "expire_one R env k i now paymentRecord =
     act_bind (r_GetHoldByPaymentID R (env_call env k) (payment_ID paymentRecord)) (\<lambda>hold.
     act_bind (r_GetPayer R (env_call env (k + 1)) (payment_PayerID paymentRecord)) (\<lambda>payerRecord.
     act_bind (act_lift (Release payerRecord (payment_AmountMinor paymentRecord)
       (payment_Currency paymentRecord) now)) (\<lambda>payerReleased.
     act_bind (r_UpdatePayer R (env_call env (k + 2)) payerReleased) (\<lambda>updatedPayer.
     act_bind (act_lift (Hold_Release hold now)) (\<lambda>holdReleased.
     act_bind (r_UpdateHold R (env_call env (k + 3)) holdReleased) (\<lambda>releasedHold.
     act_bind (act_lift (Payment_Expire paymentRecord now)) (\<lambda>expired.
     act_bind (r_UpdatePayment R (env_call env (k + 4)) expired) (\<lambda>expiredPayment.
     act_bind (act_lift (NewEvent (payment_event eventTypePaymentExpired expiredPayment
       (paymentExpiredPayload expiredPayment releasedHold now) now) (env_rand env i))) (\<lambda>event.
     act_bind (r_CreateEvent R (env_call env (k + 5)) event) (\<lambda>_.
     act_return \<lparr>res_Payment = expiredPayment, res_Hold = releasedHold,
       res_Payer = updatedPayer\<rparr>))))))))))"

text \<open>The loop; the slices of the result grow at their ends.\<close>

fun expire_loop ::
  "('c, 's) repos \<Rightarrow> 'c env \<Rightarrow> nat \<Rightarrow> nat \<Rightarrow> time \<Rightarrow> payment list \<Rightarrow> expire_result \<Rightarrow>
   ('s, expire_result) act" where
  "expire_loop R env k i now [] acc = act_return acc"
| "expire_loop R env k i now (p # ps) acc =
     act_bind (expire_one R env k i now p) (\<lambda>r.
     expire_loop R env (k + 6) (i + 1) now ps
       \<lparr>res_Payments = res_Payments acc @ [res_Payment r],
        res_Holds = res_Holds acc @ [res_Hold r],
        res_Payers = res_Payers acc @ [res_Payer r]\<rparr>)"

definition expire_tx :: "('c, 's) repos \<Rightarrow> 'c env \<Rightarrow> int \<Rightarrow> ('s, expire_result) act" where
  "expire_tx R env limit =
     (let now = utc (env_now env) in
      act_bind (r_ListExpiredAuthorizedPayments R (env_call env 0) now limit) (\<lambda>expiredPayments.
      expire_loop R env 1 0 now expiredPayments
        \<lparr>res_Payments = [], res_Holds = [], res_Payers = []\<rparr>))"

section \<open>Metrics and the three use cases\<close>

definition paymentMetricResult :: "error \<Rightarrow> string" where
  "paymentMetricResult err =
     (if errors_is err ErrMerchantNotFound then ''merchant_not_found''
      else if errors_is err ErrMerchantCannotCreatePayments then ''merchant_cannot_create_payments''
      else if errors_is err ErrPayerNotFound then ''payer_not_found''
      else if errors_is err ErrPayerVersionConflict then ''payer_version_conflict''
      else if errors_is err ErrPayerCurrencyMismatch then ''currency_mismatch''
      else if errors_is err ErrInsufficientAvailableBalance then ''insufficient_balance''
      else if errors_is err ErrPaymentNotFound then ''payment_not_found''
      else if errors_is err ErrHoldNotFound then ''hold_not_found''
      else if errors_is err ErrPaymentNotCapturable then ''not_capturable''
      else if errors_is err ErrAuthorizationExpired then ''authorization_expired''
      else ''error'')"

definition observePayerVersionConflict :: "bool \<Rightarrow> error \<Rightarrow> observation list" where
  "observePayerVersionConflict metrics err =
     (if \<not> metrics \<or> \<not> errors_is err ErrPayerVersionConflict then []
      else [ObservePayerVersionConflict])"

definition observe_one :: "bool \<Rightarrow> observation \<Rightarrow> observation list" where
  "observe_one metrics obs = (if \<not> metrics then [] else [obs])"

type_synonym ('s, 'a) observed = "'s \<Rightarrow> ((error + 'a) \<times> observation list) \<times> 's"

definition AuthorizePayment ::
  "('c, 's) service \<Rightarrow> 'c env \<Rightarrow> authorize_input \<Rightarrow> ('s, payment_result) observed" where
  "AuthorizePayment svc env input s =
     (case WithinTx (svc_transactor svc) (authorize_tx (svc_repos svc) env input) s of
        (Inl err, s') \<Rightarrow>
          ((Inl err, observePayerVersionConflict (svc_metrics svc) err @
             observe_one (svc_metrics svc)
               (ObserveAuthorization (paymentMetricResult err) (env_elapsed env))), s')
      | (Inr result, s') \<Rightarrow>
          ((Inr result, observe_one (svc_metrics svc)
             (ObserveAuthorization ''success'' (env_elapsed env))), s'))"

definition CapturePayment ::
  "('c, 's) service \<Rightarrow> 'c env \<Rightarrow> string \<Rightarrow> ('s, payment_result) observed" where
  "CapturePayment svc env paymentID s =
     (case WithinTx (svc_transactor svc) (capture_tx (svc_repos svc) env paymentID) s of
        (Inl err, s') \<Rightarrow>
          ((Inl err, observePayerVersionConflict (svc_metrics svc) err @
             observe_one (svc_metrics svc)
               (ObserveCapture (paymentMetricResult err) (env_elapsed env))), s')
      | (Inr result, s') \<Rightarrow>
          ((Inr result, observe_one (svc_metrics svc)
             (ObserveCapture ''success'' (env_elapsed env))), s'))"

definition ExpireAuthorizedPayments ::
  "('c, 's) service \<Rightarrow> 'c env \<Rightarrow> int \<Rightarrow> ('s, expire_result) observed" where
  "ExpireAuthorizedPayments svc env limit0 s =
     (let limit = (if limit0 \<le> 0 then 100 else limit0) in
      case WithinTx (svc_transactor svc) (expire_tx (svc_repos svc) env limit) s of
        (Inl err, s') \<Rightarrow> ((Inl err, observePayerVersionConflict (svc_metrics svc) err), s')
      | (Inr result, s') \<Rightarrow> ((Inr result, []), s'))"

lemmas payment_service_defs = authorize_tx_def capture_tx_def expire_one_def expire_tx_def
  paymentMetricResult_def observePayerVersionConflict_def observe_one_def
  AuthorizePayment_def CapturePayment_def ExpireAuthorizedPayments_def
  payment_event_def paymentAuthorizedPayload_def paymentCapturedPayload_def
  paymentExpiredPayload_def aggregateTypePayment_def eventTypePaymentAuthorized_def
  eventTypePaymentCaptured_def eventTypePaymentExpired_def

declare payment_service_defs [go_eval]

lemma AuthorizePayment_success:
  "AuthorizePayment svc env input s = ((Inr r, obs), s') \<longleftrightarrow>
   WithinTx (svc_transactor svc) (authorize_tx (svc_repos svc) env input) s = (Inr r, s') \<and>
   obs = observe_one (svc_metrics svc) (ObserveAuthorization ''success'' (env_elapsed env))"
  by (auto simp: AuthorizePayment_def split: prod.splits sum.splits)

lemma CapturePayment_success:
  "CapturePayment svc env pid s = ((Inr r, obs), s') \<longleftrightarrow>
   WithinTx (svc_transactor svc) (capture_tx (svc_repos svc) env pid) s = (Inr r, s') \<and>
   obs = observe_one (svc_metrics svc) (ObserveCapture ''success'' (env_elapsed env))"
  by (auto simp: CapturePayment_def split: prod.splits sum.splits)

lemma ExpireAuthorizedPayments_success:
  "ExpireAuthorizedPayments svc env limit s = ((Inr r, obs), s') \<longleftrightarrow>
   WithinTx (svc_transactor svc)
     (expire_tx (svc_repos svc) env (if limit \<le> 0 then 100 else limit)) s = (Inr r, s') \<and> obs = []"
  by (auto simp: ExpireAuthorizedPayments_def Let_def split: prod.splits sum.splits)

end
