(* ===== verification/PaymentBackend.thy ===== *)
theory PaymentBackend
  imports PaymentService
begin

text \<open>
  The contract between the payment service and its repositories, as two locales, and what the
  service's use cases do over any backend that keeps it. \<open>view\<close> reads the ledger off the
  backend's state and \<open>inv\<close> is the backend's own consistency.
\<close>

section \<open>What a run of the expiry loop does to the ledger\<close>

text \<open>The payments \<open>ps\<close> give a payer its money back, one version for each.\<close>

definition payments_of :: "string \<Rightarrow> payment list \<Rightarrow> payment list" where
  "payments_of i ps = filter (\<lambda>p. payment_PayerID p = i) ps"

definition due_to :: "string \<Rightarrow> payment list \<Rightarrow> int" where
  "due_to i ps = sum_list (map (\<lambda>p. sint (payment_AmountMinor p)) (payments_of i ps))"

definition released_to :: "string \<Rightarrow> payment list \<Rightarrow> payer \<Rightarrow> payer \<Rightarrow> bool" where
  "released_to i ps y y' \<longleftrightarrow> (payments_of i ps = [] \<longrightarrow> y' = y) \<and>
     payer_Version y' = payer_Version y + of_nat (length (payments_of i ps)) \<and>
     sint (HeldBalanceMinor y') = sint (HeldBalanceMinor y) - due_to i ps \<and>
     sint (AvailableBalanceMinor y') = sint (AvailableBalanceMinor y) + due_to i ps"

lemma released_to_Nil [simp]: "released_to i [] y y' \<longleftrightarrow> y' = y"
  by (auto simp: released_to_def payments_of_def due_to_def)

definition expired_from :: "ledger \<Rightarrow> payment list \<Rightarrow> ledger \<Rightarrow> bool" where
  "expired_from L ps L' \<longleftrightarrow> ledger_ok L' \<and> (\<forall>i. funds L' i = funds L i) \<and>
     l_merchants L' = l_merchants L \<and>
     (\<forall>i. turns L' i = turns L i + int (length (payments_of i ps))) \<and>
     (\<forall>i. map_of (l_payers L) i = None \<longrightarrow> map_of (l_payers L') i = None) \<and>
     (\<forall>i y. map_of (l_payers L) i = Some y \<longrightarrow>
        (\<exists>y'. map_of (l_payers L') i = Some y' \<and> released_to i ps y y')) \<and>
     (\<forall>hid h. map_of (l_holds L) hid = Some h \<longrightarrow> hold_PaymentID h \<notin> set (map payment_ID ps) \<longrightarrow>
        map_of (l_holds L') hid = Some h) \<and>
     (\<forall>pid. pid \<notin> set (map payment_ID ps) \<longrightarrow> map_of (l_payments L') pid = map_of (l_payments L) pid) \<and>
     (\<forall>p0 \<in> set ps. \<exists>p. map_of (l_payments L') (payment_ID p0) = Some p \<and>
        same_deal p0 p \<and> payment_Status p = StatusExpired) \<and>
     events_for (map (\<lambda>p. (eventTypePaymentExpired, payment_ID p)) ps) (l_events L) (l_events L')"

definition expire_results :: "expire_result \<Rightarrow> payment_result list \<Rightarrow> expire_result" where
  "expire_results acc rs =
     \<lparr>res_Payments = res_Payments acc @ map res_Payment rs,
      res_Holds = res_Holds acc @ map res_Hold rs,
      res_Payers = res_Payers acc @ map res_Payer rs\<rparr>"

lemma payment_event_label:
  assumes "NewEvent (payment_event type p payload now) rnd = Inr e0" "same_event e0 e" "payment_ok p"
    and "type \<in> {eventTypePaymentAuthorized, eventTypePaymentCaptured, eventTypePaymentExpired}"
  shows "event_for (type, payment_ID p) e"
proof -
  have "trim_space type = type"
    using assms(4) unfolding eventTypePaymentAuthorized_def eventTypePaymentCaptured_def
      eventTypePaymentExpired_def insert_iff empty_iff by (elim disjE FalseE) (simp only:, code_simp)+
  then show ?thesis
    using NewEvent_label [OF assms(1,2)] assms(3) by (simp add: payment_event_def payment_ok_def)
qed

lemma expired_from_step:
  assumes ok: "ledger_ok L" and w: "finish_writes L y0 y p0 p h0 h"
    and L1: "L1 = ledger_write y p h e L" and st: "payment_Status p = StatusExpired"
    and e: "map_of (l_events L) (event_ID e) = None" "event_for (eventTypePaymentExpired, payment_ID p0) e"
    and new: "payment_ID p0 \<notin> set (map payment_ID ps)" and rest: "expired_from L1 ps L2"
  shows "expired_from L (p0 # ps) L2"
proof -
  note D = finish_writesD [OF ok w] and R = rest [unfolded expired_from_def L1 ledger_write_sel]
  have p: "same_deal p0 p" "payment_ID p = payment_ID p0" using finish_writes_deal [OF ok w] D(5) by simp_all
  have h0: "map_of (l_holds L) (hold_ID h0) = Some h0" "hold_PaymentID h0 = payment_ID p0"
    using w by (simp_all add: finish_writes_def)
  have payers: "\<exists>z'. map_of (l_payers L2) i = Some z' \<and> released_to i ps z z'"
    if "map_of (l_payers (ledger_write y p h e L)) i = Some z" for i z
    using rest that unfolding expired_from_def L1 by blast
  have "\<exists>z'. map_of (l_payers L2) i = Some z' \<and> released_to i (p0 # ps) z z'"
    if z: "map_of (l_payers L) i = Some z" for i z
  proof (cases "i = payer_ID y0")
    case True
    then have "z = y0" "map_of (l_payers (ledger_write y p h e L)) i = Some y" using z D(1,3) by simp_all
    moreover from payers [OF this(2)] obtain z' where
      "map_of (l_payers L2) i = Some z'" "released_to i ps y z'" by blast
    ultimately show ?thesis
      using True D(4,19,20,23) st
      by (auto simp: released_to_def payments_of_def due_to_def payer_total_def)
  next
    case False
    then have "map_of (l_payers (ledger_write y p h e L)) i = Some z" using z D(1) by simp
    from payers [OF this] obtain z' where "map_of (l_payers L2) i = Some z'" "released_to i ps z z'" by blast
    then show ?thesis using False D(4) by (auto simp: released_to_def payments_of_def due_to_def)
  qed
  moreover have "map_of (l_holds L2) hid = Some g"
    if g: "map_of (l_holds L) hid = Some g" "hold_PaymentID g \<notin> set (map payment_ID (p0 # ps))" for hid g
  proof -
    have "hid \<noteq> hold_ID h" using g h0 D(6) by auto
    then have "map_of (l_holds (ledger_write y p h e L)) hid = Some g" using g(1) by simp
    then show ?thesis using R g(2) by simp
  qed
  moreover have "turns L2 i = turns L i + int (length (payments_of i (p0 # ps)))" for i
    using R finish_writes_turns [OF ok w, of e i] D(4) by (simp add: payments_of_def)
  moreover have "map_of (l_payers L2) i = None" if "map_of (l_payers L) i = None" for i
  proof -
    have "i \<noteq> payer_ID y" using that D(1,3) by auto
    then show ?thesis using R that by auto
  qed
  ultimately show ?thesis
    using R p st new e finish_writes_funds [OF ok w, of e] unfolding expired_from_def by auto
qed

section \<open>What a call that succeeds has done\<close>

locale payment_backend =
  fixes R :: "('c, 's) repos" and view :: "'s \<Rightarrow> ledger" and inv :: "'s \<Rightarrow> bool"
  assumes GetMerchant_law:
    "r_GetMerchant R c i s = (Inr m, s') \<Longrightarrow> s' = s \<and> map_of (l_merchants (view s)) i = Some m"
  and GetPayer_law:
    "r_GetPayer R c i s = (Inr y, s') \<Longrightarrow> s' = s \<and> map_of (l_payers (view s)) i = Some y"
  and GetPayment_law:
    "r_GetPayment R c i s = (Inr p, s') \<Longrightarrow> s' = s \<and> map_of (l_payments (view s)) i = Some p"
  and GetHoldByPaymentID_law:
    "inv s \<Longrightarrow> r_GetHoldByPaymentID R c i s = (Inr h, s') \<Longrightarrow>
     s' = s \<and> map_of (l_holds (view s)) (hold_ID h) = Some h \<and> hold_PaymentID h = i"
  and ListExpired_law:
    "ledger_keys_ok (view s) \<Longrightarrow> r_ListExpiredAuthorizedPayments R c now limit s = (Inr ps, s') \<Longrightarrow>
     s' = s \<and> expired_list_ok (l_payments (view s)) now ps \<and> (0 < limit \<longrightarrow> int (length ps) \<le> limit)"
  and UpdatePayer_law:
    "inv s \<Longrightarrow> map_of (l_payers (view s)) (payer_ID y) = Some y0 \<Longrightarrow>
     payer_Currency y = payer_Currency y0 \<Longrightarrow> r_UpdatePayer R c y s = (Inr y', s') \<Longrightarrow>
     same_payer y y' \<and> payer_Version y = payer_Version y0 + 1 \<and> inv s' \<and>
     view s' = (view s)\<lparr>l_payers := AList.update (payer_ID y) y' (l_payers (view s))\<rparr>"
  and CreatePayment_law:
    "inv s \<Longrightarrow> map_of (l_payers (view s)) (payment_PayerID p) = Some y \<Longrightarrow>
     payment_Currency p = payer_Currency y \<Longrightarrow> payment_ok p \<Longrightarrow>
     r_CreatePayment R c p s = (Inr p', s') \<Longrightarrow>
     same_payment p p' \<and> payment_ok p' \<and> map_of (l_payments (view s)) (payment_ID p) = None \<and> inv s' \<and>
     view s' = (view s)\<lparr>l_payments := AList.update (payment_ID p) p' (l_payments (view s))\<rparr>"
  and UpdatePayment_law:
    "inv s \<Longrightarrow> map_of (l_payments (view s)) (payment_ID p) = Some p0 \<Longrightarrow>
     payment_Currency p = payment_Currency p0 \<Longrightarrow> payment_ok p \<Longrightarrow>
     r_UpdatePayment R c p s = (Inr p', s') \<Longrightarrow>
     same_payment p p' \<and> payment_ok p' \<and> inv s' \<and>
     view s' = (view s)\<lparr>l_payments := AList.update (payment_ID p) p' (l_payments (view s))\<rparr>"
  and CreateHold_law:
    "inv s \<Longrightarrow> map_of (l_payers (view s)) (hold_PayerID h) = Some y \<Longrightarrow>
     hold_Currency h = payer_Currency y \<Longrightarrow> r_CreateHold R c h s = (Inr h', s') \<Longrightarrow>
     same_hold h h' \<and> map_of (l_holds (view s)) (hold_ID h) = None \<and> inv s' \<and>
     view s' = (view s)\<lparr>l_holds := AList.update (hold_ID h) h' (l_holds (view s))\<rparr>"
  and UpdateHold_law:
    "inv s \<Longrightarrow> map_of (l_holds (view s)) (hold_ID h) = Some h0 \<Longrightarrow>
     hold_PaymentID h = hold_PaymentID h0 \<Longrightarrow> hold_Currency h = hold_Currency h0 \<Longrightarrow>
     r_UpdateHold R c h s = (Inr h', s') \<Longrightarrow>
     same_hold h h' \<and> inv s' \<and>
     view s' = (view s)\<lparr>l_holds := AList.update (hold_ID h) h' (l_holds (view s))\<rparr>"
  and CreateEvent_law:
    "inv s \<Longrightarrow> r_CreateEvent R c e s = (Inr e', s') \<Longrightarrow>
     same_event e e' \<and> map_of (l_events (view s)) (event_ID e) = None \<and> inv s' \<and>
     view s' = (view s)\<lparr>l_events := AList.update (event_ID e) e' (l_events (view s))\<rparr>"
begin

subsection \<open>Authorization\<close>

lemma authorize_success:
  assumes inv: "inv s" and ok: "ledger_ok (view s)"
    and run: "authorize_tx R env input s = (Inr r, s')"
  shows "\<exists>m y0 e0 e.
    map_of (l_merchants (view s)) (ai_MerchantID input) = Some m \<and> CanCreatePayments m \<and>
    map_of (l_payers (view s)) (ai_PayerID input) = Some y0 \<and>
    CanAuthorize y0 (ai_AmountMinor input) (ai_Currency input) \<and>
    authorize_writes (view s) y0 (res_Payer r) (res_Payment r) (res_Hold r) \<and>
    payment_MerchantID (res_Payment r) = merchant_ID m \<and>
    payment_PayerID (res_Payment r) = ai_PayerID input \<and>
    payment_AmountMinor (res_Payment r) = ai_AmountMinor input \<and>
    NewEvent (payment_event eventTypePaymentAuthorized (res_Payment r)
      (paymentAuthorizedPayload (res_Payment r) (res_Hold r)) (env_now env)) (env_rand env 2) = Inr e0 \<and>
    same_event e0 e \<and> map_of (l_events (view s)) (event_ID e) = None \<and>
    view s' = ledger_write (res_Payer r) (res_Payment r) (res_Hold r) e (view s) \<and> inv s'"
proof -
  let ?a = "ai_AmountMinor input" and ?c = "ai_Currency input" and ?now = "env_now env"
  obtain m sm y0 sy pid hid h p y1 y sa p' sb h' sc e0 e where
    m: "r_GetMerchant R (env_call env 0) (ai_MerchantID input) s = (Inr m, sm)" "CanCreatePayments m" and
    y0: "r_GetPayer R (env_call env 1) (ai_PayerID input) sm = (Inr y0, sy)"
      "payer_Currency y0 = NormalizeCurrency ?c" "CanAuthorize y0 ?a ?c" and
    ids: "new_id ''pay'' (env_rand env 0) = Inr pid" "new_id ''hold'' (env_rand env 1) = Inr hid" and
    h: "NewHold \<lparr>nhi_ID = hid, nhi_PaymentID = pid, nhi_PayerID = payer_ID y0,
        nhi_AmountMinor = ?a, nhi_Currency = ?c, nhi_Now = ?now\<rparr> = Inr h" and
    p: "NewAuthorizedPayment \<lparr>npi_ID = pid, npi_MerchantID = merchant_ID m, npi_PayerID = payer_ID y0,
        npi_AmountMinor = ?a, npi_Currency = ?c, npi_AuthorizationHoldID = hold_ID h,
        npi_Now = ?now, npi_ExpiresAt = ?now + 15 * minute\<rparr> = Inr p" and
    y1: "Reserve y0 ?a ?c ?now = Inr y1" and
    y: "r_UpdatePayer R (env_call env 2) y1 sy = (Inr y, sa)" and
    p': "r_CreatePayment R (env_call env 3) p sa = (Inr p', sb)" and
    h': "r_CreateHold R (env_call env 4) h sb = (Inr h', sc)" and
    e0: "NewEvent (payment_event eventTypePaymentAuthorized p' (paymentAuthorizedPayload p' h') ?now)
          (env_rand env 2) = Inr e0" and
    e: "r_CreateEvent R (env_call env 5) e0 sc = (Inr e, s')" and
    r: "r = \<lparr>res_Payment = p', res_Hold = h', res_Payer = y\<rparr>"
    using run unfolding authorize_tx_def Let_def utc_def
    by (auto simp: act_simps split: if_splits)
  have m': "map_of (l_merchants (view s)) (ai_MerchantID input) = Some m" and sm: "sm = s"
    using GetMerchant_law [OF m(1)] by simp_all
  have y0': "map_of (l_payers (view s)) (ai_PayerID input) = Some y0" and sy: "sy = s"
    using GetPayer_law [OF y0(1)] sm by simp_all
  have keys: "gm_wf merchant_ID (l_merchants (view s))" "gm_wf payer_ID (l_payers (view s))"
    using ledger_keys_okD [OF ledger_okD(1) [OF ok]] by simp_all
  have y0_id: "payer_ID y0 = ai_PayerID input" using gm_wf_key [OF keys(2) y0'] .
  have m_ok: "trim_space (merchant_ID m) = merchant_ID m"
    "map_of (l_merchants (view s)) (merchant_ID m) = Some m"
    using ledger_okD(2) [OF ok m'] gm_wf_key [OF keys(1) m'] m' by (simp_all add: merchant_ok_def)
  have y0_ok: "payer_ok y0" "trim_space (payer_ID y0) = payer_ID y0"
    using ledger_okD(3) [OF ok y0'] by (simp_all add: payer_ok_def)
  have y1': "payer_ID y1 = payer_ID y0" "payer_Currency y1 = payer_Currency y0"
    using y1 by (simp_all add: op_success)
  have p_ok: "payment_ok p" "payment_PayerID p = payer_ID y0" "payment_Currency p = payer_Currency y0"
    using p y0(2) y0_ok(2) by (simp_all add: op_success payment_ok_def)
  have hm: "hold_matches p h" "hold_PayerID h = payer_ID y0" "hold_Currency h = payer_Currency y0"
    using p h y0(2) y0_ok(2) by (auto simp: op_success hold_matches_def)
  have U: "same_payer y1 y" "view sa = (view s)\<lparr>l_payers := AList.update (payer_ID y0) y (l_payers (view s))\<rparr>"
    "inv sa"
    using UpdatePayer_law [OF inv, of y1 y0, OF _ _ y [unfolded sy]] y0' y0_id y1' by simp_all
  have y_id: "payer_ID y = payer_ID y0" "payer_Currency y = payer_Currency y0"
    using same_payerD [OF U(1)] y1' by simp_all
  have C: "same_payment p p'" "payment_ok p'" "map_of (l_payments (view s)) (payment_ID p) = None"
    "view sb = (view sa)\<lparr>l_payments := AList.update (payment_ID p) p' (l_payments (view s))\<rparr>" "inv sb"
    using CreatePayment_law [OF U(3), of p y, OF _ _ p_ok(1) p'] p_ok y_id U(2) by simp_all
  have H: "same_hold h h'" "map_of (l_holds (view s)) (hold_ID h) = None"
    "view sc = (view sb)\<lparr>l_holds := AList.update (hold_ID h) h' (l_holds (view s))\<rparr>" "inv sc"
    using CreateHold_law [OF C(5), of h y, OF _ _ h'] hm y_id U(2) C(4) by simp_all
  have E: "same_event e0 e" "map_of (l_events (view s)) (event_ID e0) = None" "inv s'"
    "view s' = (view sc)\<lparr>l_events := AList.update (event_ID e0) e (l_events (view s))\<rparr>"
    using CreateEvent_law [OF H(4) e] U(2) C(4) H(3) by simp_all
  note same = same_paymentD [OF C(1)] same_holdD [OF H(1)] same_eventD [OF E(1)]
  have "authorize_writes (view s) y0 y p' h'"
    unfolding authorize_writes_def
  proof (intro conjI exI)
    show "Reserve y0 (payment_AmountMinor p') ?c ?now = Inr y1"
      using y1 p by (simp add: same op_success)
    show "hold_matches p' h'" using hm(1) by (simp add: hold_matches_def same)
  qed (use y0' y0_id U(1) C(2,3) H(2) p p_ok m_ok in \<open>simp_all add: same op_success\<close>)
  moreover have "view s' = ledger_write y p' h' e (view s)"
    by (simp add: E(4) H(3) C(4) U(2) ledger_write_def same y_id)
  moreover have "payment_AmountMinor p' = ?a" "payment_MerchantID p' = merchant_ID m"
    "payment_PayerID p' = ai_PayerID input"
    using p p_ok(2) y0_id m_ok by (simp_all add: same op_success)
  ultimately show ?thesis
    using m' m(2) y0' y0(3) e0 E(1-3) by (auto simp: r same)
qed

subsection \<open>Capture and expiry\<close>

text \<open>The four writes that both make, from a stored payment, its hold and its payer.\<close>

lemma finish_run:
  assumes inv: "inv s" and ok: "ledger_ok (view s)"
    and p0: "map_of (l_payments (view s)) pid = Some p0"
    and h0: "map_of (l_holds (view s)) (hold_ID h0) = Some h0" "hold_PaymentID h0 = payment_ID p0"
    and y0: "map_of (l_payers (view s)) (payment_PayerID p0) = Some y0"
    and fin: "Payment_Capture p0 now = Inr p1 \<and> Hold_Capture h0 now = Inr h1 \<and>
        CaptureHeld y0 (payment_AmountMinor p0) (payment_Currency p0) now = Inr y1 \<or>
        Payment_Expire p0 now = Inr p1 \<and> Hold_Release h0 now = Inr h1 \<and>
        Release y0 (payment_AmountMinor p0) (payment_Currency p0) now = Inr y1"
    and y: "r_UpdatePayer R c1 y1 s = (Inr y, sa)"
    and h: "r_UpdateHold R c2 h1 sa = (Inr h, sb)"
    and p: "r_UpdatePayment R c3 p1 sb = (Inr p, sc)"
    and e: "r_CreateEvent R c4 e0 sc = (Inr e, s')"
  shows "finish_writes (view s) y0 y p0 p h0 h" "view s' = ledger_write y p h e (view s)" "inv s'"
    "payment_ID p0 = pid" "same_event e0 e" "map_of (l_events (view s)) (event_ID e) = None"
    "same_payment p1 p" "same_hold h1 h" "same_payer y1 y"
proof -
  have keys: "gm_wf payer_ID (l_payers (view s))" "gm_wf payment_ID (l_payments (view s))"
    using ledger_keys_okD [OF ledger_okD(1) [OF ok]] by simp_all
  show pid: "payment_ID p0 = pid" using gm_wf_key [OF keys(2) p0] .
  have y0_id: "payer_ID y0 = payment_PayerID p0" using gm_wf_key [OF keys(1) y0] .
  have y1: "payer_ID y1 = payer_ID y0" "payer_Currency y1 = payer_Currency y0"
    and h1: "hold_ID h1 = hold_ID h0" "hold_PaymentID h1 = hold_PaymentID h0"
      "hold_Currency h1 = hold_Currency h0"
    and p1: "payment_ID p1 = pid" "payment_Currency p1 = payment_Currency p0"
    using fin pid by (auto simp: op_success)
  have "payment_ok p0"
    using ledger_okD(5) [OF ok p0] by (simp add: payment_linked_def)
  then have p1_ok: "payment_ok p1" using fin by (auto simp: op_success payment_ok_def)
  have U: "same_payer y1 y" "inv sa"
    "view sa = (view s)\<lparr>l_payers := AList.update (payer_ID y0) y (l_payers (view s))\<rparr>"
    using UpdatePayer_law [OF inv, of y1 y0, OF _ _ y] y0 y0_id y1 by simp_all
  have H: "same_hold h1 h" "inv sb"
    "view sb = (view sa)\<lparr>l_holds := AList.update (hold_ID h0) h (l_holds (view s))\<rparr>"
    using UpdateHold_law [OF U(2), of h1 h0, OF _ _ _ h] h0 h1 U(3) by simp_all
  have P: "same_payment p1 p" "payment_ok p" "inv sc"
    "view sc = (view sb)\<lparr>l_payments := AList.update pid p (l_payments (view s))\<rparr>"
    using UpdatePayment_law [OF H(2), of p1 p0, OF _ _ p1_ok p] p0 p1 U(3) H(3) by simp_all
  have E: "same_event e0 e" "map_of (l_events (view s)) (event_ID e0) = None" "inv s'"
    "view s' = (view sc)\<lparr>l_events := AList.update (event_ID e0) e (l_events (view s))\<rparr>"
    using CreateEvent_law [OF P(3) e] U(3) H(3) P(4) by simp_all
  note same = same_paymentD [OF P(1)] same_holdD [OF H(1)] same_payerD [OF U(1)] same_eventD [OF E(1)]
  show "finish_writes (view s) y0 y p0 p h0 h"
    unfolding finish_writes_def
    using p0 pid h0 y0 P(2) fin P(1) H(1) U(1) by blast
  show "view s' = ledger_write y p h e (view s)"
    by (simp add: E(4) P(4) H(3) U(3) ledger_write_def same y1 h1 p1)
  show "inv s'" "same_event e0 e" "same_payment p1 p" "same_hold h1 h" "same_payer y1 y"
    "map_of (l_events (view s)) (event_ID e) = None"
    using E P H U by (simp_all add: same)
qed

lemma capture_success:
  assumes inv: "inv s" and ok: "ledger_ok (view s)"
    and run: "capture_tx R env pid s = (Inr r, s')"
  shows "\<exists>p0 h0 y0 e0 e.
    map_of (l_payments (view s)) pid = Some p0 \<and> CanCapture p0 (env_now env) \<and> payment_ID p0 = pid \<and>
    payment_Status (res_Payment r) = StatusCaptured \<and> hold_Status (res_Hold r) = HoldStatusCaptured \<and>
    finish_writes (view s) y0 (res_Payer r) p0 (res_Payment r) h0 (res_Hold r) \<and>
    NewEvent (payment_event eventTypePaymentCaptured (res_Payment r)
      (paymentCapturedPayload (res_Payment r) (res_Hold r) (env_now env)) (env_now env))
      (env_rand env 0) = Inr e0 \<and>
    same_event e0 e \<and> map_of (l_events (view s)) (event_ID e) = None \<and>
    view s' = ledger_write (res_Payer r) (res_Payment r) (res_Hold r) e (view s) \<and> inv s'"
proof -
  let ?now = "env_now env"
  obtain p0 s1 h0 s2 y0 s3 p1 h1 y1 y sa h sb p sc e0 e where
    p0: "r_GetPayment R (env_call env 0) pid s = (Inr p0, s1)" and
    h0: "r_GetHoldByPaymentID R (env_call env 1) (payment_ID p0) s1 = (Inr h0, s2)" and
    y0: "r_GetPayer R (env_call env 2) (payment_PayerID p0) s2 = (Inr y0, s3)" and
    p1: "Payment_Capture p0 ?now = Inr p1" and h1: "Hold_Capture h0 ?now = Inr h1" and
    y1: "CaptureHeld y0 (payment_AmountMinor p0) (payment_Currency p0) ?now = Inr y1" and
    y: "r_UpdatePayer R (env_call env 3) y1 s3 = (Inr y, sa)" and
    h: "r_UpdateHold R (env_call env 4) h1 sa = (Inr h, sb)" and
    p: "r_UpdatePayment R (env_call env 5) p1 sb = (Inr p, sc)" and
    e0: "NewEvent (payment_event eventTypePaymentCaptured p (paymentCapturedPayload p h ?now) ?now)
          (env_rand env 0) = Inr e0" and
    e: "r_CreateEvent R (env_call env 6) e0 sc = (Inr e, s')" and
    r: "r = \<lparr>res_Payment = p, res_Hold = h, res_Payer = y\<rparr>"
    using run unfolding capture_tx_def Let_def utc_def
    by (auto simp: act_simps split: if_splits)
  have reads: "s1 = s" "s2 = s" "s3 = s" "map_of (l_payments (view s)) pid = Some p0"
    "map_of (l_holds (view s)) (hold_ID h0) = Some h0" "hold_PaymentID h0 = payment_ID p0"
    "map_of (l_payers (view s)) (payment_PayerID p0) = Some y0"
    using GetPayment_law [OF p0] GetHoldByPaymentID_law [OF _ h0] GetPayer_law [OF y0] inv by auto
  note F = finish_run [OF inv ok reads(4-7) disjI1 y [unfolded reads] h p e, of ?now]
  have "CanCapture p0 ?now" using p1 by (auto simp: CanCapture_iff)
  moreover have "payment_Status p = StatusCaptured" "hold_Status h = HoldStatusCaptured"
    using same_paymentD [OF F(7)] same_holdD [OF F(8)] p1 h1 y1 by (auto simp: op_success)
  ultimately show ?thesis
    using F p1 h1 y1 reads(4) e0 by (auto simp: r)
qed

lemma expire_one_success:
  assumes inv: "inv s" and ok: "ledger_ok (view s)"
    and p0: "map_of (l_payments (view s)) (payment_ID p0) = Some p0"
    and run: "expire_one R env k i now p0 s = (Inr r, s')"
  shows "\<exists>h0 y0 e0 e.
    payment_Status (res_Payment r) = StatusExpired \<and> hold_Status (res_Hold r) = HoldStatusReleased \<and>
    finish_writes (view s) y0 (res_Payer r) p0 (res_Payment r) h0 (res_Hold r) \<and>
    NewEvent (payment_event eventTypePaymentExpired (res_Payment r)
      (paymentExpiredPayload (res_Payment r) (res_Hold r) now) now) (env_rand env i) = Inr e0 \<and>
    same_event e0 e \<and> map_of (l_events (view s)) (event_ID e) = None \<and>
    view s' = ledger_write (res_Payer r) (res_Payment r) (res_Hold r) e (view s) \<and> inv s'"
proof -
  obtain h0 s2 y0 s3 p1 h1 y1 y sa h sb p sc e0 e where
    h0: "r_GetHoldByPaymentID R (env_call env k) (payment_ID p0) s = (Inr h0, s2)" and
    y0: "r_GetPayer R (env_call env (k + 1)) (payment_PayerID p0) s2 = (Inr y0, s3)" and
    y1: "Release y0 (payment_AmountMinor p0) (payment_Currency p0) now = Inr y1" and
    y: "r_UpdatePayer R (env_call env (k + 2)) y1 s3 = (Inr y, sa)" and
    h1: "Hold_Release h0 now = Inr h1" and
    h: "r_UpdateHold R (env_call env (k + 3)) h1 sa = (Inr h, sb)" and
    p1: "Payment_Expire p0 now = Inr p1" and
    p: "r_UpdatePayment R (env_call env (k + 4)) p1 sb = (Inr p, sc)" and
    e0: "NewEvent (payment_event eventTypePaymentExpired p (paymentExpiredPayload p h now) now)
          (env_rand env i) = Inr e0" and
    e: "r_CreateEvent R (env_call env (k + 5)) e0 sc = (Inr e, s')" and
    r: "r = \<lparr>res_Payment = p, res_Hold = h, res_Payer = y\<rparr>"
    using run unfolding expire_one_def
    by (auto simp: act_simps)
  have reads: "s2 = s" "s3 = s" "map_of (l_holds (view s)) (hold_ID h0) = Some h0"
    "hold_PaymentID h0 = payment_ID p0" "map_of (l_payers (view s)) (payment_PayerID p0) = Some y0"
    using GetHoldByPaymentID_law [OF inv h0] GetPayer_law [OF y0] by auto
  note F = finish_run [OF inv ok p0 reads(3-5) disjI2 y [unfolded reads] h p e, of now]
  have "payment_Status p = StatusExpired" "hold_Status h = HoldStatusReleased"
    using same_paymentD [OF F(7)] same_holdD [OF F(8)] p1 h1 y1 by (auto simp: op_success)
  then show ?thesis using F p1 h1 y1 e0 by (auto simp: r)
qed

text \<open>The loop over the expired payments, and the use case around it.\<close>

lemma expire_loop_success:
  "expire_loop R env k i now ps acc s = (Inr res, s') \<Longrightarrow> inv s \<Longrightarrow> ledger_ok (view s) \<Longrightarrow>
   \<forall>p \<in> set ps. map_of (l_payments (view s)) (payment_ID p) = Some p \<Longrightarrow>
   distinct (map payment_ID ps) \<Longrightarrow>
   inv s' \<and> expired_from (view s) ps (view s') \<and>
   (\<exists>rs. res = expire_results acc rs \<and> map (payment_ID \<circ> res_Payment) rs = map payment_ID ps \<and>
     (\<forall>r \<in> set rs. payment_Status (res_Payment r) = StatusExpired))"
proof (induction ps arbitrary: k i acc s)
  case Nil
  then show ?case
    by (auto simp: act_simps expired_from_def expire_results_def payments_of_def)
next
  case (Cons p ps)
  obtain r s1 where one: "expire_one R env k i now p s = (Inr r, s1)"
    and rest: "expire_loop R env (k + 6) (i + 1) now ps (expire_results acc [r]) s1 = (Inr res, s')"
    using Cons.prems(1) by (auto simp: act_simps expire_results_def)
  have p: "map_of (l_payments (view s)) (payment_ID p) = Some p" using Cons.prems(4) by simp
  obtain h0 y0 e0 e where st: "payment_Status (res_Payment r) = StatusExpired"
    and fin: "finish_writes (view s) y0 (res_Payer r) p (res_Payment r) h0 (res_Hold r)"
    and e: "NewEvent (payment_event eventTypePaymentExpired (res_Payment r)
      (paymentExpiredPayload (res_Payment r) (res_Hold r) now) now) (env_rand env i) = Inr e0" "same_event e0 e"
    and new: "map_of (l_events (view s)) (event_ID e) = None"
    and s1: "view s1 = ledger_write (res_Payer r) (res_Payment r) (res_Hold r) e (view s)" "inv s1"
    using expire_one_success [OF Cons.prems(2,3) p one] by blast
  have deal: "same_deal p (res_Payment r)" by (rule finish_writes_deal [OF Cons.prems(3) fin])
  then have rid: "payment_ID (res_Payment r) = payment_ID p" by (rule same_dealD)
  have ok1: "ledger_ok (view s1)" using finish_writes_ok [OF Cons.prems(3) fin] s1(1) by simp
  have stored: "\<forall>q \<in> set ps. map_of (l_payments (view s1)) (payment_ID q) = Some q"
  proof
    fix q assume q: "q \<in> set ps"
    have "payment_ID q \<noteq> payment_ID p"
      using Cons.prems(5) q by (metis distinct.simps(2) image_eqI list.map(2) list.set_map)
    moreover have "map_of (l_payments (view s)) (payment_ID q) = Some q"
      using Cons.prems(4) q by (meson list.set_intros(2))
    ultimately show "map_of (l_payments (view s1)) (payment_ID q) = Some q"
      by (simp add: s1(1) rid)
  qed
  obtain rs where I: "inv s'" "expired_from (view s1) ps (view s')"
    "res = expire_results (expire_results acc [r]) rs"
    "map (payment_ID \<circ> res_Payment) rs = map payment_ID ps"
    "\<forall>r \<in> set rs. payment_Status (res_Payment r) = StatusExpired"
    using Cons.IH [OF rest s1(2) ok1 stored] Cons.prems(5) unfolding list.map distinct.simps
    by blast
  have "payment_ID p \<notin> set (map payment_ID ps)" using Cons.prems(5) by simp
  moreover have "event_for (eventTypePaymentExpired, payment_ID p) e"
    using payment_event_label [OF e] finish_writesD(14) [OF Cons.prems(3) fin] rid by simp
  ultimately have "expired_from (view s) (p # ps) (view s')"
    using expired_from_step [OF Cons.prems(3) fin s1(1) st new] I(2) by blast
  moreover have "res = expire_results acc (r # rs)" using I(3) by (simp add: expire_results_def)
  ultimately show ?case
    using I(1,4,5) rid st by (intro conjI exI [of _ "r # rs"]) (auto simp: o_def)
qed

lemma expire_success:
  assumes inv: "inv s" and ok: "ledger_ok (view s)"
    and run: "expire_tx R env limit s = (Inr res, s')" and limit: "0 < limit"
  shows "inv s' \<and> (\<exists>ps. expired_list_ok (l_payments (view s)) (env_now env) ps \<and>
    int (length ps) \<le> limit \<and> expired_from (view s) ps (view s') \<and>
    map payment_ID (res_Payments res) = map payment_ID ps \<and>
    (\<forall>p \<in> set (res_Payments res). payment_Status p = StatusExpired))"
proof -
  obtain ps s1 where list: "r_ListExpiredAuthorizedPayments R (env_call env 0) (env_now env) limit s = (Inr ps, s1)"
    and loop: "expire_loop R env 1 0 (env_now env) ps
      \<lparr>res_Payments = [], res_Holds = [], res_Payers = []\<rparr> s1 = (Inr res, s')"
    using run unfolding expire_tx_def Let_def utc_def by (auto simp: act_simps)
  have L: "s1 = s" "expired_list_ok (l_payments (view s)) (env_now env) ps" "int (length ps) \<le> limit"
    using ListExpired_law [OF ledger_okD(1) [OF ok] list] limit by auto
  obtain rs where "inv s'" "expired_from (view s) ps (view s')"
    "res = expire_results \<lparr>res_Payments = [], res_Holds = [], res_Payers = []\<rparr> rs"
    "map (payment_ID \<circ> res_Payment) rs = map payment_ID ps"
    "\<forall>r \<in> set rs. payment_Status (res_Payment r) = StatusExpired"
    using expire_loop_success [OF loop [unfolded L(1)] inv ok] L(2) by (auto simp: expired_list_ok_def)
  then show ?thesis using L(2,3) by (intro conjI exI [of _ ps]) (auto simp: expire_results_def o_def)
qed

end

end
