(* ===== verification/PaymentProgress.thy ===== *)
theory PaymentProgress
  imports PaymentBackend
begin

text \<open>
  Progress of the payment service: over a backend whose calls do not fail, each use case returns
  a result whenever the state allows it. \<open>alive c\<close> says that the surroundings \<open>c\<close> of
  a call do not make it fail.
\<close>

section \<open>Timestamps that fit\<close>

text \<open>A stored time may lose less than a second; a payload needs times JSON can write.\<close>

definition kept_time :: "time \<Rightarrow> time \<Rightarrow> bool" where
  "kept_time t t' \<longleftrightarrow> t - second < t' \<and> t' \<le> t"

definition json_time_ok :: "time \<Rightarrow> bool" where
  "json_time_ok t \<longleftrightarrow> min_json_time \<le> t \<and> t < max_json_time"

lemma kept_time_refl [simp]: "kept_time t t"
  by (simp add: kept_time_def second_def)

lemma trim_event_types [simp]:
  "trim_space aggregateTypePayment = aggregateTypePayment" "aggregateTypePayment \<noteq> []"
  "trim_space eventTypePaymentAuthorized = eventTypePaymentAuthorized"
  "eventTypePaymentAuthorized \<noteq> []"
  "trim_space eventTypePaymentCaptured = eventTypePaymentCaptured" "eventTypePaymentCaptured \<noteq> []"
  "trim_space eventTypePaymentExpired = eventTypePaymentExpired" "eventTypePaymentExpired \<noteq> []"
  by code_simp+

lemma NewEvent_payment:
  assumes "payment_ok p" "new_id ''evt'' rnd = Inr eid" "json_times_ok payload"
    "trim_space ty = ty" "ty \<noteq> []"
  obtains e where "NewEvent (payment_event ty p payload now) rnd = Inr e" "event_ID e = eid"
    "Attempts e = 0"
  using assms
  by (auto simp: NewEvent_def payment_event_def payment_ok_def json_marshal_def Let_def)

lemma NewEvent_id: "NewEvent input rnd = Inr e \<Longrightarrow> new_id ''evt'' rnd = Inr (event_ID e)"
  by (auto simp: NewEvent_def Let_def split: if_splits sum.splits)

section \<open>Room for a run of the expiry loop\<close>

definition expirable :: "ledger \<Rightarrow> payment \<Rightarrow> bool" where
  "expirable L p \<longleftrightarrow> map_of (l_payments L) (payment_ID p) = Some p \<and>
     payment_Status p = StatusAuthorized \<and> json_time_ok (payment_ExpiresAt p)"

text \<open>Every payer's version can still be increased \<open>n\<close> times.\<close>

definition versions_room :: "ledger \<Rightarrow> nat \<Rightarrow> bool" where
  "versions_room L n \<longleftrightarrow> (\<forall>i y. map_of (l_payers L) i = Some y \<longrightarrow>
     0 \<le> sint (payer_Version y) \<and> sint (payer_Version y) + int n < 2 ^ 63)"

text \<open>The events numbered from \<open>i\<close> get identifiers outside \<open>used\<close>, all different.\<close>

fun event_ids_free :: "string set \<Rightarrow> 'c env \<Rightarrow> nat \<Rightarrow> nat \<Rightarrow> bool" where
  "event_ids_free used env i 0 \<longleftrightarrow> True"
| "event_ids_free used env i (Suc n) \<longleftrightarrow>
     (case new_id ''evt'' (env_rand env i) of
        Inl err \<Rightarrow> False
      | Inr eid \<Rightarrow> eid \<notin> used \<and> event_ids_free (insert eid used) env (i + 1) n)"

lemma versions_room_next:
  assumes "versions_room L (Suc n)" "map_of (l_payers L) i = Some y"
  shows "sint (payer_Version y + 1) = sint (payer_Version y) + 1" "0 \<le> sint (payer_Version y + 1)"
proof -
  have "0 \<le> sint (payer_Version y)" "sint (payer_Version y) + 1 < 2 ^ 63"
    using assms unfolding versions_room_def by force+
  then show "sint (payer_Version y + 1) = sint (payer_Version y) + 1" "0 \<le> sint (payer_Version y + 1)"
    using sint_add64 [of "payer_Version y" 1] by simp_all
qed

lemma versions_room_write:
  assumes room: "versions_room L (Suc n)" and y0: "map_of (l_payers L) (payer_ID y0) = Some y0"
    and y: "payer_ID y = payer_ID y0" "payer_Version y = payer_Version y0 + 1"
  shows "versions_room (ledger_write y p h e L) n"
  unfolding versions_room_def
proof (intro allI impI)
  fix i z assume z: "map_of (l_payers (ledger_write y p h e L)) i = Some z"
  show "0 \<le> sint (payer_Version z) \<and> sint (payer_Version z) + int n < 2 ^ 63"
  proof (cases "i = payer_ID y0")
    case True
    then have "z = y" using z y by simp
    then show ?thesis
      using room y0 versions_room_next [OF room y0] y(2) unfolding versions_room_def by force
  next
    case False
    then have "map_of (l_payers L) i = Some z" using z y by simp
    then show ?thesis using room unfolding versions_room_def by force
  qed
qed

lemma versions_room_mono: "versions_room L n \<Longrightarrow> m \<le> n \<Longrightarrow> versions_room L m"
  unfolding versions_room_def by fastforce

lemma event_ids_free_mono: "event_ids_free used env i n \<Longrightarrow> m \<le> n \<Longrightarrow> event_ids_free used env i m"
proof (induction n arbitrary: used i m)
  case (Suc n)
  then show ?case by (cases m) (auto split: sum.splits)
qed simp

section \<open>A backend whose calls succeed\<close>

locale live_backend = payment_backend R view inv
  for R :: "('c, 's) repos" and view :: "'s \<Rightarrow> ledger" and inv :: "'s \<Rightarrow> bool" +
  fixes alive :: "'c \<Rightarrow> bool"
  assumes GetMerchant_live:
    "alive c \<Longrightarrow> map_of (l_merchants (view s)) i = Some m \<Longrightarrow> r_GetMerchant R c i s = (Inr m, s)"
  and GetPayer_live:
    "alive c \<Longrightarrow> map_of (l_payers (view s)) i = Some y \<Longrightarrow> r_GetPayer R c i s = (Inr y, s)"
  and GetPayment_live:
    "alive c \<Longrightarrow> map_of (l_payments (view s)) i = Some p \<Longrightarrow> r_GetPayment R c i s = (Inr p, s)"
  and GetHoldByPaymentID_live:
    "alive c \<Longrightarrow> inv s \<Longrightarrow> map_of (l_holds (view s)) i = Some h \<Longrightarrow>
     (\<And>j g. map_of (l_holds (view s)) j = Some g \<Longrightarrow> hold_PaymentID g = hold_PaymentID h \<Longrightarrow> j = i) \<Longrightarrow>
     r_GetHoldByPaymentID R c (hold_PaymentID h) s = (Inr h, s)"
  and ListExpired_live:
    "alive c \<Longrightarrow> inv s \<Longrightarrow> 0 < limit \<Longrightarrow> ledger_keys_ok (view s) \<Longrightarrow>
     \<exists>ps. r_ListExpiredAuthorizedPayments R c now limit s = (Inr ps, s) \<and>
       (\<forall>i p. map_of (l_payments (view s)) i = Some p \<longrightarrow> expired_authorized now p \<longrightarrow>
          p \<in> set ps \<or> int (length ps) = limit)"
  and UpdatePayer_live:
    "alive c \<Longrightarrow> inv s \<Longrightarrow> map_of (l_payers (view s)) (payer_ID y) = Some y0 \<Longrightarrow>
     payer_Version y = payer_Version y0 + 1 \<Longrightarrow> payer_Currency y = payer_Currency y0 \<Longrightarrow>
     payer_ok y \<Longrightarrow> 0 \<le> sint (payer_Version y) \<Longrightarrow>
     \<exists>y' s'. r_UpdatePayer R c y s = (Inr y', s')"
  and CreatePayment_live:
    "alive c \<Longrightarrow> inv s \<Longrightarrow> map_of (l_payments (view s)) (payment_ID p) = None \<Longrightarrow> payment_ok p \<Longrightarrow>
     map_of (l_merchants (view s)) (payment_MerchantID p) \<noteq> None \<Longrightarrow>
     map_of (l_payers (view s)) (payment_PayerID p) = Some y \<Longrightarrow>
     payment_Currency p = payer_Currency y \<Longrightarrow> AuthorizedAt p + second \<le> payment_ExpiresAt p \<Longrightarrow>
     \<exists>p' s'. r_CreatePayment R c p s = (Inr p', s') \<and>
       kept_time (AuthorizedAt p) (AuthorizedAt p') \<and>
       kept_time (payment_ExpiresAt p) (payment_ExpiresAt p')"
  and UpdatePayment_live:
    "alive c \<Longrightarrow> inv s \<Longrightarrow> map_of (l_payments (view s)) (payment_ID p) = Some p0 \<Longrightarrow> payment_ok p \<Longrightarrow>
     payment_MerchantID p = payment_MerchantID p0 \<Longrightarrow> payment_PayerID p = payment_PayerID p0 \<Longrightarrow>
     map_of (l_merchants (view s)) (payment_MerchantID p) \<noteq> None \<Longrightarrow>
     map_of (l_payers (view s)) (payment_PayerID p) \<noteq> None \<Longrightarrow>
     payment_Currency p = payment_Currency p0 \<Longrightarrow> AuthorizedAt p = AuthorizedAt p0 \<Longrightarrow>
     payment_ExpiresAt p = payment_ExpiresAt p0 \<Longrightarrow>
     \<exists>p' s'. r_UpdatePayment R c p s = (Inr p', s') \<and> payment_ExpiresAt p' = payment_ExpiresAt p"
  and CreateHold_live:
    "alive c \<Longrightarrow> inv s \<Longrightarrow> map_of (l_holds (view s)) (hold_ID h) = None \<Longrightarrow>
     (\<And>i g. map_of (l_holds (view s)) i = Some g \<Longrightarrow> hold_PaymentID g \<noteq> hold_PaymentID h) \<Longrightarrow>
     map_of (l_payments (view s)) (hold_PaymentID h) \<noteq> None \<Longrightarrow>
     map_of (l_payers (view s)) (hold_PayerID h) = Some y \<Longrightarrow> hold_Currency h = payer_Currency y \<Longrightarrow>
     NormalizeCurrency (hold_Currency h) = hold_Currency h \<Longrightarrow> 0 < sint (hold_AmountMinor h) \<Longrightarrow>
     \<exists>h' s'. r_CreateHold R c h s = (Inr h', s')"
  and UpdateHold_live:
    "alive c \<Longrightarrow> inv s \<Longrightarrow> map_of (l_holds (view s)) (hold_ID h) = Some h0 \<Longrightarrow>
     hold_PaymentID h = hold_PaymentID h0 \<Longrightarrow> hold_PayerID h = hold_PayerID h0 \<Longrightarrow>
     hold_Currency h = hold_Currency h0 \<Longrightarrow>
     map_of (l_payments (view s)) (hold_PaymentID h) \<noteq> None \<Longrightarrow>
     map_of (l_payers (view s)) (hold_PayerID h) \<noteq> None \<Longrightarrow>
     NormalizeCurrency (hold_Currency h) = hold_Currency h \<Longrightarrow> 0 < sint (hold_AmountMinor h) \<Longrightarrow>
     \<exists>h' s'. r_UpdateHold R c h s = (Inr h', s')"
  and CreateEvent_live:
    "alive c \<Longrightarrow> inv s \<Longrightarrow> map_of (l_events (view s)) (event_ID e) = None \<Longrightarrow> Attempts e = 0 \<Longrightarrow>
     \<exists>e' s'. r_CreateEvent R c e s = (Inr e', s')"
begin

subsection \<open>Authorization succeeds\<close>

lemma authorize_progress:
  assumes inv: "inv s" and ok: "ledger_ok (view s)" and calls: "\<And>k. alive (env_call env k)"
    and m: "map_of (l_merchants (view s)) (ai_MerchantID input) = Some m" "CanCreatePayments m"
    and y0: "map_of (l_payers (view s)) (ai_PayerID input) = Some y0"
      "CanAuthorize y0 (ai_AmountMinor input) (ai_Currency input)"
      "0 \<le> sint (payer_Version y0 + 1)"
    and cur: "IsValidCurrency (ai_Currency input)"
    and ids: "new_id ''pay'' (env_rand env 0) = Inr pid" "new_id ''hold'' (env_rand env 1) = Inr hid"
      "new_id ''evt'' (env_rand env 2) = Inr eid"
    and fresh: "map_of (l_payments (view s)) pid = None" "map_of (l_holds (view s)) hid = None"
      "map_of (l_events (view s)) eid = None"
    and clock: "json_time_ok (env_now env - second)" "json_time_ok (env_now env + 15 * minute)"
  shows "\<exists>r s'. authorize_tx R env input s = (Inr r, s')"
proof -
  let ?a = "ai_AmountMinor input" and ?c = "ai_Currency input" and ?now = "env_now env"
  have keys: "gm_wf merchant_ID (l_merchants (view s))" "gm_wf payer_ID (l_payers (view s))"
    using ledger_keys_okD [OF ledger_okD(1) [OF ok]] by simp_all
  have y0_id: "payer_ID y0 = ai_PayerID input" and m_id: "merchant_ID m = ai_MerchantID input"
    using gm_wf_key [OF keys(2) y0(1)] gm_wf_key [OF keys(1) m(1)] .
  have y0_ok: "payer_ok y0" "trim_space (payer_ID y0) = payer_ID y0" "payer_ID y0 \<noteq> []"
    and m_ok: "trim_space (merchant_ID m) = merchant_ID m" "merchant_ID m \<noteq> []"
    using ledger_okD(3) [OF ok y0(1)] ledger_okD(2) [OF ok m(1)]
    by (simp_all add: payer_ok_def merchant_ok_def)
  have amount: "0 < sint ?a" "payer_Currency y0 = NormalizeCurrency ?c"
    using y0(2) by (auto simp: CanAuthorize_def split: if_splits)
  have trims: "trim_space pid = pid" "trim_space hid = hid" "pid \<noteq> []" "hid \<noteq> []"
    using ids new_id_trim new_id_nonempty by blast+
  obtain y1 where y1: "Reserve y0 ?a ?c ?now = Inr y1"
    using y0(2) CanAuthorize_iff_Reserve by blast
  define hi where "hi = \<lparr>nhi_ID = hid, nhi_PaymentID = pid, nhi_PayerID = payer_ID y0,
    nhi_AmountMinor = ?a, nhi_Currency = ?c, nhi_Now = ?now\<rparr>"
  define h where "h = \<lparr>hold_ID = hid, hold_PaymentID = pid, hold_PayerID = payer_ID y0,
    hold_AmountMinor = ?a, hold_Currency = NormalizeCurrency ?c, hold_Status = HoldStatusHeld,
    hold_CreatedAt = ?now, hold_UpdatedAt = ?now\<rparr>"
  define pi where "pi = \<lparr>npi_ID = pid, npi_MerchantID = merchant_ID m, npi_PayerID = payer_ID y0,
    npi_AmountMinor = ?a, npi_Currency = ?c, npi_AuthorizationHoldID = hold_ID h,
    npi_Now = ?now, npi_ExpiresAt = ?now + 15 * minute\<rparr>"
  define p where "p = \<lparr>payment_ID = pid, payment_MerchantID = merchant_ID m,
    payment_PayerID = payer_ID y0, payment_AmountMinor = ?a,
    payment_Currency = NormalizeCurrency ?c, payment_Status = StatusAuthorized,
    AuthorizationHoldID = hid, AuthorizedAt = ?now, payment_ExpiresAt = ?now + 15 * minute,
    CapturedAt = None, SettledAt = None, payment_CreatedAt = ?now, payment_UpdatedAt = ?now\<rparr>"
  have h: "NewHold hi = Inr h"
    using trims y0_ok amount cur by (simp add: NewHold_success hi_def h_def)
  have p: "NewAuthorizedPayment pi = Inr p"
    using trims y0_ok m_ok amount cur
    by (simp add: NewAuthorizedPayment_success pi_def p_def h_def minute_def second_def)
  have p_ok: "payment_ok p"
    using trims amount by (simp add: payment_ok_def p_def minute_def second_def)
  have y1': "payer_ID y1 = payer_ID y0" "payer_Currency y1 = payer_Currency y0"
    "payer_Version y1 = payer_Version y0 + 1"
    using y1 by (simp_all add: op_success)
  have y1_ok: "payer_ok y1" using Reserve_balances(4) [OF y0_ok(1) y1] .
  obtain y sa where y: "r_UpdatePayer R (env_call env 2) y1 s = (Inr y, sa)"
    using UpdatePayer_live [OF calls [of 2] inv, of y1 y0] y0(1,3) y0_id y1' y1_ok by auto
  have U: "same_payer y1 y" "view sa = (view s)\<lparr>l_payers := AList.update (payer_ID y0) y (l_payers (view s))\<rparr>"
    "inv sa"
    using UpdatePayer_law [OF inv, of y1 y0, OF _ _ y] y0(1) y0_id y1' by simp_all
  have y_cur: "payer_Currency y = payer_Currency y0" using same_payerD(4) [OF U(1)] y1' by simp
  obtain p' sb where p': "r_CreatePayment R (env_call env 3) p sa = (Inr p', sb)"
    and times: "kept_time ?now (AuthorizedAt p')" "kept_time (?now + 15 * minute) (payment_ExpiresAt p')"
    using CreatePayment_live [OF calls [of 3] U(3), of p y] fresh(1) p_ok m m_id amount y_cur U(2)
    by (auto simp: p_def minute_def second_def)
  have C: "same_payment p p'" "inv sb" "payment_ok p'"
    "view sb = (view sa)\<lparr>l_payments := AList.update pid p' (l_payments (view s))\<rparr>"
    using CreatePayment_law [OF U(3), of p y, OF _ _ p_ok p'] amount y_cur U(2)
    by (simp_all add: p_def)
  have no_hold: "hold_PaymentID g \<noteq> pid" if g: "map_of (l_holds (view s)) i = Some g" for i g
    using ledger_okD(6) [OF ok g] fresh(1) by auto
  obtain h' sc where h': "r_CreateHold R (env_call env 4) h sb = (Inr h', sc)"
    using CreateHold_live [OF calls [of 4] C(2), of h y] fresh(2) no_hold amount y_cur U(2) C(4)
    by (auto simp: h_def)
  have H: "inv sc" "view sc = (view sb)\<lparr>l_holds := AList.update hid h' (l_holds (view s))\<rparr>"
    using CreateHold_law [OF C(2), of h y, OF _ _ h'] amount y_cur U(2) C(4)
    by (simp_all add: h_def)
  obtain e0 where e0: "NewEvent (payment_event eventTypePaymentAuthorized p'
      (paymentAuthorizedPayload p' h') ?now) (env_rand env 2) = Inr e0" "event_ID e0 = eid" "Attempts e0 = 0"
  proof (rule NewEvent_payment [OF C(3) ids(3), of "paymentAuthorizedPayload p' h'" eventTypePaymentAuthorized ?now])
    show "json_times_ok (paymentAuthorizedPayload p' h')"
      using times clock
      by (auto simp: paymentAuthorizedPayload_def kept_time_def json_time_ok_def minute_def second_def)
  qed auto
  obtain e s' where e: "r_CreateEvent R (env_call env 5) e0 sc = (Inr e, s')"
    using CreateEvent_live [OF calls [of 5] H(1), of e0] fresh(3) e0(2,3) U(2) C(4) H(2) by auto
  have "authorize_tx R env input s =
    (Inr \<lparr>res_Payment = p', res_Hold = h', res_Payer = y\<rparr>, s')"
    unfolding authorize_tx_def Let_def utc_def
    by (simp add: act_defs GetMerchant_live [OF calls m(1)] m(2) GetPayer_live [OF calls y0(1)]
      amount(2) y0(2) ids h [unfolded hi_def] p [unfolded pi_def] y1 y p' h' e0(1) e
      del: One_nat_def)
  then show ?thesis by blast
qed

subsection \<open>Capture and expiry succeed\<close>

lemma finish_progress:
  assumes inv: "inv s" and ok: "ledger_ok (view s)"
    and alive: "alive c1" "alive c2" "alive c3" "alive c4"
    and p0: "map_of (l_payments (view s)) (payment_ID p0) = Some p0"
    and h0: "map_of (l_holds (view s)) (hold_ID h0) = Some h0" "hold_PaymentID h0 = payment_ID p0"
    and y0: "map_of (l_payers (view s)) (payment_PayerID p0) = Some y0"
    and version: "0 \<le> sint (payer_Version y0 + 1)"
    and fin: "Payment_Capture p0 now = Inr p1 \<and> Hold_Capture h0 now = Inr h1 \<and>
        CaptureHeld y0 (payment_AmountMinor p0) (payment_Currency p0) now = Inr y1 \<or>
        Payment_Expire p0 now = Inr p1 \<and> Hold_Release h0 now = Inr h1 \<and>
        Release y0 (payment_AmountMinor p0) (payment_Currency p0) now = Inr y1"
  obtains y sa h sb p sc where "r_UpdatePayer R c1 y1 s = (Inr y, sa)"
    "r_UpdateHold R c2 h1 sa = (Inr h, sb)" "r_UpdatePayment R c3 p1 sb = (Inr p, sc)"
    "payment_ok p" "payment_ExpiresAt p = payment_ExpiresAt p0"
    "\<And>e0. map_of (l_events (view s)) (event_ID e0) = None \<Longrightarrow> Attempts e0 = 0 \<Longrightarrow>
      \<exists>e s'. r_CreateEvent R c4 e0 sc = (Inr e, s')"
proof -
  have keys: "gm_wf payer_ID (l_payers (view s))"
    using ledger_keys_okD [OF ledger_okD(1) [OF ok]] by simp
  have y0_id: "payer_ID y0 = payment_PayerID p0" using gm_wf_key [OF keys y0] .
  have y0_ok: "payer_ok y0" using ledger_okD(3) [OF ok y0] .
  have link: "payment_linked (view s) p0" using ledger_okD(5) [OF ok p0] .
  then have p0_ok: "payment_ok p0" and mer: "map_of (l_merchants (view s)) (payment_MerchantID p0) \<noteq> None"
    by (simp_all add: payment_linked_def)
  have match: "hold_matches p0 h0" using hold_of_payment(2) [OF ok p0 h0] .
  have y1: "payer_ID y1 = payer_ID y0" "payer_Currency y1 = payer_Currency y0"
      "payer_Version y1 = payer_Version y0 + 1"
    and h1: "hold_ID h1 = hold_ID h0" "hold_PaymentID h1 = hold_PaymentID h0"
      "hold_PayerID h1 = hold_PayerID h0" "hold_Currency h1 = hold_Currency h0"
      "hold_AmountMinor h1 = hold_AmountMinor h0"
    and p1: "payment_ID p1 = payment_ID p0" "payment_Currency p1 = payment_Currency p0"
      "payment_MerchantID p1 = payment_MerchantID p0" "payment_PayerID p1 = payment_PayerID p0"
      "AuthorizedAt p1 = AuthorizedAt p0" "payment_ExpiresAt p1 = payment_ExpiresAt p0"
    using fin by (auto simp: op_success)
  have p1_ok: "payment_ok p1" using fin p0_ok by (auto simp: op_success payment_ok_def)
  have y1_ok: "payer_ok y1"
    using fin CaptureHeld_balances(4) [OF y0_ok] Release_balances(4) [OF y0_ok] by blast
  have h0_ok: "NormalizeCurrency (hold_Currency h0) = hold_Currency h0" "0 < sint (hold_AmountMinor h0)"
    "hold_PayerID h0 = payment_PayerID p0"
    using match p0_ok by (auto simp: hold_matches_def payment_ok_def)
  obtain y sa where y: "r_UpdatePayer R c1 y1 s = (Inr y, sa)"
    using UpdatePayer_live [OF alive(1) inv, of y1 y0] y0 y0_id y1 y1_ok version by auto
  have U: "same_payer y1 y" "inv sa"
    "view sa = (view s)\<lparr>l_payers := AList.update (payer_ID y0) y (l_payers (view s))\<rparr>"
    using UpdatePayer_law [OF inv, of y1 y0, OF _ _ y] y0 y0_id y1 by simp_all
  obtain h sb where h: "r_UpdateHold R c2 h1 sa = (Inr h, sb)"
    using UpdateHold_live [OF alive(2) U(2), of h1 h0] h0 h1 h0_ok p0 U(3) y0_id by auto
  have H: "inv sb" "view sb = (view sa)\<lparr>l_holds := AList.update (hold_ID h0) h (l_holds (view s))\<rparr>"
    using UpdateHold_law [OF U(2), of h1 h0, OF _ _ _ h] h0 h1 U(3) by simp_all
  obtain p sc where p: "r_UpdatePayment R c3 p1 sb = (Inr p, sc)"
    and exp: "payment_ExpiresAt p = payment_ExpiresAt p1"
    using UpdatePayment_live [OF alive(3) H(1), of p1 p0] p0 p1 p1_ok mer y0_id U(3) H(2) by auto
  have P: "payment_ok p" "inv sc" "l_events (view sc) = l_events (view s)"
    using UpdatePayment_law [OF H(1), of p1 p0, OF _ _ p1_ok p] p0 p1 U(3) H(2) by simp_all
  show thesis
    by (rule that [OF y h p P(1)]) (use exp p1 CreateEvent_live [OF alive(4) P(2)] P(3) in auto)
qed

lemma capture_progress:
  assumes inv: "inv s" and ok: "ledger_ok (view s)" and calls: "\<And>k. alive (env_call env k)"
    and p0: "map_of (l_payments (view s)) pid = Some p0" "CanCapture p0 (env_now env)"
    and version: "\<And>y. map_of (l_payers (view s)) (payment_PayerID p0) = Some y \<Longrightarrow>
      0 \<le> sint (payer_Version y + 1)"
    and eid: "new_id ''evt'' (env_rand env 0) = Inr eid" "map_of (l_events (view s)) eid = None"
    and clock: "json_time_ok (env_now env)"
  shows "\<exists>r s'. capture_tx R env pid s = (Inr r, s')"
proof -
  let ?now = "env_now env"
  have auth: "payment_Status p0 = StatusAuthorized" "?now \<le> payment_ExpiresAt p0"
    using p0(2) by (auto simp: CanCapture_def utc_def split: if_splits)
  have pid: "payment_ID p0 = pid"
    using gm_wf_key [OF ledger_keys_okD(3) [OF ledger_okD(1) [OF ok]] p0(1)] .
  obtain h0 y0 where h0: "map_of (l_holds (view s)) (hold_ID h0) = Some h0"
      "hold_PaymentID h0 = payment_ID p0" "hold_Status h0 = HoldStatusHeld"
    and y0: "map_of (l_payers (view s)) (payment_PayerID p0) = Some y0"
      "sint (payment_AmountMinor p0) \<le> sint (HeldBalanceMinor y0)" "0 < sint (payment_AmountMinor p0)"
      "payer_Currency y0 = NormalizeCurrency (payment_Currency p0)"
    and only: "\<forall>j g. map_of (l_holds (view s)) j = Some g \<longrightarrow> hold_PaymentID g = payment_ID p0 \<longrightarrow>
      j = hold_ID h0"
    by (rule authorized_can_finish [OF ok p0(1) auth(1)])
  obtain p1 h1 y1 where ops: "Payment_Capture p0 ?now = Inr p1" "Hold_Capture h0 ?now = Inr h1"
    "CaptureHeld y0 (payment_AmountMinor p0) (payment_Currency p0) ?now = Inr y1"
    using auth h0(3) y0(2-4) by (simp add: op_success)
  obtain y sa h sb p sc where y: "r_UpdatePayer R (env_call env 3) y1 s = (Inr y, sa)"
    and h: "r_UpdateHold R (env_call env 4) h1 sa = (Inr h, sb)"
    and p: "r_UpdatePayment R (env_call env 5) p1 sb = (Inr p, sc)" "payment_ok p"
    and ev: "\<And>e0. map_of (l_events (view s)) (event_ID e0) = None \<Longrightarrow> Attempts e0 = 0 \<Longrightarrow>
      \<exists>e s'. r_CreateEvent R (env_call env 6) e0 sc = (Inr e, s')"
    by (rule finish_progress [OF inv ok calls [of 3] calls [of 4] calls [of 5] calls [of 6] _ h0(1,2)
      y0(1) version [OF y0(1)] disjI1, of ?now p1 h1 y1]) (use p0(1) pid ops in auto)
  obtain e0 where e0: "NewEvent (payment_event eventTypePaymentCaptured p
      (paymentCapturedPayload p h ?now) ?now) (env_rand env 0) = Inr e0" "event_ID e0 = eid" "Attempts e0 = 0"
    by (rule NewEvent_payment [OF p(2) eid(1), of "paymentCapturedPayload p h ?now"
      eventTypePaymentCaptured ?now]) (use clock in \<open>auto simp: paymentCapturedPayload_def json_time_ok_def\<close>)
  obtain e s' where e: "r_CreateEvent R (env_call env 6) e0 sc = (Inr e, s')"
    using ev [of e0] e0(2,3) eid(2) by auto
  have hold: "r_GetHoldByPaymentID R (env_call env 1) (payment_ID p0) s = (Inr h0, s)"
    using GetHoldByPaymentID_live [OF calls [of 1] inv h0(1)] only h0(2) by simp
  have "capture_tx R env pid s = (Inr \<lparr>res_Payment = p, res_Hold = h, res_Payer = y\<rparr>, s')"
    unfolding capture_tx_def Let_def utc_def
    using auth(2)
    by (simp add: act_defs GetPayment_live [OF calls p0(1)] hold GetPayer_live [OF calls y0(1)]
      auth(1) ops y h p(1) e0(1) e del: One_nat_def)
  then show ?thesis by blast
qed

lemma expire_one_progress:
  assumes inv: "inv s" and ok: "ledger_ok (view s)" and calls: "\<And>k. alive (env_call env k)"
    and p0: "map_of (l_payments (view s)) (payment_ID p0) = Some p0" "payment_Status p0 = StatusAuthorized"
    and version: "\<And>y. map_of (l_payers (view s)) (payment_PayerID p0) = Some y \<Longrightarrow>
      0 \<le> sint (payer_Version y + 1)"
    and eid: "new_id ''evt'' (env_rand env i) = Inr eid" "map_of (l_events (view s)) eid = None"
    and clock: "json_time_ok now" "json_time_ok (payment_ExpiresAt p0)"
  shows "\<exists>r s'. expire_one R env k i now p0 s = (Inr r, s')"
proof -
  obtain h0 y0 where h0: "map_of (l_holds (view s)) (hold_ID h0) = Some h0"
      "hold_PaymentID h0 = payment_ID p0" "hold_Status h0 = HoldStatusHeld"
    and y0: "map_of (l_payers (view s)) (payment_PayerID p0) = Some y0"
      "sint (payment_AmountMinor p0) \<le> sint (HeldBalanceMinor y0)" "0 < sint (payment_AmountMinor p0)"
      "payer_Currency y0 = NormalizeCurrency (payment_Currency p0)"
    and only: "\<forall>j g. map_of (l_holds (view s)) j = Some g \<longrightarrow> hold_PaymentID g = payment_ID p0 \<longrightarrow>
      j = hold_ID h0"
    by (rule authorized_can_finish [OF ok p0])
  obtain p1 h1 y1 where ops: "Payment_Expire p0 now = Inr p1" "Hold_Release h0 now = Inr h1"
    "Release y0 (payment_AmountMinor p0) (payment_Currency p0) now = Inr y1"
    using p0(2) h0(3) y0(2-4) by (simp add: op_success)
  obtain y sa h sb p sc where y: "r_UpdatePayer R (env_call env (k + 2)) y1 s = (Inr y, sa)"
    and h: "r_UpdateHold R (env_call env (k + 3)) h1 sa = (Inr h, sb)"
    and p: "r_UpdatePayment R (env_call env (k + 4)) p1 sb = (Inr p, sc)" "payment_ok p"
      "payment_ExpiresAt p = payment_ExpiresAt p0"
    and ev: "\<And>e0. map_of (l_events (view s)) (event_ID e0) = None \<Longrightarrow> Attempts e0 = 0 \<Longrightarrow>
      \<exists>e s'. r_CreateEvent R (env_call env (k + 5)) e0 sc = (Inr e, s')"
    by (rule finish_progress [OF inv ok calls [of "k + 2"] calls [of "k + 3"] calls [of "k + 4"]
      calls [of "k + 5"] p0(1) h0(1,2) y0(1) version [OF y0(1)] disjI2, of now p1 h1 y1])
      (use ops in auto)
  obtain e0 where e0: "NewEvent (payment_event eventTypePaymentExpired p
      (paymentExpiredPayload p h now) now) (env_rand env i) = Inr e0" "event_ID e0 = eid" "Attempts e0 = 0"
    by (rule NewEvent_payment [OF p(2) eid(1), of "paymentExpiredPayload p h now"
      eventTypePaymentExpired now])
      (use clock p(3) in \<open>auto simp: paymentExpiredPayload_def json_time_ok_def\<close>)
  obtain e s' where e: "r_CreateEvent R (env_call env (k + 5)) e0 sc = (Inr e, s')"
    using ev [of e0] e0(2,3) eid(2) by auto
  have hold: "r_GetHoldByPaymentID R (env_call env k) (payment_ID p0) s = (Inr h0, s)"
    using GetHoldByPaymentID_live [OF calls [of k] inv h0(1)] only h0(2) by simp
  have "expire_one R env k i now p0 s = (Inr \<lparr>res_Payment = p, res_Hold = h, res_Payer = y\<rparr>, s')"
    unfolding expire_one_def
    by (simp only: act_defs hold GetPayer_live [OF calls y0(1)] ops y h p(1) e0(1) e
      prod.case sum.case)
  then show ?thesis by blast
qed

text \<open>
  The loop: every payer's version has room for as many updates as there are payments, and the
  events get distinct identifiers that are not in use.
\<close>

lemma expire_loop_progress:
  "inv s \<Longrightarrow> ledger_ok (view s) \<Longrightarrow> (\<And>k. alive (env_call env k)) \<Longrightarrow> json_time_ok now \<Longrightarrow>
   \<forall>p \<in> set ps. expirable (view s) p \<Longrightarrow> distinct (map payment_ID ps) \<Longrightarrow>
   versions_room (view s) (length ps) \<Longrightarrow>
   event_ids_free (dom (map_of (l_events (view s)))) env i (length ps) \<Longrightarrow>
   \<exists>res s'. expire_loop R env k i now ps acc s = (Inr res, s')"
proof (induction ps arbitrary: k i acc s)
  case Nil
  then show ?case by (simp add: act_return_def)
next
  case (Cons p ps)
  note inv = Cons.prems(1) and ok = Cons.prems(2)
  have p: "expirable (view s) p" using Cons.prems(5) by simp
  then have stored: "map_of (l_payments (view s)) (payment_ID p) = Some p" by (simp add: expirable_def)
  have version: "0 \<le> sint (payer_Version y + 1)"
    if "map_of (l_payers (view s)) (payment_PayerID p) = Some y" for y
    using versions_room_next(2) Cons.prems(7) that by simp
  obtain eid where eid: "new_id ''evt'' (env_rand env i) = Inr eid" "map_of (l_events (view s)) eid = None"
    and later: "event_ids_free (insert eid (dom (map_of (l_events (view s))))) env (i + 1) (length ps)"
    using Cons.prems(8) by (auto split: sum.splits)
  obtain r s1 where one: "expire_one R env k i now p s = (Inr r, s1)"
    using expire_one_progress [OF inv ok Cons.prems(3) stored _ version eid Cons.prems(4), of k] p
    by (auto simp: expirable_def)
  obtain h0 y0 e0 e where fin: "finish_writes (view s) y0 (res_Payer r) p (res_Payment r) h0 (res_Hold r)"
    and e: "NewEvent (payment_event eventTypePaymentExpired (res_Payment r)
      (paymentExpiredPayload (res_Payment r) (res_Hold r) now) now) (env_rand env i) = Inr e0" "same_event e0 e"
    and s1: "view s1 = ledger_write (res_Payer r) (res_Payment r) (res_Hold r) e (view s)" "inv s1"
    using expire_one_success [OF inv ok stored one] by blast
  note D = finish_writesD [OF ok fin]
  have ok1: "ledger_ok (view s1)" using finish_writes_ok [OF ok fin] s1(1) by simp
  have "\<forall>q \<in> set ps. expirable (view s1) q"
  proof
    fix q assume q: "q \<in> set ps"
    have "payment_ID q \<noteq> payment_ID p"
      using Cons.prems(6) q by (metis distinct.simps(2) image_eqI list.map(2) list.set_map)
    moreover have "expirable (view s) q" using Cons.prems(5) q by simp
    ultimately show "expirable (view s1) q" by (simp add: expirable_def s1(1) D(5))
  qed
  moreover have "versions_room (view s1) (length ps)"
    using versions_room_write [OF _ D(3) D(1) D(23)] Cons.prems(7) by (simp add: s1(1))
  moreover have "event_ID e = eid"
    using NewEvent_id [OF e(1)] eid(1) same_eventD [OF e(2)] by simp
  then have "event_ids_free (dom (map_of (l_events (view s1)))) env (i + 1) (length ps)"
    using later by (simp add: s1(1))
  ultimately have "\<exists>res s'. expire_loop R env (k + 6) (i + 1) now ps (expire_results acc [r]) s1 = (Inr res, s')"
    using Cons.IH [OF s1(2) ok1 Cons.prems(3,4)] Cons.prems(6) by simp
  then show ?case by (simp add: act_bind_def one expire_results_def)
qed


lemma expire_progress:
  assumes inv: "inv s" and ok: "ledger_ok (view s)" and calls: "\<And>k. alive (env_call env k)"
    and limit: "0 < limit" and clock: "json_time_ok (env_now env)"
    and times: "\<And>i p. map_of (l_payments (view s)) i = Some p \<Longrightarrow> json_time_ok (payment_ExpiresAt p)"
    and room: "versions_room (view s) (nat limit)"
    and ids: "event_ids_free (dom (map_of (l_events (view s)))) env 0 (nat limit)"
  shows "\<exists>res s' ps. expire_tx R env limit s = (Inr res, s') \<and>
    map payment_ID (res_Payments res) = map payment_ID ps \<and>
    (\<forall>i p. map_of (l_payments (view s)) i = Some p \<longrightarrow> expired_authorized (env_now env) p \<longrightarrow>
       p \<in> set ps \<or> int (length ps) = limit)"
proof -
  let ?now = "env_now env" and ?acc = "\<lparr>res_Payments = [], res_Holds = [], res_Payers = []\<rparr>"
  obtain ps where ps: "r_ListExpiredAuthorizedPayments R (env_call env 0) ?now limit s = (Inr ps, s)"
    and all: "\<forall>i p. map_of (l_payments (view s)) i = Some p \<longrightarrow> expired_authorized ?now p \<longrightarrow>
      p \<in> set ps \<or> int (length ps) = limit"
    using ListExpired_live [OF calls inv limit ledger_okD(1) [OF ok]] by blast
  have L: "expired_list_ok (l_payments (view s)) ?now ps" "int (length ps) \<le> limit"
    using ListExpired_law [OF ledger_okD(1) [OF ok] ps] limit by auto
  then have len: "length ps \<le> nat limit" by simp
  have "\<forall>p \<in> set ps. expirable (view s) p" "distinct (map payment_ID ps)"
    using L(1) times by (auto simp: expired_list_ok_def expirable_def expired_authorized_def)
  then obtain res s' where run: "expire_loop R env 1 0 ?now ps ?acc s = (Inr res, s')"
    using expire_loop_progress [OF inv ok calls clock] versions_room_mono [OF room len]
      event_ids_free_mono [OF ids len] by metis
  have "expire_tx R env limit s = (Inr res, s')"
    unfolding expire_tx_def Let_def utc_def by (simp add: act_bind_def ps run del: One_nat_def)
  moreover have "map payment_ID (res_Payments res) = map payment_ID ps"
    using expire_loop_success [OF run inv ok] L(1)
    by (auto simp: expired_list_ok_def expire_results_def o_def)
  ultimately show ?thesis using all by blast
qed

end

end
