(* ===== verification/MemoryBackend.thy ===== *)
theory MemoryBackend
  imports PaymentProgress OutboxFacts
begin

text \<open>
  The in-memory backend as \<open>newMemoryRepositories\<close> of \<open>cmd/paycore-api/main.go\<close>
  puts it together: the four stores side by side and no transactions. It keeps the contracts
  \<open>payment_backend\<close> and \<open>live_backend\<close>.
\<close>

section \<open>The stores side by side\<close>

record memdb =
  mem_merchants :: "merchant gomap"
  mem_payers :: "payer gomap"
  mem_store :: payment_store
  mem_events :: "event gomap"

definition empty_memdb :: memdb where
  "empty_memdb = \<lparr>mem_merchants = [], mem_payers = [], mem_store = empty_payment_store, mem_events = []\<rparr>"

definition in_merchants :: "(merchant gomap, 'a) act \<Rightarrow> (memdb, 'a) act" where
  "in_merchants m s = (case m (mem_merchants s) of (r, x) \<Rightarrow> (r, s\<lparr>mem_merchants := x\<rparr>))"

definition in_payers :: "(payer gomap, 'a) act \<Rightarrow> (memdb, 'a) act" where
  "in_payers m s = (case m (mem_payers s) of (r, x) \<Rightarrow> (r, s\<lparr>mem_payers := x\<rparr>))"

definition in_store :: "(payment_store, 'a) act \<Rightarrow> (memdb, 'a) act" where
  "in_store m s = (case m (mem_store s) of (r, x) \<Rightarrow> (r, s\<lparr>mem_store := x\<rparr>))"

definition in_events :: "(event gomap, 'a) act \<Rightarrow> (memdb, 'a) act" where
  "in_events m s = (case m (mem_events s) of (r, x) \<Rightarrow> (r, s\<lparr>mem_events := x\<rparr>))"

definition memory_repos :: "(error option, memdb) repos" where
  "memory_repos =
     \<lparr>r_GetMerchant = (\<lambda>c i. in_merchants (GetMerchant c i)),
      r_GetPayer = (\<lambda>c i. in_payers (GetPayer c i)),
      r_UpdatePayer = (\<lambda>c y. in_payers (UpdatePayer c y)),
      r_CreatePayment = (\<lambda>c p. in_store (CreatePayment c p)),
      r_GetPayment = (\<lambda>c i. in_store (GetPayment c i)),
      r_ListExpiredAuthorizedPayments =
        (\<lambda>c now limit. in_store (ListExpiredAuthorizedPayments c now limit)),
      r_UpdatePayment = (\<lambda>c p. in_store (UpdatePayment c p)),
      r_CreateHold = (\<lambda>c h. in_store (CreateHold c h)),
      r_GetHoldByPaymentID = (\<lambda>c i. in_store (GetHoldByPaymentID c i)),
      r_UpdateHold = (\<lambda>c h. in_store (UpdateHold c h)),
      r_CreateEvent = (\<lambda>c e. in_events (CreateEvent c e))\<rparr>"

text \<open>The service of the API when \<open>PAYCORE_REPOSITORY_BACKEND=memory\<close>.\<close>

definition memory_service :: "(error option, memdb) service" where
  "memory_service = NewServiceWithTransactorOutboxAndMetrics memory_repos (\<lambda>c. c)
     (Some NoopTransactor) (Some (\<lambda>c e. in_events (CreateEvent c e))) True"

definition mem_CreateMerchant :: "error option \<Rightarrow> merchant \<Rightarrow> (memdb, merchant) act" where
  "mem_CreateMerchant c m = in_merchants (CreateMerchant c m)"

definition mem_CreatePayer :: "error option \<Rightarrow> payer \<Rightarrow> (memdb, payer) act" where
  "mem_CreatePayer c y = in_payers (CreatePayer c y)"

lemmas memory_backend_defs = empty_memdb_def in_merchants_def in_payers_def in_store_def in_events_def
  memory_repos_def memory_service_def NewServiceWithTransactorOutboxAndMetrics_def
  mem_CreateMerchant_def mem_CreatePayer_def

declare memory_backend_defs [go_eval]

section \<open>The contract\<close>

definition mem_view :: "memdb \<Rightarrow> ledger" where
  "mem_view s = \<lparr>l_merchants = mem_merchants s, l_payers = mem_payers s,
     l_payments = ps_payments (mem_store s), l_holds = ps_holds (mem_store s),
     l_events = mem_events s\<rparr>"

definition mem_inv :: "memdb \<Rightarrow> bool" where
  "mem_inv s \<longleftrightarrow> hold_index_ok (mem_store s)"

lemma mem_view_sel [simp]:
  "l_merchants (mem_view s) = mem_merchants s" "l_payers (mem_view s) = mem_payers s"
  "l_payments (mem_view s) = ps_payments (mem_store s)" "l_holds (mem_view s) = ps_holds (mem_store s)"
  "l_events (mem_view s) = mem_events s"
  by (simp_all add: mem_view_def)

lemma in_stores_Inr [op_success]:
  "in_merchants m1 s = (Inr a1, s') \<longleftrightarrow>
     (\<exists>x. m1 (mem_merchants s) = (Inr a1, x) \<and> s' = s\<lparr>mem_merchants := x\<rparr>)"
  "in_payers m2 s = (Inr a2, s') \<longleftrightarrow>
     (\<exists>x. m2 (mem_payers s) = (Inr a2, x) \<and> s' = s\<lparr>mem_payers := x\<rparr>)"
  "in_store m3 s = (Inr a3, s') \<longleftrightarrow>
     (\<exists>x. m3 (mem_store s) = (Inr a3, x) \<and> s' = s\<lparr>mem_store := x\<rparr>)"
  "in_events m4 s = (Inr a4, s') \<longleftrightarrow>
     (\<exists>x. m4 (mem_events s) = (Inr a4, x) \<and> s' = s\<lparr>mem_events := x\<rparr>)"
  by (auto simp: in_merchants_def in_payers_def in_store_def in_events_def split: prod.splits)

lemmas mem_store_ops = GetMerchant_success GetPayer_success UpdatePayer_success CreatePayment_success
  GetPayment_success UpdatePayment_success UpdateHold_success CreateEvent_success

interpretation mem: payment_backend memory_repos mem_view mem_inv
proof unfold_locales
  fix c s s' h i
  assume inv: "mem_inv s" and run: "r_GetHoldByPaymentID memory_repos c i s = (Inr h, s')"
  obtain hid where hid: "map_of (holdIDByPaymentID (mem_store s)) i = Some hid"
    "map_of (ps_holds (mem_store s)) hid = Some h" "s' = s"
    using run by (simp add: memory_repos_def in_stores_Inr GetHoldByPaymentID_success) blast
  have ix: "hold_index_ok (mem_store s)" using inv by (simp add: mem_inv_def)
  have "hold_ID h = hid" using gm_wf_key [OF hold_index_okD(1) [OF ix] hid(2)] .
  moreover have "hold_PaymentID h = i" using hold_index_okD(2) [OF ix hid(1)] hid(2) by simp
  ultimately show "s' = s \<and> map_of (l_holds (mem_view s)) (hold_ID h) = Some h \<and> hold_PaymentID h = i"
    using hid(2,3) by simp
next
  fix c s s' ps now limit
  assume "ledger_keys_ok (mem_view s)"
    and "r_ListExpiredAuthorizedPayments memory_repos c now limit s = (Inr ps, s')"
  then have wf: "gm_wf payment_ID (ps_payments (mem_store s))"
    and list: "ListExpiredAuthorizedPayments c now limit (mem_store s) = (Inr ps, mem_store s)" "s' = s"
    using ledger_keys_okD(3) [of "mem_view s"]
    by (simp, auto simp: memory_repos_def in_stores_Inr ListExpiredAuthorizedPayments_success)
  have "ps = take_limit limit (sort_key expiry_key
      (filter (expired_authorized now) (gm_values (ps_payments (mem_store s)))))"
    using list(1) by (simp add: op_success)
  then show "s' = s \<and> expired_list_ok (l_payments (mem_view s)) now ps \<and>
      (0 < limit \<longrightarrow> int (length ps) \<le> limit)"
    using ListExpired_ok [OF wf list(1)] list(2) by (simp add: length_take_limit)
next
  fix c s s' h h'
  assume "mem_inv s" "r_CreateHold memory_repos c h s = (Inr h', s')"
  then show "same_hold h h' \<and> map_of (l_holds (mem_view s)) (hold_ID h) = None \<and> mem_inv s' \<and>
    mem_view s' = (mem_view s)\<lparr>l_holds := AList.update (hold_ID h) h' (l_holds (mem_view s))\<rparr>"
    using CreateHold_index_ok [of "mem_store s" c h h']
    by (auto simp: memory_repos_def in_stores_Inr mem_inv_def mem_view_def CreateHold_success)
next
  fix c s s' h h' h0
  assume inv: "mem_inv s" and h0: "map_of (l_holds (mem_view s)) (hold_ID h) = Some h0"
    "hold_PaymentID h = hold_PaymentID h0" and run: "r_UpdateHold memory_repos c h s = (Inr h', s')"
  obtain x where x: "UpdateHold c h (mem_store s) = (Inr h', x)" "s' = s\<lparr>mem_store := x\<rparr>"
    using run by (auto simp: memory_repos_def in_stores_Inr)
  have "hold_index_ok x"
    by (rule UpdateHold_index_ok [OF _ x(1), of h0]) (use inv h0 in \<open>simp_all add: mem_inv_def\<close>)
  moreover have "h' = h" "ps_payments x = ps_payments (mem_store s)"
    "ps_holds x = AList.update (hold_ID h) h (ps_holds (mem_store s))"
    using x(1) by (auto simp: UpdateHold_success)
  ultimately show "same_hold h h' \<and> mem_inv s' \<and>
    mem_view s' = (mem_view s)\<lparr>l_holds := AList.update (hold_ID h) h' (l_holds (mem_view s))\<rparr>"
    by (simp add: x(2) mem_inv_def mem_view_def)
qed (auto simp: memory_repos_def in_stores_Inr mem_store_ops mem_inv_def mem_view_def)

interpretation mem: live_backend memory_repos mem_view mem_inv "\<lambda>c :: error option. c = None"
proof unfold_locales
  fix c :: "error option" and s i h
  assume a: "c = None" "mem_inv s" "map_of (l_holds (mem_view s)) i = Some h"
  then show "r_GetHoldByPaymentID memory_repos c (hold_PaymentID h) s = (Inr h, s)"
    using hold_index_okD(3) [of "mem_store s" i h]
    by (simp add: memory_repos_def in_store_def GetHoldByPaymentID_def mem_inv_def)
next
  fix c :: "error option" and s and h :: hold
  assume a: "c = None" "mem_inv s" "map_of (l_holds (mem_view s)) (hold_ID h) = None"
    and other: "\<And>i g. map_of (l_holds (mem_view s)) i = Some g \<Longrightarrow> hold_PaymentID g \<noteq> hold_PaymentID h"
  have "map_of (holdIDByPaymentID (mem_store s)) (hold_PaymentID h) = None"
  proof (rule ccontr)
    assume "map_of (holdIDByPaymentID (mem_store s)) (hold_PaymentID h) \<noteq> None"
    then obtain hid where "map_of (holdIDByPaymentID (mem_store s)) (hold_PaymentID h) = Some hid" by auto
    with a(2) show False
      using hold_index_okD(2) [of "mem_store s"] other by (fastforce simp: mem_inv_def)
  qed
  then show "\<exists>h' s'. r_CreateHold memory_repos c h s = (Inr h', s')"
    using a by (simp add: memory_repos_def in_stores_Inr CreateHold_success)
next
  fix c :: "error option" and limit :: int and s and now :: time
  assume a: "c = None" "mem_inv s" "0 < limit" "ledger_keys_ok (mem_view s)"
  let ?all = "sort_key expiry_key
    (filter (expired_authorized now) (gm_values (ps_payments (mem_store s))))"
  have "r_ListExpiredAuthorizedPayments memory_repos c now limit s = (Inr (take_limit limit ?all), s)"
    using a(1) by (simp add: memory_repos_def in_store_def ListExpiredAuthorizedPayments_def utc_def Let_def)
  moreover have "p \<in> set (take_limit limit ?all) \<or> int (length (take_limit limit ?all)) = limit"
    if "map_of (l_payments (mem_view s)) i = Some p" "expired_authorized now p" for i p
    using that map_of_gm_values [of "ps_payments (mem_store s)" i p] by (auto simp: take_limit_def)
  ultimately show "\<exists>ps. r_ListExpiredAuthorizedPayments memory_repos c now limit s = (Inr ps, s) \<and>
      (\<forall>i p. map_of (l_payments (mem_view s)) i = Some p \<longrightarrow> expired_authorized now p \<longrightarrow>
        p \<in> set ps \<or> int (length ps) = limit)" by blast
qed (simp_all add: memory_repos_def in_stores_Inr mem_store_ops mem_inv_def)

end
