(* ===== verification/SettlementEntity.thy ===== *)
theory SettlementEntity
  imports Payment
begin

text \<open>
  \<open>internal/settlement/entity.go\<close> and the inputs of \<open>repository.go\<close>: settlement
  batches with their processing lock, and line items. \<open>wall\<close> is \<open>time.Now()\<close>, used
  when the input's time is zero.
\<close>

section \<open>Batch\<close>

datatype batch_status =
  BatchStatusCreated | BatchStatusProcessing | BatchStatusCompleted | BatchStatusFailed

fun batch_status_string :: "batch_status \<Rightarrow> string" where
  "batch_status_string BatchStatusCreated = ''CREATED''"
| "batch_status_string BatchStatusProcessing = ''PROCESSING''"
| "batch_status_string BatchStatusCompleted = ''COMPLETED''"
| "batch_status_string BatchStatusFailed = ''FAILED''"

record batch =
  batch_ID :: string
  batch_Status :: batch_status
  WindowStart :: time
  WindowEnd :: time
  ClaimedBy :: "string option"
  LockedUntil :: "time option"
  CompletedAt :: "time option"
  batch_LastError :: "string option"
  batch_CreatedAt :: time
  batch_UpdatedAt :: time

record new_batch_input =
  nbi_ID :: string
  nbi_WindowStart :: time
  nbi_WindowEnd :: time
  nbi_Now :: time

definition NewBatch :: "time \<Rightarrow> new_batch_input \<Rightarrow> error + batch" where
  "NewBatch wall input =
     (let ident = trim_space (nbi_ID input)
      in if ident = '''' then Inl (ErrMsg ''settlement batch id is required'')
      else let windowStart = utc (nbi_WindowStart input); windowEnd = utc (nbi_WindowEnd input)
      in if \<not> windowEnd > windowStart then Inl ErrInvalidSettlementWindow
      else let now = (if is_zero (utc (nbi_Now input)) then utc wall else utc (nbi_Now input))
      in Inr \<lparr>batch_ID = ident, batch_Status = BatchStatusCreated, WindowStart = windowStart,
           WindowEnd = windowEnd, ClaimedBy = None, LockedUntil = None, CompletedAt = None,
           batch_LastError = None, batch_CreatedAt = now, batch_UpdatedAt = now\<rparr>)"

definition IsStale :: "batch \<Rightarrow> time \<Rightarrow> bool" where
  "IsStale b now =
     (if batch_Status b \<noteq> BatchStatusProcessing then False
      else case LockedUntil b of None \<Rightarrow> False | Some t \<Rightarrow> \<not> t > utc now)"

definition StartProcessing :: "batch \<Rightarrow> string \<Rightarrow> time \<Rightarrow> time \<Rightarrow> error + batch" where
  "StartProcessing b workerID0 lockedUntil0 now0 =
     (let workerID = trim_space workerID0
      in if workerID = '''' then Inl (ErrMsg ''settlement worker id is required'')
      else if batch_Status b \<noteq> BatchStatusCreated \<and> batch_Status b \<noteq> BatchStatusFailed \<and>
          \<not> IsStale b now0
        then Inl ErrInvalidBatchStatus
      else let now = utc now0; lockedUntil = utc lockedUntil0
      in if \<not> lockedUntil > now then Inl (ErrMsg ''settlement lock expiry must be after now'')
      else Inr (b\<lparr>batch_Status := BatchStatusProcessing, ClaimedBy := Some workerID,
                  LockedUntil := Some lockedUntil, batch_LastError := None,
                  batch_UpdatedAt := now\<rparr>))"

definition Batch_Complete :: "batch \<Rightarrow> time \<Rightarrow> error + batch" where
  "Batch_Complete b now0 =
     (if batch_Status b \<noteq> BatchStatusProcessing then Inl ErrInvalidBatchStatus
      else let now = utc now0
      in Inr (b\<lparr>batch_Status := BatchStatusCompleted, CompletedAt := Some now, LockedUntil := None,
                batch_LastError := None, batch_UpdatedAt := now\<rparr>))"

definition Batch_Fail :: "batch \<Rightarrow> string \<Rightarrow> time \<Rightarrow> error + batch" where
  "Batch_Fail b errorMessage0 now0 =
     (if batch_Status b \<noteq> BatchStatusProcessing then Inl ErrInvalidBatchStatus
      else let errorMessage = trim_space errorMessage0
      in if errorMessage = '''' then Inl (ErrMsg ''settlement error message is required'')
      else let now = utc now0
      in Inr (b\<lparr>batch_Status := BatchStatusFailed, LockedUntil := None,
                batch_LastError := Some errorMessage, batch_UpdatedAt := now\<rparr>))"

section \<open>Line item\<close>

record line_item =
  item_ID :: string
  item_BatchID :: string
  item_MerchantID :: string
  item_PaymentID :: string
  item_AmountMinor :: int64
  FeeAmountMinor :: int64
  NetAmountMinor :: int64
  item_Currency :: string
  PaymentCaptured :: time
  item_CreatedAt :: time

record new_line_item_input =
  nli_ID :: string
  nli_BatchID :: string
  nli_MerchantID :: string
  nli_PaymentID :: string
  nli_AmountMinor :: int64
  nli_FeeAmountMinor :: int64
  nli_Currency :: string
  nli_PaymentCaptured :: time
  nli_Now :: time

definition NewLineItem :: "time \<Rightarrow> new_line_item_input \<Rightarrow> error + line_item" where
  "NewLineItem wall input =
     (let ident = trim_space (nli_ID input);
          batchID = trim_space (nli_BatchID input);
          merchantID = trim_space (nli_MerchantID input);
          paymentID = trim_space (nli_PaymentID input);
          currency = NormalizeCurrency (nli_Currency input)
      in if ident = '''' then Inl (ErrMsg ''settlement line item id is required'')
      else if batchID = '''' then Inl (ErrMsg ''settlement batch id is required'')
      else if merchantID = '''' then Inl (ErrMsg ''merchant id is required'')
      else if paymentID = '''' then Inl (ErrMsg ''payment id is required'')
      else if sint (nli_AmountMinor input) \<le> 0 then Inl ErrInvalidLineItemAmount
      else if sint (nli_FeeAmountMinor input) < 0
        then Inl (ErrMsg ''settlement fee amount cannot be negative'')
      else if sint (nli_FeeAmountMinor input) > sint (nli_AmountMinor input)
        then Inl (ErrMsg ''settlement fee amount cannot exceed amount'')
      else if \<not> IsValidCurrency currency
        then Inl (ErrMsg ''currency must be a 3-letter ISO currency code'')
      else let now = (if is_zero (utc (nli_Now input)) then utc wall else utc (nli_Now input))
      in Inr \<lparr>item_ID = ident, item_BatchID = batchID, item_MerchantID = merchantID,
           item_PaymentID = paymentID, item_AmountMinor = nli_AmountMinor input,
           FeeAmountMinor = nli_FeeAmountMinor input,
           NetAmountMinor = nli_AmountMinor input - nli_FeeAmountMinor input,
           item_Currency = currency, PaymentCaptured = utc (nli_PaymentCaptured input),
           item_CreatedAt = now\<rparr>)"

section \<open>Repository inputs\<close>

record claim_payments_input =
  cpi_BatchID :: string
  cpi_WindowStart :: time
  cpi_WindowEnd :: time
  cpi_Limit :: int
  cpi_Now :: time

record claimed_payment =
  cp_PaymentID :: string
  cp_MerchantID :: string
  cp_AmountMinor :: int64
  cp_Currency :: string
  cp_CapturedAt :: time
  cp_SettlementBatch :: string

section \<open>Payments that can be claimed\<close>

text \<open>\<open>status = 'CAPTURED' AND captured_at >= $1 AND captured_at < $2\<close>.\<close>

definition captured_within :: "time \<Rightarrow> time \<Rightarrow> payment \<Rightarrow> bool" where
  "captured_within ws we r \<longleftrightarrow> payment_Status r = StatusCaptured \<and>
     (case CapturedAt r of None \<Rightarrow> False | Some t \<Rightarrow> ws \<le> t \<and> t < we)"

definition claimed_of :: "string \<Rightarrow> payment \<Rightarrow> claimed_payment" where
  "claimed_of batchID r =
     \<lparr>cp_PaymentID = payment_ID r, cp_MerchantID = payment_MerchantID r,
      cp_AmountMinor = payment_AmountMinor r, cp_Currency = payment_Currency r,
      cp_CapturedAt = the (CapturedAt r), cp_SettlementBatch = batchID\<rparr>"

lemmas settlement_entity_defs = NewBatch_def IsStale_def StartProcessing_def Batch_Complete_def
  Batch_Fail_def NewLineItem_def captured_within_def claimed_of_def

declare settlement_entity_defs [go_eval]

section \<open>Lemmas\<close>

lemma NewBatch_success [op_success]:
  "NewBatch wall i = Inr b \<longleftrightarrow>
   trim_space (nbi_ID i) \<noteq> '''' \<and> nbi_WindowStart i < nbi_WindowEnd i \<and>
   b = \<lparr>batch_ID = trim_space (nbi_ID i), batch_Status = BatchStatusCreated,
     WindowStart = nbi_WindowStart i, WindowEnd = nbi_WindowEnd i, ClaimedBy = None,
     LockedUntil = None, CompletedAt = None, batch_LastError = None,
     batch_CreatedAt = (if nbi_Now i = 0 then wall else nbi_Now i),
     batch_UpdatedAt = (if nbi_Now i = 0 then wall else nbi_Now i)\<rparr>"
  by (auto simp: NewBatch_def Let_def utc_def is_zero_def)

lemma StartProcessing_success [op_success]:
  "StartProcessing b w lock now = Inr b' \<longleftrightarrow>
   trim_space w \<noteq> '''' \<and> now < lock \<and>
   (batch_Status b \<in> {BatchStatusCreated, BatchStatusFailed} \<or> IsStale b now) \<and>
   b' = b\<lparr>batch_Status := BatchStatusProcessing, ClaimedBy := Some (trim_space w),
     LockedUntil := Some lock, batch_LastError := None, batch_UpdatedAt := now\<rparr>"
  by (auto simp: StartProcessing_def Let_def utc_def)

lemma Batch_Complete_success [op_success]:
  "Batch_Complete b now = Inr b' \<longleftrightarrow>
   batch_Status b = BatchStatusProcessing \<and>
   b' = b\<lparr>batch_Status := BatchStatusCompleted, CompletedAt := Some now, LockedUntil := None,
     batch_LastError := None, batch_UpdatedAt := now\<rparr>"
  by (auto simp: Batch_Complete_def Let_def utc_def)

lemma Batch_Fail_success [op_success]:
  "Batch_Fail b msg now = Inr b' \<longleftrightarrow>
   batch_Status b = BatchStatusProcessing \<and> trim_space msg \<noteq> '''' \<and>
   b' = b\<lparr>batch_Status := BatchStatusFailed, LockedUntil := None,
     batch_LastError := Some (trim_space msg), batch_UpdatedAt := now\<rparr>"
  by (auto simp: Batch_Fail_def Let_def utc_def)

lemma NewLineItem_success [op_success]:
  "NewLineItem wall i = Inr it \<longleftrightarrow>
   trim_space (nli_ID i) \<noteq> '''' \<and> trim_space (nli_BatchID i) \<noteq> '''' \<and>
   trim_space (nli_MerchantID i) \<noteq> '''' \<and> trim_space (nli_PaymentID i) \<noteq> '''' \<and>
   0 < sint (nli_AmountMinor i) \<and> 0 \<le> sint (nli_FeeAmountMinor i) \<and>
   sint (nli_FeeAmountMinor i) \<le> sint (nli_AmountMinor i) \<and> IsValidCurrency (nli_Currency i) \<and>
   it = \<lparr>item_ID = trim_space (nli_ID i), item_BatchID = trim_space (nli_BatchID i),
     item_MerchantID = trim_space (nli_MerchantID i), item_PaymentID = trim_space (nli_PaymentID i),
     item_AmountMinor = nli_AmountMinor i, FeeAmountMinor = nli_FeeAmountMinor i,
     NetAmountMinor = nli_AmountMinor i - nli_FeeAmountMinor i,
     item_Currency = NormalizeCurrency (nli_Currency i), PaymentCaptured = nli_PaymentCaptured i,
     item_CreatedAt = (if nli_Now i = 0 then wall else nli_Now i)\<rparr>"
  by (auto simp: NewLineItem_def Let_def utc_def is_zero_def IsValidCurrency_normalized)

text \<open>The split of a line item's amount is exact: nothing wraps.\<close>

lemma NewLineItem_net:
  assumes "NewLineItem wall i = Inr it"
  shows "sint (NetAmountMinor it) = sint (item_AmountMinor it) - sint (FeeAmountMinor it)"
    and "0 \<le> sint (NetAmountMinor it)" "sint (NetAmountMinor it) \<le> sint (item_AmountMinor it)"
proof -
  have a: "0 < sint (nli_AmountMinor i)" "0 \<le> sint (nli_FeeAmountMinor i)"
    "sint (nli_FeeAmountMinor i) \<le> sint (nli_AmountMinor i)"
    using assms by (auto simp: NewLineItem_success)
  then have "sint (nli_AmountMinor i - nli_FeeAmountMinor i) =
      sint (nli_AmountMinor i) - sint (nli_FeeAmountMinor i)"
    using sint64_bounds [of "nli_AmountMinor i"] by (intro sint_sub64) simp_all
  with assms a show "sint (NetAmountMinor it) = sint (item_AmountMinor it) - sint (FeeAmountMinor it)"
    "0 \<le> sint (NetAmountMinor it)" "sint (NetAmountMinor it) \<le> sint (item_AmountMinor it)"
    by (auto simp: NewLineItem_success)
qed

end
