(* ===== verification/SettlementService.thy ===== *)
theory SettlementService
  imports PaymentService SettlementEntity
begin

text \<open>
  \<open>internal/settlement/service.go\<close>: settlement of captured payments in batches, and the
  recovery of batches whose worker has lost its lock, over any repositories.
\<close>

section \<open>The service\<close>

record ('c, 's) settlement_repos =
  sr_CreateBatch :: "'c \<Rightarrow> batch \<Rightarrow> ('s, batch) act"
  sr_UpdateBatch :: "'c \<Rightarrow> batch \<Rightarrow> ('s, batch) act"
  sr_ListStaleProcessingBatches :: "'c \<Rightarrow> time \<Rightarrow> int \<Rightarrow> ('s, batch list) act"
  sr_ClaimCapturedPayments :: "'c \<Rightarrow> claim_payments_input \<Rightarrow> ('s, claimed_payment list) act"
  sr_ListClaimedPayments :: "'c \<Rightarrow> string \<Rightarrow> ('s, claimed_payment list) act"
  sr_CreateLineItem :: "'c \<Rightarrow> line_item \<Rightarrow> ('s, line_item) act"

text \<open>\<open>ServiceConfig\<close>: an absent interface is \<open>None\<close>. The clock is in the environment.\<close>

record ('c, 's) settlement_config =
  sc_Repository :: "('c, 's) settlement_repos option"
  sc_Payments :: "('c, 's) repos option"
  sc_Outbox :: "('c \<Rightarrow> event \<Rightarrow> ('s, event) act) option"
  sc_Transactor :: "transactor option"
  sc_Metrics :: bool
  sc_WorkerID :: string
  sc_ClaimLimit :: int
  sc_LockTTL :: duration

record ('c, 's) settlement_service =
  ss_repository :: "('c, 's) settlement_repos"
  ss_repos :: "('c, 's) repos"
  ss_transactor :: transactor
  ss_metrics :: bool
  ss_workerID :: string
  ss_claimLimit :: int
  ss_lockTTL :: duration

definition defaultClaimLimit :: int where "defaultClaimLimit = 100"
definition defaultLockTTL :: duration where "defaultLockTTL = 5 * minute"
definition eventTypePaymentSettled :: string where "eventTypePaymentSettled = ''payment.settled''"

definition NewSettlementService ::
  "('c \<Rightarrow> error option) \<Rightarrow> ('c, 's) settlement_config \<Rightarrow> error + ('c, 's) settlement_service" where
  "NewSettlementService ctx_err cfg =
     (case sc_Repository cfg of None \<Rightarrow> Inl ErrSettlementRepositoryRequired
      | Some repository \<Rightarrow>
     (case sc_Payments cfg of None \<Rightarrow> Inl ErrPaymentRepositoryRequired
      | Some payments \<Rightarrow>
     (case sc_Transactor cfg of None \<Rightarrow> Inl ErrSettlementTransactorRequired
      | Some tx \<Rightarrow>
        Inr \<lparr>ss_repository = repository,
          ss_repos = payments\<lparr>r_CreateEvent := (case sc_Outbox cfg of
              None \<Rightarrow> (\<lambda>c. Noop_CreateEvent (ctx_err c)) | Some create \<Rightarrow> create)\<rparr>,
          ss_transactor = tx, ss_metrics = sc_Metrics cfg,
          ss_workerID = (if sc_WorkerID cfg = '''' then ''settlement-worker'' else sc_WorkerID cfg),
          ss_claimLimit = (if sc_ClaimLimit cfg \<le> 0 then defaultClaimLimit else sc_ClaimLimit cfg),
          ss_lockTTL = (if sc_LockTTL cfg \<le> 0 then defaultLockTTL else sc_LockTTL cfg)\<rparr>)))"

record batch_result =
  br_Batch :: batch
  br_LineItems :: "line_item list"
  br_Payments :: "payment list"

record recover_result =
  rr_Batches :: "batch list"
  rr_LineItems :: "line_item list"
  rr_Payments :: "payment list"

datatype settlement_observation =
    ObserveSettlementBatch string int duration
  | ObserveSettlementRecoveredBatches int

section \<open>settleClaimedPayments\<close>

definition paymentSettledPayload :: "payment \<Rightarrow> string \<Rightarrow> time \<Rightarrow> json" where
  "paymentSettledPayload p batchID now = JObject
     [(''payment_id'', JString (payment_ID p)), (''merchant_id'', JString (payment_MerchantID p)),
      (''payer_id'', JString (payment_PayerID p)), (''settlement_batch_id'', JString batchID),
      (''amount_minor'', JInt (payment_AmountMinor p)), (''currency'', JString (payment_Currency p)),
      (''settled_at'', JTime now)]"

text \<open>One turn of the loop; its calls are numbered from \<open>k\<close>, its identifiers from \<open>i\<close>.\<close>

definition settle_one ::
  "('c, 's) settlement_repos \<Rightarrow> ('c, 's) repos \<Rightarrow> 'c env \<Rightarrow> nat \<Rightarrow> nat \<Rightarrow> time \<Rightarrow> string \<Rightarrow>
   claimed_payment \<Rightarrow> ('s, line_item \<times> payment) act" where
  "settle_one SR R env k i now batchID cp =
     act_bind (r_GetPayment R (env_call env k) (cp_PaymentID cp)) (\<lambda>paymentRecord.
     act_bind (act_lift (Payment_Settle paymentRecord now)) (\<lambda>settled.
     act_bind (r_UpdatePayment R (env_call env (k + 1)) settled) (\<lambda>settledPayment.
     act_bind (act_lift (new_id ''setitem'' (env_rand env i))) (\<lambda>itemID.
     act_bind (act_lift (NewLineItem (env_now env)
       \<lparr>nli_ID = itemID, nli_BatchID = batchID, nli_MerchantID = cp_MerchantID cp,
        nli_PaymentID = cp_PaymentID cp, nli_AmountMinor = cp_AmountMinor cp,
        nli_FeeAmountMinor = 0, nli_Currency = cp_Currency cp,
        nli_PaymentCaptured = cp_CapturedAt cp, nli_Now = now\<rparr>)) (\<lambda>newItem.
     act_bind (sr_CreateLineItem SR (env_call env (k + 2)) newItem) (\<lambda>item.
     act_bind (act_lift (NewEvent (payment_event eventTypePaymentSettled settledPayment
       (paymentSettledPayload settledPayment batchID now) now) (env_rand env (i + 1)))) (\<lambda>event.
     act_bind (r_CreateEvent R (env_call env (k + 3)) event) (\<lambda>_.
     act_return (item, settledPayment)))))))))"

fun settle_loop ::
  "('c, 's) settlement_repos \<Rightarrow> ('c, 's) repos \<Rightarrow> 'c env \<Rightarrow> nat \<Rightarrow> nat \<Rightarrow> time \<Rightarrow> string \<Rightarrow>
   claimed_payment list \<Rightarrow> line_item list \<Rightarrow> payment list \<Rightarrow>
   ('s, line_item list \<times> payment list) act" where
  "settle_loop SR R env k i now batchID [] lineItems settledPayments =
     act_return (lineItems, settledPayments)"
| "settle_loop SR R env k i now batchID (cp # cps) lineItems settledPayments =
     act_bind (settle_one SR R env k i now batchID cp) (\<lambda>(item, settledPayment).
     settle_loop SR R env (k + 4) (i + 2) now batchID cps
       (lineItems @ [item]) (settledPayments @ [settledPayment]))"

definition settleClaimedPayments ::
  "('c, 's) settlement_repos \<Rightarrow> ('c, 's) repos \<Rightarrow> 'c env \<Rightarrow> nat \<Rightarrow> nat \<Rightarrow> time \<Rightarrow> string \<Rightarrow>
   claimed_payment list \<Rightarrow> ('s, line_item list \<times> payment list) act" where
  "settleClaimedPayments SR R env k i now batchID claimed =
     settle_loop SR R env k i now batchID claimed [] []"

section \<open>CreateBatch\<close>

definition create_batch_tx ::
  "('c, 's) settlement_service \<Rightarrow> 'c env \<Rightarrow> time \<Rightarrow> time \<Rightarrow> ('s, batch_result) act" where
  "create_batch_tx svc env windowStart windowEnd =
     (let SR = ss_repository svc; R = ss_repos svc; now = utc (env_now env) in
     act_bind (act_lift (new_id ''setbat'' (env_rand env 0))) (\<lambda>batchID.
     act_bind (act_lift (NewBatch (env_now env)
       \<lparr>nbi_ID = batchID, nbi_WindowStart = windowStart, nbi_WindowEnd = windowEnd,
        nbi_Now = now\<rparr>)) (\<lambda>newBatch.
     act_bind (sr_CreateBatch SR (env_call env 0) newBatch) (\<lambda>created.
     act_bind (act_lift (StartProcessing created (ss_workerID svc) (now + ss_lockTTL svc) now)) (\<lambda>started.
     act_bind (sr_UpdateBatch SR (env_call env 1) started) (\<lambda>batch.
     act_bind (sr_ClaimCapturedPayments SR (env_call env 2)
       \<lparr>cpi_BatchID = batch_ID batch, cpi_WindowStart = WindowStart batch,
        cpi_WindowEnd = WindowEnd batch, cpi_Limit = ss_claimLimit svc, cpi_Now = now\<rparr>) (\<lambda>claimed.
     act_bind (settleClaimedPayments SR R env 4 1 now (batch_ID batch) claimed)
       (\<lambda>(lineItems, settledPayments).
     act_bind (act_lift (Batch_Complete batch now)) (\<lambda>completed.
     act_bind (sr_UpdateBatch SR (env_call env 3) completed) (\<lambda>done.
     act_return \<lparr>br_Batch = done, br_LineItems = lineItems, br_Payments = settledPayments\<rparr>))))))))))"

definition observe_settlement :: "bool \<Rightarrow> settlement_observation \<Rightarrow> settlement_observation list" where
  "observe_settlement metrics obs = (if \<not> metrics then [] else [obs])"

type_synonym ('s, 'a) settlement_observed =
  "'s \<Rightarrow> ((error + 'a) \<times> settlement_observation list) \<times> 's"

definition CreateBatch ::
  "('c, 's) settlement_service \<Rightarrow> 'c env \<Rightarrow> time \<Rightarrow> time \<Rightarrow> ('s, batch_result) settlement_observed" where
  "CreateBatch svc env windowStart windowEnd s =
     (case WithinTx (ss_transactor svc) (create_batch_tx svc env windowStart windowEnd) s of
        (Inl err, s') \<Rightarrow>
          ((Inl err, observe_settlement (ss_metrics svc)
             (ObserveSettlementBatch ''FAILED'' 0 (env_elapsed env))), s')
      | (Inr result, s') \<Rightarrow>
          ((Inr result, observe_settlement (ss_metrics svc)
             (ObserveSettlementBatch (batch_status_string (batch_Status (br_Batch result)))
               (int (length (br_Payments result))) (env_elapsed env))), s'))"

section \<open>RecoverStaleBatches\<close>

text \<open>
  One batch; the number of payments it claimed decides how many calls the turn makes, so the
  numbering of the next turn is returned with the result.
\<close>

definition recover_one ::
  "('c, 's) settlement_service \<Rightarrow> 'c env \<Rightarrow> nat \<Rightarrow> nat \<Rightarrow> time \<Rightarrow> batch \<Rightarrow>
   ('s, batch_result \<times> nat) act" where
  "recover_one svc env k i now staleBatch =
     (let SR = ss_repository svc; R = ss_repos svc in
     act_bind (act_lift (StartProcessing staleBatch (ss_workerID svc) (now + ss_lockTTL svc) now)) (\<lambda>started.
     act_bind (sr_UpdateBatch SR (env_call env k) started) (\<lambda>batch.
     act_bind (sr_ListClaimedPayments SR (env_call env (k + 1)) (batch_ID batch)) (\<lambda>claimed.
     act_bind (settleClaimedPayments SR R env (k + 3) i now (batch_ID batch) claimed)
       (\<lambda>(lineItems, settledPayments).
     act_bind (act_lift (Batch_Complete batch now)) (\<lambda>completed.
     act_bind (sr_UpdateBatch SR (env_call env (k + 2)) completed) (\<lambda>done.
     act_return (\<lparr>br_Batch = done, br_LineItems = lineItems, br_Payments = settledPayments\<rparr>,
       length claimed))))))))"

fun recover_loop ::
  "('c, 's) settlement_service \<Rightarrow> 'c env \<Rightarrow> nat \<Rightarrow> nat \<Rightarrow> time \<Rightarrow> batch list \<Rightarrow>
   recover_result \<Rightarrow> int list \<Rightarrow> ('s, recover_result \<times> int list) act" where
  "recover_loop svc env k i now [] result counts = act_return (result, counts)"
| "recover_loop svc env k i now (b # bs) result counts =
     act_bind (recover_one svc env k i now b) (\<lambda>(r, n).
     recover_loop svc env (k + 3 + 4 * n) (i + 2 * n) now bs
       \<lparr>rr_Batches = rr_Batches result @ [br_Batch r],
        rr_LineItems = rr_LineItems result @ br_LineItems r,
        rr_Payments = rr_Payments result @ br_Payments r\<rparr>
       (counts @ [int (length (br_Payments r))]))"

definition recover_tx ::
  "('c, 's) settlement_service \<Rightarrow> 'c env \<Rightarrow> int \<Rightarrow> ('s, recover_result \<times> int list) act" where
  "recover_tx svc env limit =
     (let now = utc (env_now env) in
     act_bind (sr_ListStaleProcessingBatches (ss_repository svc) (env_call env 0) now limit) (\<lambda>staleBatches.
     recover_loop svc env 1 0 now staleBatches
       \<lparr>rr_Batches = [], rr_LineItems = [], rr_Payments = []\<rparr> []))"

definition RecoverStaleBatches ::
  "('c, 's) settlement_service \<Rightarrow> 'c env \<Rightarrow> int \<Rightarrow> ('s, recover_result) settlement_observed" where
  "RecoverStaleBatches svc env limit0 s =
     (let limit = (if limit0 \<le> 0 then ss_claimLimit svc else limit0) in
      case WithinTx (ss_transactor svc) (recover_tx svc env limit) s of
        (Inl err, s') \<Rightarrow>
          ((Inl err, observe_settlement (ss_metrics svc)
             (ObserveSettlementBatch ''FAILED'' 0 (env_elapsed env))), s')
      | (Inr (result, counts), s') \<Rightarrow>
          ((Inr result, observe_settlement (ss_metrics svc)
              (ObserveSettlementRecoveredBatches (int (length (rr_Batches result)))) @
            concat (map (\<lambda>(b, n). observe_settlement (ss_metrics svc)
              (ObserveSettlementBatch (batch_status_string (batch_Status b)) n (env_elapsed env)))
              (zip (rr_Batches result) counts))), s'))"

lemmas settlement_service_defs = defaultClaimLimit_def defaultLockTTL_def
  eventTypePaymentSettled_def NewSettlementService_def paymentSettledPayload_def settle_one_def
  settleClaimedPayments_def create_batch_tx_def observe_settlement_def CreateBatch_def
  recover_one_def recover_tx_def RecoverStaleBatches_def

declare settlement_service_defs [go_eval]

lemma CreateBatch_success:
  "CreateBatch svc env ws we s = ((Inr r, obs), s') \<longleftrightarrow>
   WithinTx (ss_transactor svc) (create_batch_tx svc env ws we) s = (Inr r, s') \<and>
   obs = observe_settlement (ss_metrics svc)
     (ObserveSettlementBatch (batch_status_string (batch_Status (br_Batch r)))
       (int (length (br_Payments r))) (env_elapsed env))"
  by (auto simp: CreateBatch_def split: prod.splits sum.splits)

end
