(* ===== verification/SettlementBackend.thy ===== *)
theory SettlementBackend
  imports PaymentBackend SettlementService
begin

text \<open>
  The contract between the settlement service and its repositories, as the locale
  \<open>settlement_backend\<close> on top of \<open>payment_backend\<close>, and what a batch that is created does:
  which payments it takes, the line items it writes, and that the ledger's money is untouched.
\<close>

section \<open>What settlement adds to the ledger\<close>

record slots =
  sl_batches :: "batch gomap"
  sl_items :: "line_item gomap"
  sl_claims :: "string gomap"

definition same_batch :: "batch \<Rightarrow> batch \<Rightarrow> bool" where
  "same_batch b b' \<longleftrightarrow> batch_ID b' = batch_ID b \<and> batch_Status b' = batch_Status b \<and>
     ClaimedBy b' = ClaimedBy b \<and> batch_LastError b' = batch_LastError b"

definition same_item :: "line_item \<Rightarrow> line_item \<Rightarrow> bool" where
  "same_item it it' \<longleftrightarrow>
     it' = it\<lparr>PaymentCaptured := PaymentCaptured it', item_CreatedAt := item_CreatedAt it'\<rparr>"

lemma same_itemD:
  assumes "same_item it it'"
  shows "item_ID it' = item_ID it" "item_BatchID it' = item_BatchID it"
    "item_MerchantID it' = item_MerchantID it" "item_PaymentID it' = item_PaymentID it"
    "item_AmountMinor it' = item_AmountMinor it" "FeeAmountMinor it' = FeeAmountMinor it"
    "NetAmountMinor it' = NetAmountMinor it" "item_Currency it' = item_Currency it"
proof -
  obtain a b where it': "it' = it\<lparr>PaymentCaptured := a, item_CreatedAt := b\<rparr>"
    using assms unfolding same_item_def by blast
  show "item_ID it' = item_ID it" "item_BatchID it' = item_BatchID it"
    "item_MerchantID it' = item_MerchantID it" "item_PaymentID it' = item_PaymentID it"
    "item_AmountMinor it' = item_AmountMinor it" "FeeAmountMinor it' = FeeAmountMinor it"
    "NetAmountMinor it' = NetAmountMinor it" "item_Currency it' = item_Currency it"
    by (simp_all add: it')
qed

text \<open>The line item of a payment in a batch: no fee is taken.\<close>

definition item_for :: "string \<Rightarrow> payment \<Rightarrow> line_item \<Rightarrow> bool" where
  "item_for bid p it \<longleftrightarrow> item_BatchID it = bid \<and> item_PaymentID it = payment_ID p \<and>
     item_MerchantID it = payment_MerchantID p \<and> item_AmountMinor it = payment_AmountMinor p \<and>
     FeeAmountMinor it = 0 \<and> NetAmountMinor it = payment_AmountMinor p"

text \<open>The claim marks the payment, and touches its \<open>updated_at\<close>.\<close>

definition touch :: "time \<Rightarrow> payment \<Rightarrow> ledger \<Rightarrow> ledger" where
  "touch u p = ledger_put_payment (p\<lparr>payment_UpdatedAt := u\<rparr>)"

definition claim_slot :: "string \<Rightarrow> payment \<Rightarrow> slots \<Rightarrow> slots" where
  "claim_slot bid p S = S\<lparr>sl_claims := AList.update (payment_ID p) bid (sl_claims S)\<rparr>"

definition claimable_in :: "ledger \<Rightarrow> slots \<Rightarrow> time \<Rightarrow> time \<Rightarrow> payment \<Rightarrow> bool" where
  "claimable_in L S ws we p \<longleftrightarrow> map_of (l_payments L) (payment_ID p) = Some p \<and>
     captured_within ws we p \<and> map_of (sl_claims S) (payment_ID p) = None"

text \<open>What settling the payments \<open>ps\<close> in the batch \<open>bid\<close> does, with line items \<open>its\<close>.\<close>

definition settled_from ::
  "ledger \<Rightarrow> slots \<Rightarrow> string \<Rightarrow> payment list \<Rightarrow> line_item list \<Rightarrow> ledger \<Rightarrow> slots \<Rightarrow> bool" where
  "settled_from L S bid ps its L' S' \<longleftrightarrow> ledger_ok L' \<and> (\<forall>i. funds L' i = funds L i) \<and>
     l_merchants L' = l_merchants L \<and> l_payers L' = l_payers L \<and> l_holds L' = l_holds L \<and>
     (\<forall>pid. pid \<notin> payment_ID ` set ps \<longrightarrow> map_of (l_payments L') pid = map_of (l_payments L) pid) \<and>
     (\<forall>p \<in> set ps. \<exists>r. map_of (l_payments L') (payment_ID p) = Some r \<and>
        same_payment (p\<lparr>payment_Status := StatusSettled\<rparr>) r) \<and>
     events_for (map (\<lambda>p. (eventTypePaymentSettled, payment_ID p)) ps) (l_events L) (l_events L') \<and>
     S' = S\<lparr>sl_items := sl_items S @ map (\<lambda>it. (item_ID it, it)) its\<rparr> \<and>
     distinct (map item_ID its) \<and> (\<forall>it \<in> set its. map_of (sl_items S) (item_ID it) = None) \<and>
     (\<forall>p \<in> set ps. \<forall>g \<in> set (gm_values (sl_items S)). item_PaymentID g \<noteq> payment_ID p) \<and>
     list_all2 (item_for bid) ps its"

lemma update_new: "map_of m k = None \<Longrightarrow> AList.update k v m = m @ [(k, v)]"
  by (induction m) (auto split: if_splits)

lemma settled_from_step:
  assumes rest: "settled_from L1 S1 bid ps its L' S'"
    and p: "payment_ID p \<notin> payment_ID ` set ps"
    and r: "payment_ID r = payment_ID p" "same_payment (p\<lparr>payment_Status := StatusSettled\<rparr>) r"
    and it: "item_for bid p it" "map_of (sl_items S) (item_ID it) = None"
      "\<forall>g \<in> set (gm_values (sl_items S)). item_PaymentID g \<noteq> payment_ID p"
    and e: "map_of (l_events L) (event_ID e) = None" "event_for (eventTypePaymentSettled, payment_ID p) e"
    and L1: "L1 = (ledger_put_payment r L)\<lparr>l_events := AList.update (event_ID e) e (l_events L)\<rparr>"
    and S1: "S1 = S\<lparr>sl_items := AList.update (item_ID it) it (sl_items S)\<rparr>"
    and funds: "\<And>i. funds L1 i = funds L i"
  shows "settled_from L S bid (p # ps) (it # its) L' S'"
proof -
  have items: "sl_items S1 = sl_items S @ [(item_ID it, it)]"
    using update_new [OF it(2)] by (simp add: S1)
  have pays: "map_of (l_payments L1) = (map_of (l_payments L))(payment_ID p \<mapsto> r)"
    by (simp add: L1 r(1))
  have P: "map_of (l_payments L') (payment_ID p) = Some r"
    using rest p pays unfolding settled_from_def by simp
  have keep: "map_of (l_payments L') pid = map_of (l_payments L) pid"
    if "pid \<notin> payment_ID ` set (p # ps)" for pid
    using rest that pays unfolding settled_from_def by simp
  have ids: "\<forall>it' \<in> set its. item_ID it' \<noteq> item_ID it \<and> map_of (sl_items S) (item_ID it') = None"
    using rest items unfolding settled_from_def
    by (auto simp: map_add_def split: option.splits if_splits)
  have S': "S' = S\<lparr>sl_items := sl_items S @ map (\<lambda>it. (item_ID it, it)) (it # its)\<rparr>"
    using rest items unfolding settled_from_def by (simp add: S1)
  show ?thesis
    unfolding settled_from_def
  proof (intro conjI)
    show "\<forall>q \<in> set (p # ps). \<exists>r. map_of (l_payments L') (payment_ID q) = Some r \<and>
        same_payment (q\<lparr>payment_Status := StatusSettled\<rparr>) r"
      using rest P r(2) unfolding settled_from_def by simp
    show "\<forall>q \<in> set (p # ps). \<forall>g \<in> set (gm_values (sl_items S)). item_PaymentID g \<noteq> payment_ID q"
      using rest it(3) items unfolding settled_from_def by (simp add: gm_values_def)
    show "events_for (map (\<lambda>p. (eventTypePaymentSettled, payment_ID p)) (p # ps)) (l_events L) (l_events L')"
      using rest e unfolding settled_from_def by (auto simp: L1)
    show "distinct (map item_ID (it # its))" "\<forall>it' \<in> set (it # its). map_of (sl_items S) (item_ID it') = None"
      using rest ids it(2) unfolding settled_from_def by auto
  qed (use rest keep S' it(1) funds in \<open>simp_all add: settled_from_def L1\<close>)
qed

text \<open>The claim of \<open>rows\<close>, as a whole.\<close>

lemma fold_touch:
  assumes "ledger_ok L" "\<forall>p \<in> set rows. map_of (l_payments L) (payment_ID p) = Some p"
    and "distinct (map payment_ID rows)"
  shows "ledger_ok (fold (touch u) rows L)" "funds (fold (touch u) rows L) i = funds L i"
    "l_merchants (fold (touch u) rows L) = l_merchants L"
    "l_payers (fold (touch u) rows L) = l_payers L" "l_holds (fold (touch u) rows L) = l_holds L"
    "l_events (fold (touch u) rows L) = l_events L"
    "p \<in> set rows \<Longrightarrow> map_of (l_payments (fold (touch u) rows L)) (payment_ID p) =
      Some (p\<lparr>payment_UpdatedAt := u\<rparr>)"
    "pid \<notin> payment_ID ` set rows \<Longrightarrow>
      map_of (l_payments (fold (touch u) rows L)) pid = map_of (l_payments L) pid"
proof -
  have "ledger_ok (fold (touch u) rows L) \<and> funds (fold (touch u) rows L) i = funds L i \<and>
    l_merchants (fold (touch u) rows L) = l_merchants L \<and>
    l_payers (fold (touch u) rows L) = l_payers L \<and> l_holds (fold (touch u) rows L) = l_holds L \<and>
    l_events (fold (touch u) rows L) = l_events L \<and>
    (\<forall>p \<in> set rows. map_of (l_payments (fold (touch u) rows L)) (payment_ID p) =
      Some (p\<lparr>payment_UpdatedAt := u\<rparr>)) \<and>
    (\<forall>pid. pid \<notin> payment_ID ` set rows \<longrightarrow>
      map_of (l_payments (fold (touch u) rows L)) pid = map_of (l_payments L) pid)"
    using assms
  proof (induction rows arbitrary: L)
    case (Cons p rows)
    let ?L = "touch u p L"
    have p: "map_of (l_payments L) (payment_ID p) = Some p" using Cons.prems(2) by simp
    have notin: "payment_ID p \<notin> payment_ID ` set rows" using Cons.prems(3) by simp
    have "payment_ok p" using ledger_okD(5) [OF Cons.prems(1) p] by (simp add: payment_linked_def)
    then have "payment_ok (p\<lparr>payment_UpdatedAt := u\<rparr>)" by (simp add: payment_ok_def)
    moreover have "payment_succeeds p (p\<lparr>payment_UpdatedAt := u\<rparr>)" by (simp add: payment_succeeds_def)
    ultimately have T: "ledger_ok ?L" "funds ?L j = funds L j" for j
      unfolding touch_def using put_payment_ok [OF Cons.prems(1)] p by simp_all
    have look: "map_of (l_payments ?L) = (map_of (l_payments L))(payment_ID p \<mapsto> p\<lparr>payment_UpdatedAt := u\<rparr>)"
      by (simp add: touch_def)
    have later: "\<forall>q \<in> set rows. map_of (l_payments ?L) (payment_ID q) = Some q"
    proof
      fix q assume q: "q \<in> set rows"
      then have "payment_ID q \<noteq> payment_ID p" using notin by (metis image_eqI)
      moreover have "map_of (l_payments L) (payment_ID q) = Some q"
        using Cons.prems(2) q by (meson list.set_intros(2))
      ultimately show "map_of (l_payments ?L) (payment_ID q) = Some q" by (simp add: look)
    qed
    have dist: "distinct (map payment_ID rows)" using Cons.prems(3) by simp
    from Cons.IH [OF T(1) later dist] show ?case
      using T(2) notin look by (auto simp: touch_def)
  qed simp
  then show "ledger_ok (fold (touch u) rows L)" "funds (fold (touch u) rows L) i = funds L i"
    "l_merchants (fold (touch u) rows L) = l_merchants L"
    "l_payers (fold (touch u) rows L) = l_payers L" "l_holds (fold (touch u) rows L) = l_holds L"
    "l_events (fold (touch u) rows L) = l_events L"
    "p \<in> set rows \<Longrightarrow> map_of (l_payments (fold (touch u) rows L)) (payment_ID p) =
      Some (p\<lparr>payment_UpdatedAt := u\<rparr>)"
    "pid \<notin> payment_ID ` set rows \<Longrightarrow>
      map_of (l_payments (fold (touch u) rows L)) pid = map_of (l_payments L) pid"
    by blast+
qed

lemma fold_claim_slot:
  "sl_batches (fold (claim_slot bid) rows S) = sl_batches S"
  "sl_items (fold (claim_slot bid) rows S) = sl_items S"
  "map_of (sl_claims (fold (claim_slot bid) rows S)) =
     (\<lambda>pid. if pid \<in> payment_ID ` set rows then Some bid else map_of (sl_claims S) pid)"
  by (induction rows arbitrary: S) (auto simp: claim_slot_def fun_eq_iff)

definition batch_settled ::
  "ledger \<Rightarrow> slots \<Rightarrow> batch \<Rightarrow> payment list \<Rightarrow> line_item list \<Rightarrow> ledger \<Rightarrow> slots \<Rightarrow> bool" where
  "batch_settled L S b ps its L' S' \<longleftrightarrow>
     settled_from L (S\<lparr>sl_batches := sl_batches S', sl_claims := sl_claims S'\<rparr>) (batch_ID b) ps its L' S' \<and>
     map_of (sl_batches S') = (map_of (sl_batches S))(batch_ID b \<mapsto> b) \<and>
     (gm_wf batch_ID (sl_batches S) \<longrightarrow> gm_wf batch_ID (sl_batches S')) \<and>
     map_of (sl_claims S') = (\<lambda>pid. if pid \<in> payment_ID ` set ps then Some (batch_ID b)
       else map_of (sl_claims S) pid)"

section \<open>The contract\<close>

locale settlement_backend = payment_backend R view inv
  for R :: "('c, 's) repos" and view :: "'s \<Rightarrow> ledger" and inv :: "'s \<Rightarrow> bool" +
  fixes SR :: "('c, 's) settlement_repos" and sview :: "'s \<Rightarrow> slots" and tm :: "time \<Rightarrow> time"
  assumes tm_idem: "tm (tm t) = tm t"
  and UpdatePayment_slots: "r_UpdatePayment R c p s = (Inr p', s') \<Longrightarrow> sview s' = sview s"
  and UpdatePayment_captured:
    "r_UpdatePayment R c p s = (Inr p', s') \<Longrightarrow> CapturedAt p' = map_option tm (CapturedAt p)"
  and CreateEvent_slots: "r_CreateEvent R c e s = (Inr e', s') \<Longrightarrow> sview s' = sview s"
  and CreateBatch_law:
    "inv s \<Longrightarrow> sr_CreateBatch SR c b s = (Inr b', s') \<Longrightarrow>
     same_batch b b' \<and> WindowStart b' = tm (WindowStart b) \<and> WindowEnd b' = tm (WindowEnd b) \<and>
     map_of (sl_batches (sview s)) (batch_ID b) = None \<and> inv s' \<and> view s' = view s \<and>
     sview s' = (sview s)\<lparr>sl_batches := AList.update (batch_ID b) b' (sl_batches (sview s))\<rparr>"
  and UpdateBatch_law:
    "inv s \<Longrightarrow> sr_UpdateBatch SR c b s = (Inr b', s') \<Longrightarrow>
     same_batch b b' \<and> WindowStart b' = tm (WindowStart b) \<and> WindowEnd b' = tm (WindowEnd b) \<and>
     map_of (sl_batches (sview s)) (batch_ID b) \<noteq> None \<and> inv s' \<and> view s' = view s \<and>
     sview s' = (sview s)\<lparr>sl_batches := AList.update (batch_ID b) b' (sl_batches (sview s))\<rparr>"
  and ListStale_law:
    "sr_ListStaleProcessingBatches SR c now limit s = (Inr bs, s') \<Longrightarrow>
     s' = s \<and> (\<forall>b \<in> set bs. b \<in> set (gm_values (sl_batches (sview s))) \<and>
       batch_Status b = BatchStatusProcessing)"
  and ClaimCaptured_law:
    "inv s \<Longrightarrow> ledger_keys_ok (view s) \<Longrightarrow> sr_ClaimCapturedPayments SR c input s = (Inr cs, s') \<Longrightarrow>
     \<exists>ps rows u. cs = map (claimed_of (cpi_BatchID input)) ps \<and> mset rows = mset ps \<and>
       distinct (map payment_ID ps) \<and> int (length ps) \<le> max 0 (cpi_Limit input) \<and>
       (\<forall>p \<in> set ps. claimable_in (view s) (sview s) (tm (cpi_WindowStart input))
          (tm (cpi_WindowEnd input)) p) \<and>
       inv s' \<and> view s' = fold (touch u) rows (view s) \<and>
       sview s' = fold (claim_slot (cpi_BatchID input)) rows (sview s)"
  and CreateLineItem_law:
    "inv s \<Longrightarrow> map_of (l_payments (view s)) (item_PaymentID it) = Some p \<Longrightarrow>
     item_Currency it = payment_Currency p \<Longrightarrow> sr_CreateLineItem SR c it s = (Inr it', s') \<Longrightarrow>
     same_item it it' \<and> map_of (sl_items (sview s)) (item_ID it) = None \<and>
     (\<forall>g \<in> set (gm_values (sl_items (sview s))). item_PaymentID g \<noteq> item_PaymentID it) \<and>
     inv s' \<and> view s' = view s \<and>
     sview s' = (sview s)\<lparr>sl_items := AList.update (item_ID it) it' (sl_items (sview s))\<rparr>"
begin

lemma settle_one_success:
  assumes inv: "inv s" and ok: "ledger_ok (view s)"
    and q: "map_of (l_payments (view s)) (payment_ID p) = Some q" "same_payment p q"
    and bid: "trim_space bid = bid"
    and run: "settle_one SR R env k i now bid (claimed_of bid p) s = (Inr (it, r), s')"
  shows "payment_Status q = StatusCaptured" "payment_Status r = StatusSettled" "same_payment (q\<lparr>payment_Status := StatusSettled\<rparr>) r"
    "item_for bid p it" "map_of (sl_items (sview s)) (item_ID it) = None"
    "\<forall>g \<in> set (gm_values (sl_items (sview s))). item_PaymentID g \<noteq> payment_ID p" "inv s'"
    "sview s' = (sview s)\<lparr>sl_items := AList.update (item_ID it) it (sl_items (sview s))\<rparr>"
    "\<exists>e0 e. NewEvent (payment_event eventTypePaymentSettled r (paymentSettledPayload r bid now) now)
        (env_rand env (i + 1)) = Inr e0 \<and> same_event e0 e \<and>
      map_of (l_events (view s)) (event_ID e) = None \<and> event_for (eventTypePaymentSettled, payment_ID p) e \<and>
      view s' = (ledger_put_payment r (view s))\<lparr>l_events :=
        AList.update (event_ID e) e (l_events (view s))\<rparr>"
    "ledger_ok (view s')" "funds (view s') j = funds (view s) j"
proof -
  obtain q' s1 r1 sa iid it1 sb e0 e where
    q': "r_GetPayment R (env_call env k) (payment_ID p) s = (Inr q', s1)" and
    r1: "Payment_Settle q' now = Inr r1" and
    r: "r_UpdatePayment R (env_call env (k + 1)) r1 s1 = (Inr r, sa)" and
    iid: "new_id ''setitem'' (env_rand env i) = Inr iid" and
    it1: "NewLineItem (env_now env)
      \<lparr>nli_ID = iid, nli_BatchID = bid, nli_MerchantID = payment_MerchantID p,
       nli_PaymentID = payment_ID p, nli_AmountMinor = payment_AmountMinor p,
       nli_FeeAmountMinor = 0, nli_Currency = payment_Currency p,
       nli_PaymentCaptured = the (CapturedAt p), nli_Now = now\<rparr> = Inr it1" and
    it: "sr_CreateLineItem SR (env_call env (k + 2)) it1 sa = (Inr it, sb)" and
    e0: "NewEvent (payment_event eventTypePaymentSettled r (paymentSettledPayload r bid now) now)
      (env_rand env (i + 1)) = Inr e0" and
    e: "r_CreateEvent R (env_call env (k + 3)) e0 sb = (Inr e, s')"
    using run unfolding settle_one_def claimed_of_def by (auto simp: act_simps)
  have reads: "s1 = s" "q' = q" using GetPayment_law [OF q'] q(1) by simp_all
  have link: "payment_linked (view s) q" using ledger_okD(5) [OF ok q(1)] .
  then have q_ok: "payment_ok q" by (simp add: payment_linked_def)
  obtain m where m: "map_of (l_merchants (view s)) (payment_MerchantID q) = Some m"
    using link by (auto simp: payment_linked_def)
  have m_id: "merchant_ID m = payment_MerchantID q"
    using gm_wf_key [OF ledger_keys_okD(1) [OF ledger_okD(1) [OF ok]] m] .
  have mtrim: "trim_space (payment_MerchantID p) = payment_MerchantID p"
    using ledger_okD(2) [OF ok m] m_id same_paymentD(2) [OF q(2)] by (simp add: merchant_ok_def)
  note pq = same_paymentD [OF q(2)]
  have ptrim: "trim_space (payment_ID p) = payment_ID p" and
    pcur: "NormalizeCurrency (payment_Currency p) = payment_Currency p"
    using q_ok pq by (simp_all add: payment_ok_def)
  have r1': "payment_Status q = StatusCaptured" "payment_ID r1 = payment_ID q"
    "payment_Currency r1 = payment_Currency q" "payment_ok r1"
    "same_payment (q\<lparr>payment_Status := StatusSettled\<rparr>) r1"
    using r1 q_ok by (auto simp: reads op_success payment_ok_def same_payment_def)
  have U: "same_payment r1 r" "payment_ok r" "inv sa"
    "view sa = ledger_put_payment r (view s)" "sview sa = sview s"
    using UpdatePayment_law [OF inv, of r1 q, OF _ r1'(3,4) r [unfolded reads]]
      UpdatePayment_slots [OF r] q(1) r1'(2) pq(1) reads
    by (auto simp: ledger_put_payment_def dest: same_paymentD(1))
  have r_id: "payment_ID r = payment_ID p" using same_paymentD(1) [OF U(1)] r1'(2) pq(1) by simp
  have cur: "payment_Currency r = payment_Currency p"
    using same_paymentD(5) [OF U(1)] r1'(3) pq(5) by simp
  have it1': "item_PaymentID it1 = payment_ID p" "item_Currency it1 = payment_Currency p"
    "item_for bid p it1"
    using it1 ptrim mtrim bid pcur by (auto simp: NewLineItem_success item_for_def)
  have C: "same_item it1 it" "map_of (sl_items (sview s)) (item_ID it1) = None"
    "\<forall>g \<in> set (gm_values (sl_items (sview s))). item_PaymentID g \<noteq> payment_ID p" "inv sb"
    "view sb = view sa"
    "sview sb = (sview s)\<lparr>sl_items := AList.update (item_ID it1) it (sl_items (sview s))\<rparr>"
    using CreateLineItem_law [OF U(3) _ _ it, of r] U(4,5) r_id cur it1' by simp_all
  have E: "same_event e0 e" "map_of (l_events (view s)) (event_ID e0) = None" "inv s'"
    "view s' = (view sa)\<lparr>l_events := AList.update (event_ID e0) e (l_events (view s))\<rparr>"
    using CreateEvent_law [OF C(4) e] C(5) U(4) by simp_all
  have suc: "payment_succeeds q r"
    using settle_succeeds [OF r1 [unfolded reads] U(1)] .
  have ok1: "ledger_ok (ledger_put_payment r (view s))"
    "funds (ledger_put_payment r (view s)) j = funds (view s) j"
    using put_payment_ok [OF ok _ suc U(2)] q(1) r_id by simp_all
  have v: "view s' = (ledger_put_payment r (view s))\<lparr>l_events :=
        AList.update (event_ID e) e (l_events (view s))\<rparr>"
    using E(1,4) U(4) same_eventD [OF E(1)] by simp
  have "trim_space eventTypePaymentSettled = eventTypePaymentSettled"
    unfolding eventTypePaymentSettled_def by code_simp
  then have label: "event_for (eventTypePaymentSettled, payment_ID p) e"
    using NewEvent_label [OF e0 E(1)] r_id ptrim by (simp add: payment_event_def)
  show "payment_Status q = StatusCaptured" by (rule r1'(1))
  show "payment_Status r = StatusSettled"
    using same_paymentD(6) [OF U(1)] same_paymentD(6) [OF r1'(5)] by simp
  show "same_payment (q\<lparr>payment_Status := StatusSettled\<rparr>) r"
    using same_payment_trans [OF r1'(5) U(1)] .
  show "item_for bid p it" using it1'(3) same_itemD [OF C(1)] by (simp add: item_for_def)
  show "map_of (sl_items (sview s)) (item_ID it) = None" using C(2) same_itemD(1) [OF C(1)] by simp
  show "\<forall>g \<in> set (gm_values (sl_items (sview s))). item_PaymentID g \<noteq> payment_ID p" by (rule C(3))
  show "inv s'" by (rule E(3))
  show "sview s' = (sview s)\<lparr>sl_items := AList.update (item_ID it) it (sl_items (sview s))\<rparr>"
    using CreateEvent_slots [OF e] C(6) same_itemD(1) [OF C(1)] by simp
  show "\<exists>e0 e. NewEvent (payment_event eventTypePaymentSettled r (paymentSettledPayload r bid now) now)
        (env_rand env (i + 1)) = Inr e0 \<and> same_event e0 e \<and>
      map_of (l_events (view s)) (event_ID e) = None \<and> event_for (eventTypePaymentSettled, payment_ID p) e \<and>
      view s' = (ledger_put_payment r (view s))\<lparr>l_events :=
        AList.update (event_ID e) e (l_events (view s))\<rparr>"
    using e0 E(1,2) v same_eventD [OF E(1)] label by (intro exI [of _ e0] exI [of _ e]) simp
  show "ledger_ok (view s')" "funds (view s') j = funds (view s) j"
    using add_event_ok [OF ok1(1), of e] ok1(2) by (simp_all add: v)
qed

lemma settle_loop_success:
  "settle_loop SR R env k i now bid (map (claimed_of bid) ps) itacc pacc s = (Inr (items, pays), s') \<Longrightarrow>
   inv s \<Longrightarrow> ledger_ok (view s) \<Longrightarrow> trim_space bid = bid \<Longrightarrow> distinct (map payment_ID ps) \<Longrightarrow>
   \<forall>p \<in> set ps. \<exists>q. map_of (l_payments (view s)) (payment_ID p) = Some q \<and> same_payment p q \<Longrightarrow>
   inv s' \<and> (\<exists>its rs. items = itacc @ its \<and> pays = pacc @ rs \<and>
     settled_from (view s) (sview s) bid ps its (view s') (sview s') \<and>
     map payment_ID rs = map payment_ID ps \<and> (\<forall>r \<in> set rs. payment_Status r = StatusSettled))"
proof (induction ps arbitrary: k i itacc pacc s)
  case Nil
  then show ?case by (auto simp: act_simps settled_from_def)
next
  case (Cons p ps)
  obtain it r s1 where one: "settle_one SR R env k i now bid (claimed_of bid p) s = (Inr (it, r), s1)"
    and rest: "settle_loop SR R env (k + 4) (i + 2) now bid (map (claimed_of bid) ps)
      (itacc @ [it]) (pacc @ [r]) s1 = (Inr (items, pays), s')"
    using Cons.prems(1) by (auto simp: act_simps split: prod.splits)
  have notin: "payment_ID p \<notin> payment_ID ` set ps"
    using Cons.prems(5) by (simp only: list.map distinct.simps set_map) simp
  obtain q where q: "map_of (l_payments (view s)) (payment_ID p) = Some q" "same_payment p q"
    using Cons.prems(6) by (meson list.set_intros(1))
  note one' = settle_one_success [OF Cons.prems(2,3) q Cons.prems(4) one]
  obtain e where e: "map_of (l_events (view s)) (event_ID e) = None"
      "event_for (eventTypePaymentSettled, payment_ID p) e"
    and v: "view s1 = (ledger_put_payment r (view s))\<lparr>l_events :=
      AList.update (event_ID e) e (l_events (view s))\<rparr>"
    using one'(9) by blast
  have r: "payment_ID r = payment_ID p" "same_payment (p\<lparr>payment_Status := StatusSettled\<rparr>) r"
    using same_paymentD(1) [OF one'(3)] same_paymentD(1) [OF q(2)]
      same_payment_trans [OF same_payment_status [OF q(2)] one'(3)] by simp_all
  have later: "\<forall>p' \<in> set ps. \<exists>q. map_of (l_payments (view s1)) (payment_ID p') = Some q \<and> same_payment p' q"
  proof
    fix p' assume p': "p' \<in> set ps"
    then have ne: "payment_ID p' \<noteq> payment_ID p" using notin by (metis image_eqI)
    have "\<exists>q. map_of (l_payments (view s)) (payment_ID p') = Some q \<and> same_payment p' q"
      using Cons.prems(6) p' by (meson list.set_intros(2))
    then show "\<exists>q. map_of (l_payments (view s1)) (payment_ID p') = Some q \<and> same_payment p' q"
      using ne by (simp add: v r(1))
  qed
  have dist: "distinct (map payment_ID ps)" using Cons.prems(5) by simp
  obtain its rs where I: "inv s'" "items = (itacc @ [it]) @ its" "pays = (pacc @ [r]) @ rs"
    "settled_from (view s1) (sview s1) bid ps its (view s') (sview s')"
    "map payment_ID rs = map payment_ID ps" "\<forall>r \<in> set rs. payment_Status r = StatusSettled"
    using Cons.IH [OF rest one'(7,10) Cons.prems(4) dist later] by blast
  have "settled_from (view s) (sview s) bid (p # ps) (it # its) (view s') (sview s')"
    by (rule settled_from_step [OF I(4) notin r one'(4,5,6) e v one'(8,11)])
  then show ?case
    using I r(1) one'(2) by (intro conjI exI [of _ "it # its"] exI [of _ "r # rs"]) simp_all
qed

text \<open>A batch that \<open>CreateBatch\<close> returns.\<close>

lemma create_batch_success:
  assumes inv: "inv s" and ok: "ledger_ok (view s)"
    and run: "create_batch_tx svc env ws we s = (Inr r, s')"
    and svc: "ss_repository svc = SR" "ss_repos svc = R"
  shows "inv s' \<and> batch_Status (br_Batch r) = BatchStatusCompleted \<and>
    map_of (sl_batches (sview s)) (batch_ID (br_Batch r)) = None \<and>
    (\<exists>ps. distinct (map payment_ID ps) \<and> int (length ps) \<le> max 0 (ss_claimLimit svc) \<and>
      (\<forall>p \<in> set ps. claimable_in (view s) (sview s) (tm ws) (tm we) p) \<and>
      batch_settled (view s) (sview s) (br_Batch r) ps (br_LineItems r) (view s') (sview s') \<and>
      map payment_ID (br_Payments r) = map payment_ID ps \<and>
      (\<forall>p \<in> set (br_Payments r). payment_Status p = StatusSettled))"
proof -
  let ?now = "env_now env"
  obtain bid b0 b1 sa b2 b3 sb cs sc items pays sd b4 b5 where
    bid: "new_id ''setbat'' (env_rand env 0) = Inr bid" and
    b0: "NewBatch ?now \<lparr>nbi_ID = bid, nbi_WindowStart = ws, nbi_WindowEnd = we, nbi_Now = ?now\<rparr> = Inr b0" and
    b1: "sr_CreateBatch SR (env_call env 0) b0 s = (Inr b1, sa)" and
    b2: "StartProcessing b1 (ss_workerID svc) (?now + ss_lockTTL svc) ?now = Inr b2" and
    b3: "sr_UpdateBatch SR (env_call env 1) b2 sa = (Inr b3, sb)" and
    cs: "sr_ClaimCapturedPayments SR (env_call env 2)
       \<lparr>cpi_BatchID = batch_ID b3, cpi_WindowStart = WindowStart b3,
        cpi_WindowEnd = WindowEnd b3, cpi_Limit = ss_claimLimit svc, cpi_Now = ?now\<rparr> sb = (Inr cs, sc)" and
    loop: "settle_loop SR R env 4 1 ?now (batch_ID b3) cs [] [] sc = (Inr (items, pays), sd)" and
    b4: "Batch_Complete b3 ?now = Inr b4" and
    b5: "sr_UpdateBatch SR (env_call env 3) b4 sd = (Inr b5, s')" and
    r: "r = \<lparr>br_Batch = b5, br_LineItems = items, br_Payments = pays\<rparr>"
    using run unfolding create_batch_tx_def Let_def utc_def settleClaimedPayments_def svc
    by (auto simp: act_simps split: prod.splits)
  have ids: "trim_space bid = bid" "batch_ID b0 = bid" "WindowStart b0 = ws" "WindowEnd b0 = we"
    using b0 new_id_trim [OF bid] by (auto simp: NewBatch_success)
  have A: "same_batch b0 b1" "WindowStart b1 = tm ws" "WindowEnd b1 = tm we"
    "map_of (sl_batches (sview s)) bid = None" "inv sa" "view sa = view s"
    "sview sa = (sview s)\<lparr>sl_batches := AList.update bid b1 (sl_batches (sview s))\<rparr>"
    using CreateBatch_law [OF inv b1] ids by simp_all
  have b2': "batch_ID b2 = bid" "WindowStart b2 = tm ws" "WindowEnd b2 = tm we"
    "batch_Status b2 = BatchStatusProcessing"
    using b2 A(1-3) ids by (auto simp: StartProcessing_success same_batch_def)
  have B: "same_batch b2 b3" "WindowStart b3 = tm ws" "WindowEnd b3 = tm we" "inv sb" "view sb = view s"
    "sview sb = (sview sa)\<lparr>sl_batches := AList.update bid b3 (sl_batches (sview sa))\<rparr>"
    using UpdateBatch_law [OF A(5) b3] b2' A(6) tm_idem by simp_all
  have b3_id: "batch_ID b3 = bid" using B(1) b2' by (simp add: same_batch_def)
  have okb: "ledger_ok (view sb)" using ok B(5) by simp
  obtain ps rows u where C: "cs = map (claimed_of bid) ps" "mset rows = mset ps"
    "distinct (map payment_ID ps)" "int (length ps) \<le> max 0 (ss_claimLimit svc)"
    "\<forall>p \<in> set ps. claimable_in (view sb) (sview sb) (tm ws) (tm we) p" "inv sc"
    "view sc = fold (touch u) rows (view sb)" "sview sc = fold (claim_slot bid) rows (sview sb)"
    using ClaimCaptured_law [OF B(4) ledger_okD(1) [OF okb] cs] by (auto simp: b3_id B(2,3) tm_idem)
  have rows: "set rows = set ps" "distinct (map payment_ID rows)"
    using C(2,3) by (metis set_mset_mset) (metis C(2,3) mset_map mset_eq_imp_distinct_iff)
  have claim: "\<forall>p \<in> set ps. claimable_in (view s) (sview s) (tm ws) (tm we) p"
    using C(5) unfolding claimable_in_def by (simp add: B(5,6) A(7))
  then have stored: "\<forall>p \<in> set rows. map_of (l_payments (view s)) (payment_ID p) = Some p"
    using rows(1) unfolding claimable_in_def by blast
  note F = fold_touch [where u = u, OF ok stored rows(2)] and vc = C(7) [unfolded B(5)]
  have q: "\<forall>p \<in> set ps. \<exists>q. map_of (l_payments (view sc)) (payment_ID p) = Some q \<and> same_payment p q"
    using F(7) rows(1) same_payment_touch by (metis vc)
  have okc: "ledger_ok (view sc)" using F(1) by (simp add: vc)
  obtain its rs where D: "inv sd" "items = its" "pays = rs"
    "settled_from (view sc) (sview sc) bid ps its (view sd) (sview sd)"
    "map payment_ID rs = map payment_ID ps" "\<forall>r \<in> set rs. payment_Status r = StatusSettled"
    using settle_loop_success [OF loop [unfolded C(1) b3_id] C(6) okc ids(1) C(3) q] by auto
  have b4': "batch_ID b4 = bid" "batch_Status b4 = BatchStatusCompleted"
    using b4 b3_id by (auto simp: Batch_Complete_success)
  have E: "same_batch b4 b5" "inv s'" "view s' = view sd"
    "sview s' = (sview sd)\<lparr>sl_batches := AList.update bid b5 (sl_batches (sview sd))\<rparr>"
    using UpdateBatch_law [OF D(1) b5] b4' by simp_all
  have b5': "batch_ID b5 = bid" "batch_Status b5 = BatchStatusCompleted"
    using E(1) b4' by (simp_all add: same_batch_def)
  have sd: "sview sd = (sview sc)\<lparr>sl_items := sl_items (sview s) @ map (\<lambda>it. (item_ID it, it)) its\<rparr>"
    "sl_items (sview sc) = sl_items (sview s)"
    using D(4) by (simp_all add: settled_from_def C(8) fold_claim_slot B(6) A(7))
  have "batch_settled (view s) (sview s) b5 ps its (view s') (sview s')"
    unfolding batch_settled_def
  proof (intro conjI)
    show "map_of (sl_batches (sview s')) = (map_of (sl_batches (sview s)))(batch_ID b5 \<mapsto> b5)"
      by (simp add: E(4) sd C(8) fold_claim_slot B(6) A(7) b5')
    show "gm_wf batch_ID (sl_batches (sview s)) \<longrightarrow> gm_wf batch_ID (sl_batches (sview s'))"
      using A(1) ids b3_id b5'
      by (simp add: E(4) sd C(8) fold_claim_slot B(6) A(7) same_batch_def gm_wf_update)
    show "map_of (sl_claims (sview s')) = (\<lambda>pid. if pid \<in> payment_ID ` set ps then Some (batch_ID b5)
       else map_of (sl_claims (sview s)) pid)"
      by (simp add: E(4) sd C(8) fold_claim_slot B(6) A(7) b5' rows(1) cong: if_cong)
    show "settled_from (view s) ((sview s)\<lparr>sl_batches := sl_batches (sview s'),
        sl_claims := sl_claims (sview s')\<rparr>) (batch_ID b5) ps its (view s') (sview s')"
      using D(4) F(2-6,8) rows(1) unfolding settled_from_def
      by (simp add: E(3,4) vc sd b5')
  qed
  then show ?thesis
    using C(3,4) claim D(2,3,5,6) E(2) A(4) b5' by (auto simp: r)
qed

text \<open>With no batch left in processing, recovery finds nothing and changes nothing.\<close>

lemma recover_nothing:
  assumes run: "recover_tx svc env limit s = (Inr (res, counts), s')"
    and svc: "ss_repository svc = SR"
    and none: "\<forall>b \<in> set (gm_values (sl_batches (sview s))). batch_Status b \<noteq> BatchStatusProcessing"
  shows "s' = s" "rr_Batches res = []" "counts = []"
proof -
  obtain bs s1 where list: "sr_ListStaleProcessingBatches SR (env_call env 0) (env_now env) limit s = (Inr bs, s1)"
    and loop: "recover_loop svc env 1 0 (env_now env) bs
      \<lparr>rr_Batches = [], rr_LineItems = [], rr_Payments = []\<rparr> [] s1 = (Inr (res, counts), s')"
    using run unfolding recover_tx_def Let_def utc_def svc by (auto simp: act_simps)
  have "s1 = s" "bs = []"
    using ListStale_law [OF list] none by (metis, metis list.set_intros(1) neq_Nil_conv)
  then show "s' = s" "rr_Batches res = []" "counts = []" using loop by (auto simp: act_simps)
qed

end

end
