(* ===== verification/PostgresTables.thy ===== *)
theory PostgresTables
  imports Ledger SettlementEntity
begin

text \<open>
  The tables of \<open>migrations/*.sql\<close> and the shapes of SQL statement the Postgres adapters
  send. A table is a map from its primary key to the row; a row is the record the adapter scans
  it into. \<open>TIMESTAMPTZ\<close> keeps microseconds and \<open>CHAR(3)\<close> pads with blanks.
  Statements run one transaction at a time; what other transactions and the server do to a
  statement is its \<open>pg_call\<close>: an error, the rows others have locked (skipped by
  \<open>SKIP LOCKED\<close>), and the order in which \<open>UPDATE ... RETURNING\<close> returns rows.
\<close>

section \<open>Tables\<close>

record pgdb =
  t_merchants :: "merchant gomap"
  t_payers :: "payer gomap"
  t_payments :: "payment gomap"
  t_settlement_batch_id :: "string gomap"
  t_payment_holds :: "hold gomap"
  t_outbox_events :: "event gomap"
  t_settlement_batches :: "batch gomap"
  t_settlement_line_items :: "line_item gomap"

text \<open>
  \<open>t_settlement_batch_id\<close> is the column \<open>payments.settlement_batch_id\<close>, which no
  adapter scans: it maps the identifier of a payment to the column where it is not null.
\<close>

definition empty_pgdb :: pgdb where
  "empty_pgdb = \<lparr>t_merchants = [], t_payers = [], t_payments = [], t_settlement_batch_id = [],
     t_payment_holds = [], t_outbox_events = [], t_settlement_batches = [],
     t_settlement_line_items = []\<rparr>"

record pg_call =
  pgc_err :: "error option"
  pgc_err2 :: "error option"
  pgc_locked :: "string list"
  pgc_order :: "nat list"

definition quiet_call :: pg_call where
  "quiet_call = \<lparr>pgc_err = None, pgc_err2 = None, pgc_locked = [], pgc_order = []\<rparr>"

section \<open>Column types\<close>

definition db_time :: "time \<Rightarrow> time" where
  "db_time t = truncate_time t 1000"

definition char3 :: "string \<Rightarrow> error + string" where
  "char3 s =
     (if length s \<le> 3 then Inr (s @ replicate (3 - length s) (CHR '' ''))
      else if list_all (\<lambda>c. c = CHR '' '') (drop 3 s) then Inr (take 3 s)
      else Inl (DbErr ''value too long for type character(3)''))"

definition upper_check :: "string \<Rightarrow> bool" where
  "upper_check s \<longleftrightarrow> s = to_upper s"

section \<open>Statements\<close>

definition check_violation :: error where "check_violation = DbErr ''check_violation''"
definition foreign_key_violation :: error where
  "foreign_key_violation = DbErr ''foreign_key_violation''"

text \<open>
  \<open>INSERT\<close>: the row's columns, its CHECK constraints, the unique indexes (whose violation the
  adapter reports as \<open>dup\<close>), the foreign keys.
\<close>

definition pg_insert ::
  "error option \<Rightarrow> error + 'r \<Rightarrow> ('r \<Rightarrow> bool) \<Rightarrow> ('r \<Rightarrow> bool) \<Rightarrow> error \<Rightarrow> ('r \<Rightarrow> bool) \<Rightarrow>
   ('r \<Rightarrow> 's \<Rightarrow> 's) \<Rightarrow> ('s, 'r) act" where
  "pg_insert err row checks unique dup fks put s =
     (case err of Some e \<Rightarrow> (Inl e, s)
      | None \<Rightarrow>
        (case row of Inl e \<Rightarrow> (Inl e, s)
         | Inr r \<Rightarrow>
             if \<not> checks r then (Inl check_violation, s)
             else if \<not> unique r then (Inl dup, s)
             else if \<not> fks r then (Inl foreign_key_violation, s)
             else (Inr r, put r s)))"

text \<open>
  \<open>UPDATE ... WHERE id = $1 RETURNING\<close>: \<open>cur\<close> is the row found, \<open>missing\<close> what
  the adapter reports for \<open>pgx.ErrNoRows\<close>.
\<close>

definition pg_update ::
  "error option \<Rightarrow> 'r option \<Rightarrow> error \<Rightarrow> ('r \<Rightarrow> error + 'r) \<Rightarrow> ('r \<Rightarrow> bool) \<Rightarrow> ('r \<Rightarrow> bool) \<Rightarrow>
   ('r \<Rightarrow> 's \<Rightarrow> 's) \<Rightarrow> ('s, 'r) act" where
  "pg_update err cur missing set_cols checks fks put s =
     (case err of Some e \<Rightarrow> (Inl e, s)
      | None \<Rightarrow>
        (case cur of None \<Rightarrow> (Inl missing, s)
         | Some r0 \<Rightarrow>
           (case set_cols r0 of Inl e \<Rightarrow> (Inl e, s)
            | Inr r \<Rightarrow>
                if \<not> checks r then (Inl check_violation, s)
                else if \<not> fks r then (Inl foreign_key_violation, s)
                else (Inr r, put r s))))"

definition pg_select_row :: "error option \<Rightarrow> 'r option \<Rightarrow> error \<Rightarrow> ('s, 'r) act" where
  "pg_select_row err row missing s =
     (case err of Some e \<Rightarrow> (Inl e, s)
      | None \<Rightarrow> (case row of None \<Rightarrow> (Inl missing, s) | Some r \<Rightarrow> (Inr r, s)))"

definition pg_select_rows :: "error option \<Rightarrow> 'r list \<Rightarrow> ('s, 'r list) act" where
  "pg_select_rows err rows s = (case err of Some e \<Rightarrow> (Inl e, s) | None \<Rightarrow> (Inr rows, s))"

text \<open>\<open>LIMIT\<close>, and the order of the rows an \<open>UPDATE\<close> returns.\<close>

definition sql_limit :: "int \<Rightarrow> 'r list \<Rightarrow> 'r list" where
  "sql_limit n rows = take (nat n) rows"

fun insert_nth :: "nat \<Rightarrow> 'r \<Rightarrow> 'r list \<Rightarrow> 'r list" where
  "insert_nth 0 x xs = x # xs"
| "insert_nth (Suc n) x [] = [x]"
| "insert_nth (Suc n) x (y # ys) = y # insert_nth n x ys"

fun reorder :: "nat list \<Rightarrow> 'r list \<Rightarrow> 'r list" where
  "reorder (i # is) (x # xs) = insert_nth i x (reorder is xs)"
| "reorder [] xs = xs"
| "reorder (i # is) [] = []"

lemmas postgres_statement_defs = pg_insert_def pg_update_def pg_select_row_def pg_select_rows_def
  check_violation_def foreign_key_violation_def char3_def upper_check_def db_time_def sql_limit_def
  quiet_call_def empty_pgdb_def

declare postgres_statement_defs [go_eval]

section \<open>Lemmas\<close>

lemma pg_insert_success [op_success]:
  "pg_insert err row checks unique dup fks put s = (Inr r, s') \<longleftrightarrow>
   err = None \<and> row = Inr r \<and> checks r \<and> unique r \<and> fks r \<and> s' = put r s"
  by (auto simp: pg_insert_def split: option.splits sum.splits)

lemma pg_update_success [op_success]:
  "pg_update err cur missing set_cols checks fks put s = (Inr r, s') \<longleftrightarrow>
   err = None \<and> (\<exists>r0. cur = Some r0 \<and> set_cols r0 = Inr r) \<and> checks r \<and> fks r \<and> s' = put r s"
  by (auto simp: pg_update_def split: option.splits sum.splits)

lemma pg_select_row_success [op_success]:
  "pg_select_row err row missing s = (Inr r, s') \<longleftrightarrow> err = None \<and> row = Some r \<and> s' = s"
  by (auto simp: pg_select_row_def split: option.splits)

lemma pg_select_rows_success [op_success]:
  "pg_select_rows err rows s = (Inr rs, s') \<longleftrightarrow> err = None \<and> rs = rows \<and> s' = s"
  by (auto simp: pg_select_rows_def split: option.splits)

text \<open>A statement that fails leaves the tables as they are.\<close>

lemma pg_statement_error:
  "pg_insert err row checks unique dup fks put s = (Inl e, s') \<Longrightarrow> s' = s"
  "pg_update err cur missing set_cols checks fks put s = (Inl e, s') \<Longrightarrow> s' = s"
  by (auto simp: pg_insert_def pg_update_def split: option.splits sum.splits if_splits)

lemma mset_insert_nth [simp]: "mset (insert_nth i x xs) = add_mset x (mset xs)"
  by (induction i x xs rule: insert_nth.induct) auto

lemma mset_reorder [simp]: "mset (reorder is xs) = mset xs"
  by (induction "is" xs rule: reorder.induct) auto

lemma set_reorder [simp]: "set (reorder is xs) = set xs"
  by (metis mset_reorder set_mset_mset)

lemma length_reorder [simp]: "length (reorder is xs) = length xs"
  by (metis mset_reorder size_mset)

lemma distinct_map_reorder [simp]: "distinct (map f (reorder is xs)) = distinct (map f xs)"
  by (metis mset_map mset_reorder mset_eq_imp_distinct_iff)

lemma db_time_le: "db_time t \<le> t"
  by (simp add: db_time_def truncate_time_def)

lemma db_time_kept: "t - second < db_time t"
proof -
  have "t mod 1000 < 1000" by (rule pos_mod_bound) simp
  then show ?thesis by (simp add: db_time_def truncate_time_def second_def)
qed

lemma db_time_idem [simp]: "db_time (db_time t) = db_time t"
  by (simp add: db_time_def truncate_time_def minus_mod_eq_mult_div)

lemma db_time_mono: "t \<le> u \<Longrightarrow> db_time t \<le> db_time u"
  by (simp add: db_time_def truncate_time_def minus_mod_eq_mult_div zdiv_mono1)

lemma db_time_less: "t + second \<le> u \<Longrightarrow> db_time t < db_time u"
  using db_time_le [of t] db_time_kept [of u] by simp

lemma char3_fixed: "length s = 3 \<Longrightarrow> char3 s = Inr s"
  by (simp add: char3_def)

lemma length_char3: "char3 s = Inr s' \<Longrightarrow> length s' = 3"
  by (auto simp: char3_def split: if_splits)

end
