(* ===== verification/PostgresBackend.thy ===== *)
theory PostgresBackend
  imports PostgresTables PaymentProgress
begin

text \<open>
  The Postgres adapters of merchants, payers and payments
  (\<open>internal/*/adapters/postgres/repository.go\<close>) and the outbox's \<open>CreateEvent\<close>, as
  statements on the tables. Together they keep the contracts \<open>payment_backend\<close> and
  \<open>live_backend\<close>, the second for calls the server answers.
\<close>

section \<open>merchants\<close>

definition merchant_row :: "merchant \<Rightarrow> error + merchant" where
  "merchant_row m =
     (case char3 (SettlementCurrency m) of Inl e \<Rightarrow> Inl e
      | Inr c \<Rightarrow> Inr (m\<lparr>SettlementCurrency := c,
          merchant_CreatedAt := db_time (merchant_CreatedAt m),
          merchant_UpdatedAt := db_time (merchant_UpdatedAt m)\<rparr>))"

definition pg_CreateMerchant :: "pg_call \<Rightarrow> merchant \<Rightarrow> (pgdb, merchant) act" where
  "pg_CreateMerchant c m s = pg_insert (pgc_err c) (merchant_row m)
     (\<lambda>r. upper_check (SettlementCurrency r))
     (\<lambda>r. map_of (t_merchants s) (merchant_ID r) = None) ErrDuplicateMerchant (\<lambda>r. True)
     (\<lambda>r s. s\<lparr>t_merchants := AList.update (merchant_ID r) r (t_merchants s)\<rparr>) s"

definition pg_GetMerchant :: "pg_call \<Rightarrow> string \<Rightarrow> (pgdb, merchant) act" where
  "pg_GetMerchant c merchantID s =
     pg_select_row (pgc_err c) (map_of (t_merchants s) merchantID) ErrMerchantNotFound s"

definition pg_ListMerchants :: "pg_call \<Rightarrow> (pgdb, merchant list) act" where
  "pg_ListMerchants c s = pg_select_rows (pgc_err c)
     (sort_key (\<lambda>m. (merchant_CreatedAt m, merchant_ID m)) (gm_values (t_merchants s))) s"

section \<open>payers\<close>

definition payer_row :: "payer \<Rightarrow> error + payer" where
  "payer_row y =
     (case char3 (payer_Currency y) of Inl e \<Rightarrow> Inl e
      | Inr c \<Rightarrow> Inr (y\<lparr>payer_Currency := c, payer_CreatedAt := db_time (payer_CreatedAt y),
          payer_UpdatedAt := db_time (payer_UpdatedAt y)\<rparr>))"

definition payer_checks :: "payer \<Rightarrow> bool" where
  "payer_checks r \<longleftrightarrow> 0 \<le> sint (AvailableBalanceMinor r) \<and> 0 \<le> sint (HeldBalanceMinor r) \<and>
     0 \<le> sint (payer_Version r) \<and> upper_check (payer_Currency r)"

definition pg_CreatePayer :: "pg_call \<Rightarrow> payer \<Rightarrow> (pgdb, payer) act" where
  "pg_CreatePayer c y s = pg_insert (pgc_err c) (payer_row y) payer_checks
     (\<lambda>r. map_of (t_payers s) (payer_ID r) = None) ErrDuplicatePayer (\<lambda>r. True)
     (\<lambda>r s. s\<lparr>t_payers := AList.update (payer_ID r) r (t_payers s)\<rparr>) s"

definition pg_GetPayer :: "error option \<Rightarrow> string \<Rightarrow> (pgdb, payer) act" where
  "pg_GetPayer err payerID s = pg_select_row err (map_of (t_payers s) payerID) ErrPayerNotFound s"

definition pg_ListPayers :: "pg_call \<Rightarrow> (pgdb, payer list) act" where
  "pg_ListPayers c s = pg_select_rows (pgc_err c)
     (sort_key (\<lambda>y. (payer_CreatedAt y, payer_ID y)) (gm_values (t_payers s))) s"

text \<open>
  \<open>UPDATE payers SET ... WHERE id = $1 AND version = $7\<close>, then, in a second statement, the
  row read back or, when no row was updated, whether the payer exists at all.
\<close>

definition payer_set :: "payer \<Rightarrow> payer \<Rightarrow> error + payer" where
  "payer_set y r0 = payer_row (y\<lparr>payer_CreatedAt := payer_CreatedAt r0\<rparr>)"

definition payer_of_version :: "pgdb \<Rightarrow> payer \<Rightarrow> payer option" where
  "payer_of_version s y =
     (case map_of (t_payers s) (payer_ID y) of None \<Rightarrow> None
      | Some r \<Rightarrow> if payer_Version r = payer_Version y - 1 then Some r else None)"

definition payerExists :: "error option \<Rightarrow> string \<Rightarrow> (pgdb, bool) act" where
  "payerExists err payerID s =
     (case err of Some e \<Rightarrow> (Inl e, s) | None \<Rightarrow> (Inr (map_of (t_payers s) payerID \<noteq> None), s))"

definition pg_UpdatePayer :: "pg_call \<Rightarrow> payer \<Rightarrow> (pgdb, payer) act" where
  "pg_UpdatePayer c y s =
     (case payer_of_version s y of
        Some r0 \<Rightarrow>
          act_bind (pg_update (pgc_err c) (Some r0) ErrPayerNotFound (payer_set y) payer_checks (\<lambda>r. True)
            (\<lambda>r s. s\<lparr>t_payers := AList.update (payer_ID r) r (t_payers s)\<rparr>))
            (\<lambda>_. pg_GetPayer (pgc_err2 c) (payer_ID y)) s
      | None \<Rightarrow>
          (case pgc_err c of Some e \<Rightarrow> (Inl e, s)
           | None \<Rightarrow>
             act_bind (payerExists (pgc_err2 c) (payer_ID y)) (\<lambda>exists.
               if \<not> exists then act_fail ErrPayerNotFound else act_fail ErrPayerVersionConflict) s))"

section \<open>payments\<close>

definition payment_row :: "payment \<Rightarrow> error + payment" where
  "payment_row p =
     (case char3 (payment_Currency p) of Inl e \<Rightarrow> Inl e
      | Inr c \<Rightarrow> Inr (p\<lparr>payment_Currency := c, AuthorizedAt := db_time (AuthorizedAt p),
          payment_ExpiresAt := db_time (payment_ExpiresAt p),
          CapturedAt := map_option db_time (CapturedAt p),
          SettledAt := map_option db_time (SettledAt p),
          payment_CreatedAt := db_time (payment_CreatedAt p),
          payment_UpdatedAt := db_time (payment_UpdatedAt p)\<rparr>))"

definition payment_checks :: "payment \<Rightarrow> bool" where
  "payment_checks r \<longleftrightarrow> 0 < sint (payment_AmountMinor r) \<and> upper_check (payment_Currency r) \<and>
     payment_ExpiresAt r > AuthorizedAt r \<and>
     (payment_Status r = StatusCaptured \<and> CapturedAt r \<noteq> None \<or> payment_Status r \<noteq> StatusCaptured) \<and>
     (payment_Status r = StatusSettled \<and> SettledAt r \<noteq> None \<or> payment_Status r \<noteq> StatusSettled)"

definition payment_fks :: "pgdb \<Rightarrow> payment \<Rightarrow> bool" where
  "payment_fks s r \<longleftrightarrow> map_of (t_merchants s) (payment_MerchantID r) \<noteq> None \<and>
     map_of (t_payers s) (payment_PayerID r) \<noteq> None"

definition pg_CreatePayment :: "pg_call \<Rightarrow> payment \<Rightarrow> (pgdb, payment) act" where
  "pg_CreatePayment c p s = pg_insert (pgc_err c) (payment_row p) payment_checks
     (\<lambda>r. map_of (t_payments s) (payment_ID r) = None) ErrDuplicatePayment (payment_fks s)
     (\<lambda>r s. s\<lparr>t_payments := AList.update (payment_ID r) r (t_payments s)\<rparr>) s"

definition pg_GetPayment :: "pg_call \<Rightarrow> string \<Rightarrow> (pgdb, payment) act" where
  "pg_GetPayment c paymentID s =
     pg_select_row (pgc_err c) (map_of (t_payments s) paymentID) ErrPaymentNotFound s"

definition pg_ListExpiredAuthorizedPayments ::
  "pg_call \<Rightarrow> time \<Rightarrow> int \<Rightarrow> (pgdb, payment list) act" where
  "pg_ListExpiredAuthorizedPayments c now limit0 s =
     (let limit = (if limit0 \<le> 0 then 100 else limit0) in
      pg_select_rows (pgc_err c)
        (sql_limit limit (sort_key expiry_key
          (filter (\<lambda>r. expired_authorized (db_time (utc now)) r \<and> payment_ID r \<notin> set (pgc_locked c))
            (gm_values (t_payments s))))) s)"

definition payment_set :: "payment \<Rightarrow> payment \<Rightarrow> error + payment" where
  "payment_set p r0 = payment_row (p\<lparr>payment_CreatedAt := payment_CreatedAt r0\<rparr>)"

definition pg_UpdatePayment :: "pg_call \<Rightarrow> payment \<Rightarrow> (pgdb, payment) act" where
  "pg_UpdatePayment c p s = pg_update (pgc_err c) (map_of (t_payments s) (payment_ID p))
     ErrPaymentNotFound (payment_set p) payment_checks (payment_fks s)
     (\<lambda>r s. s\<lparr>t_payments := AList.update (payment_ID r) r (t_payments s)\<rparr>) s"

section \<open>payment\_holds\<close>

definition hold_row :: "hold \<Rightarrow> error + hold" where
  "hold_row h =
     (case char3 (hold_Currency h) of Inl e \<Rightarrow> Inl e
      | Inr c \<Rightarrow> Inr (h\<lparr>hold_Currency := c, hold_CreatedAt := db_time (hold_CreatedAt h),
          hold_UpdatedAt := db_time (hold_UpdatedAt h)\<rparr>))"

definition hold_checks :: "hold \<Rightarrow> bool" where
  "hold_checks r \<longleftrightarrow> 0 < sint (hold_AmountMinor r) \<and> upper_check (hold_Currency r)"

definition hold_fks :: "pgdb \<Rightarrow> hold \<Rightarrow> bool" where
  "hold_fks s r \<longleftrightarrow> map_of (t_payments s) (hold_PaymentID r) \<noteq> None \<and>
     map_of (t_payers s) (hold_PayerID r) \<noteq> None"

text \<open>\<open>payment_id\<close> is unique: no other row has it.\<close>

definition hold_payment_unique :: "pgdb \<Rightarrow> hold \<Rightarrow> bool" where
  "hold_payment_unique s r \<longleftrightarrow>
     list_all (\<lambda>g. hold_ID g = hold_ID r \<or> hold_PaymentID g \<noteq> hold_PaymentID r)
       (gm_values (t_payment_holds s))"

definition pg_CreateHold :: "pg_call \<Rightarrow> hold \<Rightarrow> (pgdb, hold) act" where
  "pg_CreateHold c h s = pg_insert (pgc_err c) (hold_row h) hold_checks
     (\<lambda>r. map_of (t_payment_holds s) (hold_ID r) = None \<and> hold_payment_unique s r)
     ErrDuplicateHold (hold_fks s)
     (\<lambda>r s. s\<lparr>t_payment_holds := AList.update (hold_ID r) r (t_payment_holds s)\<rparr>) s"

definition pg_GetHold :: "pg_call \<Rightarrow> string \<Rightarrow> (pgdb, hold) act" where
  "pg_GetHold c holdID s =
     pg_select_row (pgc_err c) (map_of (t_payment_holds s) holdID) ErrHoldNotFound s"

definition pg_GetHoldByPaymentID :: "pg_call \<Rightarrow> string \<Rightarrow> (pgdb, hold) act" where
  "pg_GetHoldByPaymentID c paymentID s =
     pg_select_row (pgc_err c)
       (find (\<lambda>r. hold_PaymentID r = paymentID) (gm_values (t_payment_holds s))) ErrHoldNotFound s"

definition hold_set :: "hold \<Rightarrow> hold \<Rightarrow> error + hold" where
  "hold_set h r0 = hold_row (h\<lparr>hold_CreatedAt := hold_CreatedAt r0\<rparr>)"

definition pg_UpdateHold :: "pg_call \<Rightarrow> hold \<Rightarrow> (pgdb, hold) act" where
  "pg_UpdateHold c h s = pg_update (pgc_err c) (map_of (t_payment_holds s) (hold_ID h))
     ErrHoldNotFound (hold_set h) (\<lambda>r. hold_checks r \<and> hold_payment_unique s r) (hold_fks s)
     (\<lambda>r s. s\<lparr>t_payment_holds := AList.update (hold_ID r) r (t_payment_holds s)\<rparr>) s"

section \<open>outbox\_events: CreateEvent\<close>

definition event_row :: "event \<Rightarrow> error + event" where
  "event_row e =
     (if sint (Attempts e) < - (2 ^ 31) \<or> 2 ^ 31 \<le> sint (Attempts e)
      then Inl (DbErr ''attempts is out of range for type integer'')
      else Inr (e\<lparr>AvailableAt := db_time (AvailableAt e), event_CreatedAt := db_time (event_CreatedAt e),
        event_UpdatedAt := db_time (event_UpdatedAt e), LockedAt := map_option db_time (LockedAt e),
        PublishedAt := map_option db_time (PublishedAt e)\<rparr>))"

definition event_checks :: "event \<Rightarrow> bool" where
  "event_checks r \<longleftrightarrow> 0 \<le> sint (Attempts r)"

definition pg_CreateEvent :: "pg_call \<Rightarrow> event \<Rightarrow> (pgdb, event) act" where
  "pg_CreateEvent c e s = pg_insert (pgc_err c) (event_row e) event_checks
     (\<lambda>r. map_of (t_outbox_events s) (event_ID r) = None) ErrDuplicateEvent (\<lambda>r. True)
     (\<lambda>r s. s\<lparr>t_outbox_events := AList.update (event_ID r) r (t_outbox_events s)\<rparr>) s"

section \<open>The repositories of the API\<close>

definition postgres_repos :: "(pg_call, pgdb) repos" where
  "postgres_repos =
     \<lparr>r_GetMerchant = pg_GetMerchant, r_GetPayer = (\<lambda>c. pg_GetPayer (pgc_err c)),
      r_UpdatePayer = pg_UpdatePayer, r_CreatePayment = pg_CreatePayment,
      r_GetPayment = pg_GetPayment,
      r_ListExpiredAuthorizedPayments = pg_ListExpiredAuthorizedPayments,
      r_UpdatePayment = pg_UpdatePayment, r_CreateHold = pg_CreateHold,
      r_GetHoldByPaymentID = pg_GetHoldByPaymentID, r_UpdateHold = pg_UpdateHold,
      r_CreateEvent = pg_CreateEvent\<rparr>"

text \<open>\<open>newPostgresRepositories\<close>: every call of the service meets its own transaction answers.\<close>

definition postgres_service :: "tx_answers \<Rightarrow> (pg_call, pgdb) service" where
  "postgres_service db = NewServiceWithTransactorOutboxAndMetrics postgres_repos pgc_err
     (Some (PostgresTransactor db)) (Some pg_CreateEvent) True"

lemmas postgres_merchant_defs = merchant_row_def pg_CreateMerchant_def pg_GetMerchant_def
  pg_ListMerchants_def
lemmas postgres_payer_defs = payer_row_def payer_checks_def pg_CreatePayer_def pg_GetPayer_def
  pg_ListPayers_def payer_set_def payer_of_version_def payerExists_def pg_UpdatePayer_def
lemmas postgres_payment_defs = payment_row_def payment_checks_def payment_fks_def
  pg_CreatePayment_def pg_GetPayment_def pg_ListExpiredAuthorizedPayments_def payment_set_def
  pg_UpdatePayment_def
lemmas postgres_hold_defs = hold_row_def hold_checks_def hold_fks_def hold_payment_unique_def
  pg_CreateHold_def pg_GetHold_def pg_GetHoldByPaymentID_def hold_set_def pg_UpdateHold_def

declare postgres_merchant_defs [go_eval] postgres_payer_defs [go_eval]
  postgres_payment_defs [go_eval] postgres_hold_defs [go_eval] event_row_def [go_eval]
  event_checks_def [go_eval] pg_CreateEvent_def [go_eval] postgres_repos_def [go_eval]
  postgres_service_def [go_eval] NewServiceWithTransactorOutboxAndMetrics_def [go_eval]

lemma postgres_service_sel [simp]:
  "svc_repos (postgres_service db) = postgres_repos"
  "svc_transactor (postgres_service db) = PostgresTransactor db"
  "svc_metrics (postgres_service db) = True"
  by (simp_all add: postgres_service_def NewServiceWithTransactorOutboxAndMetrics_def postgres_repos_def)

section \<open>The contract\<close>

definition pg_view :: "pgdb \<Rightarrow> ledger" where
  "pg_view s = \<lparr>l_merchants = t_merchants s, l_payers = t_payers s, l_payments = t_payments s,
     l_holds = t_payment_holds s, l_events = t_outbox_events s\<rparr>"

text \<open>\<open>payment_holds.payment_id\<close> is \<open>UNIQUE\<close>.\<close>

definition hold_index_unique :: "hold gomap \<Rightarrow> bool" where
  "hold_index_unique m \<longleftrightarrow> (\<forall>i j g h. map_of m i = Some g \<longrightarrow>
     map_of m j = Some h \<longrightarrow> hold_PaymentID g = hold_PaymentID h \<longrightarrow> i = j)"

lemma hold_index_uniqueD:
  "hold_index_unique m \<Longrightarrow> map_of m i = Some g \<Longrightarrow> map_of m j = Some h \<Longrightarrow>
   hold_PaymentID g = hold_PaymentID h \<Longrightarrow> i = j"
  unfolding hold_index_unique_def by blast

text \<open>What the column types guarantee of the stored rows, and the key of the holds.\<close>

definition stored_payment :: "payment \<Rightarrow> bool" where
  "stored_payment r \<longleftrightarrow> length (payment_Currency r) = 3 \<and> db_time (AuthorizedAt r) = AuthorizedAt r \<and>
     db_time (payment_ExpiresAt r) = payment_ExpiresAt r"

definition pg_inv :: "pgdb \<Rightarrow> bool" where
  "pg_inv s \<longleftrightarrow> gm_wf hold_ID (t_payment_holds s) \<and> hold_index_unique (t_payment_holds s) \<and>
     (\<forall>i r. map_of (t_payers s) i = Some r \<longrightarrow>
        length (payer_Currency r) = 3 \<and> upper_check (payer_Currency r)) \<and>
     (\<forall>i r. map_of (t_payments s) i = Some r \<longrightarrow> stored_payment r) \<and>
     (\<forall>i r. map_of (t_payment_holds s) i = Some r \<longrightarrow> length (hold_Currency r) = 3)"

lemma pg_invD:
  assumes "pg_inv s"
  shows "gm_wf hold_ID (t_payment_holds s)"
    and "map_of (t_payers s) i = Some y \<Longrightarrow> length (payer_Currency y) = 3"
    and "map_of (t_payments s) i = Some p \<Longrightarrow> stored_payment p"
    and "map_of (t_payment_holds s) i = Some h \<Longrightarrow> length (hold_Currency h) = 3"
    and "hold_index_unique (t_payment_holds s)"
    and "map_of (t_payers s) i = Some y \<Longrightarrow> upper_check (payer_Currency y)"
  using assms unfolding pg_inv_def by blast+

lemma pg_inv_empty: "pg_inv empty_pgdb"
  by (simp add: pg_inv_def empty_pgdb_def hold_index_unique_def)

lemma pg_view_sel [simp]:
  "l_merchants (pg_view s) = t_merchants s" "l_payers (pg_view s) = t_payers s"
  "l_payments (pg_view s) = t_payments s" "l_holds (pg_view s) = t_payment_holds s"
  "l_events (pg_view s) = t_outbox_events s"
  by (simp_all add: pg_view_def)

text \<open>Each write keeps \<open>pg_inv\<close>.\<close>

lemma pg_inv_payers:
  "pg_inv s \<Longrightarrow> length (payer_Currency r) = 3 \<Longrightarrow> upper_check (payer_Currency r) \<Longrightarrow>
   pg_inv (s\<lparr>t_payers := AList.update (payer_ID r) r (t_payers s)\<rparr>)"
  unfolding pg_inv_def by (simp split: if_splits)

lemma pg_inv_payments:
  "pg_inv s \<Longrightarrow> stored_payment r \<Longrightarrow>
   pg_inv (s\<lparr>t_payments := AList.update (payment_ID r) r (t_payments s)\<rparr>)"
  unfolding pg_inv_def by (simp split: if_splits)

lemma pg_inv_holds:
  assumes inv: "pg_inv s" and r: "length (hold_Currency r) = 3" "hold_payment_unique s r"
  shows "pg_inv (s\<lparr>t_payment_holds := AList.update (hold_ID r) r (t_payment_holds s)\<rparr>)"
proof -
  note D = pg_invD [OF inv]
  have other: "i = hold_ID r" if "map_of (t_payment_holds s) i = Some g"
      "hold_PaymentID g = hold_PaymentID r" for i g
    using r(2) that map_of_gm_values [OF that(1)] gm_wf_key [OF D(1) that(1)]
    unfolding hold_payment_unique_def list_all_iff by auto
  have "hold_index_unique (AList.update (hold_ID r) r (t_payment_holds s))"
    unfolding hold_index_unique_def map_of_update
  proof (intro allI impI)
    fix i j g h
    assume g: "((map_of (t_payment_holds s))(hold_ID r \<mapsto> r)) i = Some g"
      and h: "((map_of (t_payment_holds s))(hold_ID r \<mapsto> r)) j = Some h"
      and eq: "hold_PaymentID g = hold_PaymentID h"
    consider "i = hold_ID r" "j = hold_ID r" | "i = hold_ID r" "j \<noteq> hold_ID r"
      | "i \<noteq> hold_ID r" "j = hold_ID r" | "i \<noteq> hold_ID r" "j \<noteq> hold_ID r" by blast
    then show "i = j"
    proof cases
      case 2
      then have "g = r" "map_of (t_payment_holds s) j = Some h" using g h by simp_all
      then show ?thesis using other [of j h] eq 2 by simp
    next
      case 3
      then have "h = r" "map_of (t_payment_holds s) i = Some g" using g h by simp_all
      then show ?thesis using other [of i g] eq 3 by simp
    next
      case 4
      then have "map_of (t_payment_holds s) i = Some g" "map_of (t_payment_holds s) j = Some h"
        using g h by simp_all
      then show ?thesis using hold_index_uniqueD [OF D(5)] eq by blast
    qed simp
  qed
  then show ?thesis
    using inv r(1) unfolding pg_inv_def by (simp add: gm_wf_update split: if_splits)
qed

lemma pg_inv_events [simp]: "pg_inv (s\<lparr>t_outbox_events := es\<rparr>) = pg_inv s"
  by (simp add: pg_inv_def)

lemma pg_inv_merchants [simp]: "pg_inv (s\<lparr>t_merchants := ms\<rparr>) = pg_inv s"
  by (simp add: pg_inv_def)

text \<open>What a row is when the currency fits its column.\<close>

lemma payer_row_fits:
  "length (payer_Currency y) = 3 \<Longrightarrow> payer_row y = Inr (y\<lparr>
     payer_CreatedAt := db_time (payer_CreatedAt y), payer_UpdatedAt := db_time (payer_UpdatedAt y)\<rparr>)"
  by (simp add: payer_row_def char3_fixed)

lemma payer_set_fits:
  "length (payer_Currency y) = 3 \<Longrightarrow> payer_set y r0 = Inr (y\<lparr>
     payer_CreatedAt := db_time (payer_CreatedAt r0), payer_UpdatedAt := db_time (payer_UpdatedAt y)\<rparr>)"
  by (simp add: payer_set_def payer_row_fits)

lemma payment_row_fits:
  "length (payment_Currency p) = 3 \<Longrightarrow> payment_row p = Inr (p\<lparr>
     AuthorizedAt := db_time (AuthorizedAt p), payment_ExpiresAt := db_time (payment_ExpiresAt p),
     CapturedAt := map_option db_time (CapturedAt p), SettledAt := map_option db_time (SettledAt p),
     payment_CreatedAt := db_time (payment_CreatedAt p),
     payment_UpdatedAt := db_time (payment_UpdatedAt p)\<rparr>)"
  by (simp add: payment_row_def char3_fixed)

lemma payment_set_fits:
  "length (payment_Currency p) = 3 \<Longrightarrow> payment_set p r0 = Inr (p\<lparr>
     AuthorizedAt := db_time (AuthorizedAt p), payment_ExpiresAt := db_time (payment_ExpiresAt p),
     CapturedAt := map_option db_time (CapturedAt p), SettledAt := map_option db_time (SettledAt p),
     payment_CreatedAt := db_time (payment_CreatedAt r0),
     payment_UpdatedAt := db_time (payment_UpdatedAt p)\<rparr>)"
  by (simp add: payment_set_def payment_row_fits)

lemma hold_row_fits:
  "length (hold_Currency h) = 3 \<Longrightarrow> hold_row h = Inr (h\<lparr>
     hold_CreatedAt := db_time (hold_CreatedAt h), hold_UpdatedAt := db_time (hold_UpdatedAt h)\<rparr>)"
  by (simp add: hold_row_def char3_fixed)

lemma hold_set_fits:
  "length (hold_Currency h) = 3 \<Longrightarrow> hold_set h r0 = Inr (h\<lparr>
     hold_CreatedAt := db_time (hold_CreatedAt r0), hold_UpdatedAt := db_time (hold_UpdatedAt h)\<rparr>)"
  by (simp add: hold_set_def hold_row_fits)

lemma same_rows [simp]:
  "same_payer y (y\<lparr>payer_CreatedAt := a, payer_UpdatedAt := b\<rparr>)"
  "same_hold h (h\<lparr>hold_CreatedAt := a, hold_UpdatedAt := b\<rparr>)"
  "same_payment p (p\<lparr>AuthorizedAt := a, payment_ExpiresAt := b, CapturedAt := c, SettledAt := d,
     payment_CreatedAt := e, payment_UpdatedAt := f\<rparr>)"
  by (simp_all add: same_payer_def same_hold_def same_payment_def)

lemma pg_UpdatePayer_success:
  assumes "pg_UpdatePayer c y s = (Inr y', s')" "length (payer_Currency y) = 3"
  shows "\<exists>r0. map_of (t_payers s) (payer_ID y) = Some r0 \<and> payer_Version r0 = payer_Version y - 1 \<and>
    y' = y\<lparr>payer_CreatedAt := db_time (payer_CreatedAt r0), payer_UpdatedAt := db_time (payer_UpdatedAt y)\<rparr> \<and>
    s' = s\<lparr>t_payers := AList.update (payer_ID y) y' (t_payers s)\<rparr>"
  using assms
  by (auto simp: pg_UpdatePayer_def payer_of_version_def act_simps pg_update_success payer_set_fits
      pg_GetPayer_def pg_select_row_success payerExists_def split: option.splits if_splits)

text \<open>The version in the row must be the one the update was computed from.\<close>

lemma pg_UpdatePayer_live:
  assumes "pgc_err c = None" "pgc_err2 c = None" "map_of (t_payers s) (payer_ID y) = Some r0"
    "payer_Version y = payer_Version r0 + 1" "length (payer_Currency y) = 3"
    "payer_checks y"
  shows "\<exists>y' s'. pg_UpdatePayer c y s = (Inr y', s')"
  using assms
  by (simp add: pg_UpdatePayer_def payer_of_version_def act_simps pg_update_success payer_set_fits
      pg_GetPayer_def pg_select_row_success payer_checks_def)

lemma postgres_repos_sel [simp]:
  "r_GetMerchant postgres_repos = pg_GetMerchant"
  "r_GetPayer postgres_repos c = pg_GetPayer (pgc_err c)"
  "r_UpdatePayer postgres_repos = pg_UpdatePayer" "r_CreatePayment postgres_repos = pg_CreatePayment"
  "r_GetPayment postgres_repos = pg_GetPayment"
  "r_ListExpiredAuthorizedPayments postgres_repos = pg_ListExpiredAuthorizedPayments"
  "r_UpdatePayment postgres_repos = pg_UpdatePayment" "r_CreateHold postgres_repos = pg_CreateHold"
  "r_GetHoldByPaymentID postgres_repos = pg_GetHoldByPaymentID"
  "r_UpdateHold postgres_repos = pg_UpdateHold" "r_CreateEvent postgres_repos = pg_CreateEvent"
  by (simp_all add: postgres_repos_def)

lemma find_value: "find P (gm_values m) = Some v \<Longrightarrow> v \<in> set (gm_values m) \<and> P v"
  by (auto simp: find_Some_iff)

lemma payment_row_ok:
  "payment_checks (p\<lparr>AuthorizedAt := a, payment_ExpiresAt := b, CapturedAt := c, SettledAt := d,
     payment_CreatedAt := e, payment_UpdatedAt := f\<rparr>) \<Longrightarrow> payment_ok p \<Longrightarrow>
   payment_ok (p\<lparr>AuthorizedAt := a, payment_ExpiresAt := b, CapturedAt := c, SettledAt := d,
     payment_CreatedAt := e, payment_UpdatedAt := f\<rparr>)"
  by (auto simp: payment_checks_def payment_ok_def)

lemma pg_ListExpired_rows:
  assumes wf: "gm_wf payment_ID (t_payments s)"
    and run: "pg_ListExpiredAuthorizedPayments c now limit s = (Inr ps, s')"
  shows "s' = s" "expired_list_ok (t_payments s) now ps"
    "int (length ps) \<le> (if limit \<le> 0 then 100 else limit)"
proof -
  let ?n = "if limit \<le> 0 then 100 else limit"
  let ?rows = "sort_key expiry_key
    (filter (\<lambda>r. expired_authorized (db_time now) r \<and> payment_ID r \<notin> set (pgc_locked c))
      (gm_values (t_payments s)))"
  have ps: "ps = take (nat ?n) ?rows" and s': "s' = s"
    using run by (auto simp: pg_ListExpiredAuthorizedPayments_def Let_def sql_limit_def utc_def
      pg_select_rows_success)
  show "s' = s" by (rule s')
  have "?rows = ps @ drop (nat ?n) ?rows" by (simp add: ps)
  then have "expired_list_ok (t_payments s) (db_time now) ps"
    by (rule expired_list_ok_prefix [OF wf])
  then show "expired_list_ok (t_payments s) now ps"
    using db_time_le [of now] unfolding expired_list_ok_def expired_authorized_def by force
  have "length ps \<le> nat ?n" by (simp add: ps)
  then show "int (length ps) \<le> ?n" by (simp split: if_splits)
qed

interpretation pg: payment_backend postgres_repos pg_view pg_inv
proof unfold_locales
  fix c i s h s'
  assume inv: "pg_inv s" and "r_GetHoldByPaymentID postgres_repos c i s = (Inr h, s')"
  then have "s' = s" "find (\<lambda>r. hold_PaymentID r = i) (gm_values (t_payment_holds s)) = Some h"
    by (simp_all add: pg_GetHoldByPaymentID_def pg_select_row_success)
  then show "s' = s \<and> map_of (l_holds (pg_view s)) (hold_ID h) = Some h \<and> hold_PaymentID h = i"
    using find_value gm_values_lookup [OF pg_invD(1) [OF inv]] by fastforce
next
  fix c now limit s ps s'
  assume keys: "ledger_keys_ok (pg_view s)"
    and run: "r_ListExpiredAuthorizedPayments postgres_repos c now limit s = (Inr ps, s')"
  have "gm_wf payment_ID (t_payments s)" using ledger_keys_okD(3) [OF keys] by simp
  from pg_ListExpired_rows [OF this run [unfolded postgres_repos_sel]]
  show "s' = s \<and> expired_list_ok (l_payments (pg_view s)) now ps \<and>
      (0 < limit \<longrightarrow> int (length ps) \<le> limit)"
    by (simp split: if_splits)
next
  fix c y s y0 y' s'
  assume inv: "pg_inv s" and y0: "map_of (l_payers (pg_view s)) (payer_ID y) = Some y0"
    and cur: "payer_Currency y = payer_Currency y0"
    and run: "r_UpdatePayer postgres_repos c y s = (Inr y', s')"
  have fits: "length (payer_Currency y) = 3" using pg_invD(2) [OF inv] y0 cur by simp
  have run': "pg_UpdatePayer c y s = (Inr y', s')" using run by simp
  from pg_UpdatePayer_success [OF run' fits] y0
  have r: "payer_Version y0 = payer_Version y - 1"
    "y' = y\<lparr>payer_CreatedAt := db_time (payer_CreatedAt y0), payer_UpdatedAt := db_time (payer_UpdatedAt y)\<rparr>"
    "s' = s\<lparr>t_payers := AList.update (payer_ID y) y' (t_payers s)\<rparr>" by auto
  have "upper_check (payer_Currency y)" using pg_invD(6) [OF inv] y0 cur by simp
  then have "pg_inv s'" using pg_inv_payers [OF inv, of y'] fits r(2,3) by simp
  moreover have "same_payer y y'" unfolding r(2) by (rule same_rows(1))
  ultimately show "same_payer y y' \<and> payer_Version y = payer_Version y0 + 1 \<and> pg_inv s' \<and>
    pg_view s' = (pg_view s)\<lparr>l_payers := AList.update (payer_ID y) y' (l_payers (pg_view s))\<rparr>"
    using r(1) by (simp add: r(3) pg_view_def)
next
  fix c p s and y :: payer and p' s'
  assume inv: "pg_inv s" and y: "map_of (l_payers (pg_view s)) (payment_PayerID p) = Some y"
    and cur: "payment_Currency p = payer_Currency y" and ok: "payment_ok p"
    and run: "r_CreatePayment postgres_repos c p s = (Inr p', s')"
  have fits: "length (payment_Currency p) = 3" using pg_invD(2) [OF inv] y cur by simp
  have row: "payment_row p = Inr p'" and chk: "payment_checks p'"
    and new: "map_of (t_payments s) (payment_ID p') = None"
    and s': "s' = s\<lparr>t_payments := AList.update (payment_ID p') p' (t_payments s)\<rparr>"
    using run by (simp_all add: pg_CreatePayment_def pg_insert_success)
  have same: "same_payment p p'" and ok': "payment_ok p'" and st: "stored_payment p'"
    using row payment_row_ok [OF _ ok] chk fits
    by (auto simp: payment_row_fits stored_payment_def)
  show "same_payment p p' \<and> payment_ok p' \<and> map_of (l_payments (pg_view s)) (payment_ID p) = None \<and>
    pg_inv s' \<and>
    pg_view s' = (pg_view s)\<lparr>l_payments := AList.update (payment_ID p) p' (l_payments (pg_view s))\<rparr>"
    using same ok' new pg_inv_payments [OF inv st] same_paymentD(1) [OF same]
    by (simp add: s' pg_view_def)
next
  fix c p s p0 p' s'
  assume inv: "pg_inv s" and p0: "map_of (l_payments (pg_view s)) (payment_ID p) = Some p0"
    and cur: "payment_Currency p = payment_Currency p0" and ok: "payment_ok p"
    and run: "r_UpdatePayment postgres_repos c p s = (Inr p', s')"
  have fits: "length (payment_Currency p) = 3"
    using pg_invD(3) [OF inv] p0 cur by (simp add: stored_payment_def)
  have row: "payment_set p p0 = Inr p'" and chk: "payment_checks p'"
    and s': "s' = s\<lparr>t_payments := AList.update (payment_ID p') p' (t_payments s)\<rparr>"
    using run p0 by (simp_all add: pg_UpdatePayment_def pg_update_success)
  have same: "same_payment p p'" and ok': "payment_ok p'" and st: "stored_payment p'"
    using row payment_row_ok [OF _ ok] chk fits
    by (auto simp: payment_set_fits stored_payment_def)
  show "same_payment p p' \<and> payment_ok p' \<and> pg_inv s' \<and>
    pg_view s' = (pg_view s)\<lparr>l_payments := AList.update (payment_ID p) p' (l_payments (pg_view s))\<rparr>"
    using same ok' pg_inv_payments [OF inv st] same_paymentD(1) [OF same]
    by (simp add: s' pg_view_def)
next
  fix c h s and y :: payer and h' s'
  assume inv: "pg_inv s" and y: "map_of (l_payers (pg_view s)) (hold_PayerID h) = Some y"
    and cur: "hold_Currency h = payer_Currency y"
    and run: "r_CreateHold postgres_repos c h s = (Inr h', s')"
  have fits: "length (hold_Currency h) = 3" using pg_invD(2) [OF inv] y cur by simp
  have row: "hold_row h = Inr h'" and new: "map_of (t_payment_holds s) (hold_ID h') = None"
    and uniq: "hold_payment_unique s h'" and s': "s' = s\<lparr>t_payment_holds := AList.update (hold_ID h') h' (t_payment_holds s)\<rparr>"
    using run by (simp_all add: pg_CreateHold_def pg_insert_success)
  have same: "same_hold h h'" and fits': "length (hold_Currency h') = 3"
    using row fits by (auto simp: hold_row_fits)
  show "same_hold h h' \<and> map_of (l_holds (pg_view s)) (hold_ID h) = None \<and> pg_inv s' \<and>
    pg_view s' = (pg_view s)\<lparr>l_holds := AList.update (hold_ID h) h' (l_holds (pg_view s))\<rparr>"
    using same new pg_inv_holds [OF inv fits' uniq] same_holdD(1) [OF same] by (simp add: s' pg_view_def)
next
  fix c h s h0 h' s'
  assume inv: "pg_inv s" and h0: "map_of (l_holds (pg_view s)) (hold_ID h) = Some h0"
    and cur: "hold_Currency h = hold_Currency h0"
    and run: "r_UpdateHold postgres_repos c h s = (Inr h', s')"
  have fits: "length (hold_Currency h) = 3" using pg_invD(4) [OF inv] h0 cur by simp
  have row: "hold_set h h0 = Inr h'" and uniq: "hold_payment_unique s h'"
    and s': "s' = s\<lparr>t_payment_holds := AList.update (hold_ID h') h' (t_payment_holds s)\<rparr>"
    using run h0 by (simp_all add: pg_UpdateHold_def pg_update_success)
  have same: "same_hold h h'" and fits': "length (hold_Currency h') = 3"
    using row fits by (auto simp: hold_set_fits)
  show "same_hold h h' \<and> pg_inv s' \<and>
    pg_view s' = (pg_view s)\<lparr>l_holds := AList.update (hold_ID h) h' (l_holds (pg_view s))\<rparr>"
    using same pg_inv_holds [OF inv fits' uniq] same_holdD(1) [OF same] by (simp add: s' pg_view_def)
next
  fix c e s e' s'
  assume inv: "pg_inv s" and "r_CreateEvent postgres_repos c e s = (Inr e', s')"
  then have row: "event_row e = Inr e'" and new: "map_of (t_outbox_events s) (event_ID e') = None"
    and s': "s' = s\<lparr>t_outbox_events := AList.update (event_ID e') e' (t_outbox_events s)\<rparr>"
    by (simp_all add: pg_CreateEvent_def pg_insert_success)
  have same: "same_event e e'"
    using row by (auto simp: event_row_def same_event_def split: if_splits)
  show "same_event e e' \<and> map_of (l_events (pg_view s)) (event_ID e) = None \<and> pg_inv s' \<and>
    pg_view s' = (pg_view s)\<lparr>l_events := AList.update (event_ID e) e' (l_events (pg_view s))\<rparr>"
    using same new inv same_eventD [OF same] by (simp add: s' pg_view_def)
qed (simp_all add: pg_GetMerchant_def pg_GetPayer_def pg_GetPayment_def pg_select_row_success)

definition pg_alive :: "pg_call \<Rightarrow> bool" where
  "pg_alive c \<longleftrightarrow> pgc_err c = None \<and> pgc_err2 c = None \<and> pgc_locked c = []"

lemma upper_check_normalized: "NormalizeCurrency c = c \<Longrightarrow> upper_check c"
  unfolding upper_check_def NormalizeCurrency_def by (metis to_upper_idem)

lemma find_unique:
  assumes "gm_wf key m" "map_of m i = Some v" "P v"
    and "\<And>j w. map_of m j = Some w \<Longrightarrow> P w \<Longrightarrow> j = i"
  shows "find P (gm_values m) = Some v"
proof -
  have "\<exists>w. find P (gm_values m) = Some w"
    using assms(2,3) map_of_gm_values by (metis find_None_iff not_None_eq)
  then obtain w where w: "find P (gm_values m) = Some w" by blast
  have "P w" and lk: "map_of m (key w) = Some w"
    using find_value [OF w] gm_values_lookup [OF assms(1), of w] by simp_all
  then have "key w = i" using assms(4) by blast
  with lk assms(2) w show ?thesis by simp
qed

lemma hold_payment_uniqueI:
  assumes "gm_wf hold_ID (t_payment_holds s)"
    and "\<And>i g. map_of (t_payment_holds s) i = Some g \<Longrightarrow> hold_PaymentID g = hold_PaymentID r \<Longrightarrow>
      i = hold_ID r"
  shows "hold_payment_unique s r"
  using assms(2) gm_values_lookup [OF assms(1)]
  unfolding hold_payment_unique_def list_all_iff by blast

text \<open>When the server answers and no other transaction holds a lock, no call fails.\<close>

interpretation pg: live_backend postgres_repos pg_view pg_inv pg_alive
proof unfold_locales
  fix c s i h
  assume c: "pg_alive c" and inv: "pg_inv s" and h: "map_of (l_holds (pg_view s)) i = Some h"
    and only: "\<And>j g. map_of (l_holds (pg_view s)) j = Some g \<Longrightarrow> hold_PaymentID g = hold_PaymentID h \<Longrightarrow> j = i"
  have "find (\<lambda>r. hold_PaymentID r = hold_PaymentID h) (gm_values (t_payment_holds s)) = Some h"
  proof (rule find_unique [OF pg_invD(1) [OF inv]])
    show "map_of (t_payment_holds s) i = Some h" using h by simp
    show "j = i" if "map_of (t_payment_holds s) j = Some w" "hold_PaymentID w = hold_PaymentID h" for j w
      using only [of j w] that by simp
  qed simp
  then show "r_GetHoldByPaymentID postgres_repos c (hold_PaymentID h) s = (Inr h, s)"
    using c by (simp add: pg_GetHoldByPaymentID_def pg_select_row_success pg_alive_def)
next
  fix c limit s now
  assume c: "pg_alive c" and inv: "pg_inv s" and limit: "(0 :: int) < limit"
  let ?all = "sort_key expiry_key (filter (\<lambda>r. expired_authorized (db_time now) r \<and>
    payment_ID r \<notin> set (pgc_locked c)) (gm_values (t_payments s)))"
  have "r_ListExpiredAuthorizedPayments postgres_repos c now limit s = (Inr (take (nat limit) ?all), s)"
    using c limit by (simp add: pg_ListExpiredAuthorizedPayments_def sql_limit_def utc_def
      pg_select_rows_success pg_alive_def)
  moreover have "p \<in> set (take (nat limit) ?all) \<or> int (length (take (nat limit) ?all)) = limit"
    if p: "map_of (l_payments (pg_view s)) i = Some p" "expired_authorized now p" for i p
  proof (cases "length ?all \<le> nat limit")
    case True
    have "payment_ExpiresAt p \<le> now" "db_time (payment_ExpiresAt p) = payment_ExpiresAt p"
      using p pg_invD(3) [OF inv] by (auto simp: expired_authorized_def stored_payment_def)
    then have "payment_ExpiresAt p \<le> db_time now" using db_time_mono by metis
    then have "expired_authorized (db_time now) p" using p(2) by (simp add: expired_authorized_def)
    moreover have "p \<in> set (gm_values (t_payments s))" using p(1) map_of_gm_values by simp
    ultimately have "p \<in> set ?all" using c by (simp add: pg_alive_def)
    with True show ?thesis by simp
  qed (use limit in simp)
  ultimately show "\<exists>ps. r_ListExpiredAuthorizedPayments postgres_repos c now limit s = (Inr ps, s) \<and>
    (\<forall>i p. map_of (l_payments (pg_view s)) i = Some p \<longrightarrow> expired_authorized now p \<longrightarrow>
      p \<in> set ps \<or> int (length ps) = limit)" by blast
next
  fix c s y y0
  assume c: "pg_alive c" and inv: "pg_inv s" and y0: "map_of (l_payers (pg_view s)) (payer_ID y) = Some y0"
    "payer_Version y = payer_Version y0 + 1" and cur: "payer_Currency y = payer_Currency y0"
    and ok: "payer_ok y" "0 \<le> sint (payer_Version y)"
  have fits: "length (payer_Currency y) = 3" using pg_invD(2) [OF inv] y0 cur by simp
  have "upper_check (payer_Currency y)" using pg_invD(6) [OF inv] y0(1) cur by simp
  then have "payer_checks y" using ok by (simp add: payer_checks_def payer_ok_def)
  then show "\<exists>y' s'. r_UpdatePayer postgres_repos c y s = (Inr y', s')"
    using pg_UpdatePayer_live [OF _ _ _ y0(2) fits, of c s] c y0(1) by (simp add: pg_alive_def)
next
  fix c s and p :: payment and y :: payer
  assume c: "pg_alive c" and inv: "pg_inv s" and new: "map_of (l_payments (pg_view s)) (payment_ID p) = None"
    and ok: "payment_ok p" and m: "map_of (l_merchants (pg_view s)) (payment_MerchantID p) \<noteq> None"
    and y: "map_of (l_payers (pg_view s)) (payment_PayerID p) = Some y"
    and cur: "payment_Currency p = payer_Currency y"
    and times: "AuthorizedAt p + second \<le> payment_ExpiresAt p"
  have fits: "length (payment_Currency p) = 3" using pg_invD(2) [OF inv] y cur by simp
  show "\<exists>p' s'. r_CreatePayment postgres_repos c p s = (Inr p', s') \<and>
       kept_time (AuthorizedAt p) (AuthorizedAt p') \<and> kept_time (payment_ExpiresAt p) (payment_ExpiresAt p')"
    using c new ok m y db_time_less [OF times] upper_check_normalized [of "payment_Currency p"]
      db_time_le [of "AuthorizedAt p"] db_time_le [of "payment_ExpiresAt p"]
      db_time_kept [of "AuthorizedAt p"] db_time_kept [of "payment_ExpiresAt p"]
    by (auto simp: pg_CreatePayment_def pg_insert_success payment_row_fits fits pg_alive_def
        payment_checks_def payment_fks_def payment_ok_def kept_time_def)
next
  fix c s and p p0 :: payment
  assume c: "pg_alive c" and inv: "pg_inv s" and p0: "map_of (l_payments (pg_view s)) (payment_ID p) = Some p0"
    and ok: "payment_ok p" and m: "map_of (l_merchants (pg_view s)) (payment_MerchantID p) \<noteq> None"
    and y: "map_of (l_payers (pg_view s)) (payment_PayerID p) \<noteq> None"
    and same: "payment_Currency p = payment_Currency p0" "AuthorizedAt p = AuthorizedAt p0"
      "payment_ExpiresAt p = payment_ExpiresAt p0"
  have st: "stored_payment p0" using pg_invD(3) [OF inv] p0 by simp
  then have fits: "length (payment_Currency p) = 3" using same by (simp add: stored_payment_def)
  show "\<exists>p' s'. r_UpdatePayment postgres_repos c p s = (Inr p', s') \<and>
      payment_ExpiresAt p' = payment_ExpiresAt p"
    using c p0 ok m y st same upper_check_normalized [of "payment_Currency p"]
    by (auto simp: pg_UpdatePayment_def pg_update_success payment_set_fits fits pg_alive_def
        payment_checks_def payment_fks_def payment_ok_def stored_payment_def)
next
  fix c s and h :: hold and y :: payer
  assume c: "pg_alive c" and inv: "pg_inv s" and new: "map_of (l_holds (pg_view s)) (hold_ID h) = None"
    and other: "\<And>i g. map_of (l_holds (pg_view s)) i = Some g \<Longrightarrow> hold_PaymentID g \<noteq> hold_PaymentID h"
    and fk: "map_of (l_payments (pg_view s)) (hold_PaymentID h) \<noteq> None"
    and y: "map_of (l_payers (pg_view s)) (hold_PayerID h) = Some y"
    and cur: "hold_Currency h = payer_Currency y"
    and norm: "NormalizeCurrency (hold_Currency h) = hold_Currency h"
    and amount: "0 < sint (hold_AmountMinor h)"
  have fits: "length (hold_Currency h) = 3" using pg_invD(2) [OF inv] y cur by simp
  obtain r where r: "hold_row h = Inr r" and same: "same_hold h r"
    using hold_row_fits [OF fits] same_rows(2) by metis
  have "hold_payment_unique s r"
    by (rule hold_payment_uniqueI [OF pg_invD(1) [OF inv]]) (use other same_holdD [OF same] in auto)
  then show "\<exists>h' s'. r_CreateHold postgres_repos c h s = (Inr h', s')"
    using c new fk y amount r upper_check_normalized [OF norm] same_holdD [OF same]
    by (simp add: pg_CreateHold_def pg_insert_success pg_alive_def hold_checks_def hold_fks_def)
next
  fix c s and h h0 :: hold
  assume c: "pg_alive c" and inv: "pg_inv s" and h0: "map_of (l_holds (pg_view s)) (hold_ID h) = Some h0"
    and same: "hold_PaymentID h = hold_PaymentID h0" "hold_Currency h = hold_Currency h0"
    and fk: "map_of (l_payments (pg_view s)) (hold_PaymentID h) \<noteq> None"
      "map_of (l_payers (pg_view s)) (hold_PayerID h) \<noteq> None"
    and norm: "NormalizeCurrency (hold_Currency h) = hold_Currency h"
    and amount: "0 < sint (hold_AmountMinor h)"
  have fits: "length (hold_Currency h) = 3" using pg_invD(4) [OF inv] h0 same by simp
  obtain r where r: "hold_set h h0 = Inr r" and rs: "same_hold h r"
    using hold_set_fits [OF fits] same_rows(2) by metis
  have "hold_payment_unique s r"
    by (rule hold_payment_uniqueI [OF pg_invD(1) [OF inv]])
      (use hold_index_uniqueD [OF pg_invD(5) [OF inv]] h0 same_holdD [OF rs] same in auto)
  then show "\<exists>h' s'. r_UpdateHold postgres_repos c h s = (Inr h', s')"
    using c h0 fk amount r upper_check_normalized [OF norm] same_holdD [OF rs]
    by (simp add: pg_UpdateHold_def pg_update_success pg_alive_def hold_checks_def hold_fks_def)
qed (simp_all add: pg_GetMerchant_def pg_GetPayer_def pg_GetPayment_def pg_select_row_success
      pg_CreateEvent_def pg_insert_success event_row_def event_checks_def pg_alive_def)

end
