(* ===== verification/SettlementStore.thy ===== *)
theory SettlementStore
  imports PostgresBackend
begin

text \<open>
  \<open>internal/settlement/adapters/postgres/repository.go\<close>: batches, line items, and the claim
  of captured payments for a batch.
\<close>

section \<open>settlement\_batches\<close>

definition batch_row :: "batch \<Rightarrow> batch" where
  "batch_row b = b\<lparr>WindowStart := db_time (WindowStart b), WindowEnd := db_time (WindowEnd b),
     LockedUntil := map_option db_time (LockedUntil b),
     CompletedAt := map_option db_time (CompletedAt b),
     batch_CreatedAt := db_time (batch_CreatedAt b), batch_UpdatedAt := db_time (batch_UpdatedAt b)\<rparr>"

definition batch_checks :: "batch \<Rightarrow> bool" where
  "batch_checks r \<longleftrightarrow> WindowEnd r > WindowStart r \<and>
     (batch_Status r = BatchStatusProcessing \<and> ClaimedBy r \<noteq> None \<and> LockedUntil r \<noteq> None \<or>
      batch_Status r \<noteq> BatchStatusProcessing) \<and>
     (batch_Status r = BatchStatusCompleted \<and> CompletedAt r \<noteq> None \<or>
      batch_Status r \<noteq> BatchStatusCompleted)"

definition pg_CreateBatch :: "pg_call \<Rightarrow> batch \<Rightarrow> (pgdb, batch) act" where
  "pg_CreateBatch c b s = pg_insert (pgc_err c) (Inr (batch_row b)) batch_checks
     (\<lambda>r. map_of (t_settlement_batches s) (batch_ID r) = None) ErrDuplicateBatch (\<lambda>r. True)
     (\<lambda>r s. s\<lparr>t_settlement_batches := AList.update (batch_ID r) r (t_settlement_batches s)\<rparr>) s"

definition pg_GetBatch :: "pg_call \<Rightarrow> string \<Rightarrow> (pgdb, batch) act" where
  "pg_GetBatch c batchID s =
     pg_select_row (pgc_err c) (map_of (t_settlement_batches s) batchID) ErrBatchNotFound s"

definition pg_UpdateBatch :: "pg_call \<Rightarrow> batch \<Rightarrow> (pgdb, batch) act" where
  "pg_UpdateBatch c b s = pg_update (pgc_err c) (map_of (t_settlement_batches s) (batch_ID b))
     ErrBatchNotFound (\<lambda>r0. Inr (batch_row (b\<lparr>batch_CreatedAt := batch_CreatedAt r0\<rparr>)))
     batch_checks (\<lambda>r. True)
     (\<lambda>r s. s\<lparr>t_settlement_batches := AList.update (batch_ID r) r (t_settlement_batches s)\<rparr>) s"

definition stale_row :: "time \<Rightarrow> batch \<Rightarrow> bool" where
  "stale_row now r \<longleftrightarrow> batch_Status r = BatchStatusProcessing \<and>
     (case LockedUntil r of None \<Rightarrow> False | Some t \<Rightarrow> t \<le> now)"

definition pg_ListStaleProcessingBatches :: "pg_call \<Rightarrow> time \<Rightarrow> int \<Rightarrow> (pgdb, batch list) act" where
  "pg_ListStaleProcessingBatches c now limit s =
     (if limit \<le> 0 then (Inr [], s)
      else pg_select_rows (pgc_err c)
        (sql_limit limit (sort_key (\<lambda>r. (the (LockedUntil r), batch_CreatedAt r, batch_ID r))
          (filter (\<lambda>r. stale_row (db_time (utc now)) r \<and> batch_ID r \<notin> set (pgc_locked c))
            (gm_values (t_settlement_batches s))))) s)"

section \<open>Claims of captured payments\<close>

definition captured_key :: "payment \<Rightarrow> time \<times> string" where
  "captured_key r = (the (CapturedAt r), payment_ID r)"

definition claim_row :: "string \<Rightarrow> time \<Rightarrow> payment \<Rightarrow> pgdb \<Rightarrow> pgdb" where
  "claim_row batchID now r s =
     s\<lparr>t_payments := AList.update (payment_ID r) (r\<lparr>payment_UpdatedAt := now\<rparr>) (t_payments s),
       t_settlement_batch_id := AList.update (payment_ID r) batchID (t_settlement_batch_id s)\<rparr>"

definition claimable_rows :: "pg_call \<Rightarrow> claim_payments_input \<Rightarrow> pgdb \<Rightarrow> payment list" where
  "claimable_rows c input s =
     sql_limit (cpi_Limit input) (sort_key captured_key
       (filter (\<lambda>r. captured_within (db_time (utc (cpi_WindowStart input)))
                      (db_time (utc (cpi_WindowEnd input))) r \<and>
                    map_of (t_settlement_batch_id s) (payment_ID r) = None \<and>
                    payment_ID r \<notin> set (pgc_locked c))
         (gm_values (t_payments s))))"

text \<open>
  \<open>in_tx\<close> is whether the context carries a transaction. The claimed rows come back in the order
  the server updated them.
\<close>

definition pg_ClaimCapturedPayments ::
  "bool \<Rightarrow> pg_call \<Rightarrow> claim_payments_input \<Rightarrow> (pgdb, claimed_payment list) act" where
  "pg_ClaimCapturedPayments in_tx c input s =
     (if cpi_Limit input \<le> 0 then (Inr [], s)
      else if \<not> in_tx then (Inl (ErrMsg ''claim captured payments requires an active transaction''), s)
      else case pgc_err c of Some e \<Rightarrow> (Inl e, s)
      | None \<Rightarrow>
        let rows = claimable_rows c input s in
        if rows \<noteq> [] \<and> map_of (t_settlement_batches s) (cpi_BatchID input) = None
          then (Inl foreign_key_violation, s)
        else (Inr (reorder (pgc_order c) (map (claimed_of (cpi_BatchID input)) rows)),
              fold (claim_row (cpi_BatchID input) (db_time (utc (cpi_Now input)))) rows s))"

definition pg_ListClaimedPayments :: "pg_call \<Rightarrow> string \<Rightarrow> (pgdb, claimed_payment list) act" where
  "pg_ListClaimedPayments c batchID s =
     pg_select_rows (pgc_err c) (map (claimed_of batchID) (sort_key captured_key
       (filter (\<lambda>r. map_of (t_settlement_batch_id s) (payment_ID r) = Some batchID \<and>
                    payment_Status r = StatusCaptured)
         (gm_values (t_payments s))))) s"

section \<open>settlement\_line\_items\<close>

definition line_item_row :: "line_item \<Rightarrow> error + line_item" where
  "line_item_row it =
     (case char3 (item_Currency it) of Inl e \<Rightarrow> Inl e
      | Inr c \<Rightarrow> Inr (it\<lparr>item_Currency := c, PaymentCaptured := db_time (PaymentCaptured it),
          item_CreatedAt := db_time (item_CreatedAt it)\<rparr>))"

definition line_item_checks :: "line_item \<Rightarrow> bool" where
  "line_item_checks r \<longleftrightarrow> 0 < sint (item_AmountMinor r) \<and> 0 \<le> sint (FeeAmountMinor r) \<and>
     sint (NetAmountMinor r) = sint (item_AmountMinor r) - sint (FeeAmountMinor r) \<and>
     0 \<le> sint (NetAmountMinor r) \<and> upper_check (item_Currency r)"

definition line_item_fks :: "pgdb \<Rightarrow> line_item \<Rightarrow> bool" where
  "line_item_fks s r \<longleftrightarrow> map_of (t_settlement_batches s) (item_BatchID r) \<noteq> None \<and>
     map_of (t_merchants s) (item_MerchantID r) \<noteq> None \<and>
     map_of (t_payments s) (item_PaymentID r) \<noteq> None"

definition pg_CreateLineItem :: "pg_call \<Rightarrow> line_item \<Rightarrow> (pgdb, line_item) act" where
  "pg_CreateLineItem c it s = pg_insert (pgc_err c) (line_item_row it) line_item_checks
     (\<lambda>r. map_of (t_settlement_line_items s) (item_ID r) = None \<and>
       list_all (\<lambda>g. item_PaymentID g \<noteq> item_PaymentID r) (gm_values (t_settlement_line_items s)))
     ErrDuplicateLineItem (line_item_fks s)
     (\<lambda>r s. s\<lparr>t_settlement_line_items := AList.update (item_ID r) r (t_settlement_line_items s)\<rparr>) s"

definition pg_ListLineItems :: "pg_call \<Rightarrow> string \<Rightarrow> (pgdb, line_item list) act" where
  "pg_ListLineItems c batchID s =
     pg_select_rows (pgc_err c) (sort_key (\<lambda>r. (item_CreatedAt r, item_ID r))
       (filter (\<lambda>r. item_BatchID r = batchID) (gm_values (t_settlement_line_items s)))) s"

lemmas settlement_store_defs = batch_row_def batch_checks_def pg_CreateBatch_def pg_GetBatch_def
  pg_UpdateBatch_def stale_row_def pg_ListStaleProcessingBatches_def captured_key_def claim_row_def claimable_rows_def pg_ClaimCapturedPayments_def
  pg_ListClaimedPayments_def line_item_row_def line_item_checks_def line_item_fks_def
  pg_CreateLineItem_def pg_ListLineItems_def

declare settlement_store_defs [go_eval]

end
