(* ===== verification/SettlementPostgres.thy ===== *)
theory SettlementPostgres
  imports SettlementBackend SettlementStore
begin

text \<open>
  The settlement adapter keeps the contract \<open>settlement_backend\<close>, over the payment and outbox
  adapters of \<open>PostgresBackend\<close>.
\<close>

section \<open>The settlement worker's service\<close>

definition postgres_settlement_repos :: "bool \<Rightarrow> (pg_call, pgdb) settlement_repos" where
  "postgres_settlement_repos in_tx =
     \<lparr>sr_CreateBatch = pg_CreateBatch, sr_UpdateBatch = pg_UpdateBatch,
      sr_ListStaleProcessingBatches = pg_ListStaleProcessingBatches,
      sr_ClaimCapturedPayments = pg_ClaimCapturedPayments in_tx,
      sr_ListClaimedPayments = pg_ListClaimedPayments, sr_CreateLineItem = pg_CreateLineItem\<rparr>"

text \<open>
  \<open>settlement.NewService\<close> as \<open>cmd/paycore-settlement-worker\<close> calls it: the Postgres
  transactor puts a transaction into the context of every repository call.
\<close>

definition postgres_settlement_service ::
  "tx_answers \<Rightarrow> bool \<Rightarrow> string \<Rightarrow> int \<Rightarrow> duration \<Rightarrow> error + (pg_call, pgdb) settlement_service" where
  "postgres_settlement_service db metrics workerID claimLimit lockTTL =
     NewSettlementService pgc_err
       \<lparr>sc_Repository = Some (postgres_settlement_repos True), sc_Payments = Some postgres_repos,
        sc_Outbox = Some pg_CreateEvent, sc_Transactor = Some (PostgresTransactor db),
        sc_Metrics = metrics, sc_WorkerID = workerID, sc_ClaimLimit = claimLimit,
        sc_LockTTL = lockTTL\<rparr>"

declare postgres_settlement_repos_def [go_eval] postgres_settlement_service_def [go_eval]

lemma postgres_settlement_service_Inr:
  assumes "postgres_settlement_service db metrics w limit ttl = Inr svc"
  shows "ss_repository svc = postgres_settlement_repos True" "ss_repos svc = postgres_repos"
    "ss_transactor svc = PostgresTransactor db" "0 < ss_claimLimit svc" "0 < ss_lockTTL svc"
    "ss_workerID svc \<noteq> ''''"
proof -
  have svc: "svc = \<lparr>ss_repository = postgres_settlement_repos True,
    ss_repos = postgres_repos\<lparr>r_CreateEvent := pg_CreateEvent\<rparr>, ss_transactor = PostgresTransactor db,
    ss_metrics = metrics, ss_workerID = (if w = '''' then ''settlement-worker'' else w),
    ss_claimLimit = (if limit \<le> 0 then defaultClaimLimit else limit),
    ss_lockTTL = (if ttl \<le> 0 then defaultLockTTL else ttl)\<rparr>"
    using assms by (simp add: postgres_settlement_service_def NewSettlementService_def cong: if_cong)
  show "ss_repository svc = postgres_settlement_repos True" "ss_repos svc = postgres_repos"
    "ss_transactor svc = PostgresTransactor db" "0 < ss_claimLimit svc" "0 < ss_lockTTL svc"
    "ss_workerID svc \<noteq> ''''"
    by (simp_all add: svc postgres_repos_def defaultClaimLimit_def defaultLockTTL_def minute_def
        second_def)
qed

section \<open>The contract\<close>

definition pg_slots :: "pgdb \<Rightarrow> slots" where
  "pg_slots s = \<lparr>sl_batches = t_settlement_batches s, sl_items = t_settlement_line_items s,
     sl_claims = t_settlement_batch_id s\<rparr>"

lemma pg_slots_sel [simp]:
  "sl_batches (pg_slots s) = t_settlement_batches s"
  "sl_items (pg_slots s) = t_settlement_line_items s"
  "sl_claims (pg_slots s) = t_settlement_batch_id s"
  by (simp_all add: pg_slots_def)

lemma insert_nth_map: "insert_nth i (f x) (map f xs) = map f (insert_nth i x xs)"
  by (induction i x xs rule: insert_nth.induct) auto

lemma reorder_Nil [simp]: "reorder is [] = []"
  by (cases "is") simp_all

lemma reorder_map: "reorder is (map f xs) = map f (reorder is xs)"
  by (induction "is" xs rule: reorder.induct) (auto simp: insert_nth_map)

lemma fold_claim_row:
  "pg_view (fold (claim_row bid u) rows s) = fold (touch u) rows (pg_view s)"
  "pg_slots (fold (claim_row bid u) rows s) = fold (claim_slot bid) rows (pg_slots s)"
proof -
  have one: "pg_view (claim_row bid u p s) = touch u p (pg_view s)"
    "pg_slots (claim_row bid u p s) = claim_slot bid p (pg_slots s)" for p s
    by (simp_all add: pg_view_def touch_def ledger_put_payment_def pg_slots_def claim_slot_def
        claim_row_def)
  show "pg_view (fold (claim_row bid u) rows s) = fold (touch u) rows (pg_view s)"
    "pg_slots (fold (claim_row bid u) rows s) = fold (claim_slot bid) rows (pg_slots s)"
    by (induction rows arbitrary: s) (simp_all add: one)
qed

lemma claim_row_inv: "pg_inv s \<Longrightarrow> stored_payment p \<Longrightarrow> pg_inv (claim_row bid u p s)"
  unfolding pg_inv_def claim_row_def by (simp add: stored_payment_def split: if_splits)

lemma fold_claim_row_inv:
  "pg_inv s \<Longrightarrow> \<forall>p \<in> set rows. stored_payment p \<Longrightarrow> pg_inv (fold (claim_row bid u) rows s)"
  by (induction rows arbitrary: s) (simp_all add: claim_row_inv)

lemma claimable_rows_facts:
  assumes wf: "gm_wf payment_ID (t_payments s)"
  shows "distinct (map payment_ID (claimable_rows c input s))"
    and "int (length (claimable_rows c input s)) \<le> max 0 (cpi_Limit input)"
    and "p \<in> set (claimable_rows c input s) \<Longrightarrow>
      claimable_in (pg_view s) (pg_slots s) (db_time (cpi_WindowStart input))
        (db_time (cpi_WindowEnd input)) p"
proof -
  define P where "P = (\<lambda>r. captured_within (db_time (utc (cpi_WindowStart input)))
                      (db_time (utc (cpi_WindowEnd input))) r \<and>
                    map_of (t_settlement_batch_id s) (payment_ID r) = None \<and>
                    payment_ID r \<notin> set (pgc_locked c))"
  have rows: "claimable_rows c input s =
      take (nat (cpi_Limit input)) (sort_key captured_key (filter P (gm_values (t_payments s))))"
    by (simp add: claimable_rows_def sql_limit_def P_def)
  have "distinct (map payment_ID (filter P (gm_values (t_payments s))))"
    using distinct_gm_values [OF wf] by (rule distinct_map_filter)
  then have "distinct (map payment_ID (sort_key captured_key (filter P (gm_values (t_payments s)))))"
    by (metis mset_map mset_sort mset_eq_imp_distinct_iff)
  then show "distinct (map payment_ID (claimable_rows c input s))"
    unfolding rows by (metis distinct_take take_map)
  show "int (length (claimable_rows c input s)) \<le> max 0 (cpi_Limit input)"
    unfolding rows by simp
  assume "p \<in> set (claimable_rows c input s)"
  then have "p \<in> set (gm_values (t_payments s))" "P p"
    unfolding rows by (auto dest: in_set_takeD)
  then show "claimable_in (pg_view s) (pg_slots s) (db_time (cpi_WindowStart input))
        (db_time (cpi_WindowEnd input)) p"
    using gm_values_lookup [OF wf, of p] by (simp add: claimable_in_def P_def utc_def)
qed

interpretation pg: settlement_backend postgres_repos pg_view pg_inv
  "postgres_settlement_repos True" pg_slots db_time
proof unfold_locales
  fix t show "db_time (db_time t) = db_time t" by simp
next
  fix c p s p' s'
  assume "r_UpdatePayment postgres_repos c p s = (Inr p', s')"
  then obtain p0 where "payment_set p p0 = Inr p'"
    and s': "s' = s\<lparr>t_payments := AList.update (payment_ID p') p' (t_payments s)\<rparr>"
    by (auto simp: pg_UpdatePayment_def pg_update_success)
  then show "CapturedAt p' = map_option db_time (CapturedAt p)"
    by (auto simp: payment_set_def payment_row_def split: sum.splits)
  show "pg_slots s' = pg_slots s" by (simp add: s' pg_slots_def)
next
  fix c e s e' s'
  assume "r_CreateEvent postgres_repos c e s = (Inr e', s')"
  then show "pg_slots s' = pg_slots s"
    by (simp add: pg_CreateEvent_def pg_insert_success pg_slots_def)
next
  fix c b s b' s'
  assume inv: "pg_inv s" and "sr_CreateBatch (postgres_settlement_repos True) c b s = (Inr b', s')"
  then have b': "b' = batch_row b" "map_of (t_settlement_batches s) (batch_ID b') = None"
    and s': "s' = s\<lparr>t_settlement_batches := AList.update (batch_ID b') b' (t_settlement_batches s)\<rparr>"
    by (auto simp: postgres_settlement_repos_def pg_CreateBatch_def pg_insert_success)
  show "same_batch b b' \<and> WindowStart b' = db_time (WindowStart b) \<and> WindowEnd b' = db_time (WindowEnd b) \<and>
    map_of (sl_batches (pg_slots s)) (batch_ID b) = None \<and> pg_inv s' \<and> pg_view s' = pg_view s \<and>
    pg_slots s' = (pg_slots s)\<lparr>sl_batches := AList.update (batch_ID b) b' (sl_batches (pg_slots s))\<rparr>"
    using inv b' by (simp add: s' pg_view_def pg_slots_def pg_inv_def same_batch_def batch_row_def)
next
  fix c b s b' s'
  assume inv: "pg_inv s" and "sr_UpdateBatch (postgres_settlement_repos True) c b s = (Inr b', s')"
  then obtain r0 where b': "b' = batch_row (b\<lparr>batch_CreatedAt := batch_CreatedAt r0\<rparr>)"
      "map_of (t_settlement_batches s) (batch_ID b) = Some r0"
    and s': "s' = s\<lparr>t_settlement_batches := AList.update (batch_ID b') b' (t_settlement_batches s)\<rparr>"
    by (auto simp: postgres_settlement_repos_def pg_UpdateBatch_def pg_update_success)
  show "same_batch b b' \<and> WindowStart b' = db_time (WindowStart b) \<and> WindowEnd b' = db_time (WindowEnd b) \<and>
    map_of (sl_batches (pg_slots s)) (batch_ID b) \<noteq> None \<and> pg_inv s' \<and> pg_view s' = pg_view s \<and>
    pg_slots s' = (pg_slots s)\<lparr>sl_batches := AList.update (batch_ID b) b' (sl_batches (pg_slots s))\<rparr>"
    using inv b' by (simp add: s' pg_view_def pg_slots_def pg_inv_def same_batch_def batch_row_def)
next
  fix c now limit s bs s'
  assume "sr_ListStaleProcessingBatches (postgres_settlement_repos True) c now limit s = (Inr bs, s')"
  then show "s' = s \<and> (\<forall>b \<in> set bs. b \<in> set (gm_values (sl_batches (pg_slots s))) \<and>
      batch_Status b = BatchStatusProcessing)"
    by (auto simp: postgres_settlement_repos_def pg_ListStaleProcessingBatches_def
        pg_select_rows_success sql_limit_def stale_row_def dest!: in_set_takeD split: if_splits)
next
  fix c input s cs s'
  assume inv: "pg_inv s" and keys: "ledger_keys_ok (pg_view s)"
    and run: "sr_ClaimCapturedPayments (postgres_settlement_repos True) c input s = (Inr cs, s')"
  let ?bid = "cpi_BatchID input" and ?u = "db_time (cpi_Now input)"
  let ?rows = "if cpi_Limit input \<le> 0 then [] else claimable_rows c input s"
  have res: "cs = map (claimed_of ?bid) (reorder (pgc_order c) ?rows)"
    "s' = fold (claim_row ?bid ?u) ?rows s"
    using run by (auto simp: postgres_settlement_repos_def pg_ClaimCapturedPayments_def Let_def utc_def
      reorder_map split: if_splits option.splits)
  have wf: "gm_wf payment_ID (t_payments s)" using ledger_keys_okD(3) [OF keys] by simp
  note facts = claimable_rows_facts [OF wf, where c = c and input = input]
  have stored: "\<forall>p \<in> set ?rows. stored_payment p"
    using facts(3) pg_invD(3) [OF inv] by (auto simp: claimable_in_def)
  show "\<exists>ps rows u. cs = map (claimed_of ?bid) ps \<and> mset rows = mset ps \<and>
       distinct (map payment_ID ps) \<and> int (length ps) \<le> max 0 (cpi_Limit input) \<and>
       (\<forall>p \<in> set ps. claimable_in (pg_view s) (pg_slots s) (db_time (cpi_WindowStart input))
          (db_time (cpi_WindowEnd input)) p) \<and>
       pg_inv s' \<and> pg_view s' = fold (touch u) rows (pg_view s) \<and>
       pg_slots s' = fold (claim_slot ?bid) rows (pg_slots s)"
  proof (intro exI conjI)
    show "cs = map (claimed_of ?bid) (reorder (pgc_order c) ?rows)" by (rule res(1))
    show "mset ?rows = mset (reorder (pgc_order c) ?rows)" by simp
    show "distinct (map payment_ID (reorder (pgc_order c) ?rows))" using facts(1) by simp
    show "int (length (reorder (pgc_order c) ?rows)) \<le> max 0 (cpi_Limit input)"
      using facts(2) by (cases "cpi_Limit input \<le> 0") (simp_all add: max_def)
    show "\<forall>p \<in> set (reorder (pgc_order c) ?rows). claimable_in (pg_view s) (pg_slots s)
        (db_time (cpi_WindowStart input)) (db_time (cpi_WindowEnd input)) p"
      using facts(3) by simp
    show "pg_inv s'" unfolding res(2) by (rule fold_claim_row_inv [OF inv stored])
    show "pg_view s' = fold (touch ?u) ?rows (pg_view s)"
      "pg_slots s' = fold (claim_slot ?bid) ?rows (pg_slots s)"
      unfolding res(2) by (rule fold_claim_row)+
  qed
next
  fix c it s p it' s'
  assume inv: "pg_inv s" and p: "map_of (l_payments (pg_view s)) (item_PaymentID it) = Some p"
    and cur: "item_Currency it = payment_Currency p"
    and run: "sr_CreateLineItem (postgres_settlement_repos True) c it s = (Inr it', s')"
  have fits: "length (item_Currency it) = 3"
    using pg_invD(3) [OF inv] p cur by (simp add: stored_payment_def)
  have row: "line_item_row it = Inr it'" and new: "map_of (t_settlement_line_items s) (item_ID it') = None"
    "list_all (\<lambda>g. item_PaymentID g \<noteq> item_PaymentID it') (gm_values (t_settlement_line_items s))"
    and s': "s' = s\<lparr>t_settlement_line_items := AList.update (item_ID it') it' (t_settlement_line_items s)\<rparr>"
    using run by (auto simp: postgres_settlement_repos_def pg_CreateLineItem_def pg_insert_success)
  have same: "same_item it it'"
    using row fits by (auto simp: line_item_row_def char3_fixed same_item_def)
  show "same_item it it' \<and> map_of (sl_items (pg_slots s)) (item_ID it) = None \<and>
     (\<forall>g \<in> set (gm_values (sl_items (pg_slots s))). item_PaymentID g \<noteq> item_PaymentID it) \<and>
     pg_inv s' \<and> pg_view s' = pg_view s \<and>
     pg_slots s' = (pg_slots s)\<lparr>sl_items := AList.update (item_ID it) it' (sl_items (pg_slots s))\<rparr>"
    using inv new same_itemD(1,4) [OF same] same
    by (simp add: s' pg_view_def pg_slots_def pg_inv_def list_all_iff)
qed

end
