(* ===== verification/SettlementInvariant.thy ===== *)
theory SettlementInvariant
  imports SettlementBackend
begin

text \<open>
  The invariant of settlement over committed states: every batch is completed, and line items,
  settled payments and claims are three views of one set of payments.
\<close>

definition item_recorded :: "ledger \<Rightarrow> slots \<Rightarrow> line_item \<Rightarrow> bool" where
  "item_recorded L S it \<longleftrightarrow>
     map_of (sl_claims S) (item_PaymentID it) = Some (item_BatchID it) \<and>
     map_of (sl_batches S) (item_BatchID it) \<noteq> None \<and>
     (\<exists>p. map_of (l_payments L) (item_PaymentID it) = Some p \<and>
        payment_Status p = StatusSettled \<and> item_for (item_BatchID it) p it)"

definition settlement_ok :: "ledger \<Rightarrow> slots \<Rightarrow> bool" where
  "settlement_ok L S \<longleftrightarrow> gm_wf batch_ID (sl_batches S) \<and> gm_wf item_ID (sl_items S) \<and>
     (\<forall>i b. map_of (sl_batches S) i = Some b \<longrightarrow> batch_Status b = BatchStatusCompleted) \<and>
     (\<forall>i it. map_of (sl_items S) i = Some it \<longrightarrow> item_recorded L S it) \<and>
     (\<forall>i j a b. map_of (sl_items S) i = Some a \<longrightarrow> map_of (sl_items S) j = Some b \<longrightarrow>
        item_PaymentID a = item_PaymentID b \<longrightarrow> i = j) \<and>
     (\<forall>pid p. map_of (l_payments L) pid = Some p \<longrightarrow> payment_Status p = StatusSettled \<longrightarrow>
        (\<exists>i it. map_of (sl_items S) i = Some it \<and> item_PaymentID it = pid)) \<and>
     (\<forall>pid bid. map_of (sl_claims S) pid = Some bid \<longrightarrow>
        (\<exists>p. map_of (l_payments L) pid = Some p \<and> payment_Status p = StatusSettled))"

lemma settlement_okD:
  assumes "settlement_ok L S"
  shows "gm_wf batch_ID (sl_batches S)" "gm_wf item_ID (sl_items S)"
    and "map_of (sl_batches S) i = Some b \<Longrightarrow> batch_Status b = BatchStatusCompleted"
    and "map_of (sl_items S) i = Some it \<Longrightarrow> item_recorded L S it"
    and "map_of (sl_items S) i = Some it \<Longrightarrow> map_of (sl_items S) j = Some it' \<Longrightarrow>
      item_PaymentID it = item_PaymentID it' \<Longrightarrow> i = j"
    and "map_of (l_payments L) pid = Some p \<Longrightarrow> payment_Status p = StatusSettled \<Longrightarrow>
      \<exists>i it. map_of (sl_items S) i = Some it \<and> item_PaymentID it = pid"
    and "map_of (sl_claims S) pid = Some bid \<Longrightarrow>
      \<exists>p. map_of (l_payments L) pid = Some p \<and> payment_Status p = StatusSettled"
  using assms unfolding settlement_ok_def by blast+

lemma settlement_okI:
  assumes "gm_wf batch_ID (sl_batches S)" "gm_wf item_ID (sl_items S)"
    and "\<And>i b. map_of (sl_batches S) i = Some b \<Longrightarrow> batch_Status b = BatchStatusCompleted"
    and "\<And>i it. map_of (sl_items S) i = Some it \<Longrightarrow> item_recorded L S it"
    and "\<And>i j a b. map_of (sl_items S) i = Some a \<Longrightarrow> map_of (sl_items S) j = Some b \<Longrightarrow>
      item_PaymentID a = item_PaymentID b \<Longrightarrow> i = j"
    and "\<And>pid p. map_of (l_payments L) pid = Some p \<Longrightarrow> payment_Status p = StatusSettled \<Longrightarrow>
      \<exists>i it. map_of (sl_items S) i = Some it \<and> item_PaymentID it = pid"
    and "\<And>pid bid. map_of (sl_claims S) pid = Some bid \<Longrightarrow>
      \<exists>p. map_of (l_payments L) pid = Some p \<and> payment_Status p = StatusSettled"
  shows "settlement_ok L S"
  using assms unfolding settlement_ok_def by blast

text \<open>A step that neither settles a payment nor changes a settled one keeps the invariant.\<close>

definition settled_same :: "ledger \<Rightarrow> ledger \<Rightarrow> bool" where
  "settled_same L L' \<longleftrightarrow> (\<forall>pid p. payment_Status p = StatusSettled \<longrightarrow>
     (map_of (l_payments L') pid = Some p) = (map_of (l_payments L) pid = Some p))"

lemma settlement_ok_frame:
  assumes ok: "settlement_ok L S" and same: "settled_same L L'"
  shows "settlement_ok L' S"
proof -
  note D = settlement_okD [OF ok]
  have eq: "(\<exists>p. map_of (l_payments L') pid = Some p \<and> payment_Status p = StatusSettled \<and> Q p) =
    (\<exists>p. map_of (l_payments L) pid = Some p \<and> payment_Status p = StatusSettled \<and> Q p)" for pid Q
    using same unfolding settled_same_def by blast
  have rec: "item_recorded L' S it = item_recorded L S it" for it
    unfolding item_recorded_def using eq by simp
  show ?thesis
  proof (rule settlement_okI)
    show "item_recorded L' S it" if "map_of (sl_items S) i = Some it" for i it
      using D(4) [OF that] rec by simp
    show "\<exists>i it. map_of (sl_items S) i = Some it \<and> item_PaymentID it = pid"
      if "map_of (l_payments L') pid = Some p" "payment_Status p = StatusSettled" for pid p
      using that D(6) [of pid p] same unfolding settled_same_def by blast
    show "\<exists>p. map_of (l_payments L') pid = Some p \<and> payment_Status p = StatusSettled"
      if "map_of (sl_claims S) pid = Some bid" for pid bid
      using D(7) [OF that] eq [of pid "\<lambda>_. True"] by simp
  qed (use D in blast)+
qed

lemma settled_same_update:
  assumes "\<And>p0. map_of (l_payments L) pid = Some p0 \<Longrightarrow> payment_Status p0 \<noteq> StatusSettled"
    and "payment_Status p \<noteq> StatusSettled"
    and "map_of (l_payments L') = (map_of (l_payments L))(pid \<mapsto> p)"
  shows "settled_same L L'"
  using assms unfolding settled_same_def by auto

text \<open>A batch that settles claimable payments keeps it.\<close>

lemma settled_items:
  assumes S: "settled_from L S bid ps its L' S'" and wf: "gm_wf item_ID (sl_items S)"
  shows "gm_wf item_ID (sl_items S')"
    and "map_of (sl_items S') i = Some it \<Longrightarrow>
      map_of (sl_items S) i = Some it \<or> it \<in> set its \<and> i = item_ID it"
    and "map_of (sl_items S) i = Some it \<Longrightarrow> map_of (sl_items S') i = Some it"
    and "it \<in> set its \<Longrightarrow> map_of (sl_items S') (item_ID it) = Some it"
proof -
  have items: "sl_items S' = sl_items S @ map (\<lambda>it. (item_ID it, it)) its"
    and d: "distinct (map item_ID its)"
    and new: "\<forall>it \<in> set its. map_of (sl_items S) (item_ID it) = None"
    using S unfolding settled_from_def by simp_all
  have dist: "distinct (map fst (sl_items S'))"
    using gm_wf_distinct [OF wf] d new by (force simp: items o_def map_of_eq_None_iff)
  moreover have "\<forall>(k, v) \<in> set (sl_items S'). item_ID v = k"
    using wf by (auto simp: items gm_wf_def)
  ultimately show wf': "gm_wf item_ID (sl_items S')" by (simp add: gm_wf_def)
  show "map_of (sl_items S) i = Some it \<or> it \<in> set its \<and> i = item_ID it"
    if "map_of (sl_items S') i = Some it"
    using map_of_SomeD [OF that] gm_wf_distinct [OF wf] by (auto simp: items)
  show "map_of (sl_items S') i = Some it" if "map_of (sl_items S) i = Some it"
    using map_of_SomeD [OF that] dist by (simp add: items)
  show "map_of (sl_items S') (item_ID it) = Some it" if "it \<in> set its"
  proof -
    have "(item_ID it, it) \<in> set (sl_items S')" using that by (simp add: items)
    then show ?thesis using dist by simp
  qed
qed

lemma items_of_distinct:
  assumes "list_all2 (item_for bid) ps its" "distinct (map payment_ID ps)"
    and "x \<in> set its" "y \<in> set its" "item_PaymentID x = item_PaymentID y"
  shows "x = y"
proof -
  obtain m n where m: "m < length its" "x = its ! m" and n: "n < length its" "y = its ! n"
    using assms(3,4) by (metis in_set_conv_nth)
  have "length ps = length its" using assms(1) by (rule list_all2_lengthD)
  moreover have "payment_ID (ps ! m) = payment_ID (ps ! n)"
    using assms(1,5) m n by (auto simp: list_all2_conv_all_nth item_for_def)
  ultimately have "m = n"
    using assms(2) m(1) n(1) by (metis length_map nth_eq_iff_index_eq nth_map)
  then show ?thesis using m n by simp
qed

lemma settlement_ok_batch:
  assumes ok: "settlement_ok L S" and B: "batch_settled L S b ps its L' S'"
    and new: "map_of (sl_batches S) (batch_ID b) = None" and compl: "batch_Status b = BatchStatusCompleted"
    and claim: "\<forall>p \<in> set ps. claimable_in L S ws we p" and ids: "distinct (map payment_ID ps)"
  shows "settlement_ok L' S'"
proof -
  note D = settlement_okD [OF ok]
  let ?S = "S\<lparr>sl_batches := sl_batches S', sl_claims := sl_claims S'\<rparr>"
  have F: "settled_from L ?S (batch_ID b) ps its L' S'"
    and batches: "map_of (sl_batches S') = (map_of (sl_batches S))(batch_ID b \<mapsto> b)"
      "gm_wf batch_ID (sl_batches S')"
    and claims: "map_of (sl_claims S') = (\<lambda>pid. if pid \<in> payment_ID ` set ps then Some (batch_ID b)
       else map_of (sl_claims S) pid)"
    using B D(1) unfolding batch_settled_def by simp_all
  note I = settled_items [OF F, simplified, OF D(2)]
  have all2: "list_all2 (item_for (batch_ID b)) ps its"
    and other: "\<And>pid. pid \<notin> payment_ID ` set ps \<Longrightarrow> map_of (l_payments L') pid = map_of (l_payments L) pid"
    and now: "\<And>p. p \<in> set ps \<Longrightarrow> \<exists>r. map_of (l_payments L') (payment_ID p) = Some r \<and>
        same_payment (p\<lparr>payment_Status := StatusSettled\<rparr>) r"
    and fresh: "\<And>p g. p \<in> set ps \<Longrightarrow> g \<in> set (gm_values (sl_items S)) \<Longrightarrow>
        item_PaymentID g \<noteq> payment_ID p"
    using F unfolding settled_from_def by simp_all
  have item_of: "\<exists>p \<in> set ps. item_for (batch_ID b) p it" if "it \<in> set its" for it
    using that all2 by (metis in_set_conv_nth list_all2_conv_all_nth)
  have of_item: "\<exists>it \<in> set its. item_for (batch_ID b) p it" if "p \<in> set ps" for p
    using that all2 by (metis in_set_conv_nth list_all2_conv_all_nth)
  have settled: "\<exists>r. map_of (l_payments L') (payment_ID p) = Some r \<and> payment_Status r = StatusSettled \<and>
      payment_ID r = payment_ID p \<and> payment_MerchantID r = payment_MerchantID p \<and>
      payment_AmountMinor r = payment_AmountMinor p" if "p \<in> set ps" for p
    using now [OF that] same_paymentD by fastforce
  have old: "item_PaymentID it \<notin> payment_ID ` set ps" if "map_of (sl_items S) i = Some it" for i it
    using fresh map_of_gm_values [OF that] by fastforce
  show ?thesis
  proof (rule settlement_okI)
    show "batch_Status c = BatchStatusCompleted" if "map_of (sl_batches S') i = Some c" for i c
      using that D(3) [of i c] compl by (auto simp: batches split: if_splits)
    show "item_recorded L' S' it" if it: "map_of (sl_items S') i = Some it" for i it
    proof (cases "map_of (sl_items S) i = Some it")
      case True
      then show ?thesis
        using D(4) [OF True] other [OF old [OF True]] old [OF True] unfolding item_recorded_def
        by (simp add: claims batches)
    next
      case False
      then have "it \<in> set its" using I(2) [OF it] by blast
      then obtain p where p: "p \<in> set ps" "item_for (batch_ID b) p it" using item_of by blast
      obtain r where r: "map_of (l_payments L') (payment_ID p) = Some r" "payment_Status r = StatusSettled"
        "payment_ID r = payment_ID p" "payment_MerchantID r = payment_MerchantID p"
        "payment_AmountMinor r = payment_AmountMinor p"
        using settled [OF p(1)] by blast
      moreover have "item_for (batch_ID b) r it" using p(2) r(3-5) by (simp add: item_for_def)
      ultimately have "map_of (l_payments L') (item_PaymentID it) = Some r"
        "payment_Status r = StatusSettled" "item_for (item_BatchID it) r it"
        using p(2) by (simp_all add: item_for_def)
      then show ?thesis
        using p unfolding item_recorded_def by (simp add: claims batches item_for_def)
    qed
    show "i = j" if a: "map_of (sl_items S') i = Some x" and c: "map_of (sl_items S') j = Some y"
      and eq: "item_PaymentID x = item_PaymentID y" for i j x y
    proof (cases "map_of (sl_items S) i = Some x"; cases "map_of (sl_items S) j = Some y")
      assume "map_of (sl_items S) i = Some x" "map_of (sl_items S) j = Some y"
      then show ?thesis using D(5) eq by blast
    next
      assume x: "map_of (sl_items S) i = Some x" and "map_of (sl_items S) j \<noteq> Some y"
      then have "y \<in> set its" using I(2) [OF c] by blast
      then show ?thesis using item_of [of y] old [OF x] eq by (auto simp: item_for_def)
    next
      assume y: "map_of (sl_items S) j = Some y" and "map_of (sl_items S) i \<noteq> Some x"
      then have "x \<in> set its" using I(2) [OF a] by blast
      then show ?thesis using item_of [of x] old [OF y] eq by (auto simp: item_for_def)
    next
      assume "map_of (sl_items S) i \<noteq> Some x" "map_of (sl_items S) j \<noteq> Some y"
      then have xy: "x \<in> set its" "i = item_ID x" "y \<in> set its" "j = item_ID y"
        using I(2) [OF a] I(2) [OF c] by blast+
      have "x = y" using items_of_distinct [OF all2 ids xy(1,3) eq] .
      then show ?thesis using xy by simp
    qed
    show "\<exists>i it. map_of (sl_items S') i = Some it \<and> item_PaymentID it = pid"
      if p: "map_of (l_payments L') pid = Some p" "payment_Status p = StatusSettled" for pid p
    proof (cases "pid \<in> payment_ID ` set ps")
      case True
      then obtain it where "it \<in> set its" "item_PaymentID it = pid"
        using of_item by (auto simp: item_for_def)
      then show ?thesis using I(4) by blast
    next
      case False
      then obtain i it where "map_of (sl_items S) i = Some it" "item_PaymentID it = pid"
        using D(6) [of pid p] p other by auto
      then show ?thesis using I(3) by blast
    qed
    show "\<exists>p. map_of (l_payments L') pid = Some p \<and> payment_Status p = StatusSettled"
      if c: "map_of (sl_claims S') pid = Some bid" for pid bid
    proof (cases "pid \<in> payment_ID ` set ps")
      case True
      then show ?thesis using settled by auto
    next
      case False
      then show ?thesis using c D(7) [of pid bid] other [OF False] by (simp add: claims)
    qed
  qed (use I(1) batches(2) in blast)+
qed

end
