(* ===== verification/LedgerTurns.thy ===== *)
theory LedgerTurns
  imports SettlementInvariant
begin

text \<open>
  What a reader of the ledger may rely on later: a payer whose version has not changed is as it was, and
  so are its authorized payments and their holds. One lemma for each kind of write.
\<close>

section \<open>Payers and their turns\<close>

text \<open>The version of a payer counts the writes its payments have cost.\<close>

definition versions_count :: "ledger \<Rightarrow> bool" where
  "versions_count L \<longleftrightarrow> (\<forall>i y. map_of (l_payers L) i = Some y \<longrightarrow> payer_Version y = of_int (turns L i))"

definition ended :: "ledger \<Rightarrow> string \<Rightarrow> bool" where
  "ended L pid \<longleftrightarrow> (\<exists>p. map_of (l_payments L) pid = Some p \<and> payment_Status p \<noteq> StatusAuthorized)"

text \<open>A payment and its hold are as they were.\<close>

definition deal_kept :: "ledger \<Rightarrow> ledger \<Rightarrow> payment \<Rightarrow> bool" where
  "deal_kept L L' p \<longleftrightarrow> map_of (l_payments L') (payment_ID p) = Some p \<and>
     (\<forall>hid h. map_of (l_holds L) hid = Some h \<longrightarrow> hold_PaymentID h = payment_ID p \<longrightarrow>
        map_of (l_holds L') hid = Some h)"

text \<open>
  Merchants stay; a payer whose turns are the same is the same; an authorized payment and its hold stay
  as they are or end, and its end is a turn of its payer.
\<close>

definition ledger_kept :: "ledger \<Rightarrow> ledger \<Rightarrow> bool" where
  "ledger_kept L L' \<longleftrightarrow> (\<forall>i m. map_of (l_merchants L) i = Some m \<longrightarrow> map_of (l_merchants L') i = Some m) \<and>
     (\<forall>i. turns L i \<le> turns L' i) \<and>
     (\<forall>i y. map_of (l_payers L) i = Some y \<longrightarrow>
        (\<exists>y'. map_of (l_payers L') i = Some y' \<and> (turns L' i = turns L i \<longrightarrow> y' = y))) \<and>
     (\<forall>p. map_of (l_payments L) (payment_ID p) = Some p \<longrightarrow> payment_Status p = StatusAuthorized \<longrightarrow>
        deal_kept L L' p \<or> turns L (payment_PayerID p) < turns L' (payment_PayerID p) \<and> ended L' (payment_ID p)) \<and>
     (\<forall>pid. ended L pid \<longrightarrow> ended L' pid)"

lemma ledger_keptI:
  assumes "\<And>i m. map_of (l_merchants L) i = Some m \<Longrightarrow> map_of (l_merchants L') i = Some m"
    and "\<And>i. turns L i \<le> turns L' i"
    and "\<And>i y. map_of (l_payers L) i = Some y \<Longrightarrow>
      \<exists>y'. map_of (l_payers L') i = Some y' \<and> (turns L' i = turns L i \<longrightarrow> y' = y)"
    and "\<And>p. map_of (l_payments L) (payment_ID p) = Some p \<Longrightarrow> payment_Status p = StatusAuthorized \<Longrightarrow>
      deal_kept L L' p \<or> turns L (payment_PayerID p) < turns L' (payment_PayerID p) \<and> ended L' (payment_ID p)"
    and "\<And>pid. ended L pid \<Longrightarrow> ended L' pid"
  shows "ledger_kept L L'"
  using assms unfolding ledger_kept_def by blast

lemma ledger_keptD:
  assumes "ledger_kept L L'"
  shows "map_of (l_merchants L) i = Some m \<Longrightarrow> map_of (l_merchants L') i = Some m"
    and "turns L i \<le> turns L' i"
    and "map_of (l_payers L) i = Some y \<Longrightarrow>
      \<exists>y'. map_of (l_payers L') i = Some y' \<and> (turns L' i = turns L i \<longrightarrow> y' = y)"
    and "map_of (l_payments L) (payment_ID p) = Some p \<Longrightarrow> payment_Status p = StatusAuthorized \<Longrightarrow>
      deal_kept L L' p \<or> turns L (payment_PayerID p) < turns L' (payment_PayerID p) \<and> ended L' (payment_ID p)"
    and "ended L pid \<Longrightarrow> ended L' pid"
  using assms unfolding ledger_kept_def by blast+

lemma ledger_kept_refl: "ledger_kept L L"
  by (rule ledger_keptI) (auto simp: deal_kept_def)

lemma ledger_kept_trans:
  assumes a: "ledger_kept L1 L2" and b: "ledger_kept L2 L3"
  shows "ledger_kept L1 L3"
proof (rule ledger_keptI)
  note A = ledger_keptD [OF a] and B = ledger_keptD [OF b]
  show "turns L1 i \<le> turns L3 i" for i using A(2) B(2) order_trans by blast
  show "\<exists>y'. map_of (l_payers L3) i = Some y' \<and> (turns L3 i = turns L1 i \<longrightarrow> y' = y)"
    if y: "map_of (l_payers L1) i = Some y" for i y
  proof -
    obtain y2 where y2: "map_of (l_payers L2) i = Some y2" "turns L2 i = turns L1 i \<longrightarrow> y2 = y"
      using A(3) [OF y] by blast
    obtain y3 where "map_of (l_payers L3) i = Some y3" "turns L3 i = turns L2 i \<longrightarrow> y3 = y2"
      using B(3) [OF y2(1)] by blast
    then show ?thesis using y2(2) A(2) [of i] B(2) [of i] by auto
  qed
  show "deal_kept L1 L3 p \<or> turns L1 (payment_PayerID p) < turns L3 (payment_PayerID p) \<and> ended L3 (payment_ID p)"
    if p: "map_of (l_payments L1) (payment_ID p) = Some p" "payment_Status p = StatusAuthorized" for p
    using A(4) [OF p]
  proof (elim disjE conjE)
    assume kept: "deal_kept L1 L2 p"
    then have "map_of (l_payments L2) (payment_ID p) = Some p" by (simp add: deal_kept_def)
    from B(4) [OF this p(2)] show ?thesis using kept A(2) [of "payment_PayerID p"] unfolding deal_kept_def by auto
  qed (use B(2) [of "payment_PayerID p"] B(5) in auto)
qed (use ledger_keptD(1,5) [OF a] ledger_keptD(1,5) [OF b] in blast)+

section \<open>The writes\<close>

lemma kept_authorize:
  assumes ok: "ledger_ok L" and w: "authorize_writes L y0 y p h"
  shows "ledger_kept L (ledger_write y p h e L)" "versions_count L \<Longrightarrow> versions_count (ledger_write y p h e L)"
proof -
  note D = authorize_writesD [OF ok w] and T = authorize_writes_turns [OF ok w]
  have new: "map_of (l_payments L) (payment_ID p) = None" "map_of (l_holds L) (hold_ID h) = None"
    using w by (simp_all add: authorize_writes_def)
  show "ledger_kept L (ledger_write y p h e L)"
  proof (rule ledger_keptI)
    show "deal_kept L (ledger_write y p h e L) q \<or> X" if "map_of (l_payments L) (payment_ID q) = Some q" for q X
      using that new by (auto simp: deal_kept_def)
    show "ended (ledger_write y p h e L) pid" if "ended L pid" for pid
      using that new by (auto simp: ended_def)
    show "\<exists>z'. map_of (l_payers (ledger_write y p h e L)) i = Some z' \<and>
        (turns (ledger_write y p h e L) i = turns L i \<longrightarrow> z' = z)" if "map_of (l_payers L) i = Some z" for i z
      using that D(2) T(1) by auto
  qed (simp_all add: T(1))
  show "versions_count (ledger_write y p h e L)" if "versions_count L"
    using that D(1,2) T unfolding versions_count_def by (auto simp: add.commute)
qed

lemma kept_finish:
  assumes ok: "ledger_ok L" and w: "finish_writes L y0 y p0 p h0 h"
  shows "ledger_kept L (ledger_write y p h e L)" "versions_count L \<Longrightarrow> versions_count (ledger_write y p h e L)"
proof -
  note D = finish_writesD [OF ok w] and T = finish_writes_turns [OF ok w]
  have stored: "map_of (l_payments L) (payment_ID p) = Some p0"
    "map_of (l_holds L) (hold_ID h) = Some h0" "hold_PaymentID h0 = payment_ID p"
    using w D(5,6) by (simp_all add: finish_writes_def)
  show "ledger_kept L (ledger_write y p h e L)"
  proof (rule ledger_keptI)
    fix q assume q: "map_of (l_payments L) (payment_ID q) = Some q" "payment_Status q = StatusAuthorized"
    show "deal_kept L (ledger_write y p h e L) q \<or> turns L (payment_PayerID q) <
        turns (ledger_write y p h e L) (payment_PayerID q) \<and> ended (ledger_write y p h e L) (payment_ID q)"
    proof (cases "payment_ID q = payment_ID p")
      case True
      then have "q = p0" using q(1) stored(1) by simp
      then show ?thesis using T D(4,5,21) by (auto simp: ended_def)
    next
      case False
      then have "hid \<noteq> hold_ID h" if "map_of (l_holds L) hid = Some g" "hold_PaymentID g = payment_ID q" for hid g
        using that stored(2,3) by auto
      then show ?thesis using q(1) False by (auto simp: deal_kept_def)
    qed
  next
    show "ended (ledger_write y p h e L) pid" if "ended L pid" for pid
      using that stored(1) D(15,21) by (auto simp: ended_def)
    show "\<exists>z'. map_of (l_payers (ledger_write y p h e L)) i = Some z' \<and>
        (turns (ledger_write y p h e L) i = turns L i \<longrightarrow> z' = z)" if "map_of (l_payers L) i = Some z" for i z
      using that D(1) T by auto
  qed (simp_all add: T)
  show "versions_count (ledger_write y p h e L)" if "versions_count L"
    using that D(1,3,23) T unfolding versions_count_def by (auto simp: add.commute)
qed

lemma kept_expired:
  assumes ps: "expired_list_ok (l_payments L) now ps" and E: "expired_from L ps L'"
  shows "ledger_kept L L'" "versions_count L \<Longrightarrow> versions_count L'"
proof -
  note E' = E [unfolded expired_from_def]
  have old: "map_of (l_payments L) (payment_ID p) = Some p" "payment_Status p = StatusAuthorized"
    if "p \<in> set ps" for p
    using ps that unfolding expired_list_ok_def expired_authorized_def by blast+
  show "ledger_kept L L'"
  proof (rule ledger_keptI)
    fix q assume q: "map_of (l_payments L) (payment_ID q) = Some q" "payment_Status q = StatusAuthorized"
    show "deal_kept L L' q \<or> turns L (payment_PayerID q) < turns L' (payment_PayerID q) \<and> ended L' (payment_ID q)"
    proof (cases "payment_ID q \<in> set (map payment_ID ps)")
      case True
      then have "q \<in> set ps" using old(1) q(1) by auto
      then have "q \<in> set (payments_of (payment_PayerID q) ps)" by (simp add: payments_of_def)
      then have "payments_of (payment_PayerID q) ps \<noteq> []" by auto
      then show ?thesis using E' \<open>q \<in> set ps\<close> by (fastforce simp: ended_def)
    next
      case False
      then show ?thesis using E' q(1) by (auto simp: deal_kept_def)
    qed
  next
    show "ended L' pid" if "ended L pid" for pid
    proof -
      have "pid \<notin> set (map payment_ID ps)" using that old by (auto simp: ended_def)
      then show ?thesis using E' that by (auto simp: ended_def)
    qed
    show "\<exists>y'. map_of (l_payers L') i = Some y' \<and> (turns L' i = turns L i \<longrightarrow> y' = y)"
      if "map_of (l_payers L) i = Some y" for i y
      using that E' unfolding released_to_def by fastforce
  qed (use E' in auto)
  show "versions_count L'" if count: "versions_count L"
    unfolding versions_count_def
  proof (intro allI impI)
    fix i y' assume y': "map_of (l_payers L') i = Some y'"
    have "map_of (l_payers L) i \<noteq> None" using E' y' by (metis option.distinct(1))
    then obtain y where y: "map_of (l_payers L) i = Some y" by blast
    then have "released_to i ps y y'" using E' y' by (metis option.inject)
    then show "payer_Version y' = of_int (turns L' i)"
      using E' count y unfolding versions_count_def released_to_def by simp
  qed
qed

text \<open>A change that costs no payer a turn, leaves payers and holds, and ends no authorization.\<close>

lemma kept_frame:
  assumes "\<And>i m. map_of (l_merchants L) i = Some m \<Longrightarrow> map_of (l_merchants L') i = Some m"
    and "l_payers L' = l_payers L" "l_holds L' = l_holds L" "\<And>i. turns L' i = turns L i"
    and "\<And>pid p. map_of (l_payments L) pid = Some p \<Longrightarrow> payment_Status p = StatusAuthorized \<Longrightarrow>
      map_of (l_payments L') pid = Some p"
    and "\<And>pid. ended L pid \<Longrightarrow> ended L' pid"
  shows "ledger_kept L L'" "versions_count L \<Longrightarrow> versions_count L'"
  using assms unfolding versions_count_def by (auto intro!: ledger_keptI simp: deal_kept_def)

text \<open>Sums over two maps that agree under \<open>f\<close> key by key.\<close>

lemma msum_dom:
  assumes "distinct (map fst m)"
  shows "msum f m = (\<Sum>k \<in> dom (map_of m). f (the (map_of m k)))"
proof -
  have inj: "inj_on fst (set m)" and d: "distinct m"
    using assms by (simp_all add: distinct_map)
  have "msum f m = (\<Sum>x \<in> set m. f (snd x))"
    using d unfolding msum_def gm_values_def by (simp add: sum_list_distinct_conv_sum_set o_def)
  also have "\<dots> = (\<Sum>x \<in> set m. f (the (map_of m (fst x))))"
    using assms by (intro sum.cong) auto
  also have "\<dots> = (\<Sum>k \<in> fst ` set m. f (the (map_of m k)))"
    by (rule sum.reindex [OF inj, unfolded o_def, symmetric])
  finally show ?thesis by (simp add: dom_map_of_conv_image_fst)
qed

lemma msum_eq:
  assumes "distinct (map fst m)" "distinct (map fst m')"
    and same: "\<And>k. map_option f (map_of m' k) = map_option f (map_of m k)"
  shows "msum f m' = msum f m"
proof -
  have dom: "dom (map_of m') = dom (map_of m)"
  proof (rule set_eqI)
    fix k show "k \<in> dom (map_of m') \<longleftrightarrow> k \<in> dom (map_of m)"
      using same [of k] by (cases "map_of m' k"; cases "map_of m k") auto
  qed
  show ?thesis
    unfolding msum_dom [OF assms(1)] msum_dom [OF assms(2)] dom
  proof (rule sum.cong)
    fix k assume "k \<in> dom (map_of m)"
    then obtain v v' where "map_of m k = Some v" "map_of m' k = Some v'" using dom by blast
    then show "f (the (map_of m' k)) = f (the (map_of m k))" using same [of k] by simp
  qed simp
qed

lemma kept_settled:
  assumes ok: "ledger_ok L" and E: "settled_from L S bid ps its L' S'"
    and old: "\<And>p. p \<in> set ps \<Longrightarrow> map_of (l_payments L) (payment_ID p) = Some p"
      "\<And>p. p \<in> set ps \<Longrightarrow> payment_Status p = StatusCaptured"
  shows "ledger_kept L L'" "versions_count L \<Longrightarrow> versions_count L'"
proof -
  note E' = E [unfolded settled_from_def]
  have wf: "distinct (map fst (l_payments L))" "distinct (map fst (l_payments L'))"
    using ok E' ledger_keys_okD(3) [OF ledger_okD(1)] gm_wf_distinct by blast+
  have new: "\<exists>p r. map_of (l_payments L) pid = Some p \<and> map_of (l_payments L') pid = Some r \<and>
      payment_Status p = StatusCaptured \<and> payment_Status r = StatusSettled \<and> payment_PayerID r = payment_PayerID p"
    if pid: "pid \<in> payment_ID ` set ps" for pid
  proof -
    obtain p where p: "p \<in> set ps" "pid = payment_ID p" using pid by blast
    obtain r where r: "map_of (l_payments L') pid = Some r" "same_payment (p\<lparr>payment_Status := StatusSettled\<rparr>) r"
      using E' p by blast
    then show ?thesis using old [OF p(1)] same_paymentD [OF r(2)] p(2) by auto
  qed
  have others: "map_of (l_payments L') pid = map_of (l_payments L) pid" if "pid \<notin> payment_ID ` set ps" for pid
    using E' that by blast
  have "turns L' i = turns L i" for i
    unfolding turns_def
  proof (rule msum_eq [OF wf])
    fix k show "map_option (turns_of i) (map_of (l_payments L') k) = map_option (turns_of i) (map_of (l_payments L) k)"
      using new [of k] others [of k] by (cases "k \<in> payment_ID ` set ps") (auto simp: turns_of_def)
  qed
  moreover have "map_of (l_payments L') pid = Some p"
    if "map_of (l_payments L) pid = Some p" "payment_Status p = StatusAuthorized" for pid p
    using that new [of pid] others [of pid] by (cases "pid \<in> payment_ID ` set ps") auto
  moreover have "ended L' pid" if "ended L pid" for pid
    using that new [of pid] others [of pid] by (cases "pid \<in> payment_ID ` set ps") (auto simp: ended_def)
  moreover have "l_merchants L' = l_merchants L" "l_payers L' = l_payers L" "l_holds L' = l_holds L"
    using E' by simp_all
  ultimately show "ledger_kept L L'" "versions_count L \<Longrightarrow> versions_count L'"
    by (simp_all add: kept_frame)
qed

lemma kept_merchant:
  assumes "map_of (l_merchants L) (merchant_ID m) = None"
  shows "ledger_kept L (ledger_add_merchant m L)" "versions_count L \<Longrightarrow> versions_count (ledger_add_merchant m L)"
  by (rule kept_frame; use assms in \<open>auto simp: ledger_add_merchant_def turns_def ended_def\<close>)+

lemma kept_events:
  "ledger_kept L (L\<lparr>l_events := es\<rparr>)" "versions_count L \<Longrightarrow> versions_count (L\<lparr>l_events := es\<rparr>)"
  by (rule kept_frame; simp add: turns_def ended_def)+

text \<open>A new payer has no payments and so no turns.\<close>

lemma kept_payer:
  assumes ok: "ledger_ok L" and new: "map_of (l_payers L) (payer_ID y) = None" and version: "payer_Version y = 0"
  shows "ledger_kept L (ledger_add_payer y L)" "versions_count L \<Longrightarrow> versions_count (ledger_add_payer y L)"
proof -
  have turns: "turns (ledger_add_payer y L) i = turns L i" for i by (simp add: ledger_add_payer_def turns_def)
  show "ledger_kept L (ledger_add_payer y L)"
    using new turns by (intro ledger_keptI) (auto simp: ledger_add_payer_def deal_kept_def ended_def)
  have "turns_of (payer_ID y) p = 0" if "p \<in> set (gm_values (l_payments L))" for p
  proof -
    have "map_of (l_payments L) (payment_ID p) = Some p"
      using that gm_values_lookup [OF ledger_keys_okD(3) [OF ledger_okD(1) [OF ok]]] by simp
    from ledger_okD(5) [OF ok this] new show ?thesis by (auto simp: payment_linked_def turns_of_def)
  qed
  then have "turns L (payer_ID y) = 0" unfolding turns_def msum_def by (simp cong: map_cong)
  then show "versions_count (ledger_add_payer y L)" if "versions_count L"
    using that version turns unfolding versions_count_def by (auto simp: ledger_add_payer_def split: if_splits)
qed

end
