(* ===== verification/LedgerHistory.thy ===== *)
theory LedgerHistory
  imports LedgerTurns
begin

text \<open>
  What a change of the ledger may do to what was there before: payments stay and keep their terms,
  their statuses only move forward, payers keep their funds, and every status a payment goes through
  leaves one event in the outbox. One lemma for each kind of write.
\<close>

section \<open>The order of payment statuses\<close>

fun status_leads :: "payment_status \<Rightarrow> payment_status \<Rightarrow> bool" where
  "status_leads StatusAuthorized st \<longleftrightarrow> st \<in> {StatusAuthorized, StatusCaptured, StatusSettled, StatusExpired}"
| "status_leads StatusCaptured st \<longleftrightarrow> st \<in> {StatusCaptured, StatusSettled}"
| "status_leads st0 st \<longleftrightarrow> st = st0"

lemma status_leads_refl [simp]: "status_leads st st"
  by (cases st) auto

lemma status_leads_trans: "status_leads a b \<Longrightarrow> status_leads b c \<Longrightarrow> status_leads a c"
  by (cases a; cases b) auto

text \<open>The types of the events a payment owes to the outbox for the statuses it has been through.\<close>

fun milestones :: "payment_status \<Rightarrow> string set" where
  "milestones StatusAuthorized = {eventTypePaymentAuthorized}"
| "milestones StatusCaptured = {eventTypePaymentAuthorized, eventTypePaymentCaptured}"
| "milestones StatusSettled = {eventTypePaymentAuthorized, eventTypePaymentCaptured, eventTypePaymentSettled}"
| "milestones StatusExpired = {eventTypePaymentAuthorized, eventTypePaymentExpired}"
| "milestones StatusPending = {}"
| "milestones StatusFailed = {}"

lemma event_types_distinct [simp]:
  "eventTypePaymentCaptured \<noteq> eventTypePaymentAuthorized" "eventTypePaymentExpired \<noteq> eventTypePaymentAuthorized"
  "eventTypePaymentSettled \<noteq> eventTypePaymentAuthorized" "eventTypePaymentSettled \<noteq> eventTypePaymentCaptured"
  by (simp_all add: eventTypePaymentAuthorized_def eventTypePaymentCaptured_def eventTypePaymentExpired_def
      eventTypePaymentSettled_def)

text \<open>How many events are about a type and a payment, and how many there should be.\<close>

definition events_about :: "event gomap \<Rightarrow> string \<times> string \<Rightarrow> nat" where
  "events_about es l = count_list (map (\<lambda>(k, e). event_label e) es) l"

definition events_owed :: "payment gomap \<Rightarrow> string \<times> string \<Rightarrow> nat" where
  "events_owed ps l = (case map_of ps (snd l) of None \<Rightarrow> 0
     | Some p \<Rightarrow> if fst l \<in> milestones (payment_Status p) then 1 else 0)"

definition outbox_complete :: "ledger \<Rightarrow> bool" where
  "outbox_complete L \<longleftrightarrow> (\<forall>l. events_about (l_events L) l = events_owed (l_payments L) l)"

lemma events_about_new:
  "map_of es k = None \<Longrightarrow>
   events_about (AList.update k e es) l = events_about es l + (if event_label e = l then 1 else 0)"
  by (simp add: events_about_def update_new)

lemma events_about_for: "events_for ls es es' \<Longrightarrow> events_about es' l = events_about es l + count_list ls l"
  by (induction ls arbitrary: es) (auto simp: events_about_new event_for_def)

text \<open>The events that no claim takes any more: those a worker is busy with and those published.\<close>

definition taken :: "event \<Rightarrow> bool" where
  "taken e \<longleftrightarrow> event_Status e \<in> {EventInProgress, EventPublished}"

definition taken_events :: "event gomap \<Rightarrow> string \<Rightarrow> event option" where
  "taken_events es k = (case map_of es k of None \<Rightarrow> None | Some e \<Rightarrow> if taken e then Some e else None)"

lemma taken_events_Some: "taken_events es k = Some e \<longleftrightarrow> map_of es k = Some e \<and> taken e"
  by (auto simp: taken_events_def split: option.splits)

lemma taken_events_mono:
  assumes "\<And>k e. map_of es k = Some e \<Longrightarrow> taken e \<Longrightarrow> map_of es' k = Some e"
  shows "taken_events es \<subseteq>\<^sub>m taken_events es'"
proof (unfold map_le_def, rule ballI)
  fix k assume "k \<in> dom (taken_events es)"
  then obtain e where e: "taken_events es k = Some e" by blast
  then have "taken_events es' k = Some e" using assms unfolding taken_events_Some by blast
  then show "taken_events es k = taken_events es' k" using e by simp
qed

lemma events_added_taken: "events_added es n es' \<Longrightarrow> taken_events es \<subseteq>\<^sub>m taken_events es'"
  unfolding events_added_def by (rule taken_events_mono) (metis domI map_le_def)

lemma taken_events_update:
  "map_of es k = None \<Longrightarrow> taken_events es \<subseteq>\<^sub>m taken_events (AList.update k e es)"
  by (rule taken_events_mono) auto

section \<open>What no step may undo\<close>

definition ledger_next :: "ledger \<Rightarrow> ledger \<Rightarrow> bool" where
  "ledger_next L L' \<longleftrightarrow>
     (\<forall>i x. funds L i = Some x \<longrightarrow> funds L' i = Some x) \<and>
     (\<forall>i p. map_of (l_payments L) i = Some p \<longrightarrow> (\<exists>p'. map_of (l_payments L') i = Some p' \<and>
        same_deal p p' \<and> status_leads (payment_Status p) (payment_Status p'))) \<and>
     (outbox_complete L \<longrightarrow> outbox_complete L') \<and>
     ledger_kept L L' \<and> (versions_count L \<longrightarrow> versions_count L') \<and>
     taken_events (l_events L) \<subseteq>\<^sub>m taken_events (l_events L')"

lemma ledger_nextI:
  assumes "\<And>i x. funds L i = Some x \<Longrightarrow> funds L' i = Some x"
    and "\<And>i p. map_of (l_payments L) i = Some p \<Longrightarrow> \<exists>p'. map_of (l_payments L') i = Some p' \<and>
        same_deal p p' \<and> status_leads (payment_Status p) (payment_Status p')"
    and "outbox_complete L \<Longrightarrow> outbox_complete L'"
    and "taken_events (l_events L) \<subseteq>\<^sub>m taken_events (l_events L')"
    and "ledger_kept L L'" "versions_count L \<Longrightarrow> versions_count L'"
  shows "ledger_next L L'"
  using assms unfolding ledger_next_def by blast

lemma ledger_nextD:
  assumes "ledger_next L L'"
  shows "funds L i = Some x \<Longrightarrow> funds L' i = Some x"
    and "map_of (l_payments L) i = Some p \<Longrightarrow> \<exists>p'. map_of (l_payments L') i = Some p' \<and>
        same_deal p p' \<and> status_leads (payment_Status p) (payment_Status p')"
    and "outbox_complete L \<Longrightarrow> outbox_complete L'"
    and "taken_events (l_events L) \<subseteq>\<^sub>m taken_events (l_events L')"
    and "ledger_kept L L'" "versions_count L \<Longrightarrow> versions_count L'"
  using assms unfolding ledger_next_def by blast+

lemma ledger_next_refl: "ledger_next L L"
  by (rule ledger_nextI) (auto intro: ledger_kept_refl)

lemma ledger_next_trans:
  assumes a: "ledger_next L1 L2" and b: "ledger_next L2 L3"
  shows "ledger_next L1 L3"
proof (rule ledger_nextI)
  fix i p assume "map_of (l_payments L1) i = Some p"
  then obtain q where q: "map_of (l_payments L2) i = Some q" "same_deal p q"
    "status_leads (payment_Status p) (payment_Status q)"
    using ledger_nextD(2) [OF a] by blast
  obtain r where "map_of (l_payments L3) i = Some r" "same_deal q r"
    "status_leads (payment_Status q) (payment_Status r)"
    using ledger_nextD(2) [OF b q(1)] by blast
  then show "\<exists>r. map_of (l_payments L3) i = Some r \<and> same_deal p r \<and>
      status_leads (payment_Status p) (payment_Status r)"
    using q same_deal_trans status_leads_trans by blast
qed (use ledger_nextD [OF a] ledger_nextD [OF b] in \<open>auto intro: map_le_trans ledger_kept_trans\<close>)

section \<open>Events of payments that move\<close>

text \<open>Each of the payments \<open>ids\<close> moves from a status to the next, and leaves one event of that.\<close>

lemma outbox_complete_move:
  assumes ev: "events_for (map (\<lambda>i. (t, i)) ids) (l_events L) (l_events L')" and ids: "distinct ids"
    and others: "\<And>i. i \<notin> set ids \<Longrightarrow> map_of (l_payments L') i = map_of (l_payments L) i"
    and old: "\<And>i. i \<in> set ids \<Longrightarrow> case map_of (l_payments L) i of None \<Rightarrow> milestones b = {t}
      | Some p \<Rightarrow> milestones b = insert t (milestones (payment_Status p)) \<and> t \<notin> milestones (payment_Status p)"
    and new: "\<And>i. i \<in> set ids \<Longrightarrow> \<exists>q. map_of (l_payments L') i = Some q \<and> payment_Status q = b"
    and complete: "outbox_complete L"
  shows "outbox_complete L'"
  unfolding outbox_complete_def
proof
  fix l :: "string \<times> string"
  obtain u i where l: "l = (u, i)" by (rule prod.exhaust)
  have "count_list (map (\<lambda>i. (t, i)) ids) (u, i) = (if u = t then count_list ids i else 0)"
    by (induction ids) auto
  also have "\<dots> = (if u = t \<and> i \<in> set ids then 1 else 0)"
    using ids by (induction ids) (auto simp: count_list_0_iff)
  finally have about: "events_about (l_events L') l = events_owed (l_payments L) l + (if u = t \<and> i \<in> set ids then 1 else 0)"
    using events_about_for [OF ev] complete by (simp add: outbox_complete_def l)
  show "events_about (l_events L') l = events_owed (l_payments L') l"
  proof (cases "i \<in> set ids")
    case True
    then show ?thesis unfolding about using old [OF True] new [OF True]
      by (auto simp: events_owed_def l split: option.splits)
  next
    case False
    then show ?thesis unfolding about using others [OF False] by (simp add: events_owed_def l)
  qed
qed

section \<open>The writes of the use cases\<close>

lemma next_authorize:
  assumes ok: "ledger_ok L" and w: "authorize_writes L y0 y p h"
    and e: "map_of (l_events L) (event_ID e) = None" "event_for (eventTypePaymentAuthorized, payment_ID p) e"
  shows "ledger_next L (ledger_write y p h e L)" "settled_same L (ledger_write y p h e L)"
proof -
  have new: "map_of (l_payments L) (payment_ID p) = None" and st: "payment_Status p = StatusAuthorized"
    using w unfolding authorize_writes_def by simp_all
  show "ledger_next L (ledger_write y p h e L)"
  proof (rule ledger_nextI)
    assume "outbox_complete L"
    then show "outbox_complete (ledger_write y p h e L)"
      by (rule outbox_complete_move [where ids = "[payment_ID p]" and b = StatusAuthorized, rotated -1])
        (use new st e in auto)
  qed (use new authorize_writes_funds [OF ok w] taken_events_update [OF e(1)] kept_authorize [OF ok w] in auto)
  show "settled_same L (ledger_write y p h e L)"
    by (rule settled_same_update [of L "payment_ID p" p]) (simp_all add: new st)
qed

lemma next_finish:
  assumes ok: "ledger_ok L" and w: "finish_writes L y0 y p0 p h0 h"
    and e: "map_of (l_events L) (event_ID e) = None" "event_for (t, payment_ID p) e"
    and t: "t = (if payment_Status p = StatusCaptured then eventTypePaymentCaptured else eventTypePaymentExpired)"
  shows "ledger_next L (ledger_write y p h e L)" "settled_same L (ledger_write y p h e L)"
proof -
  note D = finish_writesD [OF ok w]
  have p0: "map_of (l_payments L) (payment_ID p) = Some p0"
    using w D(5) unfolding finish_writes_def by simp
  have lead: "status_leads (payment_Status p0) (payment_Status p)"
    "milestones (payment_Status p) = insert t (milestones (payment_Status p0))"
    "t \<notin> milestones (payment_Status p0)" "payment_Status p \<noteq> StatusSettled"
    using D(15,21) by (auto simp: t)
  show "ledger_next L (ledger_write y p h e L)"
  proof (rule ledger_nextI)
    fix i q assume "map_of (l_payments L) i = Some q"
    then show "\<exists>q'. map_of (l_payments (ledger_write y p h e L)) i = Some q' \<and> same_deal q q' \<and>
        status_leads (payment_Status q) (payment_Status q')"
      using p0 lead(1) finish_writes_deal [OF ok w] by (cases "i = payment_ID p") auto
  next
    assume "outbox_complete L"
    then show "outbox_complete (ledger_write y p h e L)"
      by (rule outbox_complete_move [where ids = "[payment_ID p]" and b = "payment_Status p", rotated -1])
        (use p0 lead e in auto)
  qed (use finish_writes_funds [OF ok w] taken_events_update [OF e(1)] kept_finish [OF ok w] in auto)
  show "settled_same L (ledger_write y p h e L)"
    by (rule settled_same_update [of L "payment_ID p" p]) (use p0 D(15) lead(4) in auto)
qed

text \<open>Payments that all move from one status to the next, with one event each.\<close>

lemma next_move:
  assumes ids: "distinct (map payment_ID ps)"
    and ev: "events_for (map (\<lambda>p. (t, payment_ID p)) ps) (l_events L) (l_events L')"
    and fu: "\<And>i. funds L' i = funds L i"
    and others: "\<And>i. i \<notin> set (map payment_ID ps) \<Longrightarrow> map_of (l_payments L') i = map_of (l_payments L) i"
    and old: "\<And>p. p \<in> set ps \<Longrightarrow> map_of (l_payments L) (payment_ID p) = Some p"
      "\<And>p. p \<in> set ps \<Longrightarrow> payment_Status p = a"
    and new: "\<And>p. p \<in> set ps \<Longrightarrow> \<exists>q'. map_of (l_payments L') (payment_ID p) = Some q' \<and>
      same_deal p q' \<and> payment_Status q' = b"
    and ab: "milestones b = insert t (milestones a)" "t \<notin> milestones a" "status_leads a b"
    and kept: "ledger_kept L L'" "versions_count L \<Longrightarrow> versions_count L'"
  shows "ledger_next L L'"
proof -
  let ?K = "set (map payment_ID ps)"
  have inside: "\<exists>q q'. map_of (l_payments L) i = Some q \<and> map_of (l_payments L') i = Some q' \<and>
      same_deal q q' \<and> payment_Status q = a \<and> payment_Status q' = b" if i: "i \<in> ?K" for i
  proof -
    obtain p where p: "p \<in> set ps" "i = payment_ID p" using i by auto
    show ?thesis unfolding p(2) using old [OF p(1)] new [OF p(1)] by blast
  qed
  show ?thesis
  proof (rule ledger_nextI)
    fix i p assume p: "map_of (l_payments L) i = Some p"
    show "\<exists>p'. map_of (l_payments L') i = Some p' \<and> same_deal p p' \<and>
        status_leads (payment_Status p) (payment_Status p')"
    proof (cases "i \<in> ?K")
      case True
      then show ?thesis using inside [OF True] p ab(3) by auto
    next
      case False
      then show ?thesis using others [OF False] p by simp
    qed
  next
    have ev': "events_for (map (\<lambda>i. (t, i)) (map payment_ID ps)) (l_events L) (l_events L')"
      using ev by (simp add: o_def)
    assume "outbox_complete L"
    then show "outbox_complete L'"
      by (rule outbox_complete_move [where b = b, OF ev' ids others, rotated -1]) (use inside ab in fastforce)+
  qed (use fu events_added_taken [OF events_for_added [OF ev]] kept in auto)
qed

lemma next_expired:
  assumes ok: "ledger_ok L" and ps: "expired_list_ok (l_payments L) now ps"
    and E: "expired_from L ps L'"
  shows "ledger_next L L'" "settled_same L L'"
proof -
  have old: "map_of (l_payments L) (payment_ID p) = Some p" "payment_Status p = StatusAuthorized"
    if "p \<in> set ps" for p
    using ps that unfolding expired_list_ok_def expired_authorized_def by blast+
  have new: "\<exists>p'. map_of (l_payments L') (payment_ID p) = Some p' \<and> same_deal p p' \<and>
      payment_Status p' = StatusExpired" if "p \<in> set ps" for p
    using E that unfolding expired_from_def by blast
  have others: "map_of (l_payments L') i = map_of (l_payments L) i" if "i \<notin> set (map payment_ID ps)" for i
    using E that unfolding expired_from_def by blast
  show "ledger_next L L'"
  proof (rule next_move [where a = StatusAuthorized and b = StatusExpired and ps = ps])
    show "distinct (map payment_ID ps)" using ps unfolding expired_list_ok_def by simp
    show "events_for (map (\<lambda>p. (eventTypePaymentExpired, payment_ID p)) ps) (l_events L) (l_events L')"
      "\<And>i. funds L' i = funds L i"
      using E unfolding expired_from_def by simp_all
  qed (use kept_expired [OF ps E] in \<open>auto simp: old new others\<close>)
  show "settled_same L L'"
    unfolding settled_same_def
  proof (intro allI impI)
    fix i and q :: payment assume q: "payment_Status q = StatusSettled"
    show "(map_of (l_payments L') i = Some q) = (map_of (l_payments L) i = Some q)"
      using others [of i] old new q by (cases "i \<in> set (map payment_ID ps)") fastforce+
  qed
qed

lemma next_settled:
  assumes ok: "ledger_ok L" and B: "batch_settled L S b ps its L' S'"
    and claim: "\<forall>p \<in> set ps. claimable_in L S ws we p" and ids: "distinct (map payment_ID ps)"
  shows "ledger_next L L'"
proof -
  have E: "settled_from L (S\<lparr>sl_batches := sl_batches S', sl_claims := sl_claims S'\<rparr>) (batch_ID b) ps its L' S'"
    using B unfolding batch_settled_def by blast
  have old: "map_of (l_payments L) (payment_ID p) = Some p" "payment_Status p = StatusCaptured"
    if "p \<in> set ps" for p
    using claim that unfolding claimable_in_def captured_within_def by blast+
  have new: "\<exists>r. map_of (l_payments L') (payment_ID p) = Some r \<and> same_deal p r \<and>
      payment_Status r = StatusSettled" if p: "p \<in> set ps" for p
  proof -
    obtain r where r: "map_of (l_payments L') (payment_ID p) = Some r"
      "same_payment (p\<lparr>payment_Status := StatusSettled\<rparr>) r"
      using E p unfolding settled_from_def by blast
    then show ?thesis using same_paymentD [OF r(2)] by (auto simp: same_deal_def)
  qed
  show "ledger_next L L'"
  proof (rule next_move [where a = StatusCaptured and b = StatusSettled and ps = ps])
    show "events_for (map (\<lambda>p. (eventTypePaymentSettled, payment_ID p)) ps) (l_events L) (l_events L')"
      "\<And>i. funds L' i = funds L i"
      "\<And>i. i \<notin> set (map payment_ID ps) \<Longrightarrow> map_of (l_payments L') i = map_of (l_payments L) i"
      using E unfolding settled_from_def by simp_all
  qed (use kept_settled [OF ok E old] in \<open>auto simp: old new ids\<close>)
qed

text \<open>New merchants and payers.\<close>

lemma next_merchant:
  assumes "ledger_ok L" "merchant_ok m" "map_of (l_merchants L) (merchant_ID m) = None"
  shows "ledger_next L (ledger_add_merchant m L)" "settled_same L (ledger_add_merchant m L)"
proof -
  show "ledger_next L (ledger_add_merchant m L)"
    by (rule ledger_nextI)
      (use kept_merchant [OF assms(3)] in \<open>auto simp: add_merchant_ok(2) [OF assms(1,2)]\<close>,
       auto simp: ledger_add_merchant_def outbox_complete_def)
  show "settled_same L (ledger_add_merchant m L)"
    by (simp add: settled_same_def ledger_add_merchant_def)
qed

lemma next_payer:
  assumes "ledger_ok L" "payer_ok y" "HeldBalanceMinor y = 0" "map_of (l_payers L) (payer_ID y) = None"
    and version: "payer_Version y = 0"
  shows "ledger_next L (ledger_add_payer y L)" "settled_same L (ledger_add_payer y L)"
proof -
  have none: "funds L (payer_ID y) = None" using assms(4) by (simp add: funds_def)
  show "ledger_next L (ledger_add_payer y L)"
    by (rule ledger_nextI)
      (use none kept_payer [OF assms(1,4) version] in \<open>auto simp: add_payer_ok(2) [OF assms(1-4)]\<close>, auto simp: ledger_add_payer_def outbox_complete_def)
  show "settled_same L (ledger_add_payer y L)"
    by (simp add: settled_same_def ledger_add_payer_def)
qed

text \<open>The outbox worker changes events, and nothing else.\<close>

lemma next_events:
  assumes ok: "ledger_ok L" and wf: "gm_wf event_ID es" and about: "events_about es = events_about (l_events L)"
    and taken: "taken_events (l_events L) \<subseteq>\<^sub>m taken_events es"
  shows "ledger_ok (L\<lparr>l_events := es\<rparr>)" "ledger_next L (L\<lparr>l_events := es\<rparr>)"
    "settled_same L (L\<lparr>l_events := es\<rparr>)"
proof -
  have funds: "funds (L\<lparr>l_events := es\<rparr>) i = funds L i" for i
    by (simp add: funds_def captured_total_def)
  show "ledger_ok (L\<lparr>l_events := es\<rparr>)"
  proof (rule ledger_okI)
    show "ledger_keys_ok (L\<lparr>l_events := es\<rparr>)"
      using ledger_keys_okD [OF ledger_okD(1) [OF ok]] wf by (simp add: ledger_keys_ok_def)
  qed (use ledger_okD(2-6) [OF ok] in \<open>simp_all add: held_total_def payment_linked_def\<close>)
  show "ledger_next L (L\<lparr>l_events := es\<rparr>)"
    by (rule ledger_nextI) (use funds taken about kept_events in \<open>auto simp: outbox_complete_def\<close>)
  show "settled_same L (L\<lparr>l_events := es\<rparr>)" by (simp add: settled_same_def)
qed

end
