(* ===== verification/OutboxWorker.thy ===== *)
theory OutboxWorker
  imports Ledger OutboxFacts
begin

text \<open>
  \<open>internal/outbox/worker.go\<close>: the worker that takes events from the outbox, hands them to a
  publisher and marks them. The second part is the contract it has with its repository, as the
  locale \<open>event_queue\<close>, and what a batch does under it; the in-memory repository is shown to
  keep the contract at the end.
\<close>

section \<open>The worker\<close>

record ('c, 's) outbox_repository =
  or_ClaimPendingEvents :: "'c \<Rightarrow> claim_input \<Rightarrow> ('s, event list) act"
  or_MarkEventPublished :: "'c \<Rightarrow> string \<Rightarrow> time \<Rightarrow> ('s, event) act"
  or_MarkEventFailed :: "'c \<Rightarrow> mark_failed_input \<Rightarrow> ('s, event) act"
  or_Stats :: "'c \<Rightarrow> time \<Rightarrow> ('s, stats) act"

text \<open>
  The publisher is outside the model: the answers of its calls are part of the environment, the
  message of the error or \<open>None\<close> when the broker took the event.
\<close>

record ('c, 's) worker_config =
  wc_Repository :: "('c, 's) outbox_repository option"
  wc_Publisher :: "(nat \<Rightarrow> event \<Rightarrow> string option) option"
  wc_Transactor :: "transactor option"
  wc_Metrics :: bool
  wc_WorkerID :: string
  wc_BatchSize :: int
  wc_PublisherName :: string

record ('c, 's) worker =
  w_repository :: "('c, 's) outbox_repository"
  w_publisher :: "nat \<Rightarrow> event \<Rightarrow> string option"
  w_transactor :: transactor
  w_metrics :: bool
  w_workerID :: string
  w_batchSize :: int
  w_publisherName :: string

definition NewWorker :: "('c, 's) worker_config \<Rightarrow> error + ('c, 's) worker" where
  "NewWorker cfg =
     (case wc_Repository cfg of None \<Rightarrow> Inl ErrOutboxRepositoryRequired
      | Some repository \<Rightarrow>
     (case wc_Publisher cfg of None \<Rightarrow> Inl ErrPublisherRequired
      | Some publisher \<Rightarrow>
     (case wc_Transactor cfg of None \<Rightarrow> Inl ErrOutboxTransactorRequired
      | Some tx \<Rightarrow>
        Inr \<lparr>w_repository = repository, w_publisher = publisher, w_transactor = tx,
          w_metrics = wc_Metrics cfg,
          w_workerID = (if wc_WorkerID cfg = '''' then ''outbox-worker'' else wc_WorkerID cfg),
          w_batchSize = (if wc_BatchSize cfg \<le> 0 then 100 else wc_BatchSize cfg),
          w_publisherName = (if wc_PublisherName cfg = '''' then ''unknown''
            else wc_PublisherName cfg)\<rparr>)))"

record process_result =
  pr_Claimed :: int
  pr_Published :: int
  pr_Failed :: int

datatype worker_observation =
    ObserveOutboxStats int duration
  | ObserveOutboxBatch string int int int

text \<open>
  The calls of a batch to its repository, to the clock and to the publisher, each numbered in its
  order; event number \<open>i\<close> of the batch uses the clock readings \<open>2 + 2 * i\<close> and
  \<open>3 + 2 * i\<close>.
\<close>

record 'c worker_env =
  we_call :: "nat \<Rightarrow> 'c"
  we_now :: "nat \<Rightarrow> time"

text \<open>
  The loop over the claimed events. Its value is the counts so far, the error that ended the loop if
  one did, and the events the publisher took.
\<close>

fun process_events ::
  "('c, 's) worker \<Rightarrow> 'c worker_env \<Rightarrow> nat \<Rightarrow> event list \<Rightarrow> process_result \<Rightarrow> event list \<Rightarrow>
   's \<Rightarrow> (process_result \<times> error option \<times> event list) \<times> 's" where
  "process_events w env i [] result sent s = ((result, None, sent), s)"
| "process_events w env i (e # es) result sent s =
     (case w_publisher w i e of
        Some errorMessage \<Rightarrow>
          (case or_MarkEventFailed (w_repository w) (we_call env (i + 2))
                  \<lparr>mfi_EventID = event_ID e, mfi_ErrorMessage = errorMessage,
                   mfi_NextAvailable = utc (we_now env (2 + 2 * i)) + minute,
                   mfi_Now = utc (we_now env (3 + 2 * i))\<rparr> s of
             (Inl markErr, s') \<Rightarrow> ((result, Some markErr, sent), s')
           | (Inr _, s') \<Rightarrow>
               process_events w env (i + 1) es (result\<lparr>pr_Failed := pr_Failed result + 1\<rparr>) sent s')
      | None \<Rightarrow>
          (case or_MarkEventPublished (w_repository w) (we_call env (i + 2)) (event_ID e)
                  (utc (we_now env (2 + 2 * i))) s of
             (Inl err, s') \<Rightarrow> ((result, Some err, sent @ [e]), s')
           | (Inr _, s') \<Rightarrow>
               process_events w env (i + 1) es (result\<lparr>pr_Published := pr_Published result + 1\<rparr>)
                 (sent @ [e]) s'))"

record process_outcome =
  po_result :: process_result
  po_error :: "error option"
  po_sent :: "event list"
  po_observations :: "worker_observation list"

definition zero_result :: process_result where
  "zero_result = \<lparr>pr_Claimed = 0, pr_Published = 0, pr_Failed = 0\<rparr>"

definition observe_worker :: "('c, 's) worker \<Rightarrow> worker_observation \<Rightarrow> worker_observation list" where
  "observe_worker w obs = (if \<not> w_metrics w then [] else [obs])"

definition ProcessBatch ::
  "('c, 's) worker \<Rightarrow> 'c worker_env \<Rightarrow> 's \<Rightarrow> process_outcome \<times> 's" where
  "ProcessBatch w env s =
     (case or_Stats (w_repository w) (we_call env 0) (utc (we_now env 0)) s of
        (Inl err, s1) \<Rightarrow>
          (\<lparr>po_result = zero_result, po_error = Some err, po_sent = [], po_observations = []\<rparr>, s1)
      | (Inr st, s1) \<Rightarrow>
        let stats_obs = observe_worker w (ObserveOutboxStats (PendingEvents st) (PublishLag st)) in
        (case WithinTx (w_transactor w) (or_ClaimPendingEvents (w_repository w) (we_call env 1)
                \<lparr>ci_WorkerID = w_workerID w, ci_Limit = w_batchSize w,
                 ci_Now = utc (we_now env 1)\<rparr>) s1 of
           (Inl err, s2) \<Rightarrow>
             (\<lparr>po_result = zero_result, po_error = Some err, po_sent = [], po_observations = stats_obs\<rparr>, s2)
         | (Inr claimed, s2) \<Rightarrow>
             (case process_events w env 0 claimed (zero_result\<lparr>pr_Claimed := int (length claimed)\<rparr>) [] s2 of
                ((result, err, sent), s3) \<Rightarrow>
                  (\<lparr>po_result = result, po_error = err, po_sent = sent,
                    po_observations = stats_obs @
                      (if err = None then observe_worker w (ObserveOutboxBatch (w_publisherName w)
                         (pr_Claimed result) (pr_Published result) (pr_Failed result)) else [])\<rparr>, s3))))"

lemmas worker_defs = NewWorker_def zero_result_def observe_worker_def ProcessBatch_def

declare worker_defs [go_eval]

section \<open>What the repository promises\<close>

definition published_at :: "time \<Rightarrow> event \<Rightarrow> event" where
  "published_at now e = e\<lparr>event_Status := EventPublished, PublishedAt := Some now, LockedAt := None,
     LockedBy := None, event_LastError := None, event_UpdatedAt := now\<rparr>"

definition failed_at :: "string \<Rightarrow> time \<Rightarrow> time \<Rightarrow> event \<Rightarrow> event" where
  "failed_at msg nxt now e = e\<lparr>event_Status := EventFailed, AvailableAt := nxt, LockedAt := None,
     LockedBy := None, PublishedAt := None, event_LastError := Some msg, event_UpdatedAt := now\<rparr>"

lemma marked_simps [simp]:
  "event_ID (published_at now e) = event_ID e" "event_Status (published_at now e) = EventPublished"
  "Payload (published_at now e) = Payload e" "event_ID (failed_at msg nxt now e) = event_ID e"
  "event_Status (failed_at msg nxt now e) = EventFailed" "Payload (failed_at msg nxt now e) = Payload e"
  by (simp_all add: published_at_def failed_at_def)

text \<open>The events of a batch that the publisher takes, in the order it gets them.\<close>

definition accepted :: "('c, 's) worker \<Rightarrow> nat \<Rightarrow> event list \<Rightarrow> event list" where
  "accepted w i es = map snd (filter (\<lambda>(j, e). w_publisher w j e = None) (enumerate i es))"

lemma accepted_simps [simp]:
  "accepted w i [] = []"
  "accepted w i (e # es) =
     (if w_publisher w i e = None then e # accepted w (Suc i) es else accepted w (Suc i) es)"
  by (simp_all add: accepted_def)

lemma accepted_subset: "set (accepted w i es) \<subseteq> set es"
  by (induction es arbitrary: i) (auto split: if_splits)

lemma length_accepted: "length (accepted w i es) \<le> length es"
  unfolding accepted_def by (metis length_enumerate length_filter_le length_map)

lemma distinct_accepted: "distinct (map event_ID es) \<Longrightarrow> distinct (map event_ID (accepted w i es))"
  by (induction es arbitrary: i) (use accepted_subset in force)+

lemma enumerate_member: "(j, x) \<in> set (enumerate i es) \<Longrightarrow> x \<in> set es"
  by (induction es arbitrary: i) auto

text \<open>Two contents of the outbox with the same events but for their delivery state.\<close>

definition same_keys :: "event gomap \<Rightarrow> event gomap \<Rightarrow> bool" where
  "same_keys m m' \<longleftrightarrow> map fst m' = map fst m \<and>
     map (\<lambda>(k, e). event_label e) m' = map (\<lambda>(k, e). event_label e) m"

lemma same_keys_refl [simp]: "same_keys m m"
  by (simp add: same_keys_def)

lemma same_keys_trans: "same_keys m m1 \<Longrightarrow> same_keys m1 m2 \<Longrightarrow> same_keys m m2"
  by (simp add: same_keys_def)

lemma same_keys_update:
  "map_of m k = Some v0 \<Longrightarrow> event_label v = event_label v0 \<Longrightarrow> same_keys m (AList.update k v m)"
  unfolding same_keys_def by (induction m) (auto split: if_splits)

lemma same_keys_length: "same_keys m m' \<Longrightarrow> length m' = length m"
  unfolding same_keys_def by (metis length_map)

lemma WithinTx_cases:
  "WithinTx tr fn s = (r, s') \<Longrightarrow> s' = s \<or> (\<exists>q. fn s = (q, s'))"
  by (cases tr) (auto split: option.splits prod.splits sum.splits if_splits)

locale event_queue =
  fixes Q :: "('c, 's) outbox_repository" and oview :: "'s \<Rightarrow> event gomap" and oinv :: "'s \<Rightarrow> bool"
    and tm :: "time \<Rightarrow> time"
  assumes claim_law:
    "oinv s \<Longrightarrow> or_ClaimPendingEvents Q c i s = (Inr es, s') \<Longrightarrow>
     claim_ok (oview s) (i\<lparr>ci_Now := tm (ci_Now i)\<rparr>) es (oview s') \<and>
     same_keys (oview s) (oview s') \<and> oinv s'"
  and published_law:
    "oinv s \<Longrightarrow> or_MarkEventPublished Q c k now s = (Inr e', s') \<Longrightarrow>
     \<exists>e. map_of (oview s) k = Some e \<and> event_Status e = EventInProgress \<and>
       e' = published_at (tm now) e \<and> oview s' = AList.update k e' (oview s) \<and> oinv s'"
  and failed_law:
    "oinv s \<Longrightarrow> or_MarkEventFailed Q c j s = (Inr e', s') \<Longrightarrow>
     \<exists>e msg. map_of (oview s) (mfi_EventID j) = Some e \<and> event_Status e = EventInProgress \<and>
       e' = failed_at msg (tm (mfi_NextAvailable j)) (tm (mfi_Now j)) e \<and>
       oview s' = AList.update (mfi_EventID j) e' (oview s) \<and> oinv s'"
  and stats_state: "or_Stats Q c now s = (r, s') \<Longrightarrow> s' = s"
  and error_states:
    "oinv s \<Longrightarrow> or_ClaimPendingEvents Q c i s = (Inl err, s') \<Longrightarrow> s' = s"
    "or_MarkEventPublished Q c k now s = (Inl err, s') \<Longrightarrow> s' = s"
    "or_MarkEventFailed Q c j s = (Inl err, s') \<Longrightarrow> s' = s"
begin

text \<open>
  One turn of the loop: either its marking fails, and the loop ends where it was, or the event, which
  was in progress, is marked by what the publisher said and the loop goes on.
\<close>

definition marked :: "('c, 's) worker \<Rightarrow> 'c worker_env \<Rightarrow> nat \<Rightarrow> event \<Rightarrow> event \<Rightarrow> event \<Rightarrow> bool" where
  "marked w env i e e0 e1 \<longleftrightarrow>
     (if w_publisher w i e = None then e1 = published_at (tm (we_now env (2 + 2 * i))) e0
      else \<exists>msg. e1 = failed_at msg (tm (we_now env (2 + 2 * i) + minute))
             (tm (we_now env (3 + 2 * i))) e0)"

lemma marked_label: "marked w env i e e0 e1 \<Longrightarrow> event_label e1 = event_label e0"
  by (auto simp: marked_def published_at_def failed_at_def event_label_def split: if_splits)

definition counted :: "('c, 's) worker \<Rightarrow> nat \<Rightarrow> event \<Rightarrow> process_result \<Rightarrow> process_result" where
  "counted w i e res = (if w_publisher w i e = None then res\<lparr>pr_Published := pr_Published res + 1\<rparr>
     else res\<lparr>pr_Failed := pr_Failed res + 1\<rparr>)"

lemma turn:
  assumes run: "process_events w env i (e # es) res sent s = ((res', err, sent'), s')"
    and w: "w_repository w = Q" and inv: "oinv s"
  shows "err \<noteq> None \<and> s' = s \<and> res' = res \<and> sent' = sent @ accepted w i [e] \<or>
    (\<exists>e0 e1 s1. map_of (oview s) (event_ID e) = Some e0 \<and> event_Status e0 = EventInProgress \<and>
       marked w env i e e0 e1 \<and> oview s1 = AList.update (event_ID e) e1 (oview s) \<and> oinv s1 \<and>
       process_events w env (i + 1) es (counted w i e res) (sent @ accepted w i [e]) s1 =
         ((res', err, sent'), s'))"
proof (cases "w_publisher w i e")
  case None
  obtain r s1 where mark: "or_MarkEventPublished Q (we_call env (i + 2)) (event_ID e)
      (we_now env (2 + 2 * i)) s = (r, s1)" by fastforce
  show ?thesis
  proof (cases r)
    case (Inl err1)
    then show ?thesis using run w mark None error_states(2) [OF mark [unfolded Inl]] by (auto simp: utc_def)
  next
    case (Inr e1)
    then show ?thesis using run w mark None published_law [OF inv mark [unfolded Inr]]
      by (auto simp: utc_def marked_def counted_def)
  qed
next
  case (Some msg)
  obtain r s1 where mark: "or_MarkEventFailed Q (we_call env (i + 2))
      \<lparr>mfi_EventID = event_ID e, mfi_ErrorMessage = msg,
       mfi_NextAvailable = we_now env (2 + 2 * i) + minute, mfi_Now = we_now env (3 + 2 * i)\<rparr> s = (r, s1)"
    by fastforce
  show ?thesis
  proof (cases r)
    case (Inl err1)
    then show ?thesis using run w mark Some error_states(3) [OF mark [unfolded Inl]] by (auto simp: utc_def)
  next
    case (Inr e1)
    then show ?thesis using run w mark Some failed_law [OF inv mark [unfolded Inr]]
      by (fastforce simp: utc_def marked_def counted_def)
  qed
qed

text \<open>Whatever happens, the loop touches only the events it was given, and sends each at most once.\<close>

lemma process_events_frame:
  "process_events w env i es res sent s = ((res', err, sent'), s') \<Longrightarrow> w_repository w = Q \<Longrightarrow>
   oinv s \<Longrightarrow>
   oinv s' \<and> same_keys (oview s) (oview s') \<and>
   (\<forall>k. k \<notin> event_ID ` set es \<longrightarrow> map_of (oview s') k = map_of (oview s) k) \<and>
   (\<exists>n. sent' = sent @ accepted w i (take n es)) \<and> pr_Claimed res' = pr_Claimed res"
proof (induction es arbitrary: i res sent s)
  case Nil
  then show ?case by simp
next
  case (Cons e es)
  from turn [OF Cons.prems] show ?case
  proof (elim disjE exE conjE)
    fix e0 e1 s1
    assume e0: "map_of (oview s) (event_ID e) = Some e0" and e1: "marked w env i e e0 e1"
      and s1: "oview s1 = AList.update (event_ID e) e1 (oview s)" "oinv s1"
      and rest: "process_events w env (i + 1) es (counted w i e res) (sent @ accepted w i [e]) s1 =
        ((res', err, sent'), s')"
    obtain n where I: "oinv s'" "same_keys (oview s1) (oview s')"
      "\<forall>k. k \<notin> event_ID ` set es \<longrightarrow> map_of (oview s') k = map_of (oview s1) k"
      "sent' = (sent @ accepted w i [e]) @ accepted w (i + 1) (take n es)"
      "pr_Claimed res' = pr_Claimed (counted w i e res)"
      using Cons.IH [OF rest Cons.prems(2) s1(2)] by auto
    have "same_keys (oview s) (oview s')"
      using same_keys_trans [OF same_keys_update [OF e0 marked_label [OF e1]]] I(2) s1(1) by metis
    moreover have "sent' = sent @ accepted w i (take (Suc n) (e # es))" using I(4) by simp
    moreover have "pr_Claimed res' = pr_Claimed res" using I(5) by (simp add: counted_def)
    ultimately show ?case using I(1,3) s1(1) by (auto intro!: exI [of _ "Suc n"])
  qed (use Cons.prems(3) in \<open>auto intro!: exI [of _ 1]\<close>)
qed

text \<open>When no marking fails, every event ends as the publisher decided, and the counts add up.\<close>

lemma process_events_done:
  "process_events w env i es res sent s = ((res', None, sent'), s') \<Longrightarrow> w_repository w = Q \<Longrightarrow>
   oinv s \<Longrightarrow> distinct (map event_ID es) \<Longrightarrow>
   sent' = sent @ accepted w i es \<and>
   pr_Published res' = pr_Published res + int (length (accepted w i es)) \<and>
   pr_Failed res' = pr_Failed res + int (length es - length (accepted w i es)) \<and>
   (\<forall>(j, e) \<in> set (enumerate i es). \<exists>e0 e1. map_of (oview s) (event_ID e) = Some e0 \<and>
      event_Status e0 = EventInProgress \<and> marked w env j e e0 e1 \<and>
      map_of (oview s') (event_ID e) = Some e1)"
proof (induction es arbitrary: i res sent s)
  case Nil
  then show ?case by simp
next
  case (Cons e es)
  from turn [OF Cons.prems(1-3)] obtain e0 e1 s1 where
    e0: "map_of (oview s) (event_ID e) = Some e0" "event_Status e0 = EventInProgress"
    and e1: "marked w env i e e0 e1"
    and s1: "oview s1 = AList.update (event_ID e) e1 (oview s)" "oinv s1"
    and rest: "process_events w env (i + 1) es (counted w i e res) (sent @ accepted w i [e]) s1 =
      ((res', None, sent'), s')"
    by blast
  note I = Cons.IH [OF rest Cons.prems(2) s1(2)]
  have new: "event_ID e \<notin> event_ID ` set es" and ids: "distinct (map event_ID es)"
    using Cons.prems(4) by auto
  have "map_of (oview s') (event_ID e) = Some e1"
    using process_events_frame [OF rest Cons.prems(2) s1(2)] new s1(1) by simp
  moreover have "map_of (oview s1) (event_ID x) = map_of (oview s) (event_ID x)" if "x \<in> set es" for x
  proof -
    have "event_ID x \<noteq> event_ID e" using new that by (metis imageI)
    then show ?thesis by (simp add: s1(1))
  qed
  moreover note enumerate_member
  ultimately show ?case
    using I ids e0 e1 length_accepted [of w "Suc i" es] by (auto simp: counted_def Suc_diff_le) fastforce+
qed

text \<open>
  A batch, whatever fails in it: it takes only events that can be claimed, at most as many as its
  size, leaves all the others as they are, and sends each of its events at most once.
\<close>

lemma process_batch_frame:
  assumes run: "ProcessBatch w env s = (po, s')" and w: "w_repository w = Q" and inv: "oinv s"
  obtains es n where "oinv s'" "same_keys (oview s) (oview s')" "distinct (map event_ID es)"
    "int (length es) \<le> max 0 (w_batchSize w)" "po_sent po = accepted w 0 (take n es)"
    "\<And>e. e \<in> set es \<Longrightarrow> \<exists>old wid. map_of (oview s) (event_ID e) = Some old \<and>
       claimable (tm (we_now env 1)) old \<and> e = claimed_by wid (tm (we_now env 1)) old"
    "\<And>k. k \<notin> event_ID ` set es \<Longrightarrow> map_of (oview s') k = map_of (oview s) k"
proof -
  let ?i = "\<lparr>ci_WorkerID = w_workerID w, ci_Limit = w_batchSize w, ci_Now = we_now env 1\<rparr>"
  let ?claim = "or_ClaimPendingEvents Q (we_call env 1) ?i"
  obtain st where stats: "or_Stats Q (we_call env 0) (we_now env 0) s = (st, s)"
    using stats_state by (metis prod.exhaust_sel)
  show thesis
  proof (cases st)
    case (Inl err)
    then show thesis using run stats inv w by (intro that [of "[]" 0]) (auto simp: ProcessBatch_def utc_def)
  next
    case (Inr st1)
    obtain r s2 where tx: "WithinTx (w_transactor w) ?claim s = (r, s2)" by fastforce
    have quiet: "s2 = s \<or> (\<exists>es. ?claim s = (Inr es, s2))"
      using WithinTx_cases [OF tx] error_states(1) [OF inv] by (metis sum.exhaust)
    note D = run [unfolded ProcessBatch_def utc_def w stats Inr prod.case sum.case Let_def tx]
    show thesis
    proof (cases r)
      case (Inl err)
      then have po: "po_sent po = []" "s' = s2" using D by auto
      show thesis
      proof (cases "s2 = s")
        case True
        then show thesis using po inv by (intro that [of "[]" 0]) auto
      next
        case False
        then obtain es where "?claim s = (Inr es, s2)" using quiet by blast
        note C = claim_law [OF inv this]
        show thesis
          by (rule that [of es 0]) (use C po in \<open>auto simp: claim_ok_def\<close>)
      qed
    next
      case (Inr es)
      then have claim: "?claim s = (Inr es, s2)" using WithinTx_success tx by metis
      note C = claim_law [OF inv claim]
      obtain res err sent where loop: "process_events w env 0 es
          (zero_result\<lparr>pr_Claimed := int (length es)\<rparr>) [] s2 = ((res, err, sent), s')"
        and po: "po_sent po = sent"
        using D Inr by (auto split: prod.splits)
      have "oinv s2" using C by blast
      note F = process_events_frame [OF loop w this]
      then obtain n where n: "sent = accepted w 0 (take n es)" by auto
      show thesis
      proof (rule that [of es n])
        show "same_keys (oview s) (oview s')" using C F same_keys_trans by blast
      qed (use C F n po in \<open>auto simp: claim_ok_def\<close>)
    qed
  qed
qed

text \<open>A batch that reports no error has settled the fate of every event it claimed.\<close>

lemma process_batch_done:
  assumes run: "ProcessBatch w env s = (po, s')" and w: "w_repository w = Q" and inv: "oinv s"
    and fine: "po_error po = None"
  obtains es where "po_sent po = accepted w 0 es"
    "pr_Claimed (po_result po) = int (length es)"
    "pr_Published (po_result po) = int (length (accepted w 0 es))"
    "pr_Failed (po_result po) = int (length es) - int (length (accepted w 0 es))"
    "\<And>j e. (j, e) \<in> set (enumerate 0 es) \<Longrightarrow> \<exists>old wid e1. map_of (oview s) (event_ID e) = Some old \<and>
       claimable (tm (we_now env 1)) old \<and> e = claimed_by wid (tm (we_now env 1)) old \<and>
       marked w env j e e e1 \<and> map_of (oview s') (event_ID e) = Some e1"
proof -
  let ?i = "\<lparr>ci_WorkerID = w_workerID w, ci_Limit = w_batchSize w, ci_Now = we_now env 1\<rparr>"
  let ?claim = "or_ClaimPendingEvents Q (we_call env 1) ?i"
  obtain st where stats: "or_Stats Q (we_call env 0) (we_now env 0) s = (st, s)"
    using stats_state by (metis prod.exhaust_sel)
  obtain r s2 where tx: "WithinTx (w_transactor w) ?claim s = (r, s2)" by fastforce
  obtain es res sent where r: "r = Inr es" and loop: "process_events w env 0 es
      (zero_result\<lparr>pr_Claimed := int (length es)\<rparr>) [] s2 = ((res, None, sent), s')"
    and po: "po_sent po = sent" "po_result po = res"
    using run fine w stats tx
    by (auto simp: ProcessBatch_def utc_def Let_def split: sum.splits prod.splits)
  have claim: "?claim s = (Inr es, s2)" using WithinTx_success tx r by metis
  note C = claim_law [OF inv claim]
  have s2: "oinv s2" and ids: "distinct (map event_ID es)" using C by (auto simp: claim_ok_def)
  note F = process_events_frame [OF loop w s2] and P = process_events_done [OF loop w s2 ids]
  show thesis
  proof (rule that [of es])
    fix j e assume je: "(j, e) \<in> set (enumerate 0 es)"
    then have e: "e \<in> set es" by (rule enumerate_member)
    obtain e0 e1 where m: "map_of (oview s2) (event_ID e) = Some e0" "marked w env j e e0 e1"
      "map_of (oview s') (event_ID e) = Some e1"
      using P je by blast
    have "map_of (oview s2) (event_ID e) = Some e" using C e unfolding claim_ok_def by blast
    with m have "e0 = e" by simp
    moreover obtain old wid where "map_of (oview s) (event_ID e) = Some old"
      "claimable (tm (we_now env 1)) old" "e = claimed_by wid (tm (we_now env 1)) old"
      using C e unfolding claim_ok_def by auto
    ultimately show "\<exists>old wid e1. map_of (oview s) (event_ID e) = Some old \<and>
       claimable (tm (we_now env 1)) old \<and> e = claimed_by wid (tm (we_now env 1)) old \<and>
       marked w env j e e e1 \<and> map_of (oview s') (event_ID e) = Some e1"
      using m by blast
  qed (use F P po length_accepted [of w 0 es] in \<open>auto simp: zero_result_def of_nat_diff\<close>)
qed

end


section \<open>The in-memory repository keeps the promise\<close>

text \<open>The surroundings of a call: the error of its context and the wall clock \<open>Stats\<close> falls back on.\<close>

definition memory_outbox :: "(error option \<times> time, event gomap) outbox_repository" where
  "memory_outbox =
     \<lparr>or_ClaimPendingEvents = (\<lambda>c. ClaimPendingEvents (fst c)),
      or_MarkEventPublished = (\<lambda>c. MarkEventPublished (fst c)),
      or_MarkEventFailed = (\<lambda>c. MarkEventFailed (fst c)),
      or_Stats = (\<lambda>c. Stats (fst c) (snd c))\<rparr>"

declare memory_outbox_def [go_eval]

lemma same_keys_update_all:
  "\<forall>e \<in> set es. \<exists>old. map_of m (event_ID e) = Some old \<and> event_label e = event_label old \<Longrightarrow>
   same_keys m (update_all es m)"
proof (induction es arbitrary: m)
  case Nil
  then show ?case by simp
next
  case (Cons e es)
  then obtain v where "map_of m (event_ID e) = Some v" "event_label e = event_label v" by auto
  then have "same_keys m (AList.update (event_ID e) e m)" by (rule same_keys_update)
  moreover have "same_keys (AList.update (event_ID e) e m) (update_all es (AList.update (event_ID e) e m))"
    using Cons by (intro Cons.IH) auto
  ultimately show ?case using same_keys_trans by simp
qed

lemma ClaimPendingEvents_keys:
  assumes wf: "gm_wf event_ID m" and run: "ClaimPendingEvents ce i m = (r, m')"
  shows "same_keys m m'"
proof (cases "trim_space (ci_WorkerID i) = '''' \<or> ce \<noteq> None")
  case True
  then have "m' = m"
    using run ClaimPendingEvents_no_worker [of i ce m] by (auto simp: ClaimPendingEvents_def)
  then show ?thesis by simp
next
  case False
  let ?es = "map (claimed_by (trim_space (ci_WorkerID i)) (ci_Now i))
    (take (nat (ci_Limit i)) (candidates (ci_Now i) m))"
  have "m' = update_all ?es m"
    using run ClaimPendingEvents_eq [OF _ wf, of i] False by (simp add: Let_def)
  moreover have "\<forall>e \<in> set ?es. \<exists>old. map_of m (event_ID e) = Some old \<and> event_label e = event_label old"
    using set_candidates [OF wf] by (auto dest: in_set_takeD)
  ultimately show ?thesis using same_keys_update_all by blast
qed

interpretation memq: event_queue memory_outbox "\<lambda>m. m" "gm_wf event_ID" "\<lambda>t. t"
proof unfold_locales
  fix s s' :: "event gomap" and c i es
  assume "gm_wf event_ID s" "or_ClaimPendingEvents memory_outbox c i s = (Inr es, s')"
  then show "claim_ok s (i\<lparr>ci_Now := ci_Now i\<rparr>) es s' \<and> same_keys s s' \<and> gm_wf event_ID s'"
    using ClaimPendingEvents_ok [of s "fst c" i es s'] ClaimPendingEvents_keys [of s "fst c" i "Inr es" s']
    by (simp add: memory_outbox_def)
next
  fix s s' :: "event gomap" and c i err
  assume "gm_wf event_ID s" "or_ClaimPendingEvents memory_outbox c i s = (Inl err, s')"
  then show "s' = s" using ClaimPendingEvents_error by (simp add: memory_outbox_def)
next
  fix s s' :: "event gomap" and c k now e'
  assume "gm_wf event_ID s" "or_MarkEventPublished memory_outbox c k now s = (Inr e', s')"
  then show "\<exists>e. map_of s k = Some e \<and> event_Status e = EventInProgress \<and>
      e' = published_at now e \<and> s' = AList.update k e' s \<and> gm_wf event_ID s'"
    using gm_wf_key [of event_ID s k]
    by (auto simp: memory_outbox_def op_success published_at_def intro!: gm_wf_update)
next
  fix s s' :: "event gomap" and c j e'
  assume "gm_wf event_ID s" "or_MarkEventFailed memory_outbox c j s = (Inr e', s')"
  then show "\<exists>e msg. map_of s (mfi_EventID j) = Some e \<and> event_Status e = EventInProgress \<and>
      e' = failed_at msg (mfi_NextAvailable j) (mfi_Now j) e \<and>
      s' = AList.update (mfi_EventID j) e' s \<and> gm_wf event_ID s'"
    using gm_wf_key [of event_ID s "mfi_EventID j"]
    by (auto simp: memory_outbox_def op_success failed_at_def intro!: gm_wf_update)
next
  fix s s' :: "event gomap" and c now r
  assume "or_Stats memory_outbox c now s = (r, s')"
  then show "s' = s" by (auto simp: memory_outbox_def Stats_def Let_def split: option.splits prod.splits)
next
  fix s s' :: "event gomap" and c k now err
  assume "or_MarkEventPublished memory_outbox c k now s = (Inl err, s')"
  then show "s' = s" using mark_error_state(1) by (simp add: memory_outbox_def)
next
  fix s s' :: "event gomap" and c j err
  assume "or_MarkEventFailed memory_outbox c j s = (Inl err, s')"
  then show "s' = s" using mark_error_state(2) by (simp add: memory_outbox_def)
qed

end
