(* ===== verification/OutboxPostgres.thy ===== *)
theory OutboxPostgres
  imports OutboxWorker PostgresBackend
begin

text \<open>
  \<open>internal/outbox/adapters/postgres\<close>: claiming, marking and counting of events in the table
  \<open>outbox_events\<close>, and the worker of \<open>cmd/paycore-outbox-worker\<close> on top of it. The
  repository keeps the worker's contract.
\<close>

section \<open>The statements\<close>

text \<open>
  The rows a claim takes, and the row it makes of each; \<open>attempts\<close> is a 32-bit column. The
  worker's name goes into the row as it is.
\<close>

definition pg_candidates :: "pg_call \<Rightarrow> claim_input \<Rightarrow> pgdb \<Rightarrow> event list" where
  "pg_candidates c input s =
     sql_limit (ci_Limit input) (sort_key claim_key
       (filter (\<lambda>r. claimable (db_time (utc (ci_Now input))) r \<and> event_ID r \<notin> set (pgc_locked c))
         (gm_values (t_outbox_events s))))"

definition pg_claimed_row :: "claim_input \<Rightarrow> event \<Rightarrow> event" where
  "pg_claimed_row input r =
     r\<lparr>event_Status := EventInProgress, Attempts := Attempts r + 1,
       LockedAt := Some (db_time (utc (ci_Now input))), LockedBy := Some (ci_WorkerID input),
       event_LastError := None, event_UpdatedAt := db_time (utc (ci_Now input))\<rparr>"

definition pg_ClaimPendingEvents ::
  "bool \<Rightarrow> pg_call \<Rightarrow> claim_input \<Rightarrow> (pgdb, event list) act" where
  "pg_ClaimPendingEvents in_tx c input s =
     (if ci_Limit input \<le> 0 then (Inr [], s)
      else if \<not> in_tx
        then (Inl (ErrMsg ''claim pending outbox events requires an active transaction''), s)
      else case pgc_err c of Some e \<Rightarrow> (Inl e, s)
      | None \<Rightarrow>
        let rows = map (pg_claimed_row input) (pg_candidates c input s) in
        if \<not> list_all (\<lambda>r. sint (Attempts r) < 2 ^ 31) rows then (Inl (DbErr ''integer out of range''), s)
        else (Inr (reorder (pgc_order c) rows),
              s\<lparr>t_outbox_events := update_all rows (t_outbox_events s)\<rparr>))"

definition in_progress_row :: "pgdb \<Rightarrow> string \<Rightarrow> event option" where
  "in_progress_row s eventID =
     (case map_of (t_outbox_events s) eventID of None \<Rightarrow> None
      | Some r \<Rightarrow> if event_Status r = EventInProgress then Some r else None)"

definition pg_MarkEventPublished :: "pg_call \<Rightarrow> string \<Rightarrow> time \<Rightarrow> (pgdb, event) act" where
  "pg_MarkEventPublished c eventID now s =
     pg_update (pgc_err c) (in_progress_row s eventID) ErrEventNotFound
       (\<lambda>r. Inr (r\<lparr>event_Status := EventPublished, PublishedAt := Some (db_time (utc now)),
          LockedAt := None, LockedBy := None, event_LastError := None,
          event_UpdatedAt := db_time (utc now)\<rparr>))
       event_checks (\<lambda>r. True)
       (\<lambda>r s. s\<lparr>t_outbox_events := AList.update eventID r (t_outbox_events s)\<rparr>) s"

definition pg_MarkEventFailed :: "pg_call \<Rightarrow> mark_failed_input \<Rightarrow> (pgdb, event) act" where
  "pg_MarkEventFailed c input s =
     pg_update (pgc_err c) (in_progress_row s (mfi_EventID input)) ErrEventNotFound
       (\<lambda>r. Inr (r\<lparr>event_Status := EventFailed, AvailableAt := db_time (utc (mfi_NextAvailable input)),
          LockedAt := None, LockedBy := None, PublishedAt := None,
          event_LastError := Some (mfi_ErrorMessage input),
          event_UpdatedAt := db_time (utc (mfi_Now input))\<rparr>))
       event_checks (\<lambda>r. True)
       (\<lambda>r s. s\<lparr>t_outbox_events := AList.update (mfi_EventID input) r (t_outbox_events s)\<rparr>) s"

text \<open>The query compares with the database's precision; the lag is computed in Go.\<close>

definition pg_Stats :: "pg_call \<Rightarrow> time \<Rightarrow> time \<Rightarrow> (pgdb, stats) act" where
  "pg_Stats c wall now0 s =
     (let now = (if is_zero (utc now0) then utc wall else utc now0);
          rows = filter (claimable (db_time now)) (gm_values (t_outbox_events s)) in
      case pgc_err c of Some e \<Rightarrow> (Inl e, s)
      | None \<Rightarrow> (Inr \<lparr>PendingEvents = int (length rows),
          PublishLag = publish_lag now (if rows = [] then None else Some (Min (set (map AvailableAt rows))))\<rparr>, s))"

definition postgres_outbox :: "bool \<Rightarrow> (pg_call \<times> time, pgdb) outbox_repository" where
  "postgres_outbox in_tx =
     \<lparr>or_ClaimPendingEvents = (\<lambda>c. pg_ClaimPendingEvents in_tx (fst c)),
      or_MarkEventPublished = (\<lambda>c. pg_MarkEventPublished (fst c)),
      or_MarkEventFailed = (\<lambda>c. pg_MarkEventFailed (fst c)),
      or_Stats = (\<lambda>c. pg_Stats (fst c) (snd c))\<rparr>"

text \<open>The worker of the command: it claims within a transaction of the database.\<close>

definition postgres_worker ::
  "tx_answers \<Rightarrow> (nat \<Rightarrow> event \<Rightarrow> string option) \<Rightarrow> bool \<Rightarrow> string \<Rightarrow> int \<Rightarrow> string \<Rightarrow>
   error + (pg_call \<times> time, pgdb) worker" where
  "postgres_worker db publish metrics workerID batchSize name =
     NewWorker \<lparr>wc_Repository = Some (postgres_outbox True), wc_Publisher = Some publish,
       wc_Transactor = Some (PostgresTransactor db), wc_Metrics = metrics, wc_WorkerID = workerID,
       wc_BatchSize = batchSize, wc_PublisherName = name\<rparr>"

lemmas postgres_outbox_defs = pg_candidates_def pg_claimed_row_def pg_ClaimPendingEvents_def
  in_progress_row_def pg_MarkEventPublished_def pg_MarkEventFailed_def pg_Stats_def
  postgres_outbox_def postgres_worker_def

declare postgres_outbox_defs [go_eval]

section \<open>The contract\<close>

lemma postgres_worker_Inr:
  assumes "postgres_worker db publish m i n name = Inr w"
  shows "w_repository w = postgres_outbox True" "w_publisher w = publish"
    "w_transactor w = PostgresTransactor db" "0 < w_batchSize w"
  using assms by (auto simp: postgres_worker_def NewWorker_def)

lemma pg_claimed_row_eq:
  "pg_claimed_row i r = claimed_by (ci_WorkerID i) (db_time (ci_Now i)) r"
  by (simp add: pg_claimed_row_def claimed_by_def utc_def)

lemma pg_claim_rows:
  assumes wf: "gm_wf event_ID (t_outbox_events s)"
  shows "set (pg_candidates c i s) \<subseteq> set (candidates (db_time (ci_Now i)) (t_outbox_events s))"
    "distinct (map event_ID (pg_candidates c i s))"
    "int (length (pg_candidates c i s)) \<le> max 0 (ci_Limit i)"
proof -
  define xs where "xs = filter (\<lambda>r. claimable (db_time (ci_Now i)) r \<and> event_ID r \<notin> set (pgc_locked c))
    (gm_values (t_outbox_events s))"
  have rows: "pg_candidates c i s = take (nat (ci_Limit i)) (sort_key claim_key xs)"
    by (simp add: pg_candidates_def sql_limit_def utc_def xs_def)
  have "distinct (map event_ID xs)"
    unfolding xs_def using distinct_gm_values [OF wf] by (rule distinct_map_filter)
  then have "distinct (map event_ID (sort_key claim_key xs))"
    by (metis mset_map mset_sort mset_eq_imp_distinct_iff)
  then show "distinct (map event_ID (pg_candidates c i s))"
    unfolding rows by (metis distinct_take take_map)
  show "int (length (pg_candidates c i s)) \<le> max 0 (ci_Limit i)" unfolding rows by simp
  show "set (pg_candidates c i s) \<subseteq> set (candidates (db_time (ci_Now i)) (t_outbox_events s))"
    unfolding rows by (auto simp: candidates_def xs_def dest!: in_set_takeD)
qed

lemma claim_ok_mset:
  assumes "claim_ok m i es m'" "mset es' = mset es"
  shows "claim_ok m i es' m'"
proof -
  have "set es' = set es" "length es' = length es" "distinct (map event_ID es') = distinct (map event_ID es)"
    using assms(2) by (metis set_mset_mset, metis size_mset, metis mset_map mset_eq_imp_distinct_iff)
  then show ?thesis using assms(1) unfolding claim_ok_def by simp
qed

lemma pg_Claim_success:
  assumes wf: "gm_wf event_ID (t_outbox_events s)"
    and run: "pg_ClaimPendingEvents in_tx c i s = (Inr es, s')"
  shows "claim_ok (t_outbox_events s) (i\<lparr>ci_Now := db_time (ci_Now i)\<rparr>) es (t_outbox_events s')"
    "same_keys (t_outbox_events s) (t_outbox_events s')"
    "s' = s\<lparr>t_outbox_events := t_outbox_events s'\<rparr>" "gm_wf event_ID (t_outbox_events s')"
proof -
  define rows where "rows = map (claimed_by (ci_WorkerID i) (db_time (ci_Now i))) (pg_candidates c i s)"
  have rows_eq: "map (pg_claimed_row i) (pg_candidates c i s) = rows"
    by (simp add: rows_def pg_claimed_row_eq)
  consider "ci_Limit i \<le> 0" "es = []" "s' = s"
    | "mset es = mset rows" "s' = s\<lparr>t_outbox_events := update_all rows (t_outbox_events s)\<rparr>"
    using run unfolding pg_ClaimPendingEvents_def rows_eq Let_def
    by (auto split: if_splits option.splits)
  then have *: "claim_ok (t_outbox_events s) (i\<lparr>ci_Now := db_time (ci_Now i)\<rparr>) es (t_outbox_events s') \<and>
    same_keys (t_outbox_events s) (t_outbox_events s') \<and> s' = s\<lparr>t_outbox_events := t_outbox_events s'\<rparr> \<and>
    gm_wf event_ID (t_outbox_events s')"
  proof cases
    case 1
    then show ?thesis using wf by (simp add: claim_ok_def)
  next
    case 2
    note R = pg_claim_rows [OF wf, of c i]
    have "claim_ok (t_outbox_events s) (i\<lparr>ci_Now := db_time (ci_Now i)\<rparr>) rows
        (update_all rows (t_outbox_events s))"
      using claim_ok_update_all [OF wf, of "pg_candidates c i s" "i\<lparr>ci_Now := db_time (ci_Now i)\<rparr>"] R
      by (simp add: rows_def)
    moreover have "same_keys (t_outbox_events s) (update_all rows (t_outbox_events s))"
      using R(1) set_candidates [OF wf] by (intro same_keys_update_all) (auto simp: rows_def)
    ultimately show ?thesis using 2 claim_ok_mset gm_wf_update_all [OF wf] by auto
  qed
  then show "claim_ok (t_outbox_events s) (i\<lparr>ci_Now := db_time (ci_Now i)\<rparr>) es (t_outbox_events s')"
    "same_keys (t_outbox_events s) (t_outbox_events s')"
    "s' = s\<lparr>t_outbox_events := t_outbox_events s'\<rparr>" "gm_wf event_ID (t_outbox_events s')"
    by blast+
qed

text \<open>The rest of the database is out of the worker's reach.\<close>

definition outbox_only :: "pgdb \<Rightarrow> pgdb \<Rightarrow> bool" where
  "outbox_only s0 s \<longleftrightarrow> gm_wf event_ID (t_outbox_events s) \<and> s = s0\<lparr>t_outbox_events := t_outbox_events s\<rparr>"

lemma outbox_only_update:
  assumes "outbox_only s0 s" "gm_wf event_ID es"
  shows "outbox_only s0 (s\<lparr>t_outbox_events := es\<rparr>)"
proof -
  obtain es0 where s: "s = s0\<lparr>t_outbox_events := es0\<rparr>" using assms(1) unfolding outbox_only_def by blast
  show ?thesis using assms(2) by (simp add: outbox_only_def s)
qed

lemma in_progress_row_Some:
  "in_progress_row s k = Some r \<longleftrightarrow> map_of (t_outbox_events s) k = Some r \<and> event_Status r = EventInProgress"
  by (auto simp: in_progress_row_def split: option.splits)

interpretation pgq: event_queue "postgres_outbox True" t_outbox_events "outbox_only s0" db_time
proof unfold_locales
  fix s s' and c :: "pg_call \<times> time" and i es
  assume inv: "outbox_only s0 s" and "or_ClaimPendingEvents (postgres_outbox True) c i s = (Inr es, s')"
  then have run: "pg_ClaimPendingEvents True (fst c) i s = (Inr es, s')" by (simp add: postgres_outbox_def)
  have wf: "gm_wf event_ID (t_outbox_events s)" using inv by (simp add: outbox_only_def)
  note C = pg_Claim_success [OF wf run]
  have "outbox_only s0 s'" using outbox_only_update [OF inv C(4)] C(3) by metis
  then show "claim_ok (t_outbox_events s) (i\<lparr>ci_Now := db_time (ci_Now i)\<rparr>) es (t_outbox_events s') \<and>
      same_keys (t_outbox_events s) (t_outbox_events s') \<and> outbox_only s0 s'"
    using C by blast
next
  fix s s' and c :: "pg_call \<times> time" and i err
  assume "or_ClaimPendingEvents (postgres_outbox True) c i s = (Inl err, s')"
  then show "s' = s"
    by (auto simp: postgres_outbox_def pg_ClaimPendingEvents_def Let_def split: if_splits option.splits)
next
  fix s s' and c :: "pg_call \<times> time" and k now e'
  assume inv: "outbox_only s0 s" and
    run: "or_MarkEventPublished (postgres_outbox True) c k now s = (Inr e', s')"
  obtain e where e: "map_of (t_outbox_events s) k = Some e" "event_Status e = EventInProgress"
    and e': "e' = published_at (db_time now) e"
    and s': "s' = s\<lparr>t_outbox_events := AList.update k e' (t_outbox_events s)\<rparr>"
    using run by (auto simp: postgres_outbox_def pg_MarkEventPublished_def pg_update_success
        in_progress_row_Some published_at_def utc_def)
  have "event_ID e = k" using inv e(1) gm_wf_key unfolding outbox_only_def by metis
  then have "gm_wf event_ID (AList.update k e' (t_outbox_events s))"
    using inv e' by (auto simp: outbox_only_def intro: gm_wf_update)
  then have "outbox_only s0 s'" unfolding s' by (rule outbox_only_update [OF inv])
  then show "\<exists>e. map_of (t_outbox_events s) k = Some e \<and> event_Status e = EventInProgress \<and>
      e' = published_at (db_time now) e \<and> t_outbox_events s' = AList.update k e' (t_outbox_events s) \<and>
      outbox_only s0 s'"
    using e e' s' by auto
next
  fix s s' and c :: "pg_call \<times> time" and j e'
  assume inv: "outbox_only s0 s" and run: "or_MarkEventFailed (postgres_outbox True) c j s = (Inr e', s')"
  obtain e where e: "map_of (t_outbox_events s) (mfi_EventID j) = Some e" "event_Status e = EventInProgress"
    and e': "e' = failed_at (mfi_ErrorMessage j) (db_time (mfi_NextAvailable j)) (db_time (mfi_Now j)) e"
    and s': "s' = s\<lparr>t_outbox_events := AList.update (mfi_EventID j) e' (t_outbox_events s)\<rparr>"
    using run by (auto simp: postgres_outbox_def pg_MarkEventFailed_def pg_update_success
        in_progress_row_Some failed_at_def utc_def)
  have "event_ID e = mfi_EventID j" using inv e(1) gm_wf_key unfolding outbox_only_def by metis
  then have "gm_wf event_ID (AList.update (mfi_EventID j) e' (t_outbox_events s))"
    using inv e' by (auto simp: outbox_only_def intro: gm_wf_update)
  then have "outbox_only s0 s'" unfolding s' by (rule outbox_only_update [OF inv])
  then show "\<exists>e msg. map_of (t_outbox_events s) (mfi_EventID j) = Some e \<and>
      event_Status e = EventInProgress \<and>
      e' = failed_at msg (db_time (mfi_NextAvailable j)) (db_time (mfi_Now j)) e \<and>
      t_outbox_events s' = AList.update (mfi_EventID j) e' (t_outbox_events s) \<and> outbox_only s0 s'"
    using e e' s' by auto
next
  fix s s' and c :: "pg_call \<times> time" and now r
  assume "or_Stats (postgres_outbox True) c now s = (r, s')"
  then show "s' = s" by (auto simp: postgres_outbox_def pg_Stats_def Let_def split: option.splits)
next
  fix s s' and c :: "pg_call \<times> time" and k now err
  assume "or_MarkEventPublished (postgres_outbox True) c k now s = (Inl err, s')"
  then show "s' = s"
    using pg_statement_error(2) by (auto simp: postgres_outbox_def pg_MarkEventPublished_def)
next
  fix s s' and c :: "pg_call \<times> time" and j err
  assume "or_MarkEventFailed (postgres_outbox True) c j s = (Inl err, s')"
  then show "s' = s"
    using pg_statement_error(2) by (auto simp: postgres_outbox_def pg_MarkEventFailed_def)
qed

end
