(* ===== verification/PaymentSystem.thy ===== *)
theory PaymentSystem
  imports SettlementPostgres LedgerHistory OutboxPostgres
begin

text \<open>
  The program over its database: what each use case does to the tables when it is called on
  \<open>postgres_service\<close> and \<open>postgres_settlement_service\<close>, whatever the database answers,
  as the step relation \<open>pg_step\<close>; the states it reaches from empty tables; and the invariant
  \<open>pg_ok\<close> that every step keeps.
\<close>

section \<open>The steps\<close>

text \<open>
  One call of a use case that runs alone: the service's inputs, the surroundings of its statements
  (\<open>c\<close>, \<open>env\<close>) and the answers of the database to \<open>Begin\<close>, \<open>Commit\<close> and
  \<open>Rollback\<close> (\<open>db\<close>) are arbitrary. The database runs transactions at the same time, each statement
  seeing what was committed before it; \<open>Histories\<close> has the runs in which use cases overlap and says
  which of them are runs of these steps.
\<close>

inductive pg_step :: "pgdb \<Rightarrow> pgdb \<Rightarrow> bool" where
  create_merchant:
    "MerchantService_CreateMerchant (pg_CreateMerchant c) now mi s = (r, s') \<Longrightarrow> pg_step s s'"
| create_payer:
    "PayerService_CreatePayer (pg_CreatePayer c) now pi s = (r, s') \<Longrightarrow> pg_step s s'"
| authorize:
    "AuthorizePayment (postgres_service db) env ai s = (r, s') \<Longrightarrow> pg_step s s'"
| capture:
    "CapturePayment (postgres_service db) env pid s = (r, s') \<Longrightarrow> pg_step s s'"
| expire:
    "ExpireAuthorizedPayments (postgres_service db) env limit s = (r, s') \<Longrightarrow> pg_step s s'"
| settle:
    "postgres_settlement_service db metrics worker limit ttl = Inr svc \<Longrightarrow>
     CreateBatch svc env ws we s = (r, s') \<Longrightarrow> pg_step s s'"
| recover:
    "postgres_settlement_service db metrics worker limit ttl = Inr svc \<Longrightarrow>
     RecoverStaleBatches svc env n s = (r, s') \<Longrightarrow> pg_step s s'"
| publish_events:
    "postgres_worker db publish metrics worker batchSize name = Inr w \<Longrightarrow>
     ProcessBatch w wenv s = (po, s') \<Longrightarrow> pg_step s s'"

inductive_cases pg_stepE: "pg_step s s'"

inductive pg_reachable :: "pgdb \<Rightarrow> bool" where
  initial: "pg_reachable empty_pgdb"
| step: "pg_reachable s \<Longrightarrow> pg_step s s' \<Longrightarrow> pg_reachable s'"

definition pg_ok :: "pgdb \<Rightarrow> bool" where
  "pg_ok s \<longleftrightarrow> pg_inv s \<and> ledger_ok (pg_view s) \<and> settlement_ok (pg_view s) (pg_slots s)"

lemma pg_okD:
  assumes "pg_ok s"
  shows "pg_inv s" "ledger_ok (pg_view s)" "settlement_ok (pg_view s) (pg_slots s)"
  using assms unfolding pg_ok_def by simp_all

lemma pg_ok_empty: "pg_ok empty_pgdb"
  unfolding pg_ok_def
proof (intro conjI)
  show "pg_inv empty_pgdb" by (rule pg_inv_empty)
  show "ledger_ok (pg_view empty_pgdb)"
    using ledger_ok_empty by (simp add: pg_view_def empty_pgdb_def empty_ledger_def)
  show "settlement_ok (pg_view empty_pgdb) (pg_slots empty_pgdb)"
    by (rule settlement_okI) (simp_all add: empty_pgdb_def)
qed

section \<open>The tables of settlement under the payment use cases\<close>

lemma act_keeps_if [intro]: "act_keeps P m \<Longrightarrow> act_keeps P m' \<Longrightarrow> act_keeps P (if b then m else m')"
  by simp

lemma act_keeps_slots_ops:
  "act_keeps (\<lambda>s. pg_slots s = S) (pg_GetMerchant c i)"
  "act_keeps (\<lambda>s. pg_slots s = S) (pg_GetPayer e i)"
  "act_keeps (\<lambda>s. pg_slots s = S) (pg_GetPayment c i)"
  "act_keeps (\<lambda>s. pg_slots s = S) (pg_GetHoldByPaymentID c i)"
  "act_keeps (\<lambda>s. pg_slots s = S) (pg_ListExpiredAuthorizedPayments c now limit)"
  "act_keeps (\<lambda>s. pg_slots s = S) (pg_CreatePayment c p)"
  "act_keeps (\<lambda>s. pg_slots s = S) (pg_UpdatePayment c p)"
  "act_keeps (\<lambda>s. pg_slots s = S) (pg_CreateHold c h)"
  "act_keeps (\<lambda>s. pg_slots s = S) (pg_UpdateHold c h)"
  "act_keeps (\<lambda>s. pg_slots s = S) (pg_CreateEvent c e')"
  by (auto simp: act_keeps_def pg_slots_def pg_GetMerchant_def pg_GetPayer_def pg_GetPayment_def
      pg_GetHoldByPaymentID_def pg_ListExpiredAuthorizedPayments_def pg_CreatePayment_def
      pg_UpdatePayment_def pg_CreateHold_def pg_UpdateHold_def pg_CreateEvent_def pg_select_row_def
      pg_select_rows_def pg_insert_def pg_update_def Let_def split: option.splits sum.splits)

lemma act_keeps_slots_UpdatePayer: "act_keeps (\<lambda>s. pg_slots s = S) (pg_UpdatePayer c y)"
  by (auto simp: act_keeps_def pg_UpdatePayer_def act_bind_def pg_update_def pg_GetPayer_def
      pg_select_row_def payerExists_def act_fail_def pg_slots_def split: option.splits sum.splits)

lemmas keeps_slots = act_keeps_slots_ops act_keeps_slots_UpdatePayer

lemma authorize_slots: "act_keeps (\<lambda>s. pg_slots s = S) (authorize_tx postgres_repos env ai)"
  unfolding authorize_tx_def Let_def postgres_repos_sel
  by (intro act_keeps_bind act_keeps_if act_keeps_fail act_keeps_lift act_keeps_return keeps_slots)

lemma capture_slots: "act_keeps (\<lambda>s. pg_slots s = S) (capture_tx postgres_repos env pid)"
  unfolding capture_tx_def Let_def postgres_repos_sel
  by (intro act_keeps_bind act_keeps_if act_keeps_fail act_keeps_lift act_keeps_return keeps_slots)

lemma expire_one_slots:
  "act_keeps (\<lambda>s. pg_slots s = S) (expire_one postgres_repos env k i now p)"
  unfolding expire_one_def postgres_repos_sel
  by (intro act_keeps_bind act_keeps_lift act_keeps_return keeps_slots)

lemma expire_loop_slots:
  "act_keeps (\<lambda>s. pg_slots s = S) (expire_loop postgres_repos env k i now ps acc)"
  by (induction ps arbitrary: k i acc) (auto intro!: act_keeps_bind expire_one_slots)

lemma expire_slots: "act_keeps (\<lambda>s. pg_slots s = S) (expire_tx postgres_repos env limit)"
  unfolding expire_tx_def Let_def postgres_repos_sel
  by (intro act_keeps_bind keeps_slots expire_loop_slots)

section \<open>What a step does\<close>

text \<open>The result of a step that took effect: the invariant holds and the history is kept.\<close>

definition good_step :: "pgdb \<Rightarrow> pgdb \<Rightarrow> bool" where
  "good_step s s' \<longleftrightarrow> pg_ok s' \<and> ledger_next (pg_view s) (pg_view s')"

lemma good_step_refl: "pg_ok s \<Longrightarrow> good_step s s"
  unfolding good_step_def using ledger_next_refl by blast

lemma good_stepI:
  assumes ok: "pg_ok s" and "pg_inv s'" "ledger_ok (pg_view s')" "pg_slots s' = pg_slots s"
    and next_s: "ledger_next (pg_view s) (pg_view s')" "settled_same (pg_view s) (pg_view s')"
  shows "good_step s s'"
  unfolding good_step_def pg_ok_def
  using settlement_ok_frame [OF pg_okD(3) [OF ok] next_s(2)] assms by simp

text \<open>The state after a use case is the state after its transaction.\<close>

lemma use_case_states:
  "snd (AuthorizePayment svc env ai s) =
     snd (WithinTx (svc_transactor svc) (authorize_tx (svc_repos svc) env ai) s)"
  "snd (CapturePayment svc env pid s) =
     snd (WithinTx (svc_transactor svc) (capture_tx (svc_repos svc) env pid) s)"
  "snd (ExpireAuthorizedPayments svc env n s) =
     snd (WithinTx (svc_transactor svc) (expire_tx (svc_repos svc) env (if n \<le> 0 then 100 else n)) s)"
  by (simp_all add: AuthorizePayment_def CapturePayment_def ExpireAuthorizedPayments_def Let_def
      split: prod.splits sum.splits)

lemma settlement_states:
  "snd (CreateBatch ssvc env ws we s) =
     snd (WithinTx (ss_transactor ssvc) (create_batch_tx ssvc env ws we) s)"
  "snd (RecoverStaleBatches ssvc env n s) =
     snd (WithinTx (ss_transactor ssvc) (recover_tx ssvc env (if n \<le> 0 then ss_claimLimit ssvc else n)) s)"
  by (simp_all add: CreateBatch_def RecoverStaleBatches_def Let_def split: prod.splits sum.splits)

lemma in_transaction:
  assumes ok: "pg_ok s" and run: "snd (WithinTx (PostgresTransactor db) fn s) = s'"
    and tx: "\<And>x s1. fn s = (Inr x, s1) \<Longrightarrow> good_step s s1"
  shows "good_step s s'"
  using WithinTx_atomic [of db fn s] run tx good_step_refl [OF ok] by (metis prod.collapse)

lemma authorize_step:
  assumes ok: "pg_ok s" and run: "AuthorizePayment (postgres_service db) env ai s = (r, s')"
  shows "good_step s s'"
proof (rule in_transaction [OF ok])
  show "snd (WithinTx (PostgresTransactor db) (authorize_tx postgres_repos env ai) s) = s'"
    using run use_case_states(1) [of "postgres_service db" env ai s] by simp
  fix x s1 assume tx: "authorize_tx postgres_repos env ai s = (Inr x, s1)"
  obtain y0 e0 e where w: "authorize_writes (pg_view s) y0 (res_Payer x) (res_Payment x) (res_Hold x)"
    and e0: "NewEvent (payment_event eventTypePaymentAuthorized (res_Payment x)
      (paymentAuthorizedPayload (res_Payment x) (res_Hold x)) (env_now env)) (env_rand env 2) = Inr e0" "same_event e0 e"
    and e: "map_of (l_events (pg_view s)) (event_ID e) = None"
    and s1: "pg_view s1 = ledger_write (res_Payer x) (res_Payment x) (res_Hold x) e (pg_view s)" "pg_inv s1"
    using pg.authorize_success [OF pg_okD(1,2) [OF ok] tx] by blast
  have label: "event_for (eventTypePaymentAuthorized, payment_ID (res_Payment x)) e"
    using w by (intro payment_event_label [OF e0]) (simp_all add: authorize_writes_def)
  have "pg_slots s1 = pg_slots s" by (rule act_keepsD [OF authorize_slots tx]) simp
  then show "good_step s s1"
    using s1 authorize_writes_ok [OF pg_okD(2) [OF ok] w] next_authorize [OF pg_okD(2) [OF ok] w e label]
    by (intro good_stepI [OF ok]) simp_all
qed

lemma capture_step:
  assumes ok: "pg_ok s" and run: "CapturePayment (postgres_service db) env pid s = (r, s')"
  shows "good_step s s'"
proof (rule in_transaction [OF ok])
  show "snd (WithinTx (PostgresTransactor db) (capture_tx postgres_repos env pid) s) = s'"
    using run use_case_states(2) [of "postgres_service db" env pid s] by simp
  fix x s1 assume tx: "capture_tx postgres_repos env pid s = (Inr x, s1)"
  obtain y0 p0 h0 e0 e where st: "payment_Status (res_Payment x) = StatusCaptured" and
    w: "finish_writes (pg_view s) y0 (res_Payer x) p0 (res_Payment x) h0 (res_Hold x)"
    and e0: "NewEvent (payment_event eventTypePaymentCaptured (res_Payment x)
      (paymentCapturedPayload (res_Payment x) (res_Hold x) (env_now env)) (env_now env)) (env_rand env 0) = Inr e0"
      "same_event e0 e"
    and e: "map_of (l_events (pg_view s)) (event_ID e) = None"
    and s1: "pg_view s1 = ledger_write (res_Payer x) (res_Payment x) (res_Hold x) e (pg_view s)" "pg_inv s1"
    using pg.capture_success [OF pg_okD(1,2) [OF ok] tx] by blast
  have label: "event_for (eventTypePaymentCaptured, payment_ID (res_Payment x)) e"
    by (intro payment_event_label [OF e0] finish_writesD(14) [OF pg_okD(2) [OF ok] w]) simp
  have "pg_slots s1 = pg_slots s" by (rule act_keepsD [OF capture_slots tx]) simp
  then show "good_step s s1"
    using s1 finish_writes_ok [OF pg_okD(2) [OF ok] w] next_finish [OF pg_okD(2) [OF ok] w e label]
    by (intro good_stepI [OF ok]) (simp_all add: st)
qed

lemma expire_step:
  assumes ok: "pg_ok s" and run: "ExpireAuthorizedPayments (postgres_service db) env n s = (r, s')"
  shows "good_step s s'"
proof (rule in_transaction [OF ok])
  define limit where "limit = (if n \<le> 0 then 100 else n)"
  have limit: "0 < limit" by (simp add: limit_def)
  show "snd (WithinTx (PostgresTransactor db) (expire_tx postgres_repos env limit) s) = s'"
    using run use_case_states(3) [of "postgres_service db" env n s] by (simp add: limit_def)
  fix x s1 assume tx: "expire_tx postgres_repos env limit s = (Inr x, s1)"
  obtain ps where inv: "pg_inv s1" and ps: "expired_list_ok (l_payments (pg_view s)) (env_now env) ps"
    and E: "expired_from (pg_view s) ps (pg_view s1)"
    using pg.expire_success [OF pg_okD(1,2) [OF ok] tx limit] by blast
  have "pg_slots s1 = pg_slots s" by (rule act_keepsD [OF expire_slots tx]) simp
  then show "good_step s s1"
    using inv E next_expired [OF pg_okD(2) [OF ok] ps E]
    by (intro good_stepI [OF ok]) (simp_all add: expired_from_def)
qed

lemma settle_step:
  assumes ok: "pg_ok s" and svc: "postgres_settlement_service db m w limit ttl = Inr svc"
    and run: "CreateBatch svc env ws we s = (r, s')"
  shows "good_step s s'"
proof (rule in_transaction [OF ok])
  note V = postgres_settlement_service_Inr [OF svc]
  show "snd (WithinTx (PostgresTransactor db) (create_batch_tx svc env ws we) s) = s'"
    using run settlement_states(1) [of svc env ws we s] by (simp add: V(3))
  fix x s1 assume tx: "create_batch_tx svc env ws we s = (Inr x, s1)"
  obtain ps where inv: "pg_inv s1" "batch_Status (br_Batch x) = BatchStatusCompleted"
      "map_of (sl_batches (pg_slots s)) (batch_ID (br_Batch x)) = None"
    and ps: "distinct (map payment_ID ps)"
      "\<forall>p \<in> set ps. claimable_in (pg_view s) (pg_slots s) (db_time ws) (db_time we) p"
    and B: "batch_settled (pg_view s) (pg_slots s) (br_Batch x) ps (br_LineItems x) (pg_view s1) (pg_slots s1)"
    using pg.create_batch_success [OF pg_okD(1,2) [OF ok] tx V(1,2)] by blast
  have "ledger_ok (pg_view s1)" using B unfolding batch_settled_def settled_from_def by blast
  then show "good_step s s1"
    unfolding good_step_def pg_ok_def
    using inv settlement_ok_batch [OF pg_okD(3) [OF ok] B inv(3,2) ps(2,1)]
      next_settled [OF pg_okD(2) [OF ok] B ps(2,1)] by blast
qed

text \<open>Every batch on record is complete, so recovery lists none.\<close>

lemma recover_step:
  assumes ok: "pg_ok s" and svc: "postgres_settlement_service db m w limit ttl = Inr svc"
    and run: "RecoverStaleBatches svc env n s = (r, s')"
  shows "s' = s"
proof -
  note V = postgres_settlement_service_Inr [OF svc]
  note S = settlement_okD [OF pg_okD(3) [OF ok]]
  have none: "\<forall>b \<in> set (gm_values (sl_batches (pg_slots s))). batch_Status b \<noteq> BatchStatusProcessing"
    using S(3) gm_values_lookup [OF S(1)] by (metis batch_status.distinct(7))
  have "s' = s \<or> (\<exists>x. recover_tx svc env (if n \<le> 0 then ss_claimLimit svc else n) s = (Inr x, s'))"
    using run settlement_states(2) [of svc env n s] V(3)
      WithinTx_atomic [of db "recover_tx svc env (if n \<le> 0 then ss_claimLimit svc else n)" s]
    by (metis prod.collapse snd_conv)
  then show ?thesis using pg.recover_nothing [OF _ V(1) none] by (metis prod.collapse)
qed

lemma merchant_step:
  assumes ok: "pg_ok s"
    and run: "MerchantService_CreateMerchant (pg_CreateMerchant c) now mi s = (r, s')"
  shows "good_step s s'"
proof (cases r)
  case (Inl e)
  then have "s' = s"
    using run unfolding MerchantService_CreateMerchant_def pg_CreateMerchant_def act_bind_def act_lift_def
    by (auto split: sum.splits dest: pg_statement_error)
  then show ?thesis using good_step_refl [OF ok] by simp
next
  case (Inr m)
  obtain m0 where m0: "NewMerchant (cmi_ID mi) (cmi_Name mi) (cmi_SettlementCurrency mi) now = Inr m0"
    and m: "merchant_row m0 = Inr m" "map_of (t_merchants s) (merchant_ID m) = None"
    and s': "s' = s\<lparr>t_merchants := AList.update (merchant_ID m) m (t_merchants s)\<rparr>"
    using run unfolding Inr MerchantService_CreateMerchant_def pg_CreateMerchant_def
    by (auto simp: act_simps pg_insert_success)
  have "merchant_ok m"
    using NewMerchant_ok [OF m0] m(1) unfolding merchant_row_def merchant_ok_def
    by (auto split: sum.splits)
  moreover have "pg_view s' = ledger_add_merchant m (pg_view s)" "pg_slots s' = pg_slots s"
    by (simp_all add: s' pg_view_def pg_slots_def ledger_add_merchant_def)
  ultimately show ?thesis
    using next_merchant [OF pg_okD(2) [OF ok]] m(2) add_merchant_ok(1) [OF pg_okD(2) [OF ok]] pg_okD(1) [OF ok]
    by (intro good_stepI [OF ok]) (simp_all add: s')
qed

lemma payer_step:
  assumes ok: "pg_ok s"
    and run: "PayerService_CreatePayer (pg_CreatePayer c) now pi s = (r, s')"
  shows "good_step s s'"
proof (cases r)
  case (Inl e)
  then have "s' = s"
    using run unfolding PayerService_CreatePayer_def pg_CreatePayer_def act_bind_def act_lift_def
    by (auto split: sum.splits dest: pg_statement_error)
  then show ?thesis using good_step_refl [OF ok] by simp
next
  case (Inr y)
  obtain y0 where y0: "NewPayer (cpi_ID pi) (cpi_AvailableBalanceMinor pi) (cpi_Currency pi) now = Inr y0"
    and y: "payer_row y0 = Inr y" "payer_checks y" "map_of (t_payers s) (payer_ID y) = None"
    and s': "s' = s\<lparr>t_payers := AList.update (payer_ID y) y (t_payers s)\<rparr>"
    using run unfolding Inr PayerService_CreatePayer_def pg_CreatePayer_def
    by (auto simp: act_simps pg_insert_success)
  have row: "payer_ok y" "HeldBalanceMinor y = 0" "length (payer_Currency y) = 3" "upper_check (payer_Currency y)"
    using NewPayer_ok [OF y0] y0 y(1,2) unfolding payer_row_def payer_ok_def payer_checks_def payer_total_def
    by (auto simp: NewPayer_success dest: length_char3 split: sum.splits)
  have view: "pg_view s' = ledger_add_payer y (pg_view s)" "pg_slots s' = pg_slots s"
    by (simp_all add: s' pg_view_def pg_slots_def ledger_add_payer_def)
  have new: "map_of (l_payers (pg_view s)) (payer_ID y) = None" using y(3) by simp
  have version: "payer_Version y = 0"
    using y0 y(1) unfolding payer_row_def by (auto simp: NewPayer_success split: sum.splits)
  show ?thesis
    using next_payer [OF pg_okD(2) [OF ok] row(1,2) new version] add_payer_ok(1) [OF pg_okD(2) [OF ok] row(1,2) new]
      pg_inv_payers [OF pg_okD(1) [OF ok] row(3,4)] view
    by (intro good_stepI [OF ok]) (simp_all add: s')
qed

lemma publish_step:
  assumes ok: "pg_ok s" and w: "postgres_worker db publish m i n name = Inr w"
    and run: "ProcessBatch w env s = (po, s')"
  shows "good_step s s'"
proof -
  note W = postgres_worker_Inr [OF w]
  have "outbox_only s s"
    using ledger_keys_okD(5) [OF ledger_okD(1) [OF pg_okD(2) [OF ok]]] by (simp add: outbox_only_def)
  from pgq.process_batch_frame [OF run W(1) this]
  obtain es k where s': "outbox_only s s'" "same_keys (t_outbox_events s) (t_outbox_events s')"
    and old: "\<And>e. e \<in> set es \<Longrightarrow> \<exists>old wid. map_of (t_outbox_events s) (event_ID e) = Some old \<and>
       claimable (db_time (we_now env 1)) old \<and> e = claimed_by wid (db_time (we_now env 1)) old"
    and same: "\<And>k. k \<notin> event_ID ` set es \<Longrightarrow> map_of (t_outbox_events s') k = map_of (t_outbox_events s) k"
    by metis
  have "taken_events (t_outbox_events s) \<subseteq>\<^sub>m taken_events (t_outbox_events s')"
  proof (rule taken_events_mono)
    fix k e assume e: "map_of (t_outbox_events s) k = Some e" "taken e"
    have "k \<notin> event_ID ` set es"
    proof
      assume "k \<in> event_ID ` set es"
      then obtain x where "x \<in> set es" "k = event_ID x" by blast
      then obtain old where "map_of (t_outbox_events s) k = Some old" "claimable (db_time (we_now env 1)) old"
        using old by blast
      then show False using e by (auto simp: taken_def claimable_def)
    qed
    then show "map_of (t_outbox_events s') k = Some e" using same e(1) by simp
  qed
  moreover have about: "events_about (t_outbox_events s') = events_about (l_events (pg_view s))"
    using s'(2) by (simp add: fun_eq_iff events_about_def same_keys_def)
  moreover have s'_eq: "s' = s\<lparr>t_outbox_events := t_outbox_events s'\<rparr>" and wf: "gm_wf event_ID (t_outbox_events s')"
    using s'(1) unfolding outbox_only_def by blast+
  moreover have "pg_view s' = (pg_view s)\<lparr>l_events := t_outbox_events s'\<rparr>" "pg_slots s' = pg_slots s" "pg_inv s'"
    by (subst s'_eq, simp add: pg_view_def pg_slots_def pg_okD(1) [OF ok])+
  ultimately show ?thesis
    using next_events [OF pg_okD(2) [OF ok] wf] about
    by (intro good_stepI [OF ok]) simp_all
qed

lemma pg_step_good: "pg_step s s' \<Longrightarrow> pg_ok s \<Longrightarrow> good_step s s'"
  by (erule pg_stepE)
    (simp_all add: merchant_step payer_step authorize_step capture_step expire_step settle_step
      publish_step,
     metis recover_step good_step_refl)

lemma pg_reachable_ok: "pg_reachable s \<Longrightarrow> pg_ok s"
  by (induction rule: pg_reachable.induct) (use pg_ok_empty pg_step_good good_step_def in blast)+

lemma pg_steps_good: "pg_step\<^sup>*\<^sup>* s s' \<Longrightarrow> pg_ok s \<Longrightarrow> good_step s s'"
proof (induction rule: rtranclp_induct)
  case base
  then show ?case by (rule good_step_refl)
next
  case (step s1 s2)
  then have "pg_ok s1" "ledger_next (pg_view s) (pg_view s1)" unfolding good_step_def by simp_all
  then show ?case
    using pg_step_good [OF step.hyps(2)] ledger_next_trans unfolding good_step_def by blast
qed

end
