(* ===== verification/Scenario.thy ===== *)
theory Scenario
  imports PaymentSystem
begin

text \<open>
  One run of the program, from an empty database to a settled and published payment, evaluated
  step by step. The theorems are applied to it where they need a concrete state.
\<close>

section \<open>The run\<close>

text \<open>A day after the zero time; every call of an environment succeeds, random bytes count up from \<open>n\<close>.\<close>

definition day :: time where "day = 86400000000000"

definition run_env :: "time \<Rightarrow> nat \<Rightarrow> pg_call env" where
  "run_env now n = \<lparr>env_call = (\<lambda>_. quiet_call), env_now = now, env_rand = (\<lambda>i. Inr [n + i]),
     env_elapsed = 5\<rparr>"

definition run_merchant :: pgdb where
  "run_merchant = snd (MerchantService_CreateMerchant (pg_CreateMerchant quiet_call) day
     \<lparr>cmi_ID = ''m'', cmi_Name = ''Shop'', cmi_SettlementCurrency = ''usd''\<rparr> empty_pgdb)"

definition run_payer :: pgdb where
  "run_payer = snd (PayerService_CreatePayer (pg_CreatePayer quiet_call) day
     \<lparr>cpi_ID = ''p'', cpi_AvailableBalanceMinor = 1000, cpi_Currency = ''usd''\<rparr> run_merchant)"

definition order :: authorize_input where
  "order = \<lparr>ai_MerchantID = ''m'', ai_PayerID = ''p'', ai_AmountMinor = 300, ai_Currency = ''USD''\<rparr>"

definition run_authorized :: pgdb where
  "run_authorized = snd (AuthorizePayment (postgres_service live_tx) (run_env day 0) order run_payer)"

definition run_captured :: pgdb where
  "run_captured = snd (CapturePayment (postgres_service live_tx) (run_env (day + minute) 3) ''pay_00''
     run_authorized)"

definition run_expired :: pgdb where
  "run_expired = snd (ExpireAuthorizedPayments (postgres_service live_tx)
     (run_env (day + hour) 3) 10 run_authorized)"

definition settler :: "(pg_call, pgdb) settlement_service" where
  "settler = (case postgres_settlement_service live_tx True ''w'' 10 0 of Inr svc \<Rightarrow> svc)"

definition run_settled :: pgdb where
  "run_settled = snd (CreateBatch settler (run_env (day + hour) 4) day (day + hour) run_captured)"

definition publisher :: "(pg_call \<times> time, pgdb) worker" where
  "publisher = (case postgres_worker live_tx (\<lambda>i e. if i = 1 then Some ''down'' else None) True
     ''o'' 10 ''logging'' of Inr w \<Rightarrow> w)"

definition worker_env :: "(pg_call \<times> time) worker_env" where
  "worker_env = \<lparr>we_call = (\<lambda>_. (quiet_call, day)), we_now = (\<lambda>_. day + hour)\<rparr>"

definition run_published :: pgdb where
  "run_published = snd (ProcessBatch publisher worker_env run_settled)"

section \<open>Its states\<close>

definition shop :: merchant where
  "shop = \<lparr>merchant_ID = ''m'', merchant_Name = ''Shop'', merchant_Status = MerchantStatusActive,
     SettlementCurrency = ''USD'', merchant_CreatedAt = day, merchant_UpdatedAt = day\<rparr>"

definition buyer :: "int64 \<Rightarrow> int64 \<Rightarrow> int64 \<Rightarrow> time \<Rightarrow> payer" where
  "buyer available held version t = \<lparr>payer_ID = ''p'', AvailableBalanceMinor = available,
     HeldBalanceMinor = held, payer_Currency = ''USD'', payer_Version = version,
     payer_CreatedAt = day, payer_UpdatedAt = t\<rparr>"

definition deal :: "payment_status \<Rightarrow> time option \<Rightarrow> time option \<Rightarrow> time \<Rightarrow> payment" where
  "deal status captured settled t = \<lparr>payment_ID = ''pay_00'', payment_MerchantID = ''m'',
     payment_PayerID = ''p'', payment_AmountMinor = 300, payment_Currency = ''USD'',
     payment_Status = status, AuthorizationHoldID = ''hold_01'', AuthorizedAt = day,
     payment_ExpiresAt = day + 15 * minute, CapturedAt = captured, SettledAt = settled,
     payment_CreatedAt = day, payment_UpdatedAt = t\<rparr>"

definition deal_hold :: "hold_status \<Rightarrow> time \<Rightarrow> hold" where
  "deal_hold status t = \<lparr>hold_ID = ''hold_01'', hold_PaymentID = ''pay_00'', hold_PayerID = ''p'',
     hold_AmountMinor = 300, hold_Currency = ''USD'', hold_Status = status, hold_CreatedAt = day,
     hold_UpdatedAt = t\<rparr>"

definition deal_event :: "string \<Rightarrow> string \<Rightarrow> json \<Rightarrow> time \<Rightarrow> string \<times> event" where
  "deal_event ident type payload t = (ident, \<lparr>event_ID = ident, AggregateType = ''payment'',
     AggregateID = ''pay_00'', EventType = type, Payload = payload, event_Status = EventPending,
     Attempts = 0, AvailableAt = t, event_CreatedAt = t, event_UpdatedAt = t, LockedAt = None,
     LockedBy = None, PublishedAt = None, event_LastError = None\<rparr>)"

lemma deal_sel [simp]:
  "payment_ID (deal st c d t) = ''pay_00''" "payment_Status (deal st c d t) = st"
  "payment_PayerID (deal st c d t) = ''p''" "payment_MerchantID (deal st c d t) = ''m''"
  "payment_AmountMinor (deal st c d t) = 300" "payment_ExpiresAt (deal st c d t) = day + 15 * minute"
  "hold_Status (deal_hold hs t) = hs" "hold_ID (deal_hold hs t) = ''hold_01''"
  by (simp_all add: deal_def deal_hold_def)

abbreviation authorized_event :: "string \<times> event" where
  "authorized_event \<equiv> deal_event ''evt_02'' ''payment.authorized''
     (paymentAuthorizedPayload (deal StatusAuthorized None None day) (deal_hold HoldStatusHeld day)) day"

abbreviation captured_event :: "string \<times> event" where
  "captured_event \<equiv> deal_event ''evt_03'' ''payment.captured''
     (paymentCapturedPayload (deal StatusAuthorized None None day) (deal_hold HoldStatusHeld day)
       (day + minute)) (day + minute)"

abbreviation settled_event :: "string \<times> event" where
  "settled_event \<equiv> deal_event ''evt_06'' ''payment.settled''
     (paymentSettledPayload (deal StatusAuthorized None None day) ''setbat_04'' (day + hour)) (day + hour)"

lemma run_payer_eq: "run_payer = \<lparr>t_merchants = [(''m'', shop)], t_payers = [(''p'', buyer 1000 0 0 day)],
    t_payments = [], t_settlement_batch_id = [], t_payment_holds = [], t_outbox_events = [],
    t_settlement_batches = [], t_settlement_line_items = []\<rparr>"
  by code_simp

lemma run_authorized_eq: "run_authorized = \<lparr>t_merchants = [(''m'', shop)],
    t_payers = [(''p'', buyer 700 300 1 day)],
    t_payments = [(''pay_00'', deal StatusAuthorized None None day)], t_settlement_batch_id = [],
    t_payment_holds = [(''hold_01'', deal_hold HoldStatusHeld day)],
    t_outbox_events = [authorized_event], t_settlement_batches = [], t_settlement_line_items = []\<rparr>"
  unfolding run_authorized_def run_payer_eq by code_simp

lemma run_captured_eq: "run_captured = \<lparr>t_merchants = [(''m'', shop)],
    t_payers = [(''p'', buyer 700 0 2 (day + minute))],
    t_payments = [(''pay_00'', deal StatusCaptured (Some (day + minute)) None (day + minute))],
    t_settlement_batch_id = [],
    t_payment_holds = [(''hold_01'', deal_hold HoldStatusCaptured (day + minute))],
    t_outbox_events = [authorized_event, captured_event], t_settlement_batches = [],
    t_settlement_line_items = []\<rparr>"
  unfolding run_captured_def run_authorized_eq by code_simp

lemma run_settled_eq: "run_settled = \<lparr>t_merchants = [(''m'', shop)],
    t_payers = [(''p'', buyer 700 0 2 (day + minute))],
    t_payments = [(''pay_00'',
      deal StatusSettled (Some (day + minute)) (Some (day + hour)) (day + hour))],
    t_settlement_batch_id = [(''pay_00'', ''setbat_04'')],
    t_payment_holds = [(''hold_01'', deal_hold HoldStatusCaptured (day + minute))],
    t_outbox_events = [authorized_event, captured_event, settled_event],
    t_settlement_batches = [(''setbat_04'', \<lparr>batch_ID = ''setbat_04'',
      batch_Status = BatchStatusCompleted, WindowStart = day, WindowEnd = day + hour,
      ClaimedBy = Some ''w'', LockedUntil = None, CompletedAt = Some (day + hour),
      batch_LastError = None, batch_CreatedAt = day + hour, batch_UpdatedAt = day + hour\<rparr>)],
    t_settlement_line_items = [(''setitem_05'', \<lparr>item_ID = ''setitem_05'',
      item_BatchID = ''setbat_04'', item_MerchantID = ''m'', item_PaymentID = ''pay_00'',
      item_AmountMinor = 300, FeeAmountMinor = 0, NetAmountMinor = 300, item_Currency = ''USD'',
      PaymentCaptured = day + minute, item_CreatedAt = day + hour\<rparr>)]\<rparr>"
  unfolding run_settled_def run_captured_eq by code_simp

lemma run_expired_payment:
  "t_payments run_expired = [(''pay_00'', deal StatusExpired None None (day + hour))]"
  "t_payers run_expired = [(''p'', buyer 1000 0 2 (day + hour))]"
  unfolding run_expired_def run_authorized_eq by code_simp+

section \<open>The states are reachable\<close>

lemma settler_service: "postgres_settlement_service live_tx True ''w'' 10 0 = Inr settler"
  by (simp add: settler_def postgres_settlement_service_def NewSettlementService_def)

lemma publisher_worker:
  "postgres_worker live_tx (\<lambda>i e. if i = 1 then Some ''down'' else None) True ''o'' 10 ''logging'' =
   Inr publisher"
  by (simp add: publisher_def postgres_worker_def NewWorker_def)

lemma run_steps:
  "pg_step empty_pgdb run_merchant" "pg_step run_merchant run_payer"
  "pg_step run_payer run_authorized" "pg_step run_authorized run_captured"
  "pg_step run_authorized run_expired" "pg_step run_captured run_settled"
  "pg_step run_settled run_published"
  unfolding run_merchant_def run_payer_def run_authorized_def run_captured_def run_expired_def
    run_settled_def run_published_def
  by (rule pg_step.create_merchant pg_step.create_payer pg_step.authorize pg_step.capture
      pg_step.expire pg_step.settle [OF settler_service] pg_step.publish_events [OF publisher_worker],
      rule prod.collapse [symmetric])+

lemma run_reachable:
  "pg_reachable run_payer" "pg_reachable run_authorized" "pg_reachable run_captured"
  "pg_reachable run_expired" "pg_reachable run_settled" "pg_reachable run_published"
proof -
  show p: "pg_reachable run_payer"
    by (rule pg_reachable.step [OF pg_reachable.step [OF pg_reachable.initial run_steps(1)] run_steps(2)])
  show a: "pg_reachable run_authorized" by (rule pg_reachable.step [OF p run_steps(3)])
  show c: "pg_reachable run_captured" by (rule pg_reachable.step [OF a run_steps(4)])
  show "pg_reachable run_expired" by (rule pg_reachable.step [OF a run_steps(5)])
  show s: "pg_reachable run_settled" by (rule pg_reachable.step [OF c run_steps(6)])
  show "pg_reachable run_published" by (rule pg_reachable.step [OF s run_steps(7)])
qed

lemma run_ok:
  "pg_ok run_payer" "pg_ok run_authorized" "pg_ok run_captured" "pg_ok run_settled"
  using run_reachable pg_reachable_ok by blast+

lemma run_paths:
  "pg_step\<^sup>*\<^sup>* run_payer run_settled" "pg_step\<^sup>*\<^sup>* run_authorized run_settled"
  "pg_step\<^sup>*\<^sup>* run_captured run_settled" "pg_step\<^sup>*\<^sup>* run_settled run_published"
  by (meson run_steps converse_rtranclp_into_rtranclp rtranclp.rtrancl_refl)+

lemma run_published_event:
  "\<exists>e. map_of (t_outbox_events run_published) ''evt_02'' = Some e \<and> event_Status e = EventPublished"
proof -
  have "map_option event_Status (map_of (t_outbox_events run_published) ''evt_02'') = Some EventPublished"
    unfolding run_published_def run_settled_eq by code_simp
  then show ?thesis by auto
qed

section \<open>The answers of its calls\<close>

lemma run_authorize_answer:
  "AuthorizePayment (postgres_service live_tx) (run_env day 0) order run_payer =
   ((Inr \<lparr>res_Payment = deal StatusAuthorized None None day, res_Hold = deal_hold HoldStatusHeld day,
      res_Payer = buyer 700 300 1 day\<rparr>, [ObserveAuthorization ''success'' 5]), run_authorized)"
  unfolding run_authorized_eq run_payer_eq by code_simp

lemma run_capture_answer:
  "CapturePayment (postgres_service live_tx) (run_env (day + minute) 3) ''pay_00'' run_authorized =
   ((Inr \<lparr>res_Payment = deal StatusCaptured (Some (day + minute)) None (day + minute),
      res_Hold = deal_hold HoldStatusCaptured (day + minute),
      res_Payer = buyer 700 0 2 (day + minute)\<rparr>, [ObserveCapture ''success'' 5]), run_captured)"
  unfolding run_captured_eq run_authorized_eq by code_simp

lemma run_expire_answer:
  "fst (ExpireAuthorizedPayments (postgres_service live_tx) (run_env (day + hour) 3) 10 run_authorized) =
   (Inr \<lparr>res_Payments = [deal StatusExpired None None (day + hour)],
      res_Holds = [deal_hold HoldStatusReleased (day + hour)],
      res_Payers = [buyer 1000 0 2 (day + hour)]\<rparr>, [])"
  unfolding run_authorized_eq by code_simp

end
