(* ===== verification/MemoryGuarantees.thy ===== *)
theory MemoryGuarantees
  imports MemoryBackend Scenario
begin

text \<open>
  The in-memory backend has no transactions. As long as the context of a request lives it needs none: a
  use case that fails does so before its first write. A context that is cancelled between two writes
  leaves the first one behind.
\<close>

section \<open>Reads\<close>

lemma memory_sel:
  "svc_repos memory_service = memory_repos" "svc_transactor memory_service = NoopTransactor"
  by (simp_all add: memory_service_def NewServiceWithTransactorOutboxAndMetrics_def memory_repos_def)

lemma mem_reads:
  "r_GetMerchant memory_repos None i s =
     (case map_of (mem_merchants s) i of None \<Rightarrow> (Inl ErrMerchantNotFound, s) | Some m \<Rightarrow> (Inr m, s))"
  "r_GetPayer memory_repos None i s =
     (case map_of (mem_payers s) i of None \<Rightarrow> (Inl ErrPayerNotFound, s) | Some y \<Rightarrow> (Inr y, s))"
  "r_GetPayment memory_repos None i s =
     (case map_of (ps_payments (mem_store s)) i of None \<Rightarrow> (Inl ErrPaymentNotFound, s) | Some p \<Rightarrow> (Inr p, s))"
  by (simp_all add: memory_repos_def in_merchants_def in_payers_def in_store_def GetMerchant_def GetPayer_def
      GetPayment_def split: option.split)

lemma mem_hold_read: "\<exists>q. r_GetHoldByPaymentID memory_repos None i s = (q, s)"
  by (auto simp: memory_repos_def in_store_def GetHoldByPaymentID_def split: option.split)

section \<open>A request that lives\<close>

text \<open>The context lives, the random source answers with new identifiers and the clock is one JSON can write.\<close>

definition living :: "error option env \<Rightarrow> memdb \<Rightarrow> bool" where
  "living env s \<longleftrightarrow> (\<forall>k. env_call env k = None) \<and>
     (\<forall>y \<in> set (gm_values (mem_payers s)). 0 \<le> sint (payer_Version y + 1)) \<and>
     (\<forall>k. \<exists>a b c. new_id ''pay'' (env_rand env k) = Inr a \<and> map_of (ps_payments (mem_store s)) a = None \<and>
        new_id ''hold'' (env_rand env k) = Inr b \<and> map_of (ps_holds (mem_store s)) b = None \<and>
        new_id ''evt'' (env_rand env k) = Inr c \<and> map_of (mem_events s) c = None) \<and>
     json_time_ok (env_now env - second) \<and> json_time_ok (env_now env) \<and> json_time_ok (env_now env + 15 * minute)"

definition mem_ok :: "memdb \<Rightarrow> bool" where
  "mem_ok s \<longleftrightarrow> mem_inv s \<and> ledger_ok (mem_view s)"

lemma authorize_tx_memory:
  assumes ok: "mem_ok s" and live: "living env s"
  shows "(\<exists>x s'. authorize_tx memory_repos env ai s = (Inr x, s')) \<or> (\<exists>e. authorize_tx memory_repos env ai s = (Inl e, s))"
proof -
  have calls: "env_call env k = None" for k using live by (simp add: living_def)
  obtain pid hid eid where ids: "new_id ''pay'' (env_rand env 0) = Inr pid" "new_id ''hold'' (env_rand env 1) = Inr hid"
    "new_id ''evt'' (env_rand env 2) = Inr eid" "map_of (ps_payments (mem_store s)) pid = None"
    "map_of (ps_holds (mem_store s)) hid = None" "map_of (mem_events s) eid = None"
    using live unfolding living_def by metis
  show ?thesis
  proof (cases "map_of (mem_merchants s) (ai_MerchantID ai)")
    case None
    then show ?thesis by (simp add: authorize_tx_def act_bind_def calls mem_reads)
  next
    case m: (Some m)
    show ?thesis
    proof (cases "CanCreatePayments m")
      case False
      then show ?thesis using m by (simp add: authorize_tx_def act_bind_def calls mem_reads act_fail_def)
    next
      case open_m: True
      show ?thesis
      proof (cases "map_of (mem_payers s) (ai_PayerID ai)")
        case None
        then show ?thesis using m open_m by (simp add: authorize_tx_def act_bind_def calls mem_reads)
      next
        case y: (Some y)
        show ?thesis
        proof (cases "CanAuthorize y (ai_AmountMinor ai) (ai_Currency ai) \<and> IsValidCurrency (ai_Currency ai)")
          case True
          have "y \<in> set (gm_values (mem_payers s))" using map_of_gm_values [OF y] .
          then have "0 \<le> sint (payer_Version y + 1)" using live by (simp add: living_def)
          then have "\<exists>r s'. authorize_tx memory_repos env ai s = (Inr r, s')"
            using ok live m open_m y True ids calls
            by (intro mem.authorize_progress) (auto simp: mem_ok_def living_def)
          then show ?thesis by blast
        next
          case False
          show ?thesis
          proof (cases "payer_Currency y = NormalizeCurrency (ai_Currency ai) \<and>
              CanAuthorize y (ai_AmountMinor ai) (ai_Currency ai)")
            case True
            then have "\<not> IsValidCurrency (ai_Currency ai)" using False by simp
            then obtain e where "NewHold \<lparr>nhi_ID = hid, nhi_PaymentID = pid, nhi_PayerID = payer_ID y,
                nhi_AmountMinor = ai_AmountMinor ai, nhi_Currency = ai_Currency ai, nhi_Now = env_now env\<rparr> = Inl e"
              by (metis NewHold_success new_hold_input.select_convs(5) sum.exhaust)
            then show ?thesis
              using m open_m y True
              by (simp add: authorize_tx_def act_bind_def act_lift_def calls mem_reads ids(1,2) utc_def Let_def
                  del: One_nat_def)
          next
            case False
            then show ?thesis
              using m open_m y by (auto simp: authorize_tx_def act_bind_def act_fail_def calls mem_reads Let_def)
          qed
        qed
      qed
    qed
  qed
qed

lemma capture_tx_memory:
  assumes ok: "mem_ok s" and live: "living env s"
  shows "(\<exists>x s'. capture_tx memory_repos env pid s = (Inr x, s')) \<or> (\<exists>e. capture_tx memory_repos env pid s = (Inl e, s))"
proof -
  have calls: "env_call env k = None" for k using live by (simp add: living_def)
  obtain eid where eid: "new_id ''evt'' (env_rand env 0) = Inr eid" "map_of (mem_events s) eid = None"
    using live unfolding living_def by metis
  show ?thesis
  proof (cases "map_of (ps_payments (mem_store s)) pid")
    case None
    then show ?thesis by (simp add: capture_tx_def act_bind_def calls mem_reads)
  next
    case p: (Some p)
    show ?thesis
    proof (cases "CanCapture p (env_now env)")
      case True
      have version: "0 \<le> sint (payer_Version y + 1)" if "map_of (l_payers (mem_view s)) (payment_PayerID p) = Some y" for y
        using live map_of_gm_values [of "mem_payers s" _ y] that by (auto simp: living_def)
      have "\<exists>r s'. capture_tx memory_repos env pid s = (Inr r, s')"
        using ok live p True eid calls version
        by (intro mem.capture_progress) (auto simp: mem_ok_def living_def)
      then show ?thesis by blast
    next
      case False
      then have not: "payment_Status p = StatusAuthorized \<Longrightarrow> payment_ExpiresAt p < env_now env"
        by (auto simp: CanCapture_def utc_def split: if_splits)
      obtain q where "r_GetHoldByPaymentID memory_repos None (payment_ID p) s = (q, s)"
        using mem_hold_read by blast
      then show ?thesis
        using p not
        by (cases q; cases "map_of (mem_payers s) (payment_PayerID p)"; cases "payment_Status p = StatusAuthorized")
          (auto simp: capture_tx_def act_bind_def act_fail_def calls mem_reads utc_def Let_def)
    qed
  qed
qed

text \<open>
  C17. On the in-memory backend, which has no transactions, an authorization or a capture whose context
  lives to its end is all or nothing: it succeeds with the books in order, or it fails and has written
  nothing.
\<close>

theorem memory_use_cases_are_atomic:
  assumes "mem_ok s" and "living env s"
  shows "mem_ok (snd (AuthorizePayment memory_service env ai s)) \<and>
    (isl (fst (fst (AuthorizePayment memory_service env ai s))) \<longrightarrow> snd (AuthorizePayment memory_service env ai s) = s) \<and>
    mem_ok (snd (CapturePayment memory_service env pid s)) \<and>
    (isl (fst (fst (CapturePayment memory_service env pid s))) \<longrightarrow> snd (CapturePayment memory_service env pid s) = s)"
proof -
  note inv = assms(1) [unfolded mem_ok_def, THEN conjunct1] and ok = assms(1) [unfolded mem_ok_def, THEN conjunct2]
  have states: "snd (AuthorizePayment memory_service env ai s) = snd (authorize_tx memory_repos env ai s)"
    "snd (CapturePayment memory_service env pid s) = snd (capture_tx memory_repos env pid s)"
    by (simp_all add: use_case_states memory_sel)
  have results: "isl (fst (fst (AuthorizePayment memory_service env ai s))) = isl (fst (authorize_tx memory_repos env ai s))"
    "isl (fst (fst (CapturePayment memory_service env pid s))) = isl (fst (capture_tx memory_repos env pid s))"
    by (simp_all add: AuthorizePayment_def CapturePayment_def Let_def memory_sel split: prod.split sum.split)
  have "mem_ok s'" if "authorize_tx memory_repos env ai s = (Inr x, s')" for x s'
    using mem.authorize_success [OF inv ok that] authorize_writes_ok [OF ok] by (auto simp: mem_ok_def)
  moreover have "mem_ok s'" if "capture_tx memory_repos env pid s = (Inr x, s')" for x s'
    using mem.capture_success [OF inv ok that] finish_writes_ok [OF ok] by (auto simp: mem_ok_def)
  ultimately show ?thesis
    unfolding states results
    using authorize_tx_memory [OF assms, of ai] capture_tx_memory [OF assms, of pid] assms(1)
    by (auto simp del: split_paired_Ex)
qed

section \<open>A shop in memory\<close>

definition mem_shop :: memdb where
  "mem_shop = \<lparr>mem_merchants = [(''m'', shop)], mem_payers = [(''p'', buyer 1000 0 0 day)],
     mem_store = empty_payment_store, mem_events = []\<rparr>"

text \<open>A request whose context is cancelled before its call \<open>n\<close>, or never.\<close>

definition mem_env :: "nat option \<Rightarrow> error option env" where
  "mem_env cancelled = \<lparr>env_call = (\<lambda>k. case cancelled of None \<Rightarrow> None
       | Some n \<Rightarrow> if k < n then None else Some (CtxErr ''context canceled'')),
     env_now = day, env_rand = (\<lambda>i. Inr [i]), env_elapsed = 5\<rparr>"

lemma mem_shop_ok: "mem_ok mem_shop"
proof -
  have "mem_view mem_shop = pg_view run_payer"
    by (simp add: mem_shop_def mem_view_def pg_view_def run_payer_eq empty_payment_store_def)
  then show ?thesis
    using pg_okD(2) [OF run_ok(1)]
    by (simp add: mem_ok_def mem_inv_def mem_shop_def)
qed

lemma mem_shop_living: "living (mem_env None) mem_shop"
proof -
  have "json_time_ok (day - second)" "json_time_ok day" "json_time_ok (day + 15 * minute)"
    by code_simp+
  moreover have "trim_space ''pay'' = ''pay''" "trim_space ''hold'' = ''hold''" "trim_space ''evt'' = ''evt''"
    by code_simp+
  ultimately show ?thesis
    by (simp add: living_def mem_env_def mem_shop_def empty_payment_store_def buyer_def gm_values_def new_id_def)
qed

theorem memory_use_cases_are_atomic_witness:
  "\<exists>r obs s'. AuthorizePayment memory_service (mem_env None) order mem_shop = ((Inr r, obs), s') \<and> mem_ok s'"
proof -
  have "\<not> isl (fst (fst (AuthorizePayment memory_service (mem_env None) order mem_shop)))"
    by code_simp
  then show ?thesis
    using memory_use_cases_are_atomic [OF mem_shop_ok mem_shop_living, of order "''pay''"]
    by (metis prod.collapse sum.collapse(2))
qed

text \<open>
  Cancelled after the payer is written, an authorization in memory leaves the amount held with no payment
  and no hold that could give it back.
\<close>

lemma cancelled_request_keeps_the_amount:
  "\<exists>obs s'. AuthorizePayment memory_service (mem_env (Some 3)) order mem_shop =
      ((Inl (CtxErr ''context canceled''), obs), s') \<and>
    map_of (mem_payers s') ''p'' = Some (buyer 700 300 1 day) \<and> ps_holds (mem_store s') = [] \<and> \<not> mem_ok s'"
proof -
  let ?run = "AuthorizePayment memory_service (mem_env (Some 3)) order mem_shop"
  have run: "fst (fst ?run) = Inl (CtxErr ''context canceled'')"
    "map_of (mem_payers (snd ?run)) ''p'' = Some (buyer 700 300 1 day)" "ps_holds (mem_store (snd ?run)) = []"
    by code_simp+
  then have "\<not> mem_ok (snd ?run)"
    using ledger_okD(4) [of "mem_view (snd ?run)" "''p''" "buyer 700 300 1 day"]
    by (auto simp: mem_ok_def held_total_def msum_def gm_values_def buyer_def)
  then show ?thesis using run by (metis prod.collapse)
qed

end
