(* ===== verification/PayerConcurrency.thy ===== *)
theory PayerConcurrency
  imports PostgresBackend Scenario
begin

text \<open>
  Concurrent use cases on one payer. Each reads the payer, computes its new balances, and writes it with
  the version it has read, while others do the same: \<open>GetPayer\<close> of \<open>payer/service.go\<close>, one of \<open>Reserve\<close>,
  \<open>Release\<close> and \<open>CaptureHeld\<close>, and \<open>UpdatePayer\<close>. In Postgres the row stays locked from
  the update to the end of its transaction, so that the update and the commit are one step; a transaction
  that waited for the row finds a newer version and fails.
\<close>

section \<open>Clients\<close>

datatype payer_op = ReserveOp int64 string | ReleaseOp int64 string | CaptureOp int64 string

fun apply_op :: "payer_op \<Rightarrow> time \<Rightarrow> payer \<Rightarrow> error + payer" where
  "apply_op (ReserveOp amount currency) now p = Reserve p amount currency now"
| "apply_op (ReleaseOp amount currency) now p = Release p amount currency now"
| "apply_op (CaptureOp amount currency) now p = CaptureHeld p amount currency now"

text \<open>A client has not begun, holds the payer it is going to write, or has been told the result.\<close>

datatype client = Idle | Holding payer | Told "error + payer"

fun client_step ::
  "('c \<Rightarrow> string \<Rightarrow> ('s, payer) act) \<Rightarrow> ('c \<Rightarrow> payer \<Rightarrow> ('s, payer) act) \<Rightarrow> string \<Rightarrow> payer_op \<Rightarrow>
   'c \<Rightarrow> time \<Rightarrow> client \<Rightarrow> 's \<Rightarrow> client \<times> 's" where
  "client_step get upd i action c now Idle s =
     (case PayerService_GetPayer (get c) i s of
        (Inl err, s') \<Rightarrow> (Told (Inl err), s')
      | (Inr p, s') \<Rightarrow> (case apply_op action now p of Inl err \<Rightarrow> (Told (Inl err), s') | Inr p' \<Rightarrow> (Holding p', s')))"
| "client_step get upd i action c now (Holding p) s = (let (r, s') = PayerService_UpdatePayer (upd c) p s in (Told r, s'))"
| "client_step get upd i action c now (Told r) s = (Told r, s)"

text \<open>
  A schedule says whose turn it is, with what the call meets and the time; all work on the payer
  \<open>i\<close>, client \<open>j\<close> with the operation \<open>ops j\<close>.
\<close>

fun run_clients ::
  "('c \<Rightarrow> string \<Rightarrow> ('s, payer) act) \<Rightarrow> ('c \<Rightarrow> payer \<Rightarrow> ('s, payer) act) \<Rightarrow> string \<Rightarrow>
   (nat \<Rightarrow> payer_op) \<Rightarrow> (nat \<times> 'c \<times> time) list \<Rightarrow> (nat \<Rightarrow> client) \<times> 's \<Rightarrow> (nat \<Rightarrow> client) \<times> 's" where
  "run_clients get upd i ops [] x = x"
| "run_clients get upd i ops ((j, c, now) # sched) (st, s) =
     (let (stage, s') = client_step get upd i (ops j) c now (st j) s
      in run_clients get upd i ops sched (st(j := stage), s'))"

section \<open>One after the other\<close>

text \<open>A payer without its times, and operations on it one after the other, each of which succeeds.\<close>

definition payer_core :: "payer \<Rightarrow> payer" where
  "payer_core p = p\<lparr>payer_CreatedAt := 0, payer_UpdatedAt := 0\<rparr>"

fun serial :: "payer_op list \<Rightarrow> payer \<Rightarrow> payer option" where
  "serial [] p = Some p"
| "serial (action # actions) p =
     (case apply_op action 0 p of Inl err \<Rightarrow> None | Inr p' \<Rightarrow> serial actions (payer_core p'))"

lemma payer_core_sel [simp]:
  "payer_ID (payer_core p) = payer_ID p" "payer_Version (payer_core p) = payer_Version p"
  "AvailableBalanceMinor (payer_core p) = AvailableBalanceMinor p"
  "HeldBalanceMinor (payer_core p) = HeldBalanceMinor p" "payer_Currency (payer_core p) = payer_Currency p"
  "payer_core (payer_core p) = payer_core p"
  by (simp_all add: payer_core_def)

lemma payer_core_same: "same_payer p p' \<Longrightarrow> payer_core p' = payer_core p"
  unfolding same_payer_def payer_core_def by (metis payer.surjective payer.update_convs(6,7))

lemma serial_append:
  "serial (xs @ ys) p = (case serial xs p of None \<Rightarrow> None | Some p' \<Rightarrow> serial ys p')"
  by (induction xs arbitrary: p) (auto split: sum.splits)

lemma apply_op_core:
  assumes "apply_op action now p = Inr p'"
  shows "\<exists>q. apply_op action 0 (payer_core p) = Inr q \<and> payer_core q = payer_core p' \<and> payer_ID p' = payer_ID p \<and>
    payer_Version p' = payer_Version p + 1 \<and> payer_Currency p' = payer_Currency p"
  using assms by (cases action) (auto simp: op_success payer_core_def)

lemma serial_sel:
  "serial actions p = Some p' \<Longrightarrow> payer_ID p' = payer_ID p \<and> payer_Currency p' = payer_Currency p \<and>
    payer_Version p' = payer_Version p + of_nat (length actions)"
proof (induction actions arbitrary: p)
  case (Cons action actions)
  then obtain q where q: "apply_op action 0 p = Inr q" "serial actions (payer_core q) = Some p'"
    by (auto split: sum.splits)
  from Cons.IH [OF q(2)] apply_op_core [OF q(1)] show ?case by auto
qed simp

section \<open>What a store of payers promises\<close>

text \<open>
  A read gives the row. A write that answers with a payer has been made on a row of the version before;
  one that answers with an error has not been made, unless the error is \<open>ambiguous\<close>: then it may
  have been, on such a row, too.
\<close>

locale payer_store =
  fixes get :: "'c \<Rightarrow> string \<Rightarrow> ('s, payer) act" and upd :: "'c \<Rightarrow> payer \<Rightarrow> ('s, payer) act"
    and payers :: "'s \<Rightarrow> payer gomap" and sinv :: "'s \<Rightarrow> bool" and ambiguous :: "error \<Rightarrow> bool"
  assumes get_law: "get c i s = (r, s') \<Longrightarrow> sinv s \<Longrightarrow>
      s' = s \<and> (\<forall>p. r = Inr p \<longrightarrow> map_of (payers s) i = Some p \<and> payer_ID p = i)"
    and upd_law: "upd c p s = (r, s') \<Longrightarrow> sinv s \<Longrightarrow> map_of (payers s) (payer_ID p) = Some row \<Longrightarrow>
      payer_Currency p = payer_Currency row \<Longrightarrow>
      sinv s' \<and> ((\<exists>err. r = Inl err) \<and> payers s' = payers s \<or>
        (\<forall>err. r = Inl err \<longrightarrow> ambiguous err) \<and> payer_Version p = payer_Version row + 1 \<and>
        (\<exists>p'. same_payer p p' \<and> payers s' = AList.update (payer_ID p) p' (payers s)))"

text \<open>
  The row of the payer is what the operations in \<open>log\<close>, one after the other, make of the first row; a
  client that holds a payer has computed it from what some of the first of them made; and every client
  that has been told of a success is in the log, once, and of those that have been told an error only
  such whose error is ambiguous may be.
\<close>

fun in_place :: "(error \<Rightarrow> bool) \<Rightarrow> (nat \<Rightarrow> payer_op) \<Rightarrow> payer \<Rightarrow> nat list \<Rightarrow> nat \<Rightarrow> client \<Rightarrow> bool" where
  "in_place amb ops p0 log j Idle = (j \<notin> set log)"
| "in_place amb ops p0 log j (Holding p) =
     (j \<notin> set log \<and> (\<exists>k b q. k \<le> length log \<and>
        serial (map ops (take k log)) (payer_core p0) = Some b \<and> apply_op (ops j) 0 b = Inr q \<and>
        payer_core q = payer_core p))"
| "in_place amb ops p0 log j (Told r) =
     (case r of Inl err \<Rightarrow> j \<in> set log \<longrightarrow> amb err | Inr p \<Rightarrow> j \<in> set log)"

definition serialized ::
  "(error \<Rightarrow> bool) \<Rightarrow> (nat \<Rightarrow> payer_op) \<Rightarrow> string \<Rightarrow> payer \<Rightarrow> nat list \<Rightarrow> (nat \<Rightarrow> client) \<Rightarrow> payer gomap \<Rightarrow> bool" where
  "serialized amb ops i p0 log st m \<longleftrightarrow>
     distinct log \<and> payer_ID p0 = i \<and>
     (\<exists>row. map_of m i = Some row \<and> serial (map ops log) (payer_core p0) = Some (payer_core row)) \<and>
     (\<forall>j. in_place amb ops p0 log j (st j))"

lemma serializedD:
  assumes "serialized amb ops i p0 log st m"
  shows "distinct log" "payer_ID p0 = i" "in_place amb ops p0 log j (st j)"
    "\<exists>row. map_of m i = Some row \<and> serial (map ops log) (payer_core p0) = Some (payer_core row)"
  using assms unfolding serialized_def by blast+

lemma serialized_client:
  assumes "serialized amb ops i p0 log st m" and "in_place amb ops p0 log j stage"
  shows "serialized amb ops i p0 log (st(j := stage)) m"
  using assms unfolding serialized_def by simp

lemma in_place_later:
  assumes "in_place amb ops p0 log j stage" "j \<noteq> j'"
  shows "in_place amb ops p0 (log @ [j']) j stage"
proof (cases stage)
  case (Holding p)
  with assms(1) obtain k b q where "j \<notin> set log" "k \<le> length log"
    "serial (map ops (take k log)) (payer_core p0) = Some b" "apply_op (ops j) 0 b = Inr q"
    "payer_core q = payer_core p"
    by auto
  then show ?thesis using Holding assms(2) by (auto intro!: exI [of _ k])
qed (use assms in \<open>auto split: sum.splits\<close>)

text \<open>A client that holds a payer computed from the row leaves, when its write is made, a longer log.\<close>

lemma serialized_append:
  assumes ser: "serialized amb ops i p0 log st m" and held: "j \<notin> set log"
    and b: "serial (map ops log) (payer_core p0) = Some b" "apply_op (ops j) 0 b = Inr q"
    and row: "payer_core q = payer_core row" "map_of m' i = Some row"
    and told: "\<forall>err. r = Inl err \<longrightarrow> amb err"
  shows "serialized amb ops i p0 (log @ [j]) (st(j := Told r)) m'"
proof -
  have "in_place amb ops p0 (log @ [j]) j' ((st(j := Told r)) j')" for j'
    using in_place_later [OF serializedD(3) [OF ser]] told by (simp split: sum.split)
  moreover have "serial (map ops (log @ [j])) (payer_core p0) = Some (payer_core row)"
    using b row(1) by (simp add: serial_append)
  ultimately show ?thesis using serializedD(1,2) [OF ser] held row(2) unfolding serialized_def by simp
qed

text \<open>Versions do not wrap in a bounded history, so a version names a point of the log.\<close>

lemma version_inj:
  assumes "sint v + int n < 2 ^ 63" and "k \<le> n" "k' \<le> n" and "v + of_nat k = v + (of_nat k' :: int64)"
  shows "k = k'"
proof -
  have "int n < 2 ^ 64" using assms(1) sint64_bounds [of v] by simp
  then have "n < 2 ^ 64" by (metis of_nat_less_iff of_nat_numeral of_nat_power)
  then have "unat (of_nat k :: int64) = k" "unat (of_nat k' :: int64) = k'"
    using assms(2,3) by (simp_all add: unat_of_nat take_bit_nat_eq_self)
  then show ?thesis using assms(4) by (metis add_left_imp_eq)
qed

context payer_store
begin

lemma client_serialized:
  assumes ser: "serialized ambiguous ops i p0 log st (payers s)" and inv: "sinv s"
    and room: "sint (payer_Version p0) + int (length log) < 2 ^ 63"
    and run: "client_step get upd i (ops j) c now (st j) s = (stage, s')"
  shows "sinv s' \<and> (\<exists>log'. length log' \<le> length log + 1 \<and> serialized ambiguous ops i p0 log' (st(j := stage)) (payers s'))"
proof -
  obtain row where row: "map_of (payers s) i = Some row" "serial (map ops log) (payer_core p0) = Some (payer_core row)"
    and p0: "payer_ID p0 = i"
    using serializedD(2,4) [OF ser] by blast
  note client = serializedD(3) [OF ser, of j]
  show ?thesis
  proof (cases "st j")
    case Idle
    obtain r s1 where got: "get c i s = (r, s1)" by fastforce
    note law = get_law [OF got inv]
    have "in_place ambiguous ops p0 log j stage"
    proof (cases r)
      case (Inl err)
      then show ?thesis using run Idle got client by auto
    next
      case (Inr p)
      then have p: "p = row" using law row(1) by simp
      show ?thesis
      proof (cases "apply_op (ops j) now p")
        case (Inl err)
        then show ?thesis using run Idle got Inr client by auto
      next
        case fresh: (Inr p')
        then have "stage = Holding p'" using run Idle got Inr by auto
        then show ?thesis using apply_op_core [OF fresh] client Idle p row(2)
          by (auto intro!: exI [of _ "length log"])
      qed
    qed
    then have "serialized ambiguous ops i p0 log (st(j := stage)) (payers s)" by (rule serialized_client [OF ser])
    moreover have "s' = s" using run Idle got law by (auto split: sum.splits)
    ultimately show ?thesis using inv by (metis le_add1)
  next
    case (Holding p)
    with client obtain k b q where held: "j \<notin> set log" "k \<le> length log"
        "serial (map ops (take k log)) (payer_core p0) = Some b" "apply_op (ops j) 0 b = Inr q"
        "payer_core q = payer_core p"
      by auto
    obtain r where upd: "upd c p s = (r, s')" and stage: "stage = Told r"
      using run Holding by (auto split: prod.splits)
    have b: "payer_ID b = i" "payer_Currency b = payer_Currency p0"
        "payer_Version b = payer_Version p0 + of_nat k"
      using serial_sel [OF held(3)] held(2) p0 by simp_all
    have rw: "payer_Currency row = payer_Currency p0"
        "payer_Version row = payer_Version p0 + of_nat (length log)"
      using serial_sel [OF row(2)] by simp_all
    obtain q' where q': "payer_core q' = payer_core q" "payer_ID q = payer_ID b"
        "payer_Version q = payer_Version b + 1" "payer_Currency q = payer_Currency b"
      using apply_op_core [OF held(4)] by blast
    have p: "payer_ID p = i" "payer_Version p = payer_Version p0 + of_nat k + 1"
        "payer_Currency p = payer_Currency row"
      using q'(2-4) b rw(1) held(5) payer_core_sel [of p] payer_core_sel [of q] by metis+
    from upd_law [OF upd inv] row(1) p
    have "sinv s'" and cases: "(\<exists>err. r = Inl err) \<and> payers s' = payers s \<or>
        (\<forall>err. r = Inl err \<longrightarrow> ambiguous err) \<and> payer_Version p = payer_Version row + 1 \<and>
        (\<exists>p'. same_payer p p' \<and> payers s' = AList.update (payer_ID p) p' (payers s))"
      by auto
    from cases show ?thesis
    proof
      assume kept: "(\<exists>err. r = Inl err) \<and> payers s' = payers s"
      then have "serialized ambiguous ops i p0 log (st(j := stage)) (payers s')"
        using serialized_client [OF ser, of j stage] stage held(1) by auto
      then show ?thesis using \<open>sinv s'\<close> by (metis le_add1)
    next
      assume made: "(\<forall>err. r = Inl err \<longrightarrow> ambiguous err) \<and> payer_Version p = payer_Version row + 1 \<and>
        (\<exists>p'. same_payer p p' \<and> payers s' = AList.update (payer_ID p) p' (payers s))"
      then have "k = length log" using version_inj [OF room held(2) order_refl] p(2) rw(2) by simp
      moreover from made p(1) obtain p' where "same_payer p p'" "map_of (payers s') i = Some p'"
        by (auto simp: update_conv)
      ultimately have "serialized ambiguous ops i p0 (log @ [j]) (st(j := stage)) (payers s')"
        using serialized_append [OF ser held(1) _ held(4), of p'] held(3,5) payer_core_same stage made by simp
      then show ?thesis using \<open>sinv s'\<close> by (metis length_append_singleton Suc_eq_plus1 order_refl)
    qed
  next
    case (Told r)
    then show ?thesis using run ser inv by (auto intro!: exI [of _ log])
  qed
qed

lemma clients_serialized:
  assumes "serialized ambiguous ops i p0 log st (payers s)" "sinv s"
    and "sint (payer_Version p0) + int (length log) + int (length sched) < 2 ^ 63"
    and "run_clients get upd i ops sched (st, s) = (st', s')"
  shows "\<exists>log'. serialized ambiguous ops i p0 log' st' (payers s')"
  using assms
proof (induction sched arbitrary: log st s)
  case (Cons turn sched)
  obtain j c now where turn: "turn = (j, c, now)" by (metis prod.exhaust)
  obtain stage s1 where step: "client_step get upd i (ops j) c now (st j) s = (stage, s1)" by fastforce
  have "sint (payer_Version p0) + int (length log) < 2 ^ 63" using Cons.prems(3) by simp
  from client_serialized [OF Cons.prems(1,2) this step] obtain log' where
    log': "sinv s1" "length log' \<le> length log + 1" "serialized ambiguous ops i p0 log' (st(j := stage)) (payers s1)"
    by blast
  have "sint (payer_Version p0) + int (length log') + int (length sched) < 2 ^ 63"
    using Cons.prems(3) log'(2) by simp
  moreover have "run_clients get upd i ops sched (st(j := stage), s1) = (st', s')"
    using Cons.prems(4) unfolding turn run_clients.simps(2) step Let_def case_prod_conv .
  ultimately show ?case by (rule Cons.IH [OF log'(3,1)])
qed auto

lemma clients_serial:
  assumes "sinv s" "map_of (payers s) i = Some p0" "payer_ID p0 = i"
    and "sint (payer_Version p0) + int (length sched) < 2 ^ 63"
    and "run_clients get upd i ops sched (\<lambda>_. Idle, s) = (st, s')"
  shows "\<exists>log row. distinct log \<and> (\<forall>j p. st j = Told (Inr p) \<longrightarrow> j \<in> set log) \<and>
    (\<forall>j \<in> set log. \<exists>r. st j = Told r \<and> (\<forall>err. r = Inl err \<longrightarrow> ambiguous err)) \<and>
    map_of (payers s') i = Some row \<and> serial (map ops log) (payer_core p0) = Some (payer_core row)"
proof -
  have "serialized ambiguous ops i p0 [] (\<lambda>_. Idle) (payers s)" using assms(2,3) by (simp add: serialized_def)
  from clients_serialized [OF this assms(1) _ assms(5)] assms(4) obtain log where
    ser: "serialized ambiguous ops i p0 log st (payers s')" by auto
  note client = serializedD(3) [OF ser]
  have "st j = Told (Inr p) \<Longrightarrow> j \<in> set log" for j p using client [of j] by simp
  moreover have "\<exists>r. st j = Told r \<and> (\<forall>err. r = Inl err \<longrightarrow> ambiguous err)" if "j \<in> set log" for j
    using client [of j] that by (cases "st j") (auto split: sum.splits)
  ultimately show ?thesis using serializedD(1,4) [OF ser] by blast
qed

end

section \<open>The two repositories\<close>

interpretation memory_payers: payer_store GetPayer UpdatePayer "\<lambda>ps. ps" "gm_wf payer_ID" "\<lambda>err. False"
proof unfold_locales
  fix c i s r s'
  assume "GetPayer c i s = (r, s')" "gm_wf payer_ID s"
  then show "s' = s \<and> (\<forall>p. r = Inr p \<longrightarrow> map_of s i = Some p \<and> payer_ID p = i)"
    by (auto simp: GetPayer_def gm_wf_key split: option.splits)
next
  fix c p s r s' row
  assume "UpdatePayer c p s = (r, s')" "gm_wf payer_ID s"
  moreover have "\<exists>p'. same_payer p p' \<and> AList.update (payer_ID p) p s = AList.update (payer_ID p) p' s"
    by (rule exI [of _ p]) (simp add: same_payer_def)
  ultimately show "gm_wf payer_ID s' \<and> ((\<exists>err. r = Inl err) \<and> s' = s \<or>
      (\<forall>err. r = Inl err \<longrightarrow> False) \<and> payer_Version p = payer_Version row + 1 \<and>
      (\<exists>p'. same_payer p p' \<and> s' = AList.update (payer_ID p) p' s))"
    if "map_of s (payer_ID p) = Some row"
    using that by (simp add: UpdatePayer_def split: option.splits if_splits) (auto simp: gm_wf_update)
qed

text \<open>The only error after which a payer may have been written is that of its commit.\<close>

definition commit_error :: "error \<Rightarrow> bool" where
  "commit_error err = (case err of Wrapped prefix e \<Rightarrow> prefix = ''commit transaction: '' | _ \<Rightarrow> False)"

interpretation postgres_payers: payer_store "\<lambda>c. pg_GetPayer (pgc_err (fst c))"
  "\<lambda>c p. WithinTx (PostgresTransactor (snd c)) (pg_UpdatePayer (fst c) p)" t_payers
  "\<lambda>s. pg_inv s \<and> gm_wf payer_ID (t_payers s)" commit_error
proof unfold_locales
  fix c :: "pg_call \<times> tx_answers" and i r s s'
  assume "pg_GetPayer (pgc_err (fst c)) i s = (r, s')" "pg_inv s \<and> gm_wf payer_ID (t_payers s)"
  then show "s' = s \<and> (\<forall>p. r = Inr p \<longrightarrow> map_of (t_payers s) i = Some p \<and> payer_ID p = i)"
    by (auto simp: pg_GetPayer_def pg_select_row_def gm_wf_key split: option.splits)
next
  fix c :: "pg_call \<times> tx_answers" and p r s s' row
  assume run: "WithinTx (PostgresTransactor (snd c)) (pg_UpdatePayer (fst c) p) s = (r, s')"
    and inv: "pg_inv s \<and> gm_wf payer_ID (t_payers s)"
    and row: "map_of (t_payers s) (payer_ID p) = Some row" "payer_Currency p = payer_Currency row"
  have fits: "length (payer_Currency p) = 3" "upper_check (payer_Currency p)"
    using pg_invD(2,6) inv row by metis+
  consider (kept) "s' = s" "\<exists>err. r = Inl err"
    | (made) y where "pg_UpdatePayer (fst c) p s = (Inr y, s')" "\<forall>err. r = Inl err \<longrightarrow> commit_error err"
    using run by (auto simp: commit_error_def split: option.splits prod.splits sum.splits if_splits)
  then show "(pg_inv s' \<and> gm_wf payer_ID (t_payers s')) \<and> ((\<exists>err. r = Inl err) \<and> t_payers s' = t_payers s \<or>
      (\<forall>err. r = Inl err \<longrightarrow> commit_error err) \<and> payer_Version p = payer_Version row + 1 \<and>
      (\<exists>p'. same_payer p p' \<and> t_payers s' = AList.update (payer_ID p) p' (t_payers s)))"
  proof cases
    case kept
    then show ?thesis using inv by blast
  next
    case made
    from pg_UpdatePayer_success [OF made(1) fits(1)] row obtain a b where
      y: "y = p\<lparr>payer_CreatedAt := a, payer_UpdatedAt := b\<rparr>" and version: "payer_Version row = payer_Version p - 1"
      and s': "s' = s\<lparr>t_payers := AList.update (payer_ID p) y (t_payers s)\<rparr>"
      by auto
    have "pg_inv s'" using pg_inv_payers [of s y] inv fits unfolding s' y by simp
    moreover have "gm_wf payer_ID (t_payers s')" using inv by (simp add: s' y gm_wf_update)
    moreover have "same_payer p y" unfolding y by (rule same_rows(1))
    ultimately show ?thesis using version s' made(2) by auto
  qed
qed

section \<open>Nothing is lost and nothing is done twice\<close>

text \<open>
  C18. Whatever the schedule and whatever the database answers, the payer's row is what the
  operations of some of the clients make of it one after the other, each of them once: every client
  that was answered with a payer is among them, no client that has not been answered, and of those that
  were answered with an error only such whose commit was reported as failed.
\<close>

theorem payer_updates_serialize:
  assumes "pg_inv s" "gm_wf payer_ID (t_payers s)" "map_of (t_payers s) i = Some p0"
    and "sint (payer_Version p0) + int (length sched) < 2 ^ 63"
    and "run_clients (\<lambda>c. pg_GetPayer (pgc_err (fst c)))
      (\<lambda>c p. WithinTx (PostgresTransactor (snd c)) (pg_UpdatePayer (fst c) p)) i ops sched
      (\<lambda>_. Idle, s) = (st, s')"
  shows "\<exists>log row. distinct log \<and> (\<forall>j p. st j = Told (Inr p) \<longrightarrow> j \<in> set log) \<and>
    (\<forall>j \<in> set log. \<exists>r. st j = Told r \<and> (\<forall>err. r = Inl err \<longrightarrow> commit_error err)) \<and>
    map_of (t_payers s') i = Some row \<and> serial (map ops log) (payer_core p0) = Some (payer_core row)"
  using postgres_payers.clients_serial [OF _ assms(3) gm_wf_key [OF assms(2,3)] assms(4,5)] assms(1,2)
  by blast

text \<open>Two clients that both read before either writes: the second to write is told of a conflict.\<close>

definition two_clients :: "(nat \<times> (pg_call \<times> tx_answers) \<times> time) list" where
  "two_clients = map (\<lambda>j. (j, (quiet_call, live_tx), day)) [0, 1, 1, 0]"

definition run_clash :: "(nat \<Rightarrow> client) \<times> pgdb" where
  "run_clash = run_clients (\<lambda>c. pg_GetPayer (pgc_err (fst c)))
     (\<lambda>c p. WithinTx (PostgresTransactor (snd c)) (pg_UpdatePayer (fst c) p)) ''p''
     (\<lambda>j. ReserveOp 600 ''usd'') two_clients (\<lambda>_. Idle, run_payer)"

lemma run_clash_eq:
  "fst run_clash 0 = Told (Inl ErrPayerVersionConflict)"
  "fst run_clash 1 = Told (Inr (buyer 400 600 1 day))"
  unfolding run_clash_def run_payer_eq by code_simp+

theorem payer_updates_serialize_witness:
  "\<exists>log row. distinct log \<and> (1::nat) \<in> set log \<and> map_of (t_payers (snd run_clash)) ''p'' = Some row \<and>
     serial (map (\<lambda>j. ReserveOp 600 ''usd'') log) (payer_core (buyer 1000 0 0 day)) = Some (payer_core row)"
proof -
  have "pg_inv run_payer" "gm_wf payer_ID (t_payers run_payer)"
    "map_of (t_payers run_payer) ''p'' = Some (buyer 1000 0 0 day)"
    using pg_okD(1,2) [OF run_ok(1)] ledger_keys_okD(2) [OF ledger_okD(1)] by (simp_all add: run_payer_eq gm_wf_def buyer_def)
  moreover have "sint (payer_Version (buyer 1000 0 0 day)) + int (length two_clients) < 2 ^ 63"
    by (simp add: buyer_def two_clients_def)
  moreover have "run_clients (\<lambda>c. pg_GetPayer (pgc_err (fst c)))
      (\<lambda>c p. WithinTx (PostgresTransactor (snd c)) (pg_UpdatePayer (fst c) p)) ''p''
      (\<lambda>j. ReserveOp 600 ''usd'') two_clients (\<lambda>_. Idle, run_payer) = (fst run_clash, snd run_clash)"
    by (simp add: run_clash_def)
  ultimately obtain log row where "distinct log" "\<forall>j p. fst run_clash j = Told (Inr p) \<longrightarrow> j \<in> set log"
    "map_of (t_payers (snd run_clash)) ''p'' = Some row"
    "serial (map (\<lambda>j. ReserveOp 600 ''usd'') log) (payer_core (buyer 1000 0 0 day)) = Some (payer_core row)"
    by (rule payer_updates_serialize [THEN exE]) blast
  then show ?thesis using run_clash_eq(2) by blast
qed

end
