(* ===== verification/PaymentGuarantees.thy ===== *)
theory PaymentGuarantees
  imports Scenario
begin

text \<open>
  What the three use cases of \<open>internal/payment/service.go\<close> guarantee when they run on the
  database: what a success has written, which requests are refused and with which error, and that a
  request that can succeed does.
\<close>

section \<open>Authorization\<close>

text \<open>The event of a new ledger entry.\<close>

definition records_event :: "pgdb \<Rightarrow> pgdb \<Rightarrow> string \<Rightarrow> payment \<Rightarrow> json \<Rightarrow> bool" where
  "records_event s s' type p payload \<longleftrightarrow>
     (\<exists>e. map_of (t_outbox_events s) (event_ID e) = None \<and>
        map_of (t_outbox_events s') (event_ID e) = Some e \<and> EventType e = type \<and>
        AggregateID e = payment_ID p \<and> Payload e = payload \<and> event_Status e = EventPending)"

lemma records_eventI:
  assumes "NewEvent (payment_event type p payload now) rnd = Inr e0" "same_event e0 e"
    and "map_of (t_outbox_events s) (event_ID e) = None"
    and "pg_view s' = ledger_write y p' h e (pg_view s)"
    and "trim_space (payment_ID p) = payment_ID p" "trim_space type = type"
  shows "records_event s s' type p payload"
proof -
  have "l_events (pg_view s') = AList.update (event_ID e) e (t_outbox_events s)" using assms(4) by simp
  then have "map_of (t_outbox_events s') (event_ID e) = Some e" by simp
  moreover have "EventType e0 = type" "AggregateID e0 = payment_ID p" "Payload e0 = payload"
    "event_Status e0 = EventPending"
    using assms(1,5,6) by (auto simp: NewEvent_success payment_event_def)
  ultimately show ?thesis
    using assms(3) same_eventD [OF assms(2)] unfolding records_event_def by (intro exI [of _ e]) simp
qed

text \<open>A use case that succeeds has run its transaction's function, and reports success.\<close>

lemma use_case_inner:
  "AuthorizePayment svc env ai s = ((Inr r, obs), s') \<Longrightarrow>
   authorize_tx (svc_repos svc) env ai s = (Inr r, s') \<and>
   obs = observe_one (svc_metrics svc) (ObserveAuthorization ''success'' (env_elapsed env))"
  "CapturePayment svc env pid s = ((Inr r, obs), s') \<Longrightarrow>
   capture_tx (svc_repos svc) env pid s = (Inr r, s') \<and>
   obs = observe_one (svc_metrics svc) (ObserveCapture ''success'' (env_elapsed env))"
  "ExpireAuthorizedPayments svc env n s = ((Inr x, obs), s') \<Longrightarrow>
   expire_tx (svc_repos svc) env (if n \<le> 0 then 100 else n) s = (Inr x, s') \<and> obs = []"
  using AuthorizePayment_success CapturePayment_success ExpireAuthorizedPayments_success
    WithinTx_success by metis+

text \<open>
  C9. An authorization that succeeds on the database: the merchant may create payments; the payer
  had the money, and the amount has moved from its available to its held balance, one version on; the
  payment and its hold are new, with the amount, merchant and payer asked for; and the outbox has
  the event of exactly this payment.
\<close>

theorem authorize_effect:
  assumes "pg_ok s" and "AuthorizePayment (postgres_service db) env ai s = ((Inr r, obs), s')"
  shows "(\<exists>m y. map_of (t_merchants s) (ai_MerchantID ai) = Some m \<and> CanCreatePayments m \<and>
      map_of (t_payers s) (ai_PayerID ai) = Some y \<and>
      0 < sint (ai_AmountMinor ai) \<and> sint (ai_AmountMinor ai) \<le> sint (AvailableBalanceMinor y) \<and>
      map_of (t_payers s') (ai_PayerID ai) = Some (res_Payer r) \<and>
      sint (AvailableBalanceMinor (res_Payer r)) = sint (AvailableBalanceMinor y) - sint (ai_AmountMinor ai) \<and>
      sint (HeldBalanceMinor (res_Payer r)) = sint (HeldBalanceMinor y) + sint (ai_AmountMinor ai) \<and>
      payer_Version (res_Payer r) = payer_Version y + 1) \<and>
    map_of (t_payments s) (payment_ID (res_Payment r)) = None \<and>
    map_of (t_payments s') (payment_ID (res_Payment r)) = Some (res_Payment r) \<and>
    payment_Status (res_Payment r) = StatusAuthorized \<and>
    payment_AmountMinor (res_Payment r) = ai_AmountMinor ai \<and>
    payment_MerchantID (res_Payment r) = ai_MerchantID ai \<and> payment_PayerID (res_Payment r) = ai_PayerID ai \<and>
    map_of (t_payment_holds s') (AuthorizationHoldID (res_Payment r)) = Some (res_Hold r) \<and>
    hold_Status (res_Hold r) = HoldStatusHeld \<and> hold_AmountMinor (res_Hold r) = ai_AmountMinor ai \<and>
    records_event s s' eventTypePaymentAuthorized (res_Payment r)
      (paymentAuthorizedPayload (res_Payment r) (res_Hold r)) \<and>
    obs = [ObserveAuthorization ''success'' (env_elapsed env)]"
proof -
  have tx: "authorize_tx postgres_repos env ai s = (Inr r, s')" and obs: "obs =
      [ObserveAuthorization ''success'' (env_elapsed env)]"
    using use_case_inner(1) [OF assms(2)] by (simp_all add: observe_one_def)
  note ok = pg_okD(1,2) [OF assms(1)]
  obtain m y e0 e where
    m: "map_of (t_merchants s) (ai_MerchantID ai) = Some m" "CanCreatePayments m" and
    y: "map_of (t_payers s) (ai_PayerID ai) = Some y" and
    w: "authorize_writes (pg_view s) y (res_Payer r) (res_Payment r) (res_Hold r)" and
    ids: "payment_MerchantID (res_Payment r) = merchant_ID m" "payment_PayerID (res_Payment r) = ai_PayerID ai"
      "payment_AmountMinor (res_Payment r) = ai_AmountMinor ai" and
    e: "NewEvent (payment_event eventTypePaymentAuthorized (res_Payment r)
      (paymentAuthorizedPayload (res_Payment r) (res_Hold r)) (env_now env)) (env_rand env 2) = Inr e0"
      "same_event e0 e" "map_of (t_outbox_events s) (event_ID e) = None" and
    s': "pg_view s' = ledger_write (res_Payer r) (res_Payment r) (res_Hold r) e (pg_view s)"
    using pg.authorize_success [OF ok tx] by auto
  note D = authorize_writesD [OF ok(2) w]
  have "payer_ID y = ai_PayerID ai" "merchant_ID m = ai_MerchantID ai"
    using gm_wf_key [OF ledger_keys_okD(2) [OF ledger_okD(1) [OF ok(2)]]] y
      gm_wf_key [OF ledger_keys_okD(1) [OF ledger_okD(1) [OF ok(2)]]] m(1) by auto
  moreover obtain c now y1 where "Reserve y (ai_AmountMinor ai) c now = Inr y1" "same_payer y1 (res_Payer r)"
    using w ids(3) unfolding authorize_writes_def by auto
  moreover have "payer_ok y" using ledger_okD(3) [OF ok(2)] y by simp
  moreover have "t_payers s' = AList.update (payer_ID (res_Payer r)) (res_Payer r) (t_payers s)"
    "t_payments s' = AList.update (payment_ID (res_Payment r)) (res_Payment r) (t_payments s)"
    "t_payment_holds s' = AList.update (hold_ID (res_Hold r)) (res_Hold r) (t_payment_holds s)"
    using s' by (metis ledger_write_sel pg_view_sel)+
  moreover have "records_event s s' eventTypePaymentAuthorized (res_Payment r)
      (paymentAuthorizedPayload (res_Payment r) (res_Hold r))"
    using w by (intro records_eventI [OF e s']) (auto simp: authorize_writes_def payment_ok_def)
  ultimately show ?thesis
    using m y w ids D obs Reserve_balances [of y "ai_AmountMinor ai" c now y1]
      same_payerD [of y1 "res_Payer r"]
    by (auto simp: authorize_writes_def hold_matches_def Reserve_success)
qed

theorem authorize_effect_witness:
  "map_of (t_payments run_authorized) ''pay_00'' = Some (deal StatusAuthorized None None day) \<and>
   records_event run_payer run_authorized ''payment.authorized'' (deal StatusAuthorized None None day)
     (paymentAuthorizedPayload (deal StatusAuthorized None None day) (deal_hold HoldStatusHeld day))"
  using authorize_effect [OF run_ok(1) run_authorize_answer]
  by (simp add: eventTypePaymentAuthorized_def)

text \<open>The checks a request meets, in their order.\<close>

definition authorize_refusal :: "pgdb \<Rightarrow> authorize_input \<Rightarrow> error option" where
  "authorize_refusal s ai =
     (case map_of (t_merchants s) (ai_MerchantID ai) of None \<Rightarrow> Some ErrMerchantNotFound
      | Some m \<Rightarrow>
        if merchant_Status m \<noteq> MerchantStatusActive then Some ErrMerchantCannotCreatePayments
        else (case map_of (t_payers s) (ai_PayerID ai) of None \<Rightarrow> Some ErrPayerNotFound
        | Some y \<Rightarrow>
          if payer_Currency y \<noteq> NormalizeCurrency (ai_Currency ai) then Some ErrPayerCurrencyMismatch
          else if sint (ai_AmountMinor ai) \<le> 0 \<or> sint (AvailableBalanceMinor y) < sint (ai_AmountMinor ai)
            then Some ErrInsufficientAvailableBalance
          else None))"

text \<open>
  C10. A request for an unknown or inactive merchant, an unknown payer, in another currency, for
  more than is available or for no positive amount is refused with the error of the first check that
  fails, which is also what the metric reports, and nothing is written.
\<close>

theorem authorize_refuses:
  assumes "authorize_refusal s ai = Some err" and "tx_begin db = None" and "tx_rollback db = None"
    and "pgc_err (env_call env 0) = None" and "pgc_err (env_call env 1) = None"
  shows "AuthorizePayment (postgres_service db) env ai s =
    ((Inl err, [ObserveAuthorization (paymentMetricResult err) (env_elapsed env)]), s)"
proof -
  have tx: "fst (authorize_tx postgres_repos env ai s) = Inl err"
    using assms unfolding authorize_refusal_def authorize_tx_def act_bind_def postgres_repos_sel
    by (auto simp: pg_GetMerchant_def pg_GetPayer_def pg_select_row_def CanCreatePayments_def
        CanAuthorize_def act_fail_def split: option.splits if_splits)
  have "WithinTx (PostgresTransactor db) (authorize_tx postgres_repos env ai) s = (Inl err, s)"
    using tx assms(2,3) by (auto split: prod.splits)
  moreover have "\<not> errors_is err ErrPayerVersionConflict"
    using assms(1) unfolding authorize_refusal_def by (auto split: option.splits if_splits)
  ultimately show ?thesis
    by (simp add: AuthorizePayment_def observePayerVersionConflict_def observe_one_def)
qed

theorem authorize_refuses_witness:
  "fst (AuthorizePayment (postgres_service live_tx) (run_env day 0) (order\<lparr>ai_AmountMinor := 2000\<rparr>) run_payer) =
   (Inl ErrInsufficientAvailableBalance, [ObserveAuthorization ''insufficient_balance'' 5])"
proof -
  have "authorize_refusal run_payer (order\<lparr>ai_AmountMinor := 2000\<rparr>) = Some ErrInsufficientAvailableBalance"
    unfolding run_payer_eq by code_simp
  from authorize_refuses [OF this, of live_tx "run_env day 0"] show ?thesis
    by (simp add: live_tx_def run_env_def quiet_call_def paymentMetricResult_def)
qed

section \<open>Capture\<close>

text \<open>
  C11. A capture that succeeds: the payment was authorized and not past its expiry; it is now
  captured at the service's clock, its hold is captured, the payer's held balance is lower by the
  amount and its available balance untouched; and the outbox has the event.
\<close>

theorem capture_effect:
  assumes "pg_ok s" and "CapturePayment (postgres_service db) env pid s = ((Inr r, obs), s')"
  shows "\<exists>p y. map_of (t_payments s) pid = Some p \<and> payment_Status p = StatusAuthorized \<and>
    env_now env \<le> payment_ExpiresAt p \<and> map_of (t_payers s) (payment_PayerID p) = Some y \<and>
    map_of (t_payments s') pid = Some (res_Payment r) \<and> same_deal p (res_Payment r) \<and>
    payment_Status (res_Payment r) = StatusCaptured \<and>
    map_of (t_payment_holds s') (AuthorizationHoldID p) = Some (res_Hold r) \<and>
    hold_Status (res_Hold r) = HoldStatusCaptured \<and>
    map_of (t_payers s') (payment_PayerID p) = Some (res_Payer r) \<and>
    AvailableBalanceMinor (res_Payer r) = AvailableBalanceMinor y \<and>
    sint (HeldBalanceMinor (res_Payer r)) = sint (HeldBalanceMinor y) - sint (payment_AmountMinor p) \<and>
    records_event s s' eventTypePaymentCaptured (res_Payment r)
      (paymentCapturedPayload (res_Payment r) (res_Hold r) (env_now env)) \<and>
    obs = [ObserveCapture ''success'' (env_elapsed env)]"
proof -
  have tx: "capture_tx postgres_repos env pid s = (Inr r, s')"
    and obs: "obs = [ObserveCapture ''success'' (env_elapsed env)]"
    using use_case_inner(2) [OF assms(2)] by (simp_all add: observe_one_def)
  note ok = pg_okD(1,2) [OF assms(1)]
  obtain p h y e0 e where
    p: "map_of (t_payments s) pid = Some p" "CanCapture p (env_now env)" "payment_ID p = pid" and
    st: "payment_Status (res_Payment r) = StatusCaptured" "hold_Status (res_Hold r) = HoldStatusCaptured" and
    w: "finish_writes (pg_view s) y (res_Payer r) p (res_Payment r) h (res_Hold r)" and
    e: "NewEvent (payment_event eventTypePaymentCaptured (res_Payment r)
      (paymentCapturedPayload (res_Payment r) (res_Hold r) (env_now env)) (env_now env))
      (env_rand env 0) = Inr e0" "same_event e0 e" "map_of (t_outbox_events s) (event_ID e) = None" and
    s': "pg_view s' = ledger_write (res_Payer r) (res_Payment r) (res_Hold r) e (pg_view s)"
    using pg.capture_success [OF ok tx] by auto
  note D = finish_writesD [OF ok(2) w]
  have y: "map_of (t_payers s) (payment_PayerID p) = Some y" using w by (simp add: finish_writes_def)
  have tables: "t_payers s' = AList.update (payer_ID (res_Payer r)) (res_Payer r) (t_payers s)"
    "t_payments s' = AList.update (payment_ID (res_Payment r)) (res_Payment r) (t_payments s)"
    "t_payment_holds s' = AList.update (hold_ID (res_Hold r)) (res_Hold r) (t_payment_holds s)"
    using s' by (metis ledger_write_sel pg_view_sel)+
  have ids: "payment_ID (res_Payment r) = pid" "payer_ID (res_Payer r) = payment_PayerID p"
    "hold_ID (res_Hold r) = AuthorizationHoldID p"
    using D(1,4,5,6,12) p(3) by (simp_all add: hold_matches_def)
  have "records_event s s' eventTypePaymentCaptured (res_Payment r)
      (paymentCapturedPayload (res_Payment r) (res_Hold r) (env_now env))"
    using D(14) by (intro records_eventI [OF e s']) (auto simp: payment_ok_def)
  moreover have "AvailableBalanceMinor (res_Payer r) = AvailableBalanceMinor y"
    using D(19,20) st(1) by (intro signed_word_eqI) (simp add: payer_total_def)
  ultimately show ?thesis
    using p y st obs D(19) finish_writes_deal [OF ok(2) w]
    by (auto simp: tables ids CanCapture_iff Payment_Capture_success)
qed

theorem capture_effect_witness:
  "map_of (t_payments run_captured) ''pay_00'' =
     Some (deal StatusCaptured (Some (day + minute)) None (day + minute)) \<and>
   map_of (t_payers run_captured) ''p'' = Some (buyer 700 0 2 (day + minute))"
  using capture_effect [OF run_ok(2) run_capture_answer] by (auto simp: run_authorized_eq)

text \<open>
  No payment is captured twice, and none is captured after it expired: once a payment has left
  the authorized status, no later capture of it succeeds, whatever the program did in between.
\<close>

theorem no_second_capture:
  assumes "pg_reachable s" and "map_of (t_payments s) pid = Some p"
    and "payment_Status p \<noteq> StatusAuthorized" and "pg_step\<^sup>*\<^sup>* s s'"
  shows "\<exists>err. fst (fst (CapturePayment (postgres_service db) env pid s')) = Inl err"
proof (cases "fst (fst (CapturePayment (postgres_service db) env pid s'))")
  case (Inr r)
  then obtain obs s2 where run: "CapturePayment (postgres_service db) env pid s' = ((Inr r, obs), s2)"
    by (metis prod.collapse)
  have good: "good_step s s'" using pg_steps_good [OF assms(4) pg_reachable_ok [OF assms(1)]] .
  then have ok: "pg_ok s'" and nxt: "ledger_next (pg_view s) (pg_view s')" unfolding good_step_def by simp_all
  obtain p' where p': "map_of (t_payments s') pid = Some p'" "status_leads (payment_Status p) (payment_Status p')"
    using ledger_nextD(2) [OF nxt, of pid p] assms(2) by auto
  have "payment_Status p' \<noteq> StatusAuthorized" using p'(2) assms(3) by (cases "payment_Status p") auto
  then have False using capture_effect [OF ok run] p'(1) by auto
  then show ?thesis ..
qed simp

theorem no_second_capture_witness:
  "\<exists>err. fst (fst (CapturePayment (postgres_service live_tx) (run_env (day + minute) 9) ''pay_00'' run_settled)) = Inl err"
proof -
  have "map_of (t_payments run_captured) ''pay_00'' =
      Some (deal StatusCaptured (Some (day + minute)) None (day + minute))"
    by (simp add: run_captured_eq)
  from no_second_capture [OF run_reachable(3) this _ run_paths(3)] show ?thesis by simp
qed

text \<open>The checks a capture meets, in their order, on a database that satisfies the invariant.\<close>

definition capture_refusal :: "pgdb \<Rightarrow> string \<Rightarrow> time \<Rightarrow> error option" where
  "capture_refusal s pid now =
     (case map_of (t_payments s) pid of None \<Rightarrow> Some ErrPaymentNotFound
      | Some p \<Rightarrow>
        if payment_Status p \<noteq> StatusAuthorized then Some ErrPaymentNotCapturable
        else if payment_ExpiresAt p < now then Some ErrAuthorizationExpired
        else None)"

lemma reads_for_capture:
  assumes ok: "pg_ok s" and p: "map_of (t_payments s) pid = Some p"
    and calls: "pg_alive (env_call env 1)" "pgc_err (env_call env 2) = None"
  obtains h y where "payment_ID p = pid" "pg_GetHoldByPaymentID (env_call env 1) pid s = (Inr h, s)"
    "pg_GetPayer (pgc_err (env_call env 2)) (payment_PayerID p) s = (Inr y, s)"
proof -
  have L: "ledger_ok (pg_view s)" using pg_okD(2) [OF ok] .
  have p': "map_of (l_payments (pg_view s)) pid = Some p" using p by simp
  note P = ledger_okD(5) [OF L p', unfolded payment_linked_def]
  have id: "payment_ID p = pid" using gm_wf_key [OF ledger_keys_okD(3) [OF ledger_okD(1) [OF L]] p'] .
  obtain h y where h: "map_of (l_holds (pg_view s)) (AuthorizationHoldID p) = Some h" "hold_PaymentID h = pid"
    and y: "map_of (t_payers s) (payment_PayerID p) = Some y"
    using P id unfolding hold_matches_def by auto
  have "j = AuthorizationHoldID p"
    if "map_of (l_holds (pg_view s)) j = Some g" "hold_PaymentID g = hold_PaymentID h" for j g
    using hold_of_payment(1) [OF L p' that(1)] that(2) h(2) by simp
  then have "pg_GetHoldByPaymentID (env_call env 1) pid s = (Inr h, s)"
    using pg.GetHoldByPaymentID_live [OF calls(1) pg_okD(1) [OF ok] h(1)] h(2) by simp
  moreover have "pg_GetPayer (pgc_err (env_call env 2)) (payment_PayerID p) s = (Inr y, s)"
    using y calls(2) by (simp add: pg_GetPayer_def pg_select_row_def)
  ultimately show thesis using that id by blast
qed

text \<open>
  C12. A capture of an unknown payment, of one that is not authorized, or of one whose authorization
  has run out by the service's clock is refused with its own error, and nothing is written.
\<close>

theorem capture_refuses:
  assumes "pg_ok s" and "capture_refusal s pid (env_now env) = Some err"
    and "tx_begin db = None" and "tx_rollback db = None"
    and "pg_alive (env_call env 0)" and "pg_alive (env_call env 1)" and "pg_alive (env_call env 2)"
  shows "CapturePayment (postgres_service db) env pid s =
    ((Inl err, [ObserveCapture (paymentMetricResult err) (env_elapsed env)]), s)"
proof -
  have tx: "fst (capture_tx postgres_repos env pid s) = Inl err"
  proof (cases "map_of (t_payments s) pid")
    case None
    then show ?thesis using assms(2,5)
      by (simp add: capture_refusal_def capture_tx_def act_bind_def pg_GetPayment_def pg_select_row_def
          pg_alive_def)
  next
    case (Some p)
    obtain h y where r: "payment_ID p = pid" "pg_GetHoldByPaymentID (env_call env 1) pid s = (Inr h, s)"
      "pg_GetPayer (pgc_err (env_call env 2)) (payment_PayerID p) s = (Inr y, s)"
      using reads_for_capture [OF assms(1) Some assms(6)] assms(7) unfolding pg_alive_def by blast
    have "pg_GetPayment (env_call env 0) pid s = (Inr p, s)"
      using Some assms(5) by (simp add: pg_GetPayment_def pg_select_row_def pg_alive_def)
    then show ?thesis using assms(2) Some r
      by (auto simp: capture_refusal_def capture_tx_def act_bind_def act_fail_def utc_def Let_def
          del: One_nat_def split: if_splits)
  qed
  have "WithinTx (PostgresTransactor db) (capture_tx postgres_repos env pid) s = (Inl err, s)"
    using tx assms(3,4) by (auto split: prod.splits)
  moreover have "\<not> errors_is err ErrPayerVersionConflict"
    using assms(2) unfolding capture_refusal_def by (auto split: option.splits if_splits)
  ultimately show ?thesis
    by (simp add: CapturePayment_def observePayerVersionConflict_def observe_one_def)
qed

theorem capture_refuses_witness:
  "CapturePayment (postgres_service live_tx) (run_env (day + hour) 9) ''pay_00'' run_authorized =
   ((Inl ErrAuthorizationExpired, [ObserveCapture ''authorization_expired'' 5]), run_authorized)"
proof -
  have "capture_refusal run_authorized ''pay_00'' (day + hour) = Some ErrAuthorizationExpired"
    unfolding run_authorized_eq by code_simp
  then show ?thesis
    using capture_refuses [OF run_ok(2), of "''pay_00''" "run_env (day + hour) 9" _ live_tx]
    by (simp add: live_tx_def run_env_def quiet_call_def pg_alive_def paymentMetricResult_def)
qed

section \<open>Expiry\<close>

text \<open>
  C13. A run of the expiry worker that succeeds expires at most the given number of payments, all
  of them authorized and due. Each is expired afterwards, its terms unchanged, its hold is released, and
  the outbox has one new event of its expiry, and no other new ones; every payer gets the amounts of its
  expired payments back from its held to its available balance, one version for each, and one without
  expired payments is as it was; no other payment or hold is touched.
\<close>

theorem expire_effect:
  assumes "pg_ok s" and "ExpireAuthorizedPayments (postgres_service db) env n s = ((Inr res, obs), s')"
  shows "\<exists>ps. map payment_ID (res_Payments res) = map payment_ID ps \<and>
    int (length ps) \<le> (if n \<le> 0 then 100 else n) \<and> distinct (map payment_ID ps) \<and>
    (\<forall>p \<in> set ps. map_of (t_payments s) (payment_ID p) = Some p \<and>
       payment_Status p = StatusAuthorized \<and> payment_ExpiresAt p \<le> env_now env \<and>
       (\<exists>p'. map_of (t_payments s') (payment_ID p) = Some p' \<and> same_deal p p' \<and>
          payment_Status p' = StatusExpired) \<and>
       (\<exists>h. map_of (t_payment_holds s') (AuthorizationHoldID p) = Some h \<and>
          hold_PaymentID h = payment_ID p \<and> hold_Status h = HoldStatusReleased) \<and>
       (\<exists>e. map_of (t_outbox_events s) (event_ID e) = None \<and> map_of (t_outbox_events s') (event_ID e) = Some e \<and>
          EventType e = eventTypePaymentExpired \<and> AggregateID e = payment_ID p \<and> event_Status e = EventPending)) \<and>
    length (t_outbox_events s') = length (t_outbox_events s) + length ps \<and>
    (\<forall>i y. map_of (t_payers s) i = Some y \<longrightarrow>
       (\<exists>y'. map_of (t_payers s') i = Some y' \<and> released_to i ps y y')) \<and>
    (\<forall>pid. pid \<notin> set (map payment_ID ps) \<longrightarrow> map_of (t_payments s') pid = map_of (t_payments s) pid) \<and>
    (\<forall>hid h. map_of (t_payment_holds s) hid = Some h \<longrightarrow> hold_PaymentID h \<notin> set (map payment_ID ps) \<longrightarrow>
       map_of (t_payment_holds s') hid = Some h)"
proof -
  have tx: "expire_tx postgres_repos env (if n \<le> 0 then 100 else n) s = (Inr res, s')"
    using use_case_inner(3) [OF assms(2)] by simp
  have limit: "0 < (if n \<le> 0 then 100 else n)" by simp
  obtain ps where ps: "expired_list_ok (t_payments s) (env_now env) ps"
    "int (length ps) \<le> (if n \<le> 0 then 100 else n)" "expired_from (pg_view s) ps (pg_view s')"
    "map payment_ID (res_Payments res) = map payment_ID ps"
    using pg.expire_success [OF pg_okD(1,2) [OF assms(1)] tx limit] unfolding pg_view_sel by blast
  note E = ps(3) [unfolded expired_from_def pg_view_sel]
  show ?thesis
  proof (intro exI [of _ ps] conjI ballI)
    fix p assume p: "p \<in> set ps"
    show "map_of (t_payments s) (payment_ID p) = Some p" "payment_Status p = StatusAuthorized"
      "payment_ExpiresAt p \<le> env_now env"
      using ps(1) p unfolding expired_list_ok_def expired_authorized_def by force+
    show expired: "\<exists>p'. map_of (t_payments s') (payment_ID p) = Some p' \<and> same_deal p p' \<and>
        payment_Status p' = StatusExpired"
      using E p by blast
    then show "\<exists>h. map_of (t_payment_holds s') (AuthorizationHoldID p) = Some h \<and>
        hold_PaymentID h = payment_ID p \<and> hold_Status h = HoldStatusReleased"
      using E ledger_okD(5) [of "pg_view s'" "payment_ID p"]
      by (auto simp: payment_linked_def hold_matches_def same_deal_def)
    show "\<exists>e. map_of (t_outbox_events s) (event_ID e) = None \<and> map_of (t_outbox_events s') (event_ID e) = Some e \<and>
        EventType e = eventTypePaymentExpired \<and> AggregateID e = payment_ID p \<and> event_Status e = EventPending"
      using events_for_member [of _ "t_outbox_events s" "t_outbox_events s'" "(eventTypePaymentExpired, payment_ID p)"] E p
      by (fastforce simp: event_for_def event_label_def)
  next
    show "length (t_outbox_events s') = length (t_outbox_events s) + length ps"
      using E events_for_added unfolding events_added_def by fastforce
  qed (use ps E in \<open>auto simp: expired_list_ok_def\<close>)
qed

theorem expire_effect_witness:
  "\<exists>p'. map_of (t_payments run_expired) ''pay_00'' = Some p' \<and> payment_Status p' = StatusExpired"
proof -
  have run: "ExpireAuthorizedPayments (postgres_service live_tx) (run_env (day + hour) 3) 10 run_authorized =
      ((Inr \<lparr>res_Payments = [deal StatusExpired None None (day + hour)],
        res_Holds = [deal_hold HoldStatusReleased (day + hour)],
        res_Payers = [buyer 1000 0 2 (day + hour)]\<rparr>, []), run_expired)"
    using run_expire_answer by (simp add: run_expired_def prod_eq_iff)
  show ?thesis using expire_effect [OF run_ok(2) run] by auto
qed

section \<open>Failure and progress\<close>

lemma observed:
  "observe_one (svc_metrics (postgres_service db)) (ObserveAuthorization r t) = [ObserveAuthorization r t]"
  "observe_one (svc_metrics (postgres_service db)) (ObserveCapture r t) = [ObserveCapture r t]"
  by (simp_all add: observe_one_def postgres_service_sel)

text \<open>
  C15. A request that passes the checks succeeds, when the database answers, the identifiers drawn
  are new, the payer's version has room, the currency is a code and the clock is a time JSON can
  write.
\<close>

theorem authorize_succeeds:
  assumes "pg_ok s" and "\<And>k. pg_alive (env_call env k)"
    and "authorize_refusal s ai = None" and "IsValidCurrency (ai_Currency ai)"
    and "\<And>y. map_of (t_payers s) (ai_PayerID ai) = Some y \<Longrightarrow> 0 \<le> sint (payer_Version y + 1)"
    and "new_id ''pay'' (env_rand env 0) = Inr pid" "map_of (t_payments s) pid = None"
    and "new_id ''hold'' (env_rand env 1) = Inr hid" "map_of (t_payment_holds s) hid = None"
    and "new_id ''evt'' (env_rand env 2) = Inr eid" "map_of (t_outbox_events s) eid = None"
    and "json_time_ok (env_now env - second)" "json_time_ok (env_now env + 15 * minute)"
  shows "\<exists>r s'. AuthorizePayment (postgres_service live_tx) env ai s =
    ((Inr r, [ObserveAuthorization ''success'' (env_elapsed env)]), s')"
proof -
  obtain m y where m: "map_of (t_merchants s) (ai_MerchantID ai) = Some m" "CanCreatePayments m"
    and y: "map_of (t_payers s) (ai_PayerID ai) = Some y" "CanAuthorize y (ai_AmountMinor ai) (ai_Currency ai)"
    using assms(3) unfolding authorize_refusal_def CanCreatePayments_def CanAuthorize_def
    by (auto split: option.splits if_splits)
  have "\<exists>r s'. authorize_tx postgres_repos env ai s = (Inr r, s')"
    by (rule pg.authorize_progress [OF pg_okD(1,2) [OF assms(1)] assms(2)])
      (use m y assms(4-13) in simp_all)
  then obtain r s' where tx: "authorize_tx postgres_repos env ai s = (Inr r, s')" by blast
  have "WithinTx (PostgresTransactor live_tx) (authorize_tx postgres_repos env ai) s = (Inr r, s')"
    by (rule WithinTx_live [of "authorize_tx postgres_repos env ai", OF tx]) simp
  then have "WithinTx (svc_transactor (postgres_service live_tx)) (authorize_tx (svc_repos (postgres_service live_tx)) env ai) s = (Inr r, s')"
    by (simp only: postgres_service_sel)
  then show ?thesis
    unfolding AuthorizePayment_success observed by blast
qed

theorem authorize_succeeds_witness:
  "\<exists>r s'. AuthorizePayment (postgres_service live_tx) (run_env (day + minute) 7) order run_authorized =
    ((Inr r, [ObserveAuthorization ''success'' 5]), s')"
proof -
  have "\<exists>r s'. AuthorizePayment (postgres_service live_tx) (run_env (day + minute) 7) order run_authorized =
    ((Inr r, [ObserveAuthorization ''success'' (env_elapsed (run_env (day + minute) 7))]), s')"
  proof (rule authorize_succeeds [OF run_ok(2)])
    show "authorize_refusal run_authorized order = None" unfolding run_authorized_eq by code_simp
    show "IsValidCurrency (ai_Currency order)" by code_simp
    show "new_id ''pay'' (env_rand (run_env (day + minute) 7) 0) = Inr ''pay_07''" by code_simp
    show "new_id ''hold'' (env_rand (run_env (day + minute) 7) 1) = Inr ''hold_08''" by code_simp
    show "new_id ''evt'' (env_rand (run_env (day + minute) 7) 2) = Inr ''evt_09''" by code_simp
    show "0 \<le> sint (payer_Version y + 1)" if "map_of (t_payers run_authorized) (ai_PayerID order) = Some y" for y
      using that by (auto simp: run_authorized_eq order_def buyer_def)
    show "json_time_ok (env_now (run_env (day + minute) 7) - second)"
      "json_time_ok (env_now (run_env (day + minute) 7) + 15 * minute)"
      by code_simp+
  qed (simp_all add: run_authorized_eq run_env_def pg_alive_def quiet_call_def deal_event_def)
  then show ?thesis by (simp add: run_env_def)
qed

text \<open>
  C16. A capture that passes the checks succeeds, when the database answers, the event's identifier
  is new, the payer's version has room and the clock is a time JSON can write.
\<close>

theorem capture_succeeds:
  assumes "pg_ok s" and "\<And>k. pg_alive (env_call env k)"
    and "map_of (t_payments s) pid = Some p" and "payment_Status p = StatusAuthorized"
    and "env_now env \<le> payment_ExpiresAt p"
    and "\<And>y. map_of (t_payers s) (payment_PayerID p) = Some y \<Longrightarrow> 0 \<le> sint (payer_Version y + 1)"
    and "new_id ''evt'' (env_rand env 0) = Inr eid" "map_of (t_outbox_events s) eid = None"
    and "json_time_ok (env_now env)"
  shows "\<exists>r s'. CapturePayment (postgres_service live_tx) env pid s =
    ((Inr r, [ObserveCapture ''success'' (env_elapsed env)]), s')"
proof -
  have "CanCapture p (env_now env)" using assms(4,5) by (simp add: CanCapture_iff Payment_Capture_success)
  then have "\<exists>r s'. capture_tx postgres_repos env pid s = (Inr r, s')"
    by (intro pg.capture_progress [OF pg_okD(1,2) [OF assms(1)] assms(2)])
      (use assms(3,6-9) in simp_all)
  then obtain r s' where tx: "capture_tx postgres_repos env pid s = (Inr r, s')" by blast
  have "WithinTx (PostgresTransactor live_tx) (capture_tx postgres_repos env pid) s = (Inr r, s')"
    by (rule WithinTx_live [of "capture_tx postgres_repos env pid", OF tx]) simp
  then have "WithinTx (svc_transactor (postgres_service live_tx)) (capture_tx (svc_repos (postgres_service live_tx)) env pid) s = (Inr r, s')"
    by (simp only: postgres_service_sel)
  then show ?thesis
    unfolding CapturePayment_success observed by blast
qed

theorem capture_succeeds_witness:
  "\<exists>r s'. CapturePayment (postgres_service live_tx) (run_env (day + 15 * minute) 3) ''pay_00'' run_authorized =
    ((Inr r, [ObserveCapture ''success'' 5]), s')"
proof -
  have p: "map_of (t_payments run_authorized) ''pay_00'' = Some (deal StatusAuthorized None None day)"
    by (simp add: run_authorized_eq)
  have "\<exists>r s'. CapturePayment (postgres_service live_tx) (run_env (day + 15 * minute) 3) ''pay_00'' run_authorized =
    ((Inr r, [ObserveCapture ''success'' (env_elapsed (run_env (day + 15 * minute) 3))]), s')"
  proof (rule capture_succeeds [OF run_ok(2) _ p])
    show "new_id ''evt'' (env_rand (run_env (day + 15 * minute) 3) 0) = Inr ''evt_03''" by code_simp
    show "json_time_ok (env_now (run_env (day + 15 * minute) 3))" by code_simp
    show "0 \<le> sint (payer_Version y + 1)"
      if "map_of (t_payers run_authorized) (payment_PayerID (deal StatusAuthorized None None day)) = Some y" for y
      using that by (auto simp: run_authorized_eq buyer_def)
  qed (simp_all add: run_authorized_eq run_env_def pg_alive_def quiet_call_def deal_event_def)
  then show ?thesis by (simp add: run_env_def)
qed

end
