(* ===== verification/ReadCommitted.thy ===== *)
theory ReadCommitted
  imports PaymentGuarantees
begin

text \<open>
  Use cases of \<open>internal/payment/service.go\<close> that run at the same time. \<open>PostgresTransactor\<close>
  begins its transactions with the default isolation, \<open>READ COMMITTED\<close>: every statement sees what
  other transactions have committed before it. Up to the first write of a use case, \<open>UpdatePayer\<close>,
  the others are interleaved between its statements; from then on it holds the lock on the payer's
  row, and use cases of the same payer wait. Authorizations are serializable, and so are captures as long
  as nothing finishes a payment between their reads.
\<close>

section \<open>Other use cases between the statements\<close>

datatype other =
    OtherAuthorize tx_answers "pg_call env" authorize_input
  | OtherCapture tx_answers "pg_call env" string
  | OtherExpire tx_answers "pg_call env" int

fun run_other :: "other \<Rightarrow> pgdb \<Rightarrow> pgdb" where
  "run_other (OtherAuthorize db env ai) s = snd (AuthorizePayment (postgres_service db) env ai s)"
| "run_other (OtherCapture db env pid) s = snd (CapturePayment (postgres_service db) env pid s)"
| "run_other (OtherExpire db env limit) s = snd (ExpireAuthorizedPayments (postgres_service db) env limit s)"

definition run_others :: "other list \<Rightarrow> pgdb \<Rightarrow> pgdb" where
  "run_others os s = fold run_other os s"

text \<open>How often one of them writes a payer at most.\<close>

fun payer_writes :: "other \<Rightarrow> nat" where
  "payer_writes (OtherExpire db env limit) = nat (if limit \<le> 0 then 100 else limit)"
| "payer_writes other = 1"

fun authorizes :: "other \<Rightarrow> bool" where
  "authorizes (OtherAuthorize db env ai) = True"
| "authorizes other = False"

text \<open>A statement that runs on what the others have made of the state.\<close>

definition meanwhile :: "('c \<Rightarrow> 'a \<Rightarrow> ('s, 'b) act) \<Rightarrow> 'c \<times> ('s \<Rightarrow> 's) \<Rightarrow> 'a \<Rightarrow> ('s, 'b) act" where
  "meanwhile call c x s = call (fst c) x (snd c s)"

definition racing_repos :: "('c, 's) repos \<Rightarrow> ('c \<times> ('s \<Rightarrow> 's), 's) repos" where
  "racing_repos R =
     \<lparr>r_GetMerchant = meanwhile (r_GetMerchant R), r_GetPayer = meanwhile (r_GetPayer R),
      r_UpdatePayer = meanwhile (r_UpdatePayer R), r_CreatePayment = meanwhile (r_CreatePayment R),
      r_GetPayment = meanwhile (r_GetPayment R),
      r_ListExpiredAuthorizedPayments =
        (\<lambda>c now limit s. r_ListExpiredAuthorizedPayments R (fst c) now limit (snd c s)),
      r_UpdatePayment = meanwhile (r_UpdatePayment R), r_CreateHold = meanwhile (r_CreateHold R),
      r_GetHoldByPaymentID = meanwhile (r_GetHoldByPaymentID R),
      r_UpdateHold = meanwhile (r_UpdateHold R), r_CreateEvent = meanwhile (r_CreateEvent R)\<rparr>"

text \<open>\<open>others k\<close> run before the repository call \<open>k\<close>, up to the one that writes the payer.\<close>

definition racing_env ::
  "nat \<Rightarrow> (nat \<Rightarrow> other list) \<Rightarrow> pg_call env \<Rightarrow> (pg_call \<times> (pgdb \<Rightarrow> pgdb)) env" where
  "racing_env first_write others env =
     \<lparr>env_call = (\<lambda>k. (env_call env k, if k \<le> first_write then run_others (others k) else (\<lambda>s. s))),
      env_now = env_now env, env_rand = env_rand env, env_elapsed = env_elapsed env\<rparr>"

text \<open>The transactions of \<open>AuthorizePayment\<close> and \<open>CapturePayment\<close> among the others.\<close>

definition racing_authorize ::
  "(nat \<Rightarrow> other list) \<Rightarrow> pg_call env \<Rightarrow> authorize_input \<Rightarrow> (pgdb, payment_result) act" where
  "racing_authorize others env input =
     authorize_tx (racing_repos postgres_repos) (racing_env 2 others env) input"

definition racing_capture ::
  "(nat \<Rightarrow> other list) \<Rightarrow> pg_call env \<Rightarrow> string \<Rightarrow> (pgdb, payment_result) act" where
  "racing_capture others env paymentID =
     capture_tx (racing_repos postgres_repos) (racing_env 3 others env) paymentID"

lemma racing_sel [simp]:
  "r_GetMerchant (racing_repos R) = meanwhile (r_GetMerchant R)"
  "r_GetPayer (racing_repos R) = meanwhile (r_GetPayer R)"
  "r_UpdatePayer (racing_repos R) = meanwhile (r_UpdatePayer R)"
  "r_CreatePayment (racing_repos R) = meanwhile (r_CreatePayment R)"
  "r_GetPayment (racing_repos R) = meanwhile (r_GetPayment R)"
  "r_UpdatePayment (racing_repos R) = meanwhile (r_UpdatePayment R)"
  "r_CreateHold (racing_repos R) = meanwhile (r_CreateHold R)"
  "r_GetHoldByPaymentID (racing_repos R) = meanwhile (r_GetHoldByPaymentID R)"
  "r_UpdateHold (racing_repos R) = meanwhile (r_UpdateHold R)"
  "r_CreateEvent (racing_repos R) = meanwhile (r_CreateEvent R)"
  "env_call (racing_env n others env) k =
     (env_call env k, if k \<le> n then run_others (others k) else (\<lambda>s. s))"
  "env_now (racing_env n others env) = env_now env" "env_rand (racing_env n others env) = env_rand env"
  by (simp_all add: racing_repos_def racing_env_def)

lemma run_others_append [simp]: "run_others (xs @ ys) s = run_others ys (run_others xs s)"
  by (simp add: run_others_def)

lemma run_others_Nil [simp]: "run_others [] s = s"
  by (simp add: run_others_def)

section \<open>Versions witness the payers\<close>

text \<open>
  From \<open>L\<close> to \<open>L'\<close> the payer \<open>i\<close> is written \<open>n i\<close> times; one that is not written at all is
  as it was, and so are its authorized payments and their holds.
\<close>

definition untouched :: "ledger \<Rightarrow> ledger \<Rightarrow> string \<Rightarrow> bool" where
  "untouched L L' i \<longleftrightarrow> map_of (l_payers L') i = map_of (l_payers L) i \<and>
     (\<forall>pid p. map_of (l_payments L) pid = Some p \<longrightarrow> payment_PayerID p = i \<longrightarrow>
        map_of (l_payments L') pid = Some p \<and>
        (\<forall>hid h. map_of (l_holds L) hid = Some h \<longrightarrow> hold_PaymentID h = pid \<longrightarrow>
           map_of (l_holds L') hid = Some h))"

definition payers_written :: "(string \<Rightarrow> nat) \<Rightarrow> ledger \<Rightarrow> ledger \<Rightarrow> bool" where
  "payers_written n L L' \<longleftrightarrow> l_merchants L' = l_merchants L \<and>
     (\<forall>i y. map_of (l_payers L) i = Some y \<longrightarrow>
        (\<exists>y'. map_of (l_payers L') i = Some y' \<and> payer_Version y' = payer_Version y + of_nat (n i)) \<and>
        (n i = 0 \<longrightarrow> untouched L L' i))"

definition deals_kept :: "ledger \<Rightarrow> ledger \<Rightarrow> bool" where
  "deals_kept L L' \<longleftrightarrow>
     (\<forall>pid p. map_of (l_payments L) pid = Some p \<longrightarrow> map_of (l_payments L') pid = Some p) \<and>
     (\<forall>hid h. map_of (l_holds L) hid = Some h \<longrightarrow> map_of (l_holds L') hid = Some h)"

lemma untouched_trans: "untouched L L1 i \<Longrightarrow> untouched L1 L2 i \<Longrightarrow> untouched L L2 i"
  unfolding untouched_def by metis

lemma payers_written_refl [simp]: "payers_written (\<lambda>_. 0) L L"
  by (simp add: payers_written_def untouched_def)

lemma deals_kept_refl [simp]: "deals_kept L L"
  by (simp add: deals_kept_def)

lemma deals_kept_trans: "deals_kept L L1 \<Longrightarrow> deals_kept L1 L2 \<Longrightarrow> deals_kept L L2"
  unfolding deals_kept_def by blast

lemma payers_written_trans:
  assumes "payers_written n L L1" "payers_written m L1 L2"
  shows "payers_written (\<lambda>i. n i + m i) L L2"
  unfolding payers_written_def
proof (intro conjI allI impI)
  show "l_merchants L2 = l_merchants L" using assms by (simp add: payers_written_def)
  fix i y assume y: "map_of (l_payers L) i = Some y"
  then obtain y1 where y1: "map_of (l_payers L1) i = Some y1"
    "payer_Version y1 = payer_Version y + of_nat (n i)" "n i = 0 \<Longrightarrow> untouched L L1 i"
    using assms(1) unfolding payers_written_def by blast
  obtain y2 where "map_of (l_payers L2) i = Some y2"
    "payer_Version y2 = payer_Version y1 + of_nat (m i)" "m i = 0 \<Longrightarrow> untouched L1 L2 i"
    using assms(2) y1(1) unfolding payers_written_def by blast
  then show "\<exists>y2. map_of (l_payers L2) i = Some y2 \<and>
      payer_Version y2 = payer_Version y + of_nat (n i + m i)"
    using y1(2) by (simp add: add.assoc)
  show "untouched L L2 i" if "n i + m i = 0"
    using that y1(3) \<open>m i = 0 \<Longrightarrow> untouched L1 L2 i\<close> untouched_trans by auto
qed

text \<open>Fewer than \<open>2 ^ 64\<close> writes cannot leave the version of a payer they wrote as it was.\<close>

lemma same_version_untouched:
  assumes "payers_written n L L'" "n i < 2 ^ 64"
    and "map_of (l_payers L) i = Some y" "map_of (l_payers L') i = Some y'"
    and "payer_Version y' = payer_Version y"
  shows "untouched L L' i"
proof -
  have "(of_nat (n i) :: int64) = 0"
    using assms(1,3-5) unfolding payers_written_def by fastforce
  then have "unat (of_nat (n i) :: int64) = 0" by simp
  then have "n i = 0" using assms(2) by (simp add: unat_of_nat take_bit_nat_eq_self)
  then show ?thesis using assms(1,3) unfolding payers_written_def by blast
qed

section \<open>What the others write\<close>

lemma authorize_written:
  assumes ok: "ledger_ok L" and w: "authorize_writes L y0 y p h"
  shows "payers_written (\<lambda>i. if i = payer_ID y0 then 1 else 0) L (ledger_write y p h e L)"
    and "deals_kept L (ledger_write y p h e L)"
proof -
  note D = authorize_writesD [OF ok w]
  have new: "map_of (l_payments L) (payment_ID p) = None" "map_of (l_holds L) (hold_ID h) = None"
    using w by (simp_all add: authorize_writes_def)
  show kept: "deals_kept L (ledger_write y p h e L)"
    using new by (auto simp: deals_kept_def)
  obtain c now y1 where "Reserve y0 (payment_AmountMinor p) c now = Inr y1" "same_payer y1 y"
    using w unfolding authorize_writes_def by blast
  then have version: "payer_Version y = payer_Version y0 + 1"
    by (auto simp: op_success same_payerD(5))
  have "untouched L (ledger_write y p h e L) i" if "i \<noteq> payer_ID y0" for i
    using kept that D(2) unfolding untouched_def deals_kept_def by simp
  then show "payers_written (\<lambda>i. if i = payer_ID y0 then 1 else 0) L (ledger_write y p h e L)"
    using D(1,2) version unfolding payers_written_def by auto
qed

lemma finish_written:
  assumes ok: "ledger_ok L" and w: "finish_writes L y0 y p0 p h0 h"
  shows "payers_written (\<lambda>i. if i = payer_ID y0 then 1 else 0) L (ledger_write y p h e L)"
proof -
  note D = finish_writesD [OF ok w]
  have p0: "map_of (l_payments L) (payment_ID p0) = Some p0"
    and h0: "map_of (l_holds L) (hold_ID h0) = Some h0" "hold_PaymentID h0 = payment_ID p0"
    using w by (simp_all add: finish_writes_def)
  have "untouched L (ledger_write y p h e L) i" if i: "i \<noteq> payer_ID y0" for i
    unfolding untouched_def
  proof (intro conjI allI impI)
    show "map_of (l_payers (ledger_write y p h e L)) i = map_of (l_payers L) i" using i D(1) by simp
    fix pid q assume q: "map_of (l_payments L) pid = Some q" "payment_PayerID q = i"
    then have pid: "pid \<noteq> payment_ID p0" using p0 i D(4) by auto
    then show "map_of (l_payments (ledger_write y p h e L)) pid = Some q" using q D(5) by simp
    fix hid g assume g: "map_of (l_holds L) hid = Some g" "hold_PaymentID g = pid"
    then have "hid \<noteq> hold_ID h0" using h0 pid by auto
    then show "map_of (l_holds (ledger_write y p h e L)) hid = Some g" using g D(6) by simp
  qed
  then show ?thesis using D(1,3,23) unfolding payers_written_def by auto
qed

text \<open>The expired payments are stored before as they were listed.\<close>

lemma expired_from_written:
  assumes E: "expired_from L ps L'" and stored: "\<forall>p \<in> set ps. map_of (l_payments L) (payment_ID p) = Some p"
  shows "payers_written (\<lambda>i. length (payments_of i ps)) L L'"
proof -
  note E' = E [unfolded expired_from_def]
  have "untouched L L' i" if y: "map_of (l_payers L) i = Some y" and none: "payments_of i ps = []" for i y
    unfolding untouched_def
  proof (intro conjI allI impI)
    show "map_of (l_payers L') i = map_of (l_payers L) i"
      using E' y none by (auto simp: released_to_def)
    fix pid q assume q: "map_of (l_payments L) pid = Some q" "payment_PayerID q = i"
    have "pid \<notin> set (map payment_ID ps)"
    proof
      assume "pid \<in> set (map payment_ID ps)"
      then obtain p where "p \<in> set ps" "pid = payment_ID p" by auto
      then have "q = p" using stored q(1) by auto
      then show False using none q(2) \<open>p \<in> set ps\<close> by (auto simp: payments_of_def filter_empty_conv)
    qed
    then show "map_of (l_payments L') pid = Some q"
      and "map_of (l_holds L) hid = Some h \<Longrightarrow> hold_PaymentID h = pid \<Longrightarrow> map_of (l_holds L') hid = Some h" for hid h
      using E' q(1) by auto
  qed
  moreover have "\<exists>y'. map_of (l_payers L') i = Some y' \<and>
      payer_Version y' = payer_Version y + of_nat (length (payments_of i ps))"
    if "map_of (l_payers L) i = Some y" for i y
    using E' that unfolding released_to_def by blast
  ultimately show ?thesis using E' unfolding payers_written_def by auto
qed

lemma expire_written:
  assumes ok: "pg_ok s" and run: "expire_tx postgres_repos env limit s = (Inr res, s')" "0 < limit"
  shows "\<exists>n. payers_written n (pg_view s) (pg_view s') \<and> (\<forall>j. n j \<le> nat limit)"
proof -
  obtain ps where ps: "expired_list_ok (l_payments (pg_view s)) (env_now env) ps" "int (length ps) \<le> limit"
    and E: "expired_from (pg_view s) ps (pg_view s')"
    using pg.expire_success [OF pg_okD(1,2) [OF ok] run] by blast
  have "payers_written (\<lambda>i. length (payments_of i ps)) (pg_view s) (pg_view s')"
    using ps(1) by (intro expired_from_written [OF E]) (auto simp: expired_list_ok_def)
  moreover have "length (payments_of j ps) \<le> nat limit" for j
    using length_filter_le [of "\<lambda>p. payment_PayerID p = j" ps] ps(2) unfolding payments_of_def by linarith
  ultimately show ?thesis by blast
qed

text \<open>A use case either has written nothing or what its transaction wrote.\<close>

lemma run_other_cases:
  "run_other (OtherAuthorize db env ai) s = s \<or>
     (\<exists>r. authorize_tx postgres_repos env ai s = (Inr r, run_other (OtherAuthorize db env ai) s))"
  "run_other (OtherCapture db env pid) s = s \<or>
     (\<exists>r. capture_tx postgres_repos env pid s = (Inr r, run_other (OtherCapture db env pid) s))"
  "run_other (OtherExpire db env n) s = s \<or>
     (\<exists>r. expire_tx postgres_repos env (if n \<le> 0 then 100 else n) s = (Inr r, run_other (OtherExpire db env n) s))"
  unfolding run_other.simps use_case_states postgres_service_sel
  by (metis WithinTx_atomic prod.collapse)+

lemma run_other_ok: "pg_ok s \<Longrightarrow> pg_ok (run_other o1 s)"
proof (cases o1)
  case (OtherAuthorize db env ai)
  then show "pg_ok s \<Longrightarrow> ?thesis"
    using authorize_step [of s db env ai] by (metis good_step_def run_other.simps(1) prod.collapse)
next
  case (OtherCapture db env pid)
  then show "pg_ok s \<Longrightarrow> ?thesis"
    using capture_step [of s db env pid] by (metis good_step_def run_other.simps(2) prod.collapse)
next
  case (OtherExpire db env n)
  then show "pg_ok s \<Longrightarrow> ?thesis"
    using expire_step [of s db env n] by (metis good_step_def run_other.simps(3) prod.collapse)
qed

lemma run_other_written:
  assumes ok: "pg_ok s"
  shows "\<exists>n. payers_written n (pg_view s) (pg_view (run_other o1 s)) \<and> (\<forall>i. n i \<le> payer_writes o1)"
    and "authorizes o1 \<Longrightarrow> deals_kept (pg_view s) (pg_view (run_other o1 s))"
proof -
  let ?goal = "\<lambda>s'. (\<exists>n. payers_written n (pg_view s) (pg_view s') \<and> (\<forall>i. n i \<le> payer_writes o1)) \<and>
    (authorizes o1 \<longrightarrow> deals_kept (pg_view s) (pg_view s'))"
  have none: "?goal s" by (auto intro!: exI [of _ "\<lambda>_. 0"])
  have "?goal (run_other o1 s)"
  proof (cases o1)
    case (OtherAuthorize db env ai)
    show ?thesis
    proof (cases "run_other o1 s = s")
      case False
      then obtain r where "authorize_tx postgres_repos env ai s = (Inr r, run_other o1 s)"
        using run_other_cases(1) OtherAuthorize by blast
      from pg.authorize_success [OF pg_okD(1,2) [OF ok] this] obtain y0 e where
        w: "authorize_writes (pg_view s) y0 (res_Payer r) (res_Payment r) (res_Hold r)"
        and s': "pg_view (run_other o1 s) = ledger_write (res_Payer r) (res_Payment r) (res_Hold r) e (pg_view s)"
        by blast
      show ?thesis using authorize_written [OF pg_okD(2) [OF ok] w, of e] OtherAuthorize
        unfolding s' by (auto intro!: exI [of _ "\<lambda>i. if i = payer_ID y0 then 1 else 0"])
    qed (use none in simp)
  next
    case (OtherCapture db env pid)
    show ?thesis
    proof (cases "run_other o1 s = s")
      case False
      then obtain r where "capture_tx postgres_repos env pid s = (Inr r, run_other o1 s)"
        using run_other_cases(2) OtherCapture by blast
      from pg.capture_success [OF pg_okD(1,2) [OF ok] this] obtain y0 p0 h0 e where
        w: "finish_writes (pg_view s) y0 (res_Payer r) p0 (res_Payment r) h0 (res_Hold r)"
        and s': "pg_view (run_other o1 s) = ledger_write (res_Payer r) (res_Payment r) (res_Hold r) e (pg_view s)"
        by blast
      show ?thesis using finish_written [OF pg_okD(2) [OF ok] w, of e] OtherCapture
        unfolding s' by (auto intro!: exI [of _ "\<lambda>i. if i = payer_ID y0 then 1 else 0"])
    qed (use none in simp)
  next
    case (OtherExpire db env n)
    show ?thesis
    proof (cases "run_other o1 s = s")
      case False
      then obtain r where "expire_tx postgres_repos env (if n \<le> 0 then 100 else n) s = (Inr r, run_other o1 s)"
        using run_other_cases(3) OtherExpire by blast
      from expire_written [OF ok this] show ?thesis using OtherExpire by auto
    qed (use none in simp)
  qed
  then show "\<exists>n. payers_written n (pg_view s) (pg_view (run_other o1 s)) \<and> (\<forall>i. n i \<le> payer_writes o1)"
    and "authorizes o1 \<Longrightarrow> deals_kept (pg_view s) (pg_view (run_other o1 s))" by blast+
qed

lemma run_others_ok: "pg_ok s \<Longrightarrow> pg_ok (run_others os s)"
  unfolding run_others_def by (induction os arbitrary: s) (simp_all add: run_other_ok)

lemma run_others_written:
  assumes "pg_ok s"
  shows "\<exists>n. payers_written n (pg_view s) (pg_view (run_others os s)) \<and> (\<forall>i. n i \<le> sum_list (map payer_writes os))"
  using assms unfolding run_others_def
proof (induction os arbitrary: s)
  case Nil
  show ?case by (auto intro!: exI [of _ "\<lambda>_. 0"])
next
  case (Cons o1 os)
  obtain n where n: "payers_written n (pg_view s) (pg_view (run_other o1 s))" "\<forall>i. n i \<le> payer_writes o1"
    using run_other_written(1) [OF Cons.prems] by blast
  obtain m where m: "payers_written m (pg_view (run_other o1 s)) (pg_view (fold run_other os (run_other o1 s)))"
    "\<forall>i. m i \<le> sum_list (map payer_writes os)"
    using Cons.IH [OF run_other_ok [OF Cons.prems]] by blast
  have "n i + m i \<le> sum_list (map payer_writes (o1 # os))" for i
    using spec [OF n(2), of i] spec [OF m(2), of i] by simp
  then show ?case using payers_written_trans [OF n(1) m(1)] by auto
qed

lemma run_others_deals:
  "pg_ok s \<Longrightarrow> list_all authorizes os \<Longrightarrow> deals_kept (pg_view s) (pg_view (run_others os s))"
  unfolding run_others_def
proof (induction os arbitrary: s)
  case (Cons o1 os)
  then show ?case
    using deals_kept_trans [OF run_other_written(2) [of s o1] Cons.IH [of "run_other o1 s"]] run_other_ok
    by simp
qed simp

section \<open>Authorizations\<close>

lemma pg_UpdatePayer_row:
  "pg_UpdatePayer c y s = (Inr y', s') \<Longrightarrow>
   \<exists>r0. map_of (t_payers s) (payer_ID y) = Some r0 \<and> payer_Version r0 = payer_Version y - 1"
  by (auto simp: pg_UpdatePayer_def payer_of_version_def act_simps payerExists_def
      split: option.splits if_splits)

text \<open>A payer read before and written after the others is, when the write succeeds, the row still.\<close>

lemma payer_still_there:
  assumes ok: "pg_ok s" and y0: "map_of (t_payers s) i = Some y0" "payer_ID y0 = payer_ID y1"
    and y1: "payer_Version y1 = payer_Version y0 + 1"
    and upd: "pg_UpdatePayer c y1 (run_others os s) = (Inr y, s')"
    and few: "sum_list (map payer_writes os) < 2 ^ 64"
  shows "untouched (pg_view s) (pg_view (run_others os s)) i"
proof -
  have i: "payer_ID y1 = i"
    using gm_wf_key [OF ledger_keys_okD(2) [OF ledger_okD(1) [OF pg_okD(2) [OF ok]]], of i y0] y0 by simp
  obtain r0 where "map_of (t_payers (run_others os s)) i = Some r0" "payer_Version r0 = payer_Version y0"
    using pg_UpdatePayer_row [OF upd] y1 i by auto
  moreover obtain n where "payers_written n (pg_view s) (pg_view (run_others os s))" "n i < 2 ^ 64"
    using run_others_written [OF ok, of os] few by (meson le_less_trans)
  ultimately show ?thesis using same_version_untouched y0(1) by fastforce
qed

lemma run_others_merchants: "pg_ok s \<Longrightarrow> t_merchants (run_others os s) = t_merchants s"
  using run_others_written [of s os] by (auto simp: payers_written_def)

text \<open>
  C19. An authorization that succeeds among others, whatever they are and wherever they come, has
  done what it does alone after all of them.
\<close>

theorem authorizations_serialize:
  assumes ok: "pg_ok s" and run: "racing_authorize others env input s = (Inr r, s')"
    and few: "sum_list (map payer_writes (others 2)) < 2 ^ 64"
  shows "authorize_tx postgres_repos env input (run_others (others 0 @ others 1 @ others 2) s) = (Inr r, s')"
proof -
  let ?a = "ai_AmountMinor input" and ?c = "ai_Currency input" and ?now = "utc (env_now env)"
  let ?s1 = "run_others (others 1) (run_others (others 0) s)" and ?s2 = "run_others (others 0 @ others 1 @ others 2) s"
  have ok1: "pg_ok ?s1" using ok by (simp add: run_others_ok)
  obtain m sm y0 sy y1 sa where
    m: "pg_GetMerchant (env_call env 0) (ai_MerchantID input) (run_others (others 0) s) = (Inr m, sm)"
      "CanCreatePayments m" and
    y0: "pg_GetPayer (pgc_err (env_call env 1)) (ai_PayerID input) (run_others (others 1) sm) = (Inr y0, sy)" and
    y1: "Reserve y0 ?a ?c ?now = Inr y1" and
    upd: "pg_UpdatePayer (env_call env 2) y1 (run_others (others 2) sy) = (Inr (res_Payer r), sa)"
    using run unfolding racing_authorize_def authorize_tx_def Let_def
    by (auto simp: act_simps meanwhile_def split: if_splits)
  have reads: "sm = run_others (others 0) s" "sy = ?s1"
    "map_of (t_payers ?s1) (ai_PayerID input) = Some y0"
    "map_of (t_merchants (run_others (others 0) s)) (ai_MerchantID input) = Some m"
    "pgc_err (env_call env 0) = None" "pgc_err (env_call env 1) = None"
    using m(1) y0 by (auto simp: pg_GetMerchant_def pg_GetPayer_def pg_select_row_success)
  have "payer_ID y1 = payer_ID y0" "payer_Version y1 = payer_Version y0 + 1"
    using y1 by (simp_all add: op_success)
  from payer_still_there [OF ok1 reads(3) this(1) [symmetric] this(2) upd [unfolded reads(2)] few]
  have "pg_GetPayer (pgc_err (env_call env 1)) (ai_PayerID input) ?s2 = (Inr y0, ?s2)"
    using reads(3,6) by (simp add: untouched_def pg_GetPayer_def pg_select_row_success)
  moreover have "pg_GetMerchant (env_call env 0) (ai_MerchantID input) ?s2 = (Inr m, ?s2)"
    using reads(4,5) ok by (simp add: run_others_merchants run_others_ok pg_GetMerchant_def pg_select_row_success)
  ultimately show ?thesis
    using run m y0 reads unfolding racing_authorize_def authorize_tx_def Let_def
    by (auto simp: act_simps meanwhile_def split: if_splits)
qed

section \<open>Captures\<close>

lemma hold_read:
  assumes ok: "pg_ok s" and h: "map_of (t_payment_holds s) hid = Some h" and c: "pgc_err c = None"
  shows "pg_GetHoldByPaymentID c (hold_PaymentID h) s = (Inr h, s)"
proof -
  have h': "map_of (l_holds (pg_view s)) hid = Some h" using h by simp
  have only: "j = hid"
    if "map_of (l_holds (pg_view s)) j = Some g" "hold_PaymentID g = hold_PaymentID h" for j g
  proof (rule hold_index_uniqueD)
    show "hold_index_unique (t_payment_holds s)" using pg_okD(1) [OF ok] by (simp add: pg_inv_def)
    show "map_of (t_payment_holds s) j = Some g" using that(1) by simp
  qed (rule h that(2))+
  have "pg_alive quiet_call" by (simp add: quiet_call_def pg_alive_def)
  from pg.GetHoldByPaymentID_live [OF this pg_okD(1) [OF ok] h' only]
  have "pg_GetHoldByPaymentID quiet_call (hold_PaymentID h) s = (Inr h, s)" by simp
  then show ?thesis using c by (simp add: pg_GetHoldByPaymentID_def quiet_call_def)
qed

text \<open>
  C20. A capture that succeeds among others, of which only authorizations come between its reads of
  the payment and of the payer, has done what it does alone after all of them.
\<close>

theorem captures_serialize:
  assumes ok: "pg_ok s" and run: "racing_capture others env pid s = (Inr r, s')"
    and reads_together: "list_all authorizes (others 1 @ others 2)"
    and few: "sum_list (map payer_writes (others 3)) < 2 ^ 64"
  shows "capture_tx postgres_repos env pid (run_others (others 0 @ others 1 @ others 2 @ others 3) s) = (Inr r, s')"
proof -
  let ?now = "utc (env_now env)"
  let ?s0 = "run_others (others 0) s" let ?s1 = "run_others (others 1) ?s0"
  let ?s2 = "run_others (others 2) ?s1" let ?s3 = "run_others (others 3) ?s2"
  have oks: "pg_ok ?s0" "pg_ok ?s1" "pg_ok ?s2" "pg_ok ?s3" using ok by (simp_all add: run_others_ok)
  obtain p0 t0 h0 t1 y0 t2 y1 t3 where
    p0: "pg_GetPayment (env_call env 0) pid ?s0 = (Inr p0, t0)" and
    h0: "pg_GetHoldByPaymentID (env_call env 1) (payment_ID p0) (run_others (others 1) t0) = (Inr h0, t1)" and
    y0: "pg_GetPayer (pgc_err (env_call env 2)) (payment_PayerID p0) (run_others (others 2) t1) = (Inr y0, t2)" and
    y1: "CaptureHeld y0 (payment_AmountMinor p0) (payment_Currency p0) ?now = Inr y1" and
    upd: "pg_UpdatePayer (env_call env 3) y1 (run_others (others 3) t2) = (Inr (res_Payer r), t3)"
    using run unfolding racing_capture_def capture_tx_def Let_def
    by (auto simp: act_simps meanwhile_def split: if_splits)
  have states: "t0 = ?s0" "t1 = ?s1" "t2 = ?s2"
    using p0 h0 y0 by (auto simp: pg_GetPayment_def pg_GetHoldByPaymentID_def pg_GetPayer_def pg_select_row_success)
  have rows: "map_of (t_payments ?s0) pid = Some p0" "map_of (t_payers ?s2) (payment_PayerID p0) = Some y0"
    "map_of (t_payment_holds ?s1) (hold_ID h0) = Some h0" "hold_PaymentID h0 = payment_ID p0"
    and alive: "pgc_err (env_call env 0) = None" "pgc_err (env_call env 1) = None" "pgc_err (env_call env 2) = None"
    using p0 y0 pg.GetHoldByPaymentID_law [OF pg_okD(1) [OF oks(2)], of "env_call env 1" "payment_ID p0" h0] h0 states
    by (auto simp: pg_GetPayment_def pg_GetHoldByPaymentID_def pg_GetPayer_def pg_select_row_success)
  have deals: "deals_kept (pg_view ?s0) (pg_view ?s1)" "deals_kept (pg_view ?s1) (pg_view ?s2)"
    using reads_together run_others_deals oks by simp_all
  then have rows2: "map_of (t_payments ?s2) pid = Some p0" "map_of (t_payment_holds ?s2) (hold_ID h0) = Some h0"
    using rows unfolding deals_kept_def by simp_all
  have pid: "payment_ID p0 = pid"
    using gm_wf_key [OF ledger_keys_okD(3) [OF ledger_okD(1) [OF pg_okD(2) [OF oks(1)]]], of pid p0] rows(1) by simp
  have "payer_ID y1 = payer_ID y0" "payer_Version y1 = payer_Version y0 + 1"
    using y1 by (simp_all add: op_success)
  from payer_still_there [OF oks(3) rows(2) this(1) [symmetric] this(2) upd [unfolded states(3)] few]
  have still: "map_of (t_payers ?s3) (payment_PayerID p0) = Some y0" "map_of (t_payments ?s3) pid = Some p0"
    "map_of (t_payment_holds ?s3) (hold_ID h0) = Some h0"
    using rows(2,4) rows2 pid unfolding untouched_def by auto
  have "pg_GetPayment (env_call env 0) pid ?s3 = (Inr p0, ?s3)"
    "pg_GetPayer (pgc_err (env_call env 2)) (payment_PayerID p0) ?s3 = (Inr y0, ?s3)"
    using still alive by (simp_all add: pg_GetPayment_def pg_GetPayer_def pg_select_row_success)
  moreover have "pg_GetHoldByPaymentID (env_call env 1) (payment_ID p0) ?s3 = (Inr h0, ?s3)"
    using hold_read [OF oks(4) still(3)] rows(4) alive(2) by simp
  ultimately show ?thesis
    using run p0 h0 y0 states unfolding racing_capture_def capture_tx_def Let_def
    by (auto simp: act_simps meanwhile_def split: if_splits)
qed

section \<open>A payer with two payments\<close>

definition run_two :: pgdb where
  "run_two = snd (AuthorizePayment (postgres_service live_tx) (run_env day 10) order run_authorized)"

lemma run_two_reachable: "pg_reachable run_two"
  unfolding run_two_def by (rule pg_reachable.step [OF run_reachable(2) pg_step.authorize]) (rule prod.collapse [symmetric])

declare racing_capture_def [go_eval] racing_authorize_def [go_eval] racing_env_def [go_eval]
  racing_repos_def [go_eval] meanwhile_def [go_eval] run_others_def [go_eval]

definition second_deal :: payment where
  "second_deal = (deal StatusAuthorized None None day)\<lparr>payment_ID := ''pay_0a'', AuthorizationHoldID := ''hold_0b''\<rparr>"

definition second_hold :: hold where
  "second_hold = (deal_hold HoldStatusHeld day)\<lparr>hold_ID := ''hold_0b'', hold_PaymentID := ''pay_0a''\<rparr>"

lemma run_two_eq: "run_two = \<lparr>t_merchants = [(''m'', shop)], t_payers = [(''p'', buyer 400 600 2 day)],
    t_payments = [(''pay_00'', deal StatusAuthorized None None day), (''pay_0a'', second_deal)],
    t_settlement_batch_id = [],
    t_payment_holds = [(''hold_01'', deal_hold HoldStatusHeld day), (''hold_0b'', second_hold)],
    t_outbox_events = [authorized_event, (''evt_0c'', (snd authorized_event)\<lparr>event_ID := ''evt_0c'',
      AggregateID := ''pay_0a'', Payload := paymentAuthorizedPayload second_deal second_hold\<rparr>)],
    t_settlement_batches = [], t_settlement_line_items = []\<rparr>"
  unfolding run_two_def run_authorized_eq by code_simp

section \<open>Witnesses\<close>

lemma meanwhile_none: "meanwhile call (c, \<lambda>s. s) = call c" "run_others [] = (\<lambda>s. s)"
  by (simp_all add: fun_eq_iff meanwhile_def run_others_def)

lemma meanwhile_bind:
  "call c x (f s) = (Inr y, s1) \<Longrightarrow> act_bind (meanwhile call (c, f) x) g s = g y s1"
  "act_bind (meanwhile call (c, f) x) g s = act_bind (call c x) g (f s)"
  by (simp_all add: meanwhile_def act_bind_def)

lemma racing_after_first_read:
  "pg_GetMerchant (env_call env 0) (ai_MerchantID input) s = (Inr m, s) \<Longrightarrow>
   pg_GetMerchant (env_call env 0) (ai_MerchantID input) (run_others os s) = (Inr m, run_others os s) \<Longrightarrow> CanCreatePayments m \<Longrightarrow>
   racing_authorize (\<lambda>k. if k = 1 then os else []) env input s = authorize_tx postgres_repos env input (run_others os s)"
  "pg_GetPayment (env_call env 0) pid s = (Inr p, s) \<Longrightarrow>
   pg_GetPayment (env_call env 0) pid (run_others os s) = (Inr p, run_others os s) \<Longrightarrow>
   racing_capture (\<lambda>k. if k = 1 then os else []) env pid s = capture_tx postgres_repos env pid (run_others os s)"
  by (simp_all add: racing_authorize_def authorize_tx_def racing_capture_def capture_tx_def act_bind_step
      meanwhile_none meanwhile_bind(2) Let_def cong: if_cong)

lemma second_authorization: "isl (fst (authorize_tx postgres_repos (run_env day 10) order run_authorized)) = False"
proof -
  have two: "run_other (OtherAuthorize live_tx (run_env day 10) order) run_authorized = run_two"
    by (simp add: run_two_def)
  have "t_payers run_two \<noteq> t_payers run_authorized"
    by (simp add: run_two_eq run_authorized_eq buyer_def)
  then show ?thesis using run_other_cases(1) [of live_tx "run_env day 10" order run_authorized]
    unfolding two by auto
qed

lemma capture_of_two: "isl (fst (capture_tx postgres_repos (run_env (day + minute) 30) ''pay_00'' run_two)) = False"
  unfolding run_two_eq by code_simp

lemma others_of_run:
  "run_others [OtherAuthorize live_tx (run_env day 0) order] run_payer = run_authorized"
  "run_others [OtherAuthorize live_tx (run_env day 10) order] run_authorized = run_two"
  by (simp_all add: run_others_def run_authorized_def run_two_def)

lemma run_reads:
  "pg_GetMerchant (env_call (run_env t n) k) (ai_MerchantID order) run_payer = (Inr shop, run_payer)"
  "pg_GetMerchant (env_call (run_env t n) k) (ai_MerchantID order) run_authorized = (Inr shop, run_authorized)"
  "CanCreatePayments shop"
  "pg_GetPayment (env_call (run_env t n) k) ''pay_00'' run_authorized =
     (Inr (deal StatusAuthorized None None day), run_authorized)"
  "pg_GetPayment (env_call (run_env t n) k) ''pay_00'' run_two = (Inr (deal StatusAuthorized None None day), run_two)"
  by (simp_all add: run_payer_eq run_authorized_eq run_two_eq pg_GetMerchant_def pg_GetPayment_def
      pg_select_row_def run_env_def quiet_call_def order_def CanCreatePayments_def shop_def)

lemma authorize_among_authorizations:
  "isl (fst (racing_authorize (\<lambda>k. if k = 1 then [OtherAuthorize live_tx (run_env day 0) order] else [])
     (run_env day 10) order run_payer)) = False"
  using racing_after_first_read(1) [OF run_reads(1) _ run_reads(3),
      where os = "[OtherAuthorize live_tx (run_env day 0) order]", unfolded others_of_run, OF run_reads(2)]
    second_authorization by simp

lemma capture_among_authorizations:
  "isl (fst (racing_capture (\<lambda>k. if k = 1 then [OtherAuthorize live_tx (run_env day 10) order] else [])
     (run_env (day + minute) 30) ''pay_00'' run_authorized)) = False"
  using racing_after_first_read(2) [OF run_reads(4),
      where os = "[OtherAuthorize live_tx (run_env day 10) order]", unfolded others_of_run, OF run_reads(5)]
    capture_of_two by simp

theorem authorizations_serialize_witness:
  "\<exists>r s'. authorize_tx postgres_repos (run_env day 10) order
     (run_others [OtherAuthorize live_tx (run_env day 0) order] run_payer) = (Inr r, s')"
proof -
  let ?others = "\<lambda>k :: nat. if k = 1 then [OtherAuthorize live_tx (run_env day 0) order] else []"
  obtain r s' where run: "racing_authorize ?others (run_env day 10) order run_payer = (Inr r, s')"
    using authorize_among_authorizations by (metis prod.collapse sum.collapse(2))
  show ?thesis using authorizations_serialize [OF run_ok(1) run] by auto
qed

theorem captures_serialize_witness:
  "\<exists>r s'. capture_tx postgres_repos (run_env (day + minute) 30) ''pay_00''
     (run_others [OtherAuthorize live_tx (run_env day 10) order] run_authorized) = (Inr r, s')"
proof -
  let ?others = "\<lambda>k :: nat. if k = 1 then [OtherAuthorize live_tx (run_env day 10) order] else []"
  obtain r s' where run: "racing_capture ?others (run_env (day + minute) 30) ''pay_00'' run_authorized = (Inr r, s')"
    using capture_among_authorizations by (metis prod.collapse sum.collapse(2))
  show ?thesis using captures_serialize [OF run_ok(2) run] by auto
qed

end
