(* ===== verification/Histories.thy ===== *)
theory Histories
  imports ReadCommitted
begin

text \<open>
  Runs of the program whose requests overlap, as histories: the list of the database states that have
  been committed, oldest first. Under \<open>READ COMMITTED\<close> a statement sees the state committed last
  when it runs, so that the reads of one transaction may see different states of the history, in its
  order. From its first write, \<open>UpdatePayer\<close>, a transaction holds the row of its payer; what it
  writes until its commit is one step here, which adds one state. One that fails or is rolled back adds
  none. A run of a worker is a step as a whole.
\<close>

section \<open>Histories of committed states\<close>

text \<open>The repository call \<open>k\<close> runs on the state \<open>k\<close> of a list, the calls after that on their own.\<close>

definition seeing :: "pgdb list \<Rightarrow> pg_call env \<Rightarrow> (pg_call \<times> (pgdb \<Rightarrow> pgdb)) env" where
  "seeing states env =
     \<lparr>env_call = (\<lambda>k. (env_call env k, if k < length states then (\<lambda>s. states ! k) else (\<lambda>s. s))),
      env_now = env_now env, env_rand = env_rand env, env_elapsed = env_elapsed env\<rparr>"

declare seeing_def [go_eval]

text \<open>
  A use case or a worker alone; an authorization that has read its merchant and its payer earlier; a
  capture that has read its payment, its hold and its payer earlier. The first write, the last state of
  the list of \<open>seeing\<close>, sees the state committed last. In an orderly history nothing has changed the
  payment between a capture's reads of it and of its payer; the program does not see to that. The table
  of payments has fewer than \<open>2 ^ 63\<close> rows.
\<close>

inductive history :: "bool \<Rightarrow> pgdb list \<Rightarrow> bool" for orderly :: bool where
  start: "history orderly [empty_pgdb]"
| alone: "history orderly hs \<Longrightarrow> pg_step (last hs) s' \<Longrightarrow> history orderly (hs @ [s'])"
| authorize:
    "history orderly hs \<Longrightarrow> i \<le> j \<Longrightarrow> j < length hs \<Longrightarrow> length (t_payments (last hs)) < 2 ^ 63 \<Longrightarrow>
     authorize_tx (racing_repos postgres_repos) (seeing [hs ! i, hs ! j, last hs] env) input (last hs) =
       (Inr r, s') \<Longrightarrow>
     history orderly (hs @ [s'])"
| capture:
    "history orderly hs \<Longrightarrow> i \<le> j \<Longrightarrow> j \<le> k \<Longrightarrow> k < length hs \<Longrightarrow> length (t_payments (last hs)) < 2 ^ 63 \<Longrightarrow>
     capture_tx (racing_repos postgres_repos) (seeing [hs ! i, hs ! j, hs ! k, last hs] env) pid (last hs) =
       (Inr r, s') \<Longrightarrow>
     (orderly \<longrightarrow> map_of (t_payments (hs ! k)) pid = map_of (t_payments (hs ! i)) pid) \<Longrightarrow>
     history orderly (hs @ [s'])"

text \<open>One use case after the other.\<close>

definition serial_history :: "pgdb list \<Rightarrow> bool" where
  "serial_history hs \<longleftrightarrow> hs \<noteq> [] \<and> hs ! 0 = empty_pgdb \<and>
     (\<forall>k. Suc k < length hs \<longrightarrow> pg_step (hs ! k) (hs ! Suc k))"

lemma serial_snoc:
  assumes "serial_history hs" "pg_step (last hs) s'"
  shows "serial_history (hs @ [s'])"
proof -
  have "pg_step ((hs @ [s']) ! k) ((hs @ [s']) ! Suc k)" if k: "Suc k < length (hs @ [s'])" for k
  proof (cases "Suc k < length hs")
    case True
    then show ?thesis using assms(1) by (simp add: serial_history_def nth_append)
  next
    case False
    then have "length hs = Suc k" using k by simp
    then show ?thesis using assms by (simp add: serial_history_def nth_append last_conv_nth)
  qed
  then show ?thesis using assms(1) by (auto simp: serial_history_def nth_append)
qed

lemma serial_steps:
  assumes "serial_history hs" "i \<le> j" "j < length hs"
  shows "pg_step\<^sup>*\<^sup>* (hs ! i) (hs ! j)"
  using assms(2,3)
proof (induction j rule: dec_induct)
  case (step j)
  then have "pg_step (hs ! j) (hs ! Suc j)" using assms(1) unfolding serial_history_def by blast
  then show ?case using step by (auto intro: rtranclp.rtrancl_into_rtrancl)
qed simp

lemma reachable_steps: "pg_step\<^sup>*\<^sup>* s s' \<Longrightarrow> pg_reachable s \<Longrightarrow> pg_reachable s'"
  by (induction rule: rtranclp_induct) (auto intro: pg_reachable.step)

lemma serial_reachable: "serial_history hs \<Longrightarrow> j < length hs \<Longrightarrow> pg_reachable (hs ! j)"
  using serial_steps [of hs 0 j] reachable_steps pg_reachable.initial by (auto simp: serial_history_def)

lemma serial_last: "serial_history hs \<Longrightarrow> last hs = hs ! (length hs - 1) \<and> hs \<noteq> []"
  by (simp add: serial_history_def last_conv_nth)

text \<open>A state the program reaches is the end of a history.\<close>

lemma history_to: "pg_reachable s \<Longrightarrow> \<exists>hs. history orderly hs \<and> last hs = s"
proof (induction rule: pg_reachable.induct)
  case initial
  show ?case using history.start by force
next
  case (step s s')
  then obtain hs where "history orderly hs" "last hs = s" by blast
  then show ?case using history.alone step.hyps(2) by (intro exI [of _ "hs @ [s']"]) simp
qed

lemma history_with: "pg_reachable s \<Longrightarrow> \<exists>hs. history orderly hs \<and> s \<in> set hs"
proof -
  assume "pg_reachable s"
  then obtain hs where hs: "history orderly hs" "last hs = s" using history_to by blast
  moreover have "hs \<noteq> []" using hs(1) by (induction rule: history.induct) simp_all
  ultimately show ?thesis using last_in_set by blast
qed

section \<open>Versions count turns\<close>

lemma reachable_counts:
  "pg_reachable s \<Longrightarrow> versions_count (pg_view s) \<and> outbox_complete (pg_view s)"
proof (induction rule: pg_reachable.induct)
  case initial
  show ?case
    by (simp add: versions_count_def outbox_complete_def empty_pgdb_def events_about_def events_owed_def)
next
  case (step s s')
  have "ledger_next (pg_view s) (pg_view s')"
    using pg_step_good [OF step.hyps(2) pg_reachable_ok [OF step.hyps(1)]] unfolding good_step_def by simp
  then show ?case using step.IH ledger_nextD(3,6) by blast
qed

lemma of_int_turns:
  assumes "(of_int a :: int64) = of_int b" "0 \<le> a" "a \<le> b" "b < 2 ^ 64"
  shows "a = b"
proof -
  have "uint (of_int a :: int64) = a" "uint (of_int b :: int64) = b"
    using assms(2-4) by (simp_all add: unsigned_of_int take_bit_int_eq_self)
  then show ?thesis using assms(1) by metis
qed

text \<open>What a state of a serial history says about the last one, for a payer whose version is the same.\<close>

lemma still_there:
  assumes hs: "serial_history hs" and j: "j < length hs" and room: "length (t_payments (last hs)) < 2 ^ 63"
    and y: "map_of (t_payers (hs ! j)) i = Some y" and y': "map_of (t_payers (last hs)) i = Some y'"
    and version: "payer_Version y' = payer_Version y"
  shows "ledger_kept (pg_view (hs ! j)) (pg_view (last hs))" "turns (pg_view (last hs)) i = turns (pg_view (hs ! j)) i"
    "y' = y"
proof -
  have steps: "pg_step\<^sup>*\<^sup>* (hs ! j) (last hs)" and reach: "pg_reachable (hs ! j)" "pg_reachable (last hs)"
    using serial_last [OF hs] serial_steps [OF hs, of j "length hs - 1"] serial_reachable [OF hs] j by auto
  have "good_step (hs ! j) (last hs)" by (rule pg_steps_good [OF steps pg_reachable_ok [OF reach(1)]])
  then show kept: "ledger_kept (pg_view (hs ! j)) (pg_view (last hs))"
    unfolding good_step_def using ledger_nextD(5) by blast
  have "payer_Version y = of_int (turns (pg_view (hs ! j)) i)"
    using conjunct1 [OF reachable_counts [OF reach(1)]] y unfolding versions_count_def by simp
  moreover have "payer_Version y' = of_int (turns (pg_view (last hs)) i)"
    using conjunct1 [OF reachable_counts [OF reach(2)]] y' unfolding versions_count_def by simp
  ultimately have "(of_int (turns (pg_view (hs ! j)) i) :: int64) = of_int (turns (pg_view (last hs)) i)"
    using version by simp
  moreover have "turns (pg_view (last hs)) i < 2 ^ 64"
    using turns_bounds [of "pg_view (last hs)" i] room by simp
  ultimately show turns: "turns (pg_view (last hs)) i = turns (pg_view (hs ! j)) i"
    using of_int_turns turns_bounds ledger_keptD(2) [OF kept] by metis
  show "y' = y" using ledger_keptD(3) [OF kept, of i y] y y' turns by simp
qed

section \<open>Overlapping requests are serial\<close>

lemma seeing_sel [simp]:
  "env_call (seeing states env) k = (env_call env k, if k < length states then (\<lambda>s. states ! k) else (\<lambda>s. s))"
  "env_now (seeing states env) = env_now env" "env_rand (seeing states env) = env_rand env"
  by (simp_all add: seeing_def)

lemma authorize_alone:
  assumes hs: "serial_history hs" and ij: "i \<le> j" "j < length hs" and room: "length (t_payments (last hs)) < 2 ^ 63"
    and run: "authorize_tx (racing_repos postgres_repos) (seeing [hs ! i, hs ! j, last hs] env) input (last hs) = (Inr r, s')"
  shows "authorize_tx postgres_repos env input (last hs) = (Inr r, s')"
proof -
  obtain m sm y0 sy y1 sa where
    m: "pg_GetMerchant (env_call env 0) (ai_MerchantID input) (hs ! i) = (Inr m, sm)" "CanCreatePayments m" and
    y0: "pg_GetPayer (pgc_err (env_call env 1)) (ai_PayerID input) (hs ! j) = (Inr y0, sy)" and
    y1: "Reserve y0 (ai_AmountMinor input) (ai_Currency input) (utc (env_now env)) = Inr y1" and
    upd: "pg_UpdatePayer (env_call env 2) y1 (last hs) = (Inr (res_Payer r), sa)"
    using run unfolding authorize_tx_def Let_def
    by (auto simp: act_simps meanwhile_def split: if_splits)
  have reads: "map_of (t_merchants (hs ! i)) (ai_MerchantID input) = Some m"
    "map_of (t_payers (hs ! j)) (ai_PayerID input) = Some y0"
    "pgc_err (env_call env 0) = None" "pgc_err (env_call env 1) = None"
    using m(1) y0 by (auto simp: pg_GetMerchant_def pg_GetPayer_def pg_select_row_success)
  have ok: "pg_ok (hs ! i)" "pg_ok (hs ! j)" using serial_reachable [OF hs] pg_reachable_ok ij by simp_all
  have "payer_ID y0 = ai_PayerID input"
    using gm_wf_key [OF ledger_keys_okD(2) [OF ledger_okD(1) [OF pg_okD(2) [OF ok(2)]]]] reads(2) by simp
  then obtain y' where y': "map_of (t_payers (last hs)) (ai_PayerID input) = Some y'" "payer_Version y' = payer_Version y0"
    using pg_UpdatePayer_row [OF upd] y1 by (auto simp: op_success)
  note there = still_there [OF hs ij(2) room reads(2) y']
  have "pg_step\<^sup>*\<^sup>* (hs ! i) (last hs)" using serial_steps [OF hs, of i "length hs - 1"] serial_last [OF hs] ij by auto
  then have "ledger_kept (pg_view (hs ! i)) (pg_view (last hs))"
    using pg_steps_good ok(1) ledger_nextD(5) unfolding good_step_def by blast
  then have "map_of (t_merchants (last hs)) (ai_MerchantID input) = Some m"
    using ledger_keptD(1) [of "pg_view (hs ! i)" "pg_view (last hs)" "ai_MerchantID input" m] reads(1) by simp
  then have "pg_GetMerchant (env_call env 0) (ai_MerchantID input) (last hs) = (Inr m, last hs)"
    "pg_GetPayer (pgc_err (env_call env 1)) (ai_PayerID input) (last hs) = (Inr y0, last hs)"
    using reads(3,4) y'(1) there(3) by (simp_all add: pg_GetMerchant_def pg_GetPayer_def pg_select_row_success)
  then show ?thesis
    using run m y0 unfolding authorize_tx_def Let_def by (auto simp: act_simps meanwhile_def split: if_splits)
qed

text \<open>A payment that is authorized at both ends has been there, with its hold, all the time.\<close>

lemma deal_between:
  assumes kept: "ledger_kept L L1" "ledger_kept L1 L2"
    and p: "map_of (l_payments L) (payment_ID p) = Some p" "payment_Status p = StatusAuthorized"
      "map_of (l_payments L2) (payment_ID p) = Some p"
  shows "deal_kept L L1 p" "deal_kept L1 L2 p"
proof -
  have still: "\<not> ended L2 (payment_ID p)" using p(2,3) by (simp add: ended_def)
  then have "\<not> ended L1 (payment_ID p)" using ledger_keptD(5) [OF kept(2)] by blast
  then show 1: "deal_kept L L1 p" using ledger_keptD(4) [OF kept(1) p(1,2)] by blast
  then have "map_of (l_payments L1) (payment_ID p) = Some p" by (simp add: deal_kept_def)
  then show "deal_kept L1 L2 p" using ledger_keptD(4) [OF kept(2) _ p(2)] still by blast
qed

lemma capture_alone:
  assumes hs: "serial_history hs" and ijk: "i \<le> j" "j \<le> k" "k < length hs"
    and room: "length (t_payments (last hs)) < 2 ^ 63"
    and run: "capture_tx (racing_repos postgres_repos) (seeing [hs ! i, hs ! j, hs ! k, last hs] env) pid (last hs) = (Inr r, s')"
    and same: "map_of (t_payments (hs ! k)) pid = map_of (t_payments (hs ! i)) pid"
  shows "capture_tx postgres_repos env pid (last hs) = (Inr r, s')"
proof -
  obtain p0 t0 h0 t1 y0 t2 y1 t3 where
    p0: "pg_GetPayment (env_call env 0) pid (hs ! i) = (Inr p0, t0)" "payment_Status p0 = StatusAuthorized" and
    h0: "pg_GetHoldByPaymentID (env_call env 1) (payment_ID p0) (hs ! j) = (Inr h0, t1)" and
    y0: "pg_GetPayer (pgc_err (env_call env 2)) (payment_PayerID p0) (hs ! k) = (Inr y0, t2)" and
    y1: "CaptureHeld y0 (payment_AmountMinor p0) (payment_Currency p0) (utc (env_now env)) = Inr y1" and
    upd: "pg_UpdatePayer (env_call env 3) y1 (last hs) = (Inr (res_Payer r), t3)"
    using run unfolding capture_tx_def Let_def
    by (auto simp: act_simps meanwhile_def numeral_3_eq_3 split: if_splits)
  have ok: "pg_ok (hs ! i)" "pg_ok (hs ! j)" "pg_ok (hs ! k)" "pg_ok (last hs)"
    using serial_reachable [OF hs] serial_last [OF hs] pg_reachable_ok ijk by auto
  have rows: "map_of (t_payments (hs ! i)) pid = Some p0" "map_of (t_payers (hs ! k)) (payment_PayerID p0) = Some y0"
    "map_of (t_payment_holds (hs ! j)) (hold_ID h0) = Some h0" "hold_PaymentID h0 = payment_ID p0"
    and alive: "pgc_err (env_call env 0) = None" "pgc_err (env_call env 1) = None" "pgc_err (env_call env 2) = None"
    using p0 y0 pg.GetHoldByPaymentID_law [OF pg_okD(1) [OF ok(2)], of "env_call env 1" "payment_ID p0" h0] h0
    by (auto simp: pg_GetPayment_def pg_GetHoldByPaymentID_def pg_GetPayer_def pg_select_row_success)
  have pid: "payment_ID p0 = pid"
    using gm_wf_key [OF ledger_keys_okD(3) [OF ledger_okD(1) [OF pg_okD(2) [OF ok(1)]]], of pid p0] rows(1) by simp
  have kept: "ledger_kept (pg_view (hs ! a)) (pg_view (hs ! b))" if ab: "a \<le> b" "b < length hs" for a b
    using pg_steps_good [OF serial_steps [OF hs ab]] serial_reachable [OF hs, of a] pg_reachable_ok ab ledger_nextD(5)
    unfolding good_step_def by fastforce
  have D: "deal_kept (pg_view (hs ! i)) (pg_view (hs ! j)) p0" "deal_kept (pg_view (hs ! j)) (pg_view (hs ! k)) p0"
    using deal_between [OF kept [OF ijk(1)] kept [OF ijk(2,3)], of p0] rows(1) p0(2) same pid ijk by simp_all
  have hold_k: "map_of (t_payment_holds (hs ! k)) (hold_ID h0) = Some h0" "map_of (t_payments (hs ! k)) pid = Some p0"
    using D(2) rows(3,4) pid unfolding deal_kept_def by simp_all
  have "payer_ID y0 = payment_PayerID p0"
    using gm_wf_key [OF ledger_keys_okD(2) [OF ledger_okD(1) [OF pg_okD(2) [OF ok(3)]]]] rows(2) by simp
  then obtain y' where y': "map_of (t_payers (last hs)) (payment_PayerID p0) = Some y'" "payer_Version y' = payer_Version y0"
    using pg_UpdatePayer_row [OF upd] y1 by (auto simp: op_success)
  note there = still_there [OF hs ijk(3) room rows(2) y']
  have "deal_kept (pg_view (hs ! k)) (pg_view (last hs)) p0"
    using ledger_keptD(4) [OF there(1), of p0] there(2) hold_k(2) pid p0(2) by simp
  then have still: "map_of (t_payments (last hs)) pid = Some p0" "map_of (t_payment_holds (last hs)) (hold_ID h0) = Some h0"
    using hold_k(1) rows(4) pid unfolding deal_kept_def by simp_all
  have "pg_GetPayment (env_call env 0) pid (last hs) = (Inr p0, last hs)"
    "pg_GetPayer (pgc_err (env_call env 2)) (payment_PayerID p0) (last hs) = (Inr y0, last hs)"
    using still(1) y'(1) there(3) alive by (simp_all add: pg_GetPayment_def pg_GetPayer_def pg_select_row_success)
  moreover have "pg_GetHoldByPaymentID (env_call env 1) (payment_ID p0) (last hs) = (Inr h0, last hs)"
    using hold_read [OF ok(4) still(2)] rows(4) alive(2) by simp
  ultimately show ?thesis
    using run p0 h0 y0 unfolding capture_tx_def Let_def
    by (auto simp: act_simps meanwhile_def numeral_3_eq_3 split: if_splits)
qed

lemma alone_steps:
  "authorize_tx postgres_repos env input s = (Inr r, s') \<Longrightarrow> pg_step s s'"
  "capture_tx postgres_repos env pid s = (Inr r, s') \<Longrightarrow> pg_step s s'"
proof -
  have live: "WithinTx (svc_transactor (postgres_service live_tx)) fn s = (Inr r, s')" if "fn s = (Inr r, s')" for fn
    using WithinTx_live [of fn s r s', OF that, of "PostgresTransactor live_tx"] by simp
  show "pg_step s s'" if "authorize_tx postgres_repos env input s = (Inr r, s')"
  proof -
    have "\<exists>obs. AuthorizePayment (postgres_service live_tx) env input s = ((Inr r, obs), s')"
      using live [of "authorize_tx postgres_repos env input", OF that] AuthorizePayment_success [of "postgres_service live_tx" env input s]
      by (simp only: postgres_service_sel) blast
    then show ?thesis using pg_step.authorize by blast
  qed
  show "pg_step s s'" if "capture_tx postgres_repos env pid s = (Inr r, s')"
  proof -
    have "\<exists>obs. CapturePayment (postgres_service live_tx) env pid s = ((Inr r, obs), s')"
      using live [of "capture_tx postgres_repos env pid", OF that] CapturePayment_success [of "postgres_service live_tx" env pid s]
      by (simp only: postgres_service_sel) blast
    then show ?thesis using pg_step.capture by blast
  qed
qed

lemma orderly_serial: "history True hs \<Longrightarrow> serial_history hs"
proof (induction rule: history.induct)
  case start
  show ?case by (simp add: serial_history_def)
next
  case (alone hs s')
  then show ?case using serial_snoc by blast
next
  case (authorize hs i j env input r s')
  from authorize_alone [OF authorize.IH authorize.hyps(2-5)] show ?case
    using serial_snoc [OF authorize.IH] alone_steps(1) by blast
next
  case (capture hs i j k env pid r s')
  from capture_alone [OF capture.IH capture.hyps(2-6)] capture.hyps(7) show ?case
    using serial_snoc [OF capture.IH] alone_steps(2) by blast
qed

lemma orderly_reachable: "history True hs \<Longrightarrow> s \<in> set hs \<Longrightarrow> pg_reachable s"
  using serial_reachable [OF orderly_serial] by (auto simp: in_set_conv_nth)

lemma orderly_ok: "history True hs \<Longrightarrow> s \<in> set hs \<Longrightarrow> pg_ok s"
  by (rule pg_reachable_ok [OF orderly_reachable])

lemma orderly_next:
  "history True hs \<Longrightarrow> i \<le> j \<Longrightarrow> j < length hs \<Longrightarrow> ledger_next (pg_view (hs ! i)) (pg_view (hs ! j))"
  using pg_steps_good [OF serial_steps [OF orderly_serial]] serial_reachable [OF orderly_serial, of hs i] pg_reachable_ok
  unfolding good_step_def by auto


text \<open>
  C14. Authorizations and captures that overlap up to their first write, where no commit changes a
  payment between a capture's reads of it and of its payer, leave the same committed states as use cases
  that run one after the other: each state is what one use case, run alone, makes of the state before.
\<close>

theorem overlapping_requests_serialize:
  assumes "history True hs"
  shows "hs ! 0 = empty_pgdb \<and> (\<forall>k. Suc k < length hs \<longrightarrow> pg_step (hs ! k) (hs ! Suc k))"
  using orderly_serial [OF assms] unfolding serial_history_def by simp_all

text \<open>The capture of a payment that was read before, and its payer after, another authorization of the payer.\<close>

definition run_overlap :: "(error + payment_result) \<times> pgdb" where
  "run_overlap = capture_tx (racing_repos postgres_repos)
     (seeing [run_authorized, run_authorized, run_two, run_two] (run_env (day + minute) 30)) ''pay_00'' run_two"

lemma run_overlap_succeeds: "isl (fst run_overlap) = False"
  unfolding run_overlap_def run_two_eq run_authorized_eq by code_simp

lemma overlap_history: "\<exists>hs. history True (hs @ [run_authorized, run_two, snd run_overlap])"
proof -
  obtain hs where hs: "history True hs" "last hs = run_authorized" using history_to [OF run_reachable(2)] by blast
  have "hs \<noteq> []" using orderly_serial [OF hs(1)] by (simp add: serial_history_def)
  then obtain hs0 where hs0: "hs = hs0 @ [run_authorized]" using hs(2) by (metis append_butlast_last_id)
  have "pg_step run_authorized run_two"
    unfolding run_two_def by (rule pg_step.authorize) (rule prod.collapse [symmetric])
  then have two: "history True (hs0 @ [run_authorized, run_two])" using history.alone [OF hs(1)] hs(2) hs0 by simp
  obtain r where "run_overlap = (Inr r, snd run_overlap)"
    using run_overlap_succeeds by (metis prod.collapse sum.collapse(2))
  moreover have "map_of (t_payments run_two) ''pay_00'' = map_of (t_payments run_authorized) ''pay_00''"
    by (simp add: run_two_eq run_authorized_eq)
  ultimately show ?thesis
    using history.capture [OF two, of "length hs0" "length hs0" "Suc (length hs0)" "run_env (day + minute) 30" "''pay_00''" r "snd run_overlap"]
    by (simp add: run_overlap_def nth_append run_two_eq exI [of _ hs0])
qed

theorem overlapping_requests_serialize_witness: "pg_step run_two (snd run_overlap)"
proof -
  obtain hs where hs: "history True (hs @ [run_authorized, run_two, snd run_overlap])" using overlap_history by blast
  from conjunct2 [OF overlapping_requests_serialize [OF hs], rule_format, of "Suc (length hs)"]
  show ?thesis by (simp add: nth_append)
qed

section \<open>A payment captured twice\<close>

text \<open>
  The payer of \<open>run_two\<close> holds two payments; the first is captured, and captured again by a request
  that has read the payment and its hold before, and the payer after the first capture.
\<close>

definition run_once :: pgdb where
  "run_once = snd (CapturePayment (postgres_service live_tx) (run_env (day + minute) 20) ''pay_00'' run_two)"

definition run_twice :: "(error + payment_result) \<times> pgdb" where
  "run_twice = capture_tx (racing_repos postgres_repos)
     (seeing [run_two, run_two, run_once, run_once] (run_env (day + minute) 30)) ''pay_00'' run_once"

lemma run_once_succeeds:
  "isl (fst (fst (CapturePayment (postgres_service live_tx) (run_env (day + minute) 20) ''pay_00'' run_two))) = False"
  unfolding run_two_eq by code_simp

lemma run_twice_parts:
  "(case run_twice of (r, s') \<Rightarrow> (isl r, t_payers s', captured_total (pg_view s') ''p'', held_total (pg_view s') ''p'')) =
   (False, [(''p'', buyer 400 0 4 (day + minute))], 300, 300)"
  unfolding run_twice_def run_once_def run_two_eq by code_simp

lemma run_twice_states:
  "isl (fst run_twice) = False" "t_payers (snd run_twice) = [(''p'', buyer 400 0 4 (day + minute))]"
  "captured_total (pg_view (snd run_twice)) ''p'' = 300" "held_total (pg_view (snd run_twice)) ''p'' = 300"
  using run_twice_parts by (simp_all add: case_prod_beta)

lemma run_twice_history: "\<exists>hs. history False (hs @ [run_two, run_once, snd run_twice])"
proof -
  obtain hs where hs: "history False hs" "last hs = run_two" using history_to [OF run_two_reachable] by blast
  have "hs \<noteq> []" using hs(1) by (induction rule: history.induct) simp_all
  then obtain hs0 where hs0: "hs = hs0 @ [run_two]" using hs(2) by (metis append_butlast_last_id)
  have "pg_step run_two run_once"
    unfolding run_once_def by (rule pg_step.capture) (rule prod.collapse [symmetric])
  then have once: "history False (hs0 @ [run_two, run_once])" using history.alone [OF hs(1)] hs(2) hs0 by simp
  obtain r where "run_twice = (Inr r, snd run_twice)"
    using run_twice_states(1) by (metis prod.collapse sum.collapse(2))
  moreover have "length (t_payments run_once) = 2" unfolding run_once_def run_two_eq by code_simp
  ultimately show ?thesis
    using history.capture [OF once, of "length hs0" "length hs0" "Suc (length hs0)" "run_env (day + minute) 30" "''pay_00''" r "snd run_twice"]
    by (simp add: run_twice_def nth_append exI [of _ hs0])
qed

text \<open>
  C21. There is a run in which a payment of 300 is captured twice: a second capture has read the payment
  and its hold before the first one commits, and the payer, which holds another payment, after it. Both
  succeed. The payer pays 600 for it, and what it holds no longer covers its other hold.
\<close>

theorem racing_captures_take_twice:
  "\<exists>hs r1 obs s1 r2 s2. history False (hs @ [run_two, s1, s2]) \<and>
     CapturePayment (postgres_service live_tx) (run_env (day + minute) 20) ''pay_00'' run_two = ((Inr r1, obs), s1) \<and>
     capture_tx (racing_repos postgres_repos) (seeing [run_two, run_two, s1, s1] (run_env (day + minute) 30))
       ''pay_00'' s1 = (Inr r2, s2) \<and>
     funds (pg_view run_two) ''p'' = Some 1000 \<and> funds (pg_view s2) ''p'' = Some 700 \<and>
     captured_total (pg_view s2) ''p'' = 300 \<and> \<not> ledger_ok (pg_view s2)"
proof -
  obtain hs where hs: "history False (hs @ [run_two, run_once, snd run_twice])" using run_twice_history by blast
  obtain r1 obs where once: "CapturePayment (postgres_service live_tx) (run_env (day + minute) 20) ''pay_00'' run_two =
      ((Inr r1, obs), run_once)"
    using run_once_succeeds unfolding run_once_def by (metis prod.collapse sum.collapse(2))
  obtain r2 where twice: "run_twice = (Inr r2, snd run_twice)"
    using run_twice_states(1) by (metis prod.collapse sum.collapse(2))
  have after: "map_of (l_payers (pg_view (snd run_twice))) ''p'' = Some (buyer 400 0 4 (day + minute))"
    using run_twice_states(2) by simp
  have "\<not> ledger_ok (pg_view (snd run_twice))"
  proof
    assume "ledger_ok (pg_view (snd run_twice))"
    from ledger_okD(4) [OF this after] run_twice_states(4) show False by (simp add: buyer_def)
  qed
  moreover have "funds (pg_view (snd run_twice)) ''p'' = Some 700"
    using after run_twice_states(3) by (simp add: funds_def payer_total_def buyer_def)
  moreover have "funds (pg_view run_two) ''p'' = Some 1000"
    unfolding run_two_eq by code_simp
  ultimately show ?thesis using hs once twice run_twice_states(3) unfolding run_twice_def by blast
qed

end
