(* ===== verification/RequestHash.thy ===== *)
theory RequestHash
  imports Currency
begin

text \<open>
  The hash of an HTTP request in \<open>internal/idempotency/record.go\<close>: the UTF-8 bytes of a Go
  string, SHA-256 as \<open>crypto/sha256\<close> computes it on 32-bit words, \<open>HashRequest\<close> and
  \<open>HashRequestBody\<close>. A byte slice is a list of the characters with the codes of its bytes.
\<close>

section \<open>Bytes of a string\<close>

definition utf8_rune :: "char \<Rightarrow> bytes" where
  "utf8_rune c =
     (let n = rune c in
      if n < 128 then [c] else [char_of (192 + n div 64), char_of (128 + n mod 64)])"

definition utf8 :: "string \<Rightarrow> bytes" where
  "utf8 s = concat (map utf8_rune s)"

section \<open>SHA-256\<close>

type_synonym word32 = "32 word"
type_synonym digest = "word32 list"

unbundle bit_operations_syntax

text \<open>
  The tables of SHA-256 are the first 32 bits after the point of the square roots of the first
  8 primes and of the cube roots of the first 64. \<open>root_of k n i r\<close> sets the bits of the
  integer \<open>k\<close>-th root of \<open>n\<close> below bit \<open>i\<close>, the highest first.
\<close>

primrec root_of :: "nat \<Rightarrow> nat \<Rightarrow> nat \<Rightarrow> nat \<Rightarrow> nat" where
  "root_of k n 0 r = r"
| "root_of k n (Suc i) r = root_of k n i (if (r + 2 ^ i) ^ k \<le> n then r + 2 ^ i else r)"

definition root_fraction :: "nat \<Rightarrow> nat \<Rightarrow> word32" where
  "root_fraction k p = of_nat (root_of k (p * 2 ^ (32 * k)) 36 0)"

definition small_primes :: "nat list" where
  "small_primes = [p \<leftarrow> [2..<312]. list_all (\<lambda>d. p mod d \<noteq> 0) [2..<p]]"

definition sha_initial :: digest where
  "sha_initial = map (root_fraction 2) [2, 3, 5, 7, 11, 13, 17, 19]"

definition sha_constants :: "word32 list" where
  "sha_constants = map (root_fraction 3) small_primes"

text \<open>The next word of the message schedule, kept with the latest word first.\<close>

definition schedule_word :: "word32 list \<Rightarrow> word32" where
  "schedule_word ws =
     (let w15 = ws ! 14; w2 = ws ! 1;
          s0 = word_rotr 7 w15 XOR word_rotr 18 w15 XOR drop_bit 3 w15;
          s1 = word_rotr 17 w2 XOR word_rotr 19 w2 XOR drop_bit 10 w2
      in ws ! 15 + s0 + ws ! 6 + s1)"

definition schedule :: "word32 list \<Rightarrow> word32 list" where
  "schedule block = rev (((\<lambda>ws. schedule_word ws # ws) ^^ 48) (rev block))"

fun sha_round :: "word32 \<times> word32 \<Rightarrow> digest \<Rightarrow> digest" where
  "sha_round (k, w) [a, b, c, d, e, f, g, h] =
     (let S1 = word_rotr 6 e XOR word_rotr 11 e XOR word_rotr 25 e;
          ch = (e AND f) XOR (NOT e AND g);
          t1 = h + S1 + ch + k + w;
          S0 = word_rotr 2 a XOR word_rotr 13 a XOR word_rotr 22 a;
          maj = (a AND b) XOR (a AND c) XOR (b AND c)
      in [t1 + (S0 + maj), a, b, c, d + t1, e, f, g])"
| "sha_round kw hs = hs"

definition sha_block :: "word32 list \<Rightarrow> digest \<Rightarrow> digest" where
  "sha_block block hs = map2 (+) hs (fold sha_round (zip sha_constants (schedule block)) hs)"

text \<open>Big-endian words, the padding to whole blocks of 64 bytes, and the blocks.\<close>

fun be_words :: "bytes \<Rightarrow> word32 list" where
  "be_words (a # b # c # d # bs) =
     of_nat (((rune a * 256 + rune b) * 256 + rune c) * 256 + rune d) # be_words bs"
| "be_words bs = []"

definition be_bytes :: "nat \<Rightarrow> nat \<Rightarrow> nat list" where
  "be_bytes k n = map (\<lambda>i. n div 256 ^ (k - 1 - i) mod 256) [0..<k]"

definition sha_pad :: "bytes \<Rightarrow> bytes" where
  "sha_pad bs =
     bs @ char_of (128 :: nat) # replicate ((119 - length bs mod 64) mod 64) (char_of (0 :: nat)) @
     map char_of (be_bytes 8 (8 * length bs mod 2 ^ 64))"

function sha_blocks :: "word32 list \<Rightarrow> digest \<Rightarrow> digest" where
  "sha_blocks ws hs =
     (if ws = [] then hs else sha_blocks (drop 16 ws) (sha_block (take 16 ws) hs))"
  by pat_completeness auto
termination by (relation "measure (\<lambda>(ws, hs). length ws)") auto

declare sha_blocks.simps [simp del]

definition sha256 :: "bytes \<Rightarrow> nat list" where
  "sha256 bs = concat (map (\<lambda>w. be_bytes 4 (unat w)) (sha_blocks (be_words (sha_pad bs)) sha_initial))"

section \<open>The hash of a request\<close>

text \<open>What \<open>HashRequest\<close> writes into the hash: the method, the path and the body, a line each.\<close>

definition hashed_bytes :: "string \<Rightarrow> string \<Rightarrow> bytes \<Rightarrow> bytes" where
  "hashed_bytes method path body = utf8 method @ [CHR 0x0A] @ utf8 path @ [CHR 0x0A] @ body"

definition HashRequest :: "string \<Rightarrow> string \<Rightarrow> bytes \<Rightarrow> string" where
  "HashRequest method path body = hex_encode (sha256 (hashed_bytes method path body))"

definition HashRequestBody :: "bytes \<Rightarrow> string" where
  "HashRequestBody body = HashRequest '''' '''' body"

section \<open>Framing\<close>

lemma rune_newline [simp]: "rune (CHR 0x0A) = 10"
  by (simp add: rune_def)

lemma newline_utf8_rune: "CHR 0x0A \<in> set (utf8_rune c) \<longleftrightarrow> c = CHR 0x0A"
proof -
  have "char_of (192 + n div 64) \<noteq> CHR 0x0A" "char_of (128 + n mod 64) \<noteq> CHR 0x0A" if "n < 256" for n :: nat
  proof -
    have "(192 + n div 64) mod 256 \<noteq> 10" "(128 + n mod 64) mod 256 \<noteq> 10"
      using that by simp_all
    then show "char_of (192 + n div 64) \<noteq> CHR 0x0A" "char_of (128 + n mod 64) \<noteq> CHR 0x0A"
      by (metis rune_char_of rune_newline)+
  qed
  then show ?thesis
    using rune_less_256 [of c] by (auto simp: utf8_rune_def Let_def eq_commute [of "CHR 0x0A"])
qed

lemma newline_utf8 [simp]: "CHR 0x0A \<in> set (utf8 s) \<longleftrightarrow> CHR 0x0A \<in> set s"
  by (induction s) (auto simp: utf8_def newline_utf8_rune)

lemma utf8_append: "utf8 (s @ t) = utf8 s @ utf8 t"
  by (simp add: utf8_def)

lemma utf8_rune_prefix: "utf8_rune c @ xs = utf8_rune d @ ys \<Longrightarrow> c = d \<and> xs = ys"
proof -
  assume eq: "utf8_rune c @ xs = utf8_rune d @ ys"
  note bounds = rune_less_256 [of c] rune_less_256 [of d]
  have high: "rune (char_of (192 + rune e div 64)) = 192 + rune e div 64"
    "rune (char_of (128 + rune e mod 64)) = 128 + rune e mod 64" for e
    using rune_less_256 [of e] by simp_all
  show ?thesis
  proof (cases "rune c < 128"; cases "rune d < 128")
    assume "\<not> rune c < 128" "\<not> rune d < 128"
    with eq have "rune c div 64 = rune d div 64" "rune c mod 64 = rune d mod 64" "xs = ys"
      using high [of c] high [of d] by (auto simp: utf8_rune_def Let_def)
    then show ?thesis by (metis div_mult_mod_eq rune_eqD)
  next
    assume "rune c < 128" "\<not> rune d < 128"
    with eq have "rune c = 192 + rune d div 64"
      using high [of d] by (auto simp: utf8_rune_def Let_def simp del: rune_char_of)
    with \<open>rune c < 128\<close> show ?thesis by simp
  next
    assume "\<not> rune c < 128" "rune d < 128"
    with eq have "rune d = 192 + rune c div 64"
      using high [of c] by (auto simp: utf8_rune_def Let_def simp del: rune_char_of)
    with \<open>rune d < 128\<close> show ?thesis by simp
  qed (use eq in \<open>auto simp: utf8_rune_def Let_def\<close>)
qed

lemma utf8_rune_not_Nil [simp]: "utf8_rune c \<noteq> []"
  by (simp add: utf8_rune_def Let_def)

lemma utf8_inj: "utf8 s = utf8 t \<Longrightarrow> s = t"
proof (induction s arbitrary: t)
  case Nil
  then show ?case by (cases t) (auto simp: utf8_def)
next
  case (Cons c s)
  then obtain d t' where t: "t = d # t'" by (cases t) (auto simp: utf8_def)
  with Cons.prems have "utf8_rune c @ utf8 s = utf8_rune d @ utf8 t'" by (simp add: utf8_def)
  from utf8_rune_prefix [OF this] Cons.IH [of t'] t show ?case by simp
qed

text \<open>A text without the separator in front of the separator can be read back.\<close>

lemma separator_inj:
  "x \<notin> set us \<Longrightarrow> x \<notin> set vs \<Longrightarrow> us @ x # ws = vs @ x # zs \<longleftrightarrow> us = vs \<and> ws = zs"
proof (induction us arbitrary: vs)
  case Nil
  then show ?case by (cases vs) auto
next
  case (Cons u us)
  then show ?case by (cases vs) auto
qed

lemma hashed_bytes_inj:
  assumes "CHR 0x0A \<notin> set m" "CHR 0x0A \<notin> set p" "CHR 0x0A \<notin> set m'" "CHR 0x0A \<notin> set p'"
  shows "hashed_bytes m p b = hashed_bytes m' p' b' \<longleftrightarrow> m = m' \<and> p = p' \<and> b = b'"
  using assms utf8_inj by (auto simp: hashed_bytes_def separator_inj)

section \<open>The digest\<close>

lemma length_sha_round: "length (sha_round kw hs) = length hs"
  by (induction kw hs rule: sha_round.induct) (auto simp: Let_def)

lemma length_fold_sha_round: "length (fold sha_round kws hs) = length hs"
  by (induction kws arbitrary: hs) (auto simp: length_sha_round)

lemma length_sha_blocks: "length (sha_blocks ws hs) = length hs"
  by (induction ws hs rule: sha_blocks.induct)
    (subst sha_blocks.simps, simp add: sha_block_def length_fold_sha_round)

lemma length_be_bytes [simp]: "length (be_bytes k n) = k"
  by (simp add: be_bytes_def)

lemma be_bytes_bound: "b \<in> set (be_bytes k n) \<Longrightarrow> b < 256"
  by (auto simp: be_bytes_def)

lemma length_sha256: "length (sha256 bs) = 32"
  by (simp add: sha256_def length_concat o_def length_sha_blocks sha_initial_def
      sum_list_triv)

lemma sha256_bound: "b \<in> set (sha256 bs) \<Longrightarrow> b < 256"
  by (auto simp: sha256_def dest: be_bytes_bound)

lemma HashRequest_eq_iff:
  "HashRequest m p b = HashRequest m' p' b' \<longleftrightarrow>
   sha256 (hashed_bytes m p b) = sha256 (hashed_bytes m' p' b')"
  using hex_encode_inj [of "sha256 (hashed_bytes m p b)" "sha256 (hashed_bytes m' p' b')"]
  by (auto simp: HashRequest_def length_sha256 sha256_bound)

text \<open>A digest is never blank.\<close>

lemma trim_HashRequest: "trim_space (HashRequest m p b) = HashRequest m p b"
proof -
  have "c \<in> set (HashRequest m p b) \<Longrightarrow> \<not> go_is_space c" for c
    using hex_encode_not_space by (auto simp: HashRequest_def)
  then have "trim_left xs = xs" if "set xs = set (HashRequest m p b)" for xs
    using that by (intro trim_left_fixed) (metis list.set_sel(1))
  then show ?thesis by (simp add: trim_space_def)
qed

lemma HashRequest_not_Nil [simp]: "HashRequest m p b \<noteq> []"
proof -
  have "length (HashRequest m p b) = 64" by (simp add: HashRequest_def length_hex_encode length_sha256)
  then show ?thesis by auto
qed

section \<open>What a hash identifies\<close>

text \<open>
  Requests whose method and path have no line break are told apart by what is hashed: two of
  them have the same hash only when they are the same request or collide under SHA-256.
\<close>

theorem request_hash_framing:
  assumes "CHR 0x0A \<notin> set (m @ p)" "CHR 0x0A \<notin> set (m' @ p')"
  shows "(HashRequest m p b = HashRequest m' p' b' \<longleftrightarrow>
      sha256 (hashed_bytes m p b) = sha256 (hashed_bytes m' p' b')) \<and>
    (hashed_bytes m p b = hashed_bytes m' p' b' \<longleftrightarrow> m = m' \<and> p = p' \<and> b = b')"
  using HashRequest_eq_iff hashed_bytes_inj assms by auto

theorem request_hash_framing_witness:
  "hashed_bytes ''POST'' ''/payments/authorize'' ''{}'' \<noteq> hashed_bytes ''POST'' ''/payments/p/capture'' ''{}''"
  using request_hash_framing [of "''POST''" "''/payments/authorize''" "''POST''" "''/payments/p/capture''"]
  by simp

text \<open>
  A line break in the path defeats the framing: the part of the path behind it may as well be the
  first line of the body, so that two different requests have one hash.
\<close>

theorem request_hash_ambiguous:
  "HashRequest m (p @ [CHR 0x0A] @ q) b = HashRequest m p (utf8 q @ [CHR 0x0A] @ b)"
  by (simp add: HashRequest_def hashed_bytes_def utf8_append utf8_def utf8_rune_def Let_def)

end
