(* ===== verification/HttpResponse.thy ===== *)
theory HttpResponse
  imports Outbox RequestHash
begin

text \<open>
  What the HTTP handlers write: the texts of errors (\<open>err.Error()\<close>), decimal numbers
  (\<open>strconv\<close>), times in the layout of RFC 3339, the JSON that \<open>json.NewEncoder(w).Encode\<close>
  writes with its escapes, \<open>httpjson.Write\<close>
  (\<open>internal/shared/httpjson/response.go\<close>) and the recorder the payment handler puts in front of
  the response writer (\<open>internal/payment/response_recorder.go\<close>).
\<close>

section \<open>Texts\<close>

fun error_text :: "error \<Rightarrow> string" where
  "error_text (ErrMsg s) = s"
| "error_text (CtxErr s) = s"
| "error_text (DbErr s) = s"
| "error_text (Wrapped prefix e) = prefix @ error_text e"
| "error_text (Joined e f) = error_text e @ [CHR 0x0A] @ error_text f"
| "error_text ErrMerchantNotFound = ''merchant not found''"
| "error_text ErrDuplicateMerchant = ''merchant already exists''"
| "error_text ErrPayerNotFound = ''payer not found''"
| "error_text ErrDuplicatePayer = ''payer already exists''"
| "error_text ErrPayerVersionConflict = ''payer version conflict''"
| "error_text ErrPaymentNotFound = ''payment not found''"
| "error_text ErrDuplicatePayment = ''payment already exists''"
| "error_text ErrHoldNotFound = ''payment hold not found''"
| "error_text ErrDuplicateHold = ''payment hold already exists''"
| "error_text ErrMerchantCannotCreatePayments = ''merchant cannot create payments''"
| "error_text ErrPayerCurrencyMismatch = ''payer currency does not match payment currency''"
| "error_text ErrInsufficientAvailableBalance = ''payer has insufficient available balance''"
| "error_text ErrPaymentNotCapturable = ''payment is not capturable''"
| "error_text ErrAuthorizationExpired = ''authorization has expired''"
| "error_text ErrEventNotFound = ''outbox event not found''"
| "error_text ErrDuplicateEvent = ''outbox event already exists''"
| "error_text ErrEventNotClaimable = ''outbox event is not claimable''"
| "error_text ErrEventNotPublishable = ''outbox event is not publishable''"
| "error_text ErrEventNotFailable = ''outbox event is not failable''"
| "error_text ErrPublisherRequired = ''publisher is required''"
| "error_text ErrOutboxRepositoryRequired = ''outbox repository is required''"
| "error_text ErrOutboxTransactorRequired = ''transactor is required''"
| "error_text ErrInvalidKey = ''idempotency key is required''"
| "error_text ErrInvalidRequestHash = ''idempotency request hash is required''"
| "error_text ErrInvalidStatus = ''invalid idempotency status''"
| "error_text ErrRecordNotFound = ''idempotency record not found''"
| "error_text ErrDuplicateKey = ''idempotency key already exists''"
| "error_text ErrRequestHashMismatch = ''idempotency request hash does not match''"
| "error_text ErrExpiredIdempotencyKey = ''idempotency key has expired''"
| "error_text ErrRequestInProgress = ''idempotency request is already in progress''"
| "error_text ErrCachedResponseNotFound = ''cached idempotency response not found''"
| "error_text ErrInvalidSettlementWindow = ''settlement window end must be after window start''"
| "error_text ErrInvalidBatchStatus = ''invalid settlement batch status''"
| "error_text ErrInvalidLineItemAmount = ''settlement line item amount must be positive''"
| "error_text ErrBatchNotFound = ''settlement batch not found''"
| "error_text ErrLineItemNotFound = ''settlement line item not found''"
| "error_text ErrDuplicateLineItem = ''settlement line item already exists for payment''"
| "error_text ErrDuplicateBatch = ''settlement batch already exists''"
| "error_text ErrPaymentAlreadySettled = ''payment already belongs to a settlement batch''"
| "error_text ErrSettlementRepositoryRequired = ''settlement repository is required''"
| "error_text ErrPaymentRepositoryRequired = ''payment repository is required''"
| "error_text ErrSettlementTransactorRequired = ''settlement transactor is required''"
| "error_text ErrLimiterUnavailable = ''rate limiter unavailable''"
| "error_text ErrClientRequired = ''redis client is required''"
| "error_text ErrLimitRequired = ''rate limit must be positive''"
| "error_text ErrWindowRequired = ''rate limit window must be positive''"
| "error_text ErrTTLRequired = ''idempotency cache ttl must be positive''"
| "error_text ErrBrokerRequired = ''at least one kafka broker is required''"
| "error_text ErrTopicRequired = ''kafka topic is required''"

definition digit :: "nat \<Rightarrow> char" where
  "digit n = char_of (48 + n mod 10)"

fun nat_text :: "nat \<Rightarrow> string" where
  "nat_text n = (if n < 10 then [digit n] else nat_text (n div 10) @ [digit n])"

declare nat_text.simps [simp del]

definition int_text :: "int \<Rightarrow> string" where
  "int_text i = (if i < 0 then CHR ''-'' # nat_text (nat (- i)) else nat_text (nat i))"

text \<open>A number with leading zeros up to a width.\<close>

definition padded :: "nat \<Rightarrow> int \<Rightarrow> string" where
  "padded width n = (let t = int_text n in replicate (width - length t) (CHR ''0'') @ t)"

section \<open>Times\<close>

text \<open>
  The Gregorian date of a day counted from January 1 of year 1, by eras of 400 years that begin in
  March, and the layout \<open>2006-01-02T15:04:05Z07:00\<close> of an instant at an offset from UTC in
  seconds: 0 for times the program made with \<open>UTC()\<close>, that of the process's location for times the
  driver has scanned.
\<close>

definition civil_date :: "int \<Rightarrow> int \<times> int \<times> int" where
  "civil_date days =
     (let d = days + 306; era = d div 146097; doe = d mod 146097;
          yoe = (doe - doe div 1460 + doe div 36524 - doe div 146096) div 365;
          doy = doe - (365 * yoe + yoe div 4 - yoe div 100);
          mp = (5 * doy + 2) div 153;
          month = (if mp < 10 then mp + 3 else mp - 9)
      in (yoe + era * 400 + (if month \<le> 2 then 1 else 0), month, doy - (153 * mp + 2) div 5 + 1))"

definition format_time :: "int \<Rightarrow> time \<Rightarrow> string" where
  "format_time offset t =
     (let secs = t div second + offset; days = secs div 86400; s = secs mod 86400;
          (year, month, day) = civil_date days; m = abs offset div 60
      in padded 4 year @ ''-'' @ padded 2 month @ ''-'' @ padded 2 day @ ''T'' @
         padded 2 (s div 3600) @ '':'' @ padded 2 (s div 60 mod 60) @ '':'' @ padded 2 (s mod 60) @
         (if offset = 0 then ''Z''
          else (if offset < 0 then ''-'' else ''+'') @ padded 2 (m div 60) @ '':'' @ padded 2 (m mod 60)))"

section \<open>JSON\<close>

text \<open>The escapes of \<open>encoding/json\<close> with HTML escaping, as an encoder has it by default.\<close>

definition json_rune :: "char \<Rightarrow> bytes" where
  "json_rune c =
     (let n = rune c in
      if n = 34 \<or> n = 92 then [CHR 0x5C, c]
      else if n = 8 then [CHR 0x5C, CHR ''b'']
      else if n = 12 then [CHR 0x5C, CHR ''f'']
      else if n = 10 then [CHR 0x5C, CHR ''n'']
      else if n = 13 then [CHR 0x5C, CHR ''r'']
      else if n = 9 then [CHR 0x5C, CHR ''t'']
      else if n < 32 \<or> n \<in> {38, 60, 62} then CHR 0x5C # ''u00'' @ hex_encode [n]
      else utf8_rune c)"

definition json_string :: "string \<Rightarrow> bytes" where
  "json_string s = [CHR 0x22] @ concat (map json_rune s) @ [CHR 0x22]"

text \<open>The fields of an object, in their order; a member of a response is a text or a number.\<close>

datatype json_field = JText string | JNumber int

fun json_field_text :: "json_field \<Rightarrow> bytes" where
  "json_field_text (JText s) = json_string s"
| "json_field_text (JNumber n) = int_text n"

fun comma_separated :: "bytes list \<Rightarrow> bytes" where
  "comma_separated [] = []"
| "comma_separated [x] = x"
| "comma_separated (x # y # ys) = x @ CHR '','' # comma_separated (y # ys)"

type_synonym json_fields = "(string \<times> json_field) list"

definition json_object :: "json_fields \<Rightarrow> bytes" where
  "json_object members =
     CHR ''{'' # comma_separated (map (\<lambda>(k, v). json_string k @ CHR '':'' # json_field_text v) members) @ ''}''"

definition json_array :: "json_fields list \<Rightarrow> bytes" where
  "json_array objects = CHR ''['' # comma_separated (map json_object objects) @ '']''"

text \<open>\<open>map[string]string\<close> with the two members of an error; the encoder sorts the keys.\<close>

definition error_body :: "string \<Rightarrow> string \<Rightarrow> json_fields" where
  "error_body error_code message = [(''error_code'', JText error_code), (''message'', JText message)]"

section \<open>Writing a response\<close>

text \<open>
  An \<open>http.ResponseWriter\<close> is the sequence of the calls made on it: what wraps another writer
  (the recorders of the payment handler and of the middleware) passes every call on, and what the
  client gets is what \<open>net/http\<close> does with the calls. The first status written is the status of
  the response, headers set after it are too late, and a body written before it is written with
  status 200. The payment handler's recorder keeps the last status and all of the body.
\<close>

datatype writer_call = SetHeader string string | WriteHeader int | WriteBody bytes

type_synonym response_writer = "writer_call list"

record response =
  resp_header :: "(string \<times> string) list"
  resp_status :: "int option"
  resp_body :: bytes

fun send :: "writer_call \<Rightarrow> response \<Rightarrow> response" where
  "send (SetHeader k v) r = (if resp_status r = None then r\<lparr>resp_header := AList.update k v (resp_header r)\<rparr> else r)"
| "send (WriteHeader code) r = (if resp_status r = None then r\<lparr>resp_status := Some code\<rparr> else r)"
| "send (WriteBody b) r =
     (let r' = (if resp_status r = None then r\<lparr>resp_status := Some 200\<rparr> else r)
      in r'\<lparr>resp_body := resp_body r' @ b\<rparr>)"

definition sent :: "response_writer \<Rightarrow> response" where
  "sent w = fold send w \<lparr>resp_header = [], resp_status = None, resp_body = []\<rparr>"

definition rw_header :: "response_writer \<Rightarrow> (string \<times> string) list" where
  "rw_header w = resp_header (sent w)"

definition rw_status :: "response_writer \<Rightarrow> int option" where
  "rw_status w = resp_status (sent w)"

definition rw_body :: "response_writer \<Rightarrow> bytes" where
  "rw_body w = resp_body (sent w)"

definition new_writer :: response_writer where
  "new_writer = []"

definition set_header :: "string \<Rightarrow> string \<Rightarrow> response_writer \<Rightarrow> response_writer" where
  "set_header k v w = w @ [SetHeader k v]"

definition write_header :: "int \<Rightarrow> response_writer \<Rightarrow> response_writer" where
  "write_header code w = w @ [WriteHeader code]"

definition write_body :: "bytes \<Rightarrow> response_writer \<Rightarrow> response_writer" where
  "write_body b w = w @ [WriteBody b]"

record recorder =
  rr_writer :: response_writer
  rr_statusCode :: int
  rr_body :: bytes

definition newResponseRecorder :: "response_writer \<Rightarrow> recorder" where
  "newResponseRecorder w = \<lparr>rr_writer = w, rr_statusCode = 200, rr_body = []\<rparr>"

definition rr_WriteHeader :: "int \<Rightarrow> recorder \<Rightarrow> recorder" where
  "rr_WriteHeader code r = r\<lparr>rr_statusCode := code, rr_writer := write_header code (rr_writer r)\<rparr>"

definition rr_Write :: "bytes \<Rightarrow> recorder \<Rightarrow> recorder" where
  "rr_Write b r = r\<lparr>rr_body := rr_body r @ b, rr_writer := write_body b (rr_writer r)\<rparr>"

definition rr_SetHeader :: "string \<Rightarrow> string \<Rightarrow> recorder \<Rightarrow> recorder" where
  "rr_SetHeader k v r = r\<lparr>rr_writer := set_header k v (rr_writer r)\<rparr>"

text \<open>\<open>httpjson.Write\<close>; \<open>Encode\<close> ends the value with a line break.\<close>

definition httpjson_Write :: "int \<Rightarrow> bytes \<Rightarrow> response_writer \<Rightarrow> response_writer" where
  "httpjson_Write status json w =
     write_body (json @ [CHR 0x0A]) (write_header status
       (set_header ''Content-Type'' ''application/json'' w))"

definition recorder_Write :: "int \<Rightarrow> bytes \<Rightarrow> recorder \<Rightarrow> recorder" where
  "recorder_Write status json r =
     rr_Write (json @ [CHR 0x0A]) (rr_WriteHeader status
       (rr_SetHeader ''Content-Type'' ''application/json'' r))"

lemmas http_response_defs = digit_def int_text_def padded_def civil_date_def format_time_def json_rune_def
  json_string_def json_object_def json_array_def error_body_def new_writer_def set_header_def write_header_def
  write_body_def newResponseRecorder_def rr_WriteHeader_def rr_Write_def rr_SetHeader_def
  httpjson_Write_def recorder_Write_def

declare http_response_defs [go_eval]

section \<open>What a client gets\<close>

lemma sent_step: "sent (w @ [c]) = send c (sent w)"
  by (simp add: sent_def)

lemma rw_new [simp]: "rw_header new_writer = []" "rw_status new_writer = None" "rw_body new_writer = []"
  by (simp_all add: rw_header_def rw_status_def rw_body_def sent_def new_writer_def)

lemma rw_status_simps [simp]:
  "rw_status (set_header k v w) = rw_status w"
  "rw_status (write_header code w) = (if rw_status w = None then Some code else rw_status w)"
  "rw_status (write_body b w) = (if rw_status w = None then Some 200 else rw_status w)"
  by (simp_all add: rw_status_def set_header_def write_header_def write_body_def sent_step Let_def)

lemma rw_body_simps [simp]:
  "rw_body (set_header k v w) = rw_body w"
  "rw_body (write_header code w) = rw_body w"
  "rw_body (write_body b w) = rw_body w @ b"
  by (simp_all add: rw_body_def set_header_def write_header_def write_body_def sent_step Let_def)

lemma rw_header_simps [simp]:
  "rw_header (set_header k v w) = (if rw_status w = None then AList.update k v (rw_header w) else rw_header w)"
  "rw_header (write_header code w) = rw_header w"
  "rw_header (write_body b w) = rw_header w"
  by (simp_all add: rw_header_def rw_status_def set_header_def write_header_def write_body_def sent_step Let_def)

text \<open>One answer through a fresh recorder: what the client gets is what the recorder keeps.\<close>

definition answered :: "int \<Rightarrow> bytes \<Rightarrow> recorder" where
  "answered status body =
     \<lparr>rr_writer = [SetHeader ''Content-Type'' ''application/json'', WriteHeader status, WriteBody body],
      rr_statusCode = status, rr_body = body\<rparr>"

lemma recorder_Write_new:
  "recorder_Write status json (newResponseRecorder new_writer) = answered status (json @ [CHR 0x0A])"
  by (simp add: recorder_Write_def newResponseRecorder_def new_writer_def rr_SetHeader_def set_header_def
      rr_WriteHeader_def write_header_def rr_Write_def write_body_def answered_def)

lemma answered_sel [simp]:
  "rr_statusCode (answered status body) = status" "rr_body (answered status body) = body"
  "rw_status (rr_writer (answered status body)) = Some status" "rw_body (rr_writer (answered status body)) = body"
  by (simp_all add: answered_def rw_status_def rw_body_def sent_def)

end
