(* ===== verification/PaymentHandler.thy ===== *)
theory PaymentHandler
  imports PaymentService Idempotency HttpResponse
begin

text \<open>
  \<open>internal/payment/handler.go\<close>: the HTTP handler of payments. A request is the parts of
  \<open>http.Request\<close> the handler reads; \<open>io.ReadAll(r.Body)\<close> has been tried and its result is
  \<open>rq_Body\<close>. The state is that of the payment service beside that of the idempotency service.
  Decoding JSON into the request struct, which \<open>encoding/json\<close> does by reflection, is the argument
  \<open>he_decode\<close>, with \<open>None\<close> for an error; \<open>he_offset\<close> is the offset from UTC of the
  location a time of the answer is in.
\<close>

section \<open>Requests and answers\<close>

record authorize_request =
  aq_MerchantID :: string
  aq_PayerID :: string
  aq_AmountMinor :: int64
  aq_Currency :: string

record http_request =
  rq_Method :: string
  rq_Path :: string
  rq_Body :: "error + bytes"
  rq_IdempotencyKey :: string
  rq_payment_id :: string

record ('c, 's, 'd, 'i) handler =
  ph_service :: "('c, 's) service"
  ph_idempotency :: "('d, 'i) idem_service option"

record ('c, 'd) handler_env =
  he_env :: "'c env"
  he_start :: "'d idem_env"
  he_complete :: "'d idem_env"
  he_decode :: "bytes \<Rightarrow> authorize_request option"
  he_offset :: "time \<Rightarrow> int"

record handled =
  hd_writer :: response_writer
  hd_payment_obs :: "observation list"
  hd_idem_obs :: "idem_observation list"

definition authorizePaymentResponse :: "(time \<Rightarrow> int) \<Rightarrow> payment_result \<Rightarrow> json_fields" where
  "authorizePaymentResponse offset result =
     (let p = res_Payment result in
      [(''payment_id'', JText (payment_ID p)),
       (''status'', JText (payment_status_string (payment_Status p))),
       (''merchant_id'', JText (payment_MerchantID p)),
       (''payer_id'', JText (payment_PayerID p)),
       (''amount'', JNumber (sint (payment_AmountMinor p))),
       (''currency'', JText (payment_Currency p)),
       (''hold_id'', JText (hold_ID (res_Hold result))),
       (''authorized_at'', JText (format_time (offset (AuthorizedAt p)) (AuthorizedAt p))),
       (''expires_at'', JText (format_time (offset (payment_ExpiresAt p)) (payment_ExpiresAt p)))])"

definition capturePaymentResponse :: "(time \<Rightarrow> int) \<Rightarrow> payment_result \<Rightarrow> json_fields" where
  "capturePaymentResponse offset result =
     (let p = res_Payment result;
          capturedAt = (case CapturedAt p of None \<Rightarrow> '''' | Some t \<Rightarrow> format_time (offset t) t)
      in [(''payment_id'', JText (payment_ID p)),
          (''status'', JText (payment_status_string (payment_Status p))),
          (''captured_amount'', JNumber (sint (payment_AmountMinor p))),
          (''currency'', JText (payment_Currency p)),
          (''captured_at'', JText capturedAt)])"

section \<open>Errors as answers\<close>

definition authorizationErrorResponse :: "error \<Rightarrow> int \<times> json_fields" where
  "authorizationErrorResponse err =
     (if errors_is err ErrMerchantNotFound
        then (404, error_body ''MERCHANT_NOT_FOUND'' ''Merchant not found'')
      else if errors_is err ErrPayerNotFound
        then (404, error_body ''PAYER_NOT_FOUND'' ''Payer not found'')
      else if errors_is err ErrPayerVersionConflict
        then (409, error_body ''PAYER_VERSION_CONFLICT'' ''Payer balance changed during payment authorization'')
      else if errors_is err ErrMerchantCannotCreatePayments
        then (409, error_body ''MERCHANT_CANNOT_CREATE_PAYMENTS'' ''Merchant cannot create payments'')
      else if errors_is err ErrPayerCurrencyMismatch
        then (422, error_body ''PAYER_CURRENCY_MISMATCH'' ''Payer currency does not match payment currency'')
      else if errors_is err ErrInsufficientAvailableBalance
        then (422, error_body ''INSUFFICIENT_AVAILABLE_BALANCE'' ''Payer has insufficient available balance'')
      else (400, error_body ''INVALID_PAYMENT_AUTHORIZATION'' (error_text err)))"

definition captureErrorResponse :: "error \<Rightarrow> int \<times> json_fields" where
  "captureErrorResponse err =
     (if errors_is err ErrPaymentNotFound
        then (404, error_body ''PAYMENT_NOT_FOUND'' ''Payment not found'')
      else if errors_is err ErrHoldNotFound
        then (404, error_body ''PAYMENT_HOLD_NOT_FOUND'' ''Payment hold not found'')
      else if errors_is err ErrPayerNotFound
        then (404, error_body ''PAYER_NOT_FOUND'' ''Payer not found'')
      else if errors_is err ErrPayerVersionConflict
        then (409, error_body ''PAYER_VERSION_CONFLICT'' ''Payer balance changed during payment capture'')
      else if errors_is err ErrPaymentNotCapturable
        then (409, error_body ''PAYMENT_NOT_CAPTURABLE'' ''Payment is not capturable'')
      else if errors_is err ErrAuthorizationExpired
        then (422, error_body ''AUTHORIZATION_EXPIRED'' ''Authorization has expired'')
      else (400, error_body ''INVALID_PAYMENT_CAPTURE'' (error_text err)))"

definition idempotencyErrorResponse :: "error \<Rightarrow> int \<times> json_fields" where
  "idempotencyErrorResponse err =
     (if errors_is err ErrRequestHashMismatch
        then (409, error_body ''IDEMPOTENCY_KEY_CONFLICT'' ''Idempotency-Key was already used for a different request'')
      else if errors_is err ErrExpiredIdempotencyKey
        then (409, error_body ''IDEMPOTENCY_KEY_EXPIRED'' ''Idempotency-Key has expired'')
      else if errors_is err ErrRequestInProgress
        then (409, error_body ''IDEMPOTENCY_REQUEST_IN_PROGRESS''
          ''Request with this Idempotency-Key is already in progress'')
      else (400, error_body ''INVALID_IDEMPOTENCY_KEY'' (error_text err)))"

text \<open>\<open>status, body := f(err); httpjson.Write(w, status, body)\<close> through the recorder.\<close>

definition recorder_error :: "int \<times> json_fields \<Rightarrow> recorder \<Rightarrow> recorder" where
  "recorder_error answer r = recorder_Write (fst answer) (json_object (snd answer)) r"

section \<open>The idempotency key of a request\<close>

text \<open>\<open>None\<close> stands for a request that has been handled.\<close>

definition handleIdempotencyStart ::
  "('d, 'i) idem_service \<Rightarrow> 'd idem_env \<Rightarrow> http_request \<Rightarrow> bytes \<Rightarrow> recorder \<Rightarrow> 'i \<Rightarrow>
   ((start_result option \<times> recorder) \<times> idem_observation list) \<times> 'i" where
  "handleIdempotencyStart svc env rq body w i =
     (let key = rq_IdempotencyKey rq in
      if key = ''''
      then (((None, recorder_error (400, error_body ''IDEMPOTENCY_KEY_REQUIRED''
              ''Idempotency-Key header is required'') w), []), i)
      else case StartRequest svc env key (HashRequest (rq_Method rq) (rq_Path rq) body) i of
        ((Inl err, obs), i') \<Rightarrow> (((None, recorder_error (idempotencyErrorResponse err) w), obs), i')
      | ((Inr result, obs), i') \<Rightarrow>
          if sr_Replay result
          then (((None, rr_Write (sr_ResponseBody result) (rr_WriteHeader (sr_ResponseCode result)
                  (rr_SetHeader ''Content-Type'' ''application/json'' w))), obs), i')
          else (((Some result, w), obs), i'))"

definition completeIdempotency ::
  "('d, 'i) idem_service \<Rightarrow> 'd idem_env \<Rightarrow> string \<Rightarrow> recorder \<Rightarrow> 'i \<Rightarrow> 'i" where
  "completeIdempotency svc env key w i = snd (CompleteRequest svc env key (rr_statusCode w) (rr_body w) i)"

text \<open>
  What both handlers do around the service: \<open>handleIdempotencyStart\<close>, then what comes after it
  and, deferred, \<open>completeIdempotency\<close> with whatever has been answered.
\<close>

definition idempotently ::
  "('c, 's, 'd, 'i) handler \<Rightarrow> ('c, 'd) handler_env \<Rightarrow> http_request \<Rightarrow> bytes \<Rightarrow> recorder \<Rightarrow>
   (recorder \<Rightarrow> 's \<Rightarrow> (recorder \<times> observation list) \<times> 's) \<Rightarrow> 's \<times> 'i \<Rightarrow> handled \<times> ('s \<times> 'i)" where
  "idempotently h env rq body w rest st =
     (case ph_idempotency h of
        None \<Rightarrow>
          (let ((w', obs), s') = rest w (fst st) in
           (\<lparr>hd_writer = rr_writer w', hd_payment_obs = obs, hd_idem_obs = []\<rparr>, (s', snd st)))
      | Some svc \<Rightarrow>
          (let (((started, w1), iobs), i1) = handleIdempotencyStart svc (he_start env) rq body w (snd st) in
           case started of
             None \<Rightarrow> (\<lparr>hd_writer = rr_writer w1, hd_payment_obs = [], hd_idem_obs = iobs\<rparr>, (fst st, i1))
           | Some result \<Rightarrow>
               (let ((w2, obs), s') = rest w1 (fst st);
                    i2 = completeIdempotency svc (he_complete env) (ir_Key (sr_Record result)) w2 i1
                in (\<lparr>hd_writer = rr_writer w2, hd_payment_obs = obs, hd_idem_obs = iobs\<rparr>, (s', i2)))))"

section \<open>The handlers\<close>

definition method_not_allowed :: "response_writer \<Rightarrow> response_writer" where
  "method_not_allowed = httpjson_Write 405 (json_object (error_body ''METHOD_NOT_ALLOWED'' ''Method not allowed''))"

definition route_not_found :: "response_writer \<Rightarrow> response_writer" where
  "route_not_found = httpjson_Write 404
     (json_object (error_body ''PAYMENT_ROUTE_NOT_FOUND'' ''Payment route not found''))"

definition untouched :: "response_writer \<Rightarrow> 's \<Rightarrow> handled \<times> 's" where
  "untouched w st = (\<lparr>hd_writer = w, hd_payment_obs = [], hd_idem_obs = []\<rparr>, st)"

definition unreadable_body :: "recorder \<Rightarrow> recorder" where
  "unreadable_body = recorder_error (400, error_body ''INVALID_REQUEST_BODY'' ''Request body could not be read'')"

definition authorize_rest ::
  "('c, 's) service \<Rightarrow> ('c, 'd) handler_env \<Rightarrow> bytes \<Rightarrow> recorder \<Rightarrow> 's \<Rightarrow> (recorder \<times> observation list) \<times> 's" where
  "authorize_rest svc env body w s =
     (case he_decode env body of
        None \<Rightarrow> ((recorder_error (400, error_body ''INVALID_JSON'' ''Request body must be valid JSON'') w, []), s)
      | Some request \<Rightarrow>
        (case AuthorizePayment svc (he_env env)
            \<lparr>ai_MerchantID = aq_MerchantID request, ai_PayerID = aq_PayerID request,
             ai_AmountMinor = aq_AmountMinor request, ai_Currency = aq_Currency request\<rparr> s of
           ((Inl err, obs), s') \<Rightarrow> ((recorder_error (authorizationErrorResponse err) w, obs), s')
         | ((Inr result, obs), s') \<Rightarrow>
             ((recorder_Write 201 (json_object (authorizePaymentResponse (he_offset env) result)) w, obs), s')))"

definition HandleAuthorize ::
  "('c, 's, 'd, 'i) handler \<Rightarrow> ('c, 'd) handler_env \<Rightarrow> response_writer \<Rightarrow> http_request \<Rightarrow> 's \<times> 'i \<Rightarrow>
   handled \<times> ('s \<times> 'i)" where
  "HandleAuthorize h env w0 rq st =
     (if rq_Method rq \<noteq> ''POST'' then untouched (method_not_allowed w0) st
      else let w = newResponseRecorder w0 in
        case rq_Body rq of
          Inl err \<Rightarrow> untouched (rr_writer (unreadable_body w)) st
        | Inr body \<Rightarrow> idempotently h env rq body w (authorize_rest (ph_service h) env body) st)"

definition capture_rest ::
  "('c, 's) service \<Rightarrow> ('c, 'd) handler_env \<Rightarrow> string \<Rightarrow> recorder \<Rightarrow> 's \<Rightarrow> (recorder \<times> observation list) \<times> 's" where
  "capture_rest svc env paymentID w s =
     (case CapturePayment svc (he_env env) paymentID s of
        ((Inl err, obs), s') \<Rightarrow> ((recorder_error (captureErrorResponse err) w, obs), s')
      | ((Inr result, obs), s') \<Rightarrow>
          ((recorder_Write 200 (json_object (capturePaymentResponse (he_offset env) result)) w, obs), s'))"

definition HandleCapture ::
  "('c, 's, 'd, 'i) handler \<Rightarrow> ('c, 'd) handler_env \<Rightarrow> response_writer \<Rightarrow> http_request \<Rightarrow> 's \<times> 'i \<Rightarrow>
   handled \<times> ('s \<times> 'i)" where
  "HandleCapture h env w0 rq st =
     (if rq_Method rq \<noteq> ''POST'' then untouched (method_not_allowed w0) st
      else let paymentID = rq_payment_id rq in
        if paymentID = '''' then untouched (route_not_found w0) st
        else let w = newResponseRecorder w0 in
          case rq_Body rq of
            Inl err \<Rightarrow> untouched (rr_writer (unreadable_body w)) st
          | Inr body \<Rightarrow> idempotently h env rq body w (capture_rest (ph_service h) env paymentID) st)"

definition ServeHTTP ::
  "('c, 's, 'd, 'i) handler \<Rightarrow> ('c, 'd) handler_env \<Rightarrow> response_writer \<Rightarrow> http_request \<Rightarrow> 's \<times> 'i \<Rightarrow>
   handled \<times> ('s \<times> 'i)" where
  "ServeHTTP h env w rq st =
     (if rq_Path rq = ''/payments/authorize'' then HandleAuthorize h env w rq st
      else if rq_payment_id rq \<noteq> '''' then HandleCapture h env w rq st
      else untouched (route_not_found w) st)"

lemmas payment_handler_defs = authorizePaymentResponse_def capturePaymentResponse_def
  authorizationErrorResponse_def captureErrorResponse_def idempotencyErrorResponse_def
  recorder_error_def handleIdempotencyStart_def completeIdempotency_def idempotently_def
  method_not_allowed_def route_not_found_def untouched_def unreadable_body_def authorize_rest_def
  HandleAuthorize_def capture_rest_def HandleCapture_def ServeHTTP_def

declare payment_handler_defs [go_eval]

end
