(* ===== verification/IdempotencyContract.thy ===== *)
theory IdempotencyContract
  imports Idempotency
begin

text \<open>
  What the idempotency service needs of its repository and its cache, as the locales
  \<open>record_store\<close> and \<open>replay_store\<close>, and what its two operations do under them: the
  records only grow, a completed record is final, a key is handed out for execution once, and every
  replay of a key is the response that was recorded. The in-memory repository with the cache that
  never answers is shown to keep the contract at the end.
\<close>

section \<open>Histories of calls\<close>

text \<open>The answers of a sequence of calls of the service, in any interleaving of requests.\<close>

datatype 'c idem_call = Start "'c idem_env" string string | Finish "'c idem_env" string int bytes

fun run_call ::
  "('c, 's) idem_service \<Rightarrow> 'c idem_call \<Rightarrow> 's \<Rightarrow> (error + start_result) option \<times> 's" where
  "run_call svc (Start env key hash) s = (let ((r, obs), s') = StartRequest svc env key hash s in (Some r, s'))"
| "run_call svc (Finish env key code body) s = (None, snd (CompleteRequest svc env key code body s))"

fun run_calls ::
  "('c, 's) idem_service \<Rightarrow> 'c idem_call list \<Rightarrow> 's \<Rightarrow> (error + start_result) option list \<times> 's" where
  "run_calls svc [] s = ([], s)"
| "run_calls svc (call # calls) s =
     (let (a, s1) = run_call svc call s; (as, s2) = run_calls svc calls s1 in (a # as, s2))"

text \<open>The answers that let the request for a key run, and the responses replayed for it.\<close>

fun granted :: "string \<Rightarrow> (error + start_result) option \<Rightarrow> bool" where
  "granted k (Some (Inr r)) \<longleftrightarrow> \<not> sr_Replay r \<and> ir_Key (sr_Record r) = k"
| "granted k a \<longleftrightarrow> False"

fun replayed :: "string \<Rightarrow> (error + start_result) option \<Rightarrow> (int \<times> bytes) option" where
  "replayed k (Some (Inr r)) =
     (if sr_Replay r \<and> ir_Key (sr_Record r) = k then Some (sr_ResponseCode r, sr_ResponseBody r) else None)"
| "replayed k a = None"

fun call_hash_ok :: "'c idem_call \<Rightarrow> bool" where
  "call_hash_ok (Start env key hash) \<longleftrightarrow> length hash = 64 \<and> trim_space hash = hash"
| "call_hash_ok (Finish env key code body) \<longleftrightarrow> True"

section \<open>Records and their life\<close>

definition same_record :: "idem_record \<Rightarrow> idem_record \<Rightarrow> bool" where
  "same_record r r' \<longleftrightarrow> ir_Key r' = ir_Key r \<and> ir_RequestHash r' = ir_RequestHash r \<and>
     ir_Status r' = ir_Status r \<and> ir_ResponseCode r' = ir_ResponseCode r \<and>
     ir_ResponseBody r' = ir_ResponseBody r"

lemma same_record_refl [simp]: "same_record r r"
  by (simp add: same_record_def)

text \<open>Records are not lost, keep what they are about, and a completed one never changes.\<close>

definition records_next :: "idem_record gomap \<Rightarrow> idem_record gomap \<Rightarrow> bool" where
  "records_next m m' \<longleftrightarrow>
     (\<forall>k r. map_of m k = Some r \<longrightarrow> (\<exists>r'. map_of m' k = Some r' \<and>
        ir_RequestHash r' = ir_RequestHash r \<and> (ir_Status r = IdemCompleted \<longrightarrow> r' = r)))"

lemma records_next_refl [simp]: "records_next m m"
  by (simp add: records_next_def)

lemma records_next_trans: "records_next m1 m2 \<Longrightarrow> records_next m2 m3 \<Longrightarrow> records_next m1 m3"
  unfolding records_next_def by metis

lemma records_next_dom: "records_next m m' \<Longrightarrow> map_of m k \<noteq> None \<Longrightarrow> map_of m' k \<noteq> None"
  unfolding records_next_def by fastforce

lemma records_next_completed:
  "records_next m m' \<Longrightarrow> map_of m k = Some r \<Longrightarrow> ir_Status r = IdemCompleted \<Longrightarrow> map_of m' k = Some r"
  unfolding records_next_def by fastforce

lemma records_next_new: "map_of m k = None \<Longrightarrow> records_next m (AList.update k r m)"
  unfolding records_next_def by auto

lemma records_next_complete:
  "map_of m k = Some r \<Longrightarrow> ir_Status r = IdemInProgress \<Longrightarrow> ir_RequestHash r' = ir_RequestHash r \<Longrightarrow>
   records_next m (AList.update k r' m)"
  unfolding records_next_def by auto

text \<open>A trimmed key with a hash of the right shape; a response recorded as the answer to them.\<close>

definition keyed_hash :: "string \<Rightarrow> string \<Rightarrow> bool" where
  "keyed_hash k h \<longleftrightarrow> trim_space k = k \<and> length h = 64 \<and> trim_space h = h"

definition recorded :: "idem_record gomap \<Rightarrow> string \<Rightarrow> string \<Rightarrow> int \<Rightarrow> bytes \<Rightarrow> bool" where
  "recorded m k h code body \<longleftrightarrow>
     (\<exists>r. map_of m k = Some r \<and> ir_Status r = IdemCompleted \<and> ir_RequestHash r = h \<and>
        ir_ResponseCode r = code \<and> ir_ResponseBody r = body)"

lemma recorded_next: "records_next m m' \<Longrightarrow> recorded m k h code body \<Longrightarrow> recorded m' k h code body"
  unfolding recorded_def using records_next_completed by blast

section \<open>The contract of the repository\<close>

locale record_store =
  fixes Rep :: "('c, 's) idem_repository" and records :: "'s \<Rightarrow> idem_record gomap" and sinv :: "'s \<Rightarrow> bool"
  assumes keyed: "sinv s \<Longrightarrow> gm_wf ir_Key (records s)"
  and create_law:
    "sinv s \<Longrightarrow> rep_CreateRecord Rep c r s = (Inr r', s') \<Longrightarrow>
     map_of (records s) (ir_Key r) = None \<and> same_record r r' \<and>
     records s' = AList.update (ir_Key r) r' (records s) \<and> sinv s'"
  and get_law:
    "sinv s \<Longrightarrow> rep_GetRecord Rep c k s = (Inr r, s') \<Longrightarrow> map_of (records s) k = Some r \<and> s' = s"
  and update_law:
    "sinv s \<Longrightarrow> rep_UpdateRecord Rep c r s = (Inr r', s') \<Longrightarrow>
     map_of (records s) (ir_Key r) \<noteq> None \<and> same_record r r' \<and>
     records s' = AList.update (ir_Key r) r' (records s) \<and> sinv s'"
  and error_states:
    "sinv s \<Longrightarrow> rep_CreateRecord Rep c r s = (Inl err, s') \<Longrightarrow> s' = s"
    "sinv s \<Longrightarrow> rep_GetRecord Rep c k s = (Inl err, s') \<Longrightarrow> s' = s"
    "sinv s \<Longrightarrow> rep_UpdateRecord Rep c r s = (Inl err, s') \<Longrightarrow> s' = s"

section \<open>The contract with the cache\<close>

text \<open>
  A cache may forget at any time, and must not answer what was not stored under the key and a hash of
  the shape \<open>HashRequest\<close> gives.
\<close>

locale replay_store = record_store Rep records sinv
  for Rep :: "('c, 's) idem_repository" and records :: "'s \<Rightarrow> idem_record gomap" and sinv :: "'s \<Rightarrow> bool" +
  fixes Cache :: "('c, 's) idem_cache" and cached :: "'s \<Rightarrow> string \<Rightarrow> string \<Rightarrow> cached_response option"
  assumes cache_get:
    "sinv s \<Longrightarrow> ca_GetResponse Cache c k h s = (g, s') \<Longrightarrow>
     records s' = records s \<and> sinv s' \<and> (\<forall>k h x. cached s' k h = Some x \<longrightarrow> cached s k h = Some x) \<and>
     (\<forall>x. g = Inr x \<longrightarrow> cached s k h = Some x)"
  and cache_set:
    "sinv s \<Longrightarrow> ca_SetResponse Cache c y ttl s = (u, s') \<Longrightarrow>
     records s' = records s \<and> sinv s' \<and>
     (\<forall>k h x. cached s' k h = Some x \<longrightarrow> keyed_hash k h \<longrightarrow>
        keyed_hash (cr_Key y) (cr_RequestHash y) \<longrightarrow>
        cached s k h = Some x \<or> k = cr_Key y \<and> h = cr_RequestHash y \<and> x = y)"
  and create_cached: "sinv s \<Longrightarrow> rep_CreateRecord Rep c r s = (q, s') \<Longrightarrow> cached s' = cached s"
  and update_cached: "sinv s \<Longrightarrow> rep_UpdateRecord Rep c r s = (q, s') \<Longrightarrow> cached s' = cached s"
begin

text \<open>Keys are trimmed, hashes have the shape of a digest, and what is cached is what is recorded.\<close>

definition well_recorded :: "'s \<Rightarrow> bool" where
  "well_recorded s \<longleftrightarrow> sinv s \<and>
     (\<forall>k r. map_of (records s) k = Some r \<longrightarrow> keyed_hash k (ir_RequestHash r)) \<and>
     (\<forall>k h x. cached s k h = Some x \<longrightarrow> keyed_hash k h \<longrightarrow>
        recorded (records s) k h (cr_ResponseCode x) (cr_ResponseBody x))"

lemma well_recordedI:
  assumes "sinv s" "\<And>k r. map_of (records s) k = Some r \<Longrightarrow> keyed_hash k (ir_RequestHash r)"
    and "\<And>k h x. cached s k h = Some x \<Longrightarrow> keyed_hash k h \<Longrightarrow>
      recorded (records s) k h (cr_ResponseCode x) (cr_ResponseBody x)"
  shows "well_recorded s"
  using assms unfolding well_recorded_def by simp

lemma well_recordedD:
  assumes "well_recorded s"
  shows "sinv s" "map_of (records s) k = Some r \<Longrightarrow> ir_Key r = k \<and> keyed_hash k (ir_RequestHash r)"
    "cached s k h = Some x \<Longrightarrow> keyed_hash k h \<Longrightarrow>
       recorded (records s) k h (cr_ResponseCode x) (cr_ResponseBody x)"
proof -
  show inv: "sinv s" using assms unfolding well_recorded_def by simp
  show "map_of (records s) k = Some r \<Longrightarrow> ir_Key r = k \<and> keyed_hash k (ir_RequestHash r)"
    using assms gm_wf_key [OF keyed [OF inv]] unfolding well_recorded_def by simp
  show "cached s k h = Some x \<Longrightarrow> keyed_hash k h \<Longrightarrow>
       recorded (records s) k h (cr_ResponseCode x) (cr_ResponseBody x)"
    using assms unfolding well_recorded_def by simp
qed

lemma well_recorded_forget:
  assumes "well_recorded s" "sinv s'" "records s' = records s"
    and "\<And>k h x. cached s' k h = Some x \<Longrightarrow> cached s k h = Some x"
  shows "well_recorded s'"
  by (rule well_recordedI) (use assms well_recordedD [OF assms(1)] in simp_all)

text \<open>A new record, and the completion of one.\<close>

lemma well_recorded_create:
  assumes ok: "well_recorded s" and run: "rep_CreateRecord Rep c r s = (Inr r', s')"
    and r: "keyed_hash (ir_Key r) (ir_RequestHash r)"
  shows "well_recorded s' \<and> records_next (records s) (records s') \<and>
    map_of (records s) (ir_Key r) = None \<and> map_of (records s') (ir_Key r) = Some r' \<and> ir_Key r' = ir_Key r"
proof -
  from create_law [OF well_recordedD(1) [OF ok] run]
  have new: "map_of (records s) (ir_Key r) = None" and same: "same_record r r'"
    and rec: "records s' = AList.update (ir_Key r) r' (records s)" and inv: "sinv s'" by simp_all
  have cached: "cached s' = cached s" by (rule create_cached [OF well_recordedD(1) [OF ok] run])
  have next': "records_next (records s) (records s')" using rec records_next_new [OF new] by simp
  have "well_recorded s'"
  proof (rule well_recordedI [OF inv])
    show "keyed_hash k (ir_RequestHash x)" if "map_of (records s') k = Some x" for k x
      using that rec r same well_recordedD(2) [OF ok] by (auto simp: same_record_def split: if_splits)
    show "recorded (records s') k h (cr_ResponseCode x) (cr_ResponseBody x)"
      if "cached s' k h = Some x" "keyed_hash k h" for k h x
      using that cached well_recordedD(3) [OF ok] recorded_next [OF next'] by simp
  qed
  then show ?thesis using rec new same next' by (simp add: same_record_def)
qed

lemma start_step:
  assumes ok: "well_recorded s" and svc: "is_repository svc = Rep" "is_cache svc = Cache"
    and hash: "length hash = 64" "trim_space hash = hash"
    and run: "StartRequest svc env key hash s = ((res, obs), s')"
  shows "well_recorded s' \<and> records_next (records s) (records s') \<and>
    (\<forall>x. res = Inr x \<and> \<not> sr_Replay x \<longrightarrow> ir_Key (sr_Record x) = trim_space key \<and>
       map_of (records s) (trim_space key) = None \<and> map_of (records s') (trim_space key) = Some (sr_Record x)) \<and>
    (\<forall>x. res = Inr x \<and> sr_Replay x \<longrightarrow> map_of (records s) (trim_space key) = Some (sr_Record x) \<and>
       ir_Key (sr_Record x) = trim_space key \<and>
       ir_Status (sr_Record x) = IdemCompleted \<and> ir_RequestHash (sr_Record x) = hash \<and>
       \<not> IsExpired (sr_Record x) (ie_now env) \<and>
       sr_ResponseCode x = ir_ResponseCode (sr_Record x) \<and> sr_ResponseBody x = ir_ResponseBody (sr_Record x))"
    (is "?goal res s'")
proof -
  note inv = well_recordedD(1) [OF ok]
  let ?r = "NewRecord \<lparr>nri_Key = key, nri_RequestHash = hash, nri_Now = ie_now env, nri_TTL = is_ttl svc\<rparr>"
  have stop: "?goal (Inl e) s" for e using ok by simp
  show ?thesis
  proof (cases ?r)
    case (Inl e)
    then show ?thesis using run stop by (auto simp: StartRequest_def utc_def)
  next
    case (Inr r)
    then have r: "ir_Key r = trim_space key" "ir_RequestHash r = hash"
      using hash by (auto simp: NewRecord_def Let_def split: if_splits)
    obtain q s1 where create: "rep_CreateRecord Rep (ie_call env 0) r s = (q, s1)" by fastforce
    show ?thesis
    proof (cases q)
      case (Inr created)
      then have "res = Inr \<lparr>sr_Record = created, sr_Replay = False, sr_ResponseCode = 0, sr_ResponseBody = []\<rparr>"
        "s' = s1"
        using run create \<open>?r = Inr r\<close> svc by (auto simp: StartRequest_def utc_def)
      then show ?thesis
        using well_recorded_create [OF ok create [unfolded Inr]] r hash by (simp add: keyed_hash_def)
    next
      case (Inl e)
      then have s1: "s1 = s" using error_states(1) [OF inv] create by blast
      obtain g s2 where get: "rep_GetRecord Rep (ie_call env 1) (ir_Key r) s = (g, s2)" by fastforce
      show ?thesis
      proof (cases "errors_is e ErrDuplicateKey \<and> (\<exists>x. g = Inr x \<and> \<not> IsExpired x (ie_now env) \<and>
          ir_RequestHash x = ir_RequestHash r \<and> ir_Status x = IdemCompleted)")
        case False
        moreover have "s2 = s" using get error_states(2) [OF inv] get_law [OF inv] by (cases g) blast+
        ultimately have "\<exists>err. res = Inl err \<and> s' = s"
          using run create get Inl \<open>?r = Inr r\<close> svc s1
          by (auto simp: StartRequest_def utc_def split: if_splits sum.splits)
        then show ?thesis using stop by blast
      next
        case True
        then obtain x where x: "g = Inr x" "\<not> IsExpired x (ie_now env)" "ir_RequestHash x = hash"
          "ir_Status x = IdemCompleted" using r by blast
        have stored: "map_of (records s) (trim_space key) = Some x" and s2: "s2 = s"
          using get_law [OF inv get [unfolded x]] r by simp_all
        have key: "ir_Key x = trim_space key" using well_recordedD(2) [OF ok stored] by simp
        obtain a s3 where read: "ca_GetResponse Cache (ie_call env 2) (ir_Key x) (ir_RequestHash x) s = (a, s3)"
          by fastforce
        note cache = cache_get [OF inv read]
        have s3: "well_recorded s3" using well_recorded_forget [OF ok] cache by blast
        have res: "s' = s3 \<and> (\<exists>code body. res = Inr \<lparr>sr_Record = x, sr_Replay = True, sr_ResponseCode = code,
            sr_ResponseBody = body\<rparr> \<and> (case a of Inl _ \<Rightarrow> code = ir_ResponseCode x \<and> body = ir_ResponseBody x
              | Inr y \<Rightarrow> code = cr_ResponseCode y \<and> body = cr_ResponseBody y))"
          using run create get Inl \<open>?r = Inr r\<close> svc s1 s2 x True read r
          by (auto simp: StartRequest_def utc_def split: sum.splits)
        have "cr_ResponseCode y = ir_ResponseCode x \<and> cr_ResponseBody y = ir_ResponseBody x" if "a = Inr y" for y
        proof -
          have "cached s (trim_space key) hash = Some y" using cache that key x by simp
          from well_recordedD(3) [OF ok this] stored hash show ?thesis
            by (auto simp: recorded_def keyed_hash_def)
        qed
        then have "res = Inr \<lparr>sr_Record = x, sr_Replay = True, sr_ResponseCode = ir_ResponseCode x,
            sr_ResponseBody = ir_ResponseBody x\<rparr>" "s' = s3"
          using res by (cases a; auto)+
        then show ?thesis using s3 cache stored x key by simp
      qed
    qed
  qed
qed

lemma complete_step:
  assumes ok: "well_recorded s" and svc: "is_repository svc = Rep" "is_cache svc = Cache"
    and run: "CompleteRequest svc env key code body s = (res, s')"
  shows "well_recorded s' \<and> records_next (records s) (records s') \<and>
    (\<forall>u. res = Inr u \<longrightarrow> (\<exists>r. map_of (records s) key = Some r \<and> ir_Status r = IdemInProgress \<and>
       map_of (records s') key = Some u \<and> ir_Status u = IdemCompleted \<and>
       ir_RequestHash u = ir_RequestHash r \<and> ir_ResponseCode u = code \<and> ir_ResponseBody u = body))"
    (is "?goal res s'")
proof -
  note inv = well_recordedD(1) [OF ok]
  have stop: "?goal (Inl e) s" for e using ok by simp
  obtain g s1 where get: "rep_GetRecord Rep (ie_call env 0) key s = (g, s1)" by fastforce
  have s1: "s1 = s" using get error_states(2) [OF inv] get_law [OF inv] by (cases g) blast+
  show ?thesis
  proof (cases "\<exists>r. g = Inr r \<and> ir_Status r = IdemInProgress")
    case False
    then have "\<exists>e. res = Inl e \<and> s' = s"
      using run get s1 svc by (auto simp: CompleteRequest_def act_defs Complete_def split: sum.splits)
    then show ?thesis using stop by blast
  next
    case True
    then obtain r where r: "g = Inr r" "ir_Status r = IdemInProgress" by blast
    have stored: "map_of (records s) key = Some r" using get_law [OF inv] get r by blast
    have key: "ir_Key r = key" and shape: "keyed_hash key (ir_RequestHash r)"
      using well_recordedD(2) [OF ok stored] by simp_all
    let ?c = "r\<lparr>ir_Status := IdemCompleted, ir_ResponseCode := code, ir_ResponseBody := body,
      ir_UpdatedAt := ie_now env\<rparr>"
    obtain q s2 where upd: "rep_UpdateRecord Rep (ie_call env 1) ?c s = (q, s2)" by fastforce
    show ?thesis
    proof (cases q)
      case (Inl e)
      then have "s2 = s" using error_states(3) [OF inv] upd by blast
      then have "res = Inl e \<and> s' = s"
        using run get s1 svc r upd Inl by (auto simp: CompleteRequest_def act_defs Complete_def utc_def Let_def)
      then show ?thesis using stop by blast
    next
      case (Inr u)
      from update_law [OF inv upd [unfolded Inr]] key
      have u: "same_record ?c u" "records s2 = AList.update key u (records s)" "sinv s2" by simp_all
      have uf: "ir_Key u = key" "ir_RequestHash u = ir_RequestHash r" "ir_Status u = IdemCompleted"
        "ir_ResponseCode u = code" "ir_ResponseBody u = body"
        using u(1) key by (simp_all add: same_record_def)
      let ?y = "\<lparr>cr_Key = ir_Key u, cr_RequestHash = ir_RequestHash u, cr_ResponseCode = ir_ResponseCode u,
        cr_ResponseBody = ir_ResponseBody u\<rparr>"
      obtain ttl w where set: "ca_SetResponse Cache (ie_call env 2) ?y ttl s2 = (w, s')" and res: "res = Inr u"
        using run get s1 svc r upd Inr
        by (auto simp: CompleteRequest_def act_defs Complete_def utc_def Let_def split: prod.splits)
      note cache = cache_set [OF u(3) set]
      have old: "cached s2 = cached s" by (rule update_cached [OF inv upd])
      have next': "records_next (records s) (records s')"
        using cache u(2) records_next_complete [OF stored r(2) uf(2)] by simp
      have "well_recorded s'"
      proof (rule well_recordedI)
        show "sinv s'" using cache by simp
        show "keyed_hash k (ir_RequestHash x)" if "map_of (records s') k = Some x" for k x
          using that cache u(2) uf shape well_recordedD(2) [OF ok] by (auto split: if_splits)
        show "recorded (records s') k h (cr_ResponseCode x) (cr_ResponseBody x)"
          if x: "cached s' k h = Some x" "keyed_hash k h" for k h x
        proof -
          have "cached s k h = Some x \<or> k = key \<and> h = ir_RequestHash u \<and> x = ?y"
            using cache x old uf shape by simp
          then show ?thesis
          proof
            assume "cached s k h = Some x"
            from well_recordedD(3) [OF ok this x(2)] show ?thesis by (rule recorded_next [OF next'])
          next
            assume "k = key \<and> h = ir_RequestHash u \<and> x = ?y"
            then show ?thesis using cache u(2) uf by (simp add: recorded_def)
          qed
        qed
      qed
      then show ?thesis using res next' stored r uf cache u(2) by auto
    qed
  qed
qed

text \<open>The answer does not depend on the cache: without it the same comes from the record.\<close>

lemma start_without_cache:
  assumes ok: "well_recorded s" and svc: "is_repository svc = Rep" "is_cache svc = Cache"
    and hash: "length hash = 64" "trim_space hash = hash"
  shows "fst (fst (StartRequest (svc\<lparr>is_cache := NoopCache ctx_err\<rparr>) env key hash s)) =
    fst (fst (StartRequest svc env key hash s))"
proof -
  note inv = well_recordedD(1) [OF ok]
  let ?r = "NewRecord \<lparr>nri_Key = key, nri_RequestHash = hash, nri_Now = ie_now env, nri_TTL = is_ttl svc\<rparr>"
  show ?thesis
  proof (cases ?r)
    case (Inl e)
    then show ?thesis by (simp add: StartRequest_def utc_def)
  next
    case (Inr r)
    then have r: "ir_Key r = trim_space key" "ir_RequestHash r = hash"
      using hash by (auto simp: NewRecord_def Let_def split: if_splits)
    obtain q s1 where create: "rep_CreateRecord Rep (ie_call env 0) r s = (q, s1)" by fastforce
    show ?thesis
    proof (cases q)
      case (Inr created)
      then show ?thesis using create \<open>?r = Inr r\<close> svc by (simp add: StartRequest_def utc_def)
    next
      case (Inl e)
      then have s1: "s1 = s" using error_states(1) [OF inv] create by blast
      obtain g s2 where get: "rep_GetRecord Rep (ie_call env 1) (ir_Key r) s = (g, s2)" by fastforce
      have s2: "s2 = s" using get error_states(2) [OF inv] get_law [OF inv] by (cases g) blast+
      show ?thesis
      proof (cases "\<exists>x. g = Inr x \<and> ir_RequestHash x = hash \<and> ir_Status x = IdemCompleted")
        case False
        then show ?thesis using create get Inl \<open>?r = Inr r\<close> svc s1 s2 r
          by (auto simp: StartRequest_def utc_def split: sum.splits)
      next
        case True
        then obtain x where x: "g = Inr x" "ir_RequestHash x = hash" "ir_Status x = IdemCompleted" by blast
        have stored: "map_of (records s) (trim_space key) = Some x"
          using get_law [OF inv get [unfolded x(1)]] r by simp
        have key: "ir_Key x = trim_space key" using well_recordedD(2) [OF ok stored] by simp
        obtain a s3 where read: "ca_GetResponse Cache (ie_call env 2) (ir_Key x) (ir_RequestHash x) s = (a, s3)"
          by fastforce
        have same: "cr_ResponseCode y = ir_ResponseCode x \<and> cr_ResponseBody y = ir_ResponseBody x" if "a = Inr y" for y
        proof -
          have "cached s (trim_space key) hash = Some y" using cache_get [OF inv read] that key x by simp
          from well_recordedD(3) [OF ok this] stored hash show ?thesis
            by (auto simp: recorded_def keyed_hash_def)
        qed
        show ?thesis
        proof (cases a)
          case (Inl e')
          then show ?thesis using create get \<open>q = Inl e\<close> \<open>?r = Inr r\<close> svc s1 s2 x read r
            by (simp add: StartRequest_def utc_def NoopCache_def split: option.split)
        next
          case (Inr y)
          then show ?thesis using create get \<open>q = Inl e\<close> \<open>?r = Inr r\<close> svc s1 s2 x read r same [OF Inr]
            by (simp add: StartRequest_def utc_def NoopCache_def split: option.split)
        qed
      qed
    qed
  qed
qed

text \<open>Whole histories.\<close>

lemma run_call_step:
  assumes ok: "well_recorded s" and svc: "is_repository svc = Rep" "is_cache svc = Cache"
    and hash: "call_hash_ok call" and run: "run_call svc call s = (a, s')"
  shows "well_recorded s'" "records_next (records s) (records s')"
    "granted k a \<Longrightarrow> map_of (records s) k = None \<and> map_of (records s') k \<noteq> None"
    "replayed k a = Some cb \<Longrightarrow> \<exists>r. map_of (records s) k = Some r \<and> ir_Status r = IdemCompleted \<and>
       cb = (ir_ResponseCode r, ir_ResponseBody r)"
proof -
  have "well_recorded s' \<and> records_next (records s) (records s') \<and>
    (granted k a \<longrightarrow> map_of (records s) k = None \<and> map_of (records s') k \<noteq> None) \<and>
    (\<forall>cb. replayed k a = Some cb \<longrightarrow> (\<exists>r. map_of (records s) k = Some r \<and> ir_Status r = IdemCompleted \<and>
       cb = (ir_ResponseCode r, ir_ResponseBody r)))"
  proof (cases call)
    case (Start env key hash)
    then obtain res obs where start: "StartRequest svc env key hash s = ((res, obs), s')" and a: "a = Some res"
      using run by (auto split: prod.splits)
    from Start assms(4) have "length hash = 64" "trim_space hash = hash" by simp_all
    note step = start_step [OF ok svc this start]
    show ?thesis
    proof (cases res)
      case (Inr x)
      then show ?thesis using step a by (cases "sr_Replay x") auto
    qed (use step a in auto)
  next
    case (Finish env key code body)
    then have "CompleteRequest svc env key code body s = (fst (CompleteRequest svc env key code body s), s')"
      "a = None"
      using run by (simp_all add: prod_eq_iff)
    then show ?thesis using complete_step [OF ok svc] by auto
  qed
  note all = this
  show "well_recorded s'" using all by simp
  show "records_next (records s) (records s')" using all by simp
  show "granted k a \<Longrightarrow> map_of (records s) k = None \<and> map_of (records s') k \<noteq> None" using all by simp
  show "replayed k a = Some cb \<Longrightarrow> \<exists>r. map_of (records s) k = Some r \<and> ir_Status r = IdemCompleted \<and>
       cb = (ir_ResponseCode r, ir_ResponseBody r)" using all by simp
qed

lemma run_calls_next:
  assumes svc: "is_repository svc = Rep" "is_cache svc = Cache"
  shows "well_recorded s \<Longrightarrow> list_all call_hash_ok calls \<Longrightarrow> run_calls svc calls s = (as, s') \<Longrightarrow>
    well_recorded s' \<and> records_next (records s) (records s')"
proof (induction calls arbitrary: s as)
  case (Cons call calls)
  obtain a s1 as' where step: "run_call svc call s = (a, s1)" and rest: "run_calls svc calls s1 = (as', s')"
    using Cons.prems(3) by (auto split: prod.splits)
  have "call_hash_ok call" using Cons.prems(2) by simp
  note first = run_call_step [OF Cons.prems(1) svc this step]
  show ?case using Cons.IH [OF first(1) _ rest] records_next_trans [OF first(2)] Cons.prems(2) by simp
qed simp

text \<open>A key that has a record is never granted again, and once completed always replays the same.\<close>

lemma no_grant_after:
  assumes svc: "is_repository svc = Rep" "is_cache svc = Cache"
  shows "well_recorded s \<Longrightarrow> list_all call_hash_ok calls \<Longrightarrow> run_calls svc calls s = (as, s') \<Longrightarrow>
    map_of (records s) k \<noteq> None \<Longrightarrow> filter (granted k) as = []"
proof (induction calls arbitrary: s as)
  case (Cons call calls)
  obtain a s1 as' where step: "run_call svc call s = (a, s1)" and rest: "run_calls svc calls s1 = (as', s')"
    and as: "as = a # as'" using Cons.prems(3) by (auto split: prod.splits)
  have "call_hash_ok call" using Cons.prems(2) by simp
  note first = run_call_step [OF Cons.prems(1) svc this step]
  have "\<not> granted k a" using first(3) [THEN conjunct1] Cons.prems(4) by auto
  moreover have "map_of (records s1) k \<noteq> None" using records_next_dom [OF first(2) Cons.prems(4)] .
  ultimately show ?case using Cons.IH [OF first(1) _ rest] Cons.prems(2) as by simp
qed simp

lemma replays_recorded:
  assumes svc: "is_repository svc = Rep" "is_cache svc = Cache"
  shows "well_recorded s \<Longrightarrow> list_all call_hash_ok calls \<Longrightarrow> run_calls svc calls s = (as, s') \<Longrightarrow>
    map_of (records s) k = Some r \<Longrightarrow> ir_Status r = IdemCompleted \<Longrightarrow> a \<in> set as \<Longrightarrow>
    replayed k a = Some cb \<Longrightarrow> cb = (ir_ResponseCode r, ir_ResponseBody r)"
proof (induction calls arbitrary: s as)
  case (Cons call calls)
  obtain a' s1 as' where step: "run_call svc call s = (a', s1)" and rest: "run_calls svc calls s1 = (as', s')"
    and as: "as = a' # as'" using Cons.prems(3) by (auto split: prod.splits)
  have "call_hash_ok call" using Cons.prems(2) by simp
  note first = run_call_step [OF Cons.prems(1) svc this step]
  have later: "map_of (records s1) k = Some r" using records_next_completed [OF first(2) Cons.prems(4,5)] .
  show ?case
  proof (cases "a = a'")
    case True
    have "\<exists>r'. map_of (records s) k = Some r' \<and> cb = (ir_ResponseCode r', ir_ResponseBody r')"
      using first(4) Cons.prems(7) True by blast
    then show ?thesis using Cons.prems(4) by simp
  next
    case False
    then show ?thesis
      using Cons.IH [OF first(1) _ rest later Cons.prems(5) _ Cons.prems(7)] Cons.prems(2,6) as by simp
  qed
qed simp

lemma granted_once:
  assumes svc: "is_repository svc = Rep" "is_cache svc = Cache"
  shows "well_recorded s \<Longrightarrow> list_all call_hash_ok calls \<Longrightarrow> run_calls svc calls s = (as, s') \<Longrightarrow>
    length (filter (granted k) as) \<le> 1"
proof (induction calls arbitrary: s as)
  case (Cons call calls)
  obtain a s1 as' where step: "run_call svc call s = (a, s1)" and rest: "run_calls svc calls s1 = (as', s')"
    and as: "as = a # as'" using Cons.prems(3) by (auto split: prod.splits)
  have "call_hash_ok call" and tail: "list_all call_hash_ok calls" using Cons.prems(2) by simp_all
  note first = run_call_step [OF Cons.prems(1) svc this(1) step]
  have ok1: "well_recorded s1" by (rule first(1))
  show ?case
  proof (cases "granted k a")
    case True
    then have "map_of (records s1) k \<noteq> None" using first(3) by blast
    then show ?thesis using no_grant_after [OF svc ok1 tail rest] as by simp
  next
    case False
    then show ?thesis using Cons.IH [OF ok1 tail rest] as by simp
  qed
qed simp

lemma replays_agree:
  assumes svc: "is_repository svc = Rep" "is_cache svc = Cache"
  shows "well_recorded s \<Longrightarrow> list_all call_hash_ok calls \<Longrightarrow> run_calls svc calls s = (as, s') \<Longrightarrow>
    a \<in> set as \<Longrightarrow> b \<in> set as \<Longrightarrow> replayed k a = Some x \<Longrightarrow> replayed k b = Some y \<Longrightarrow> x = y"
proof (induction calls arbitrary: s as)
  case (Cons call calls)
  obtain c s1 as' where step: "run_call svc call s = (c, s1)" and rest: "run_calls svc calls s1 = (as', s')"
    and as: "as = c # as'" using Cons.prems(3) by (auto split: prod.splits)
  have "call_hash_ok call" and tail: "list_all call_hash_ok calls" using Cons.prems(2) by simp_all
  note first = run_call_step [OF Cons.prems(1) svc this(1) step]
  show ?case
  proof (cases "replayed k c")
    case (Some z)
    then obtain r where r: "map_of (records s) k = Some r" "ir_Status r = IdemCompleted"
      using first(4) by blast
    note all = replays_recorded [OF svc Cons.prems(1-3) r]
    show ?thesis using all [OF Cons.prems(4,6)] all [OF Cons.prems(5,7)] by simp
  next
    case None
    then have "a \<in> set as'" "b \<in> set as'" using as Cons.prems(4-7) by auto
    then show ?thesis using Cons.IH [OF first(1) tail rest _ _ Cons.prems(6,7)] by blast
  qed
qed simp

end

section \<open>The in-memory repository\<close>

definition memory_records :: "(error option, idem_record gomap) idem_repository" where
  "memory_records = \<lparr>rep_CreateRecord = CreateRecord, rep_GetRecord = GetRecord,
     rep_UpdateRecord = UpdateRecord\<rparr>"

declare memory_records_def [go_eval]

interpretation mem_records: record_store memory_records "\<lambda>s. s" "gm_wf ir_Key"
  by unfold_locales (auto simp: memory_records_def CreateRecord_def GetRecord_def UpdateRecord_def
      same_record_def intro: gm_wf_update split: option.splits if_splits)

interpretation mem_replay: replay_store memory_records "\<lambda>s. s" "gm_wf ir_Key" "NoopCache (\<lambda>c. c)"
  "\<lambda>s k h. None"
  by unfold_locales (auto simp: NoopCache_def split: option.splits)

end
