(* ===== verification/IdempotencyBackends.thy ===== *)
theory IdempotencyBackends
  imports IdempotencyContract PostgresTables
begin

text \<open>
  The durable idempotency records (\<open>internal/idempotency/adapters/postgres\<close> over
  \<open>migrations/000004_create_idempotency_records.sql\<close>), the response cache in Redis
  (\<open>internal/idempotency/adapters/redis\<close>), and the service of the API over both. The Redis server
  is a parameter, a record of the two commands the adapter sends, with what they promise as the
  predicate \<open>redis_strings_ok\<close>.
\<close>

section \<open>Postgres\<close>

text \<open>
  The columns of a record: times in microseconds, the code in four bytes. \<open>Complete\<close> copies the
  body onto a nil slice, so that an empty body is nil, which the driver sends as NULL to a column
  that is \<open>NOT NULL\<close>; the empty body of a new record is not nil.
\<close>

definition not_null_violation :: error where "not_null_violation = DbErr ''not_null_violation''"

definition idem_row :: "idem_record \<Rightarrow> error + idem_record" where
  "idem_row r =
     (if ir_ResponseCode r < - (2 ^ 31) \<or> 2 ^ 31 \<le> ir_ResponseCode r
      then Inl (DbErr ''value out of range for int4'')
      else Inr (r\<lparr>ir_CreatedAt := db_time (ir_CreatedAt r), ir_UpdatedAt := db_time (ir_UpdatedAt r),
          ir_ExpiresAt := db_time (ir_ExpiresAt r)\<rparr>))"

definition idem_checks :: "idem_record \<Rightarrow> bool" where
  "idem_checks r \<longleftrightarrow> 0 \<le> ir_ResponseCode r \<and> ir_CreatedAt r < ir_ExpiresAt r"

definition pg_CreateRecord :: "pg_call \<Rightarrow> idem_record \<Rightarrow> (idem_record gomap, idem_record) act" where
  "pg_CreateRecord c r s = pg_insert (pgc_err c) (idem_row r) idem_checks
     (\<lambda>r. map_of s (ir_Key r) = None) ErrDuplicateKey (\<lambda>r. True)
     (\<lambda>r s. AList.update (ir_Key r) r s) s"

definition pg_GetRecord :: "pg_call \<Rightarrow> string \<Rightarrow> (idem_record gomap, idem_record) act" where
  "pg_GetRecord c key s = pg_select_row (pgc_err c) (map_of s key) ErrRecordNotFound s"

definition idem_set :: "idem_record \<Rightarrow> idem_record \<Rightarrow> error + idem_record" where
  "idem_set r r0 =
     (if ir_ResponseBody r = [] then Inl not_null_violation
      else idem_row (r\<lparr>ir_CreatedAt := ir_CreatedAt r0\<rparr>))"

definition pg_UpdateRecord :: "pg_call \<Rightarrow> idem_record \<Rightarrow> (idem_record gomap, idem_record) act" where
  "pg_UpdateRecord c r s = pg_update (pgc_err c) (map_of s (ir_Key r)) ErrRecordNotFound
     (idem_set r) idem_checks (\<lambda>r. True) (\<lambda>r s. AList.update (ir_Key r) r s) s"

definition postgres_records :: "(pg_call, idem_record gomap) idem_repository" where
  "postgres_records = \<lparr>rep_CreateRecord = pg_CreateRecord, rep_GetRecord = pg_GetRecord,
     rep_UpdateRecord = pg_UpdateRecord\<rparr>"

lemmas postgres_records_defs = not_null_violation_def idem_row_def idem_checks_def pg_CreateRecord_def
  pg_GetRecord_def idem_set_def pg_UpdateRecord_def postgres_records_def

declare postgres_records_defs [go_eval]

lemma idem_rowD: "idem_row r = Inr r' \<Longrightarrow> same_record r r'"
  by (auto simp: idem_row_def same_record_def split: if_splits)

lemma idem_setD: "idem_set r r0 = Inr r' \<Longrightarrow> same_record r r'"
  by (auto simp: idem_set_def idem_row_def same_record_def split: if_splits)

interpretation pg_records: record_store postgres_records "\<lambda>s. s" "gm_wf ir_Key"
proof unfold_locales
  fix c r r' and s s' :: "idem_record gomap"
  assume wf: "gm_wf ir_Key s"
  show "map_of s (ir_Key r) = None \<and> same_record r r' \<and> s' = AList.update (ir_Key r) r' s \<and> gm_wf ir_Key s'"
    if "rep_CreateRecord postgres_records c r s = (Inr r', s')"
  proof -
    from that have row: "idem_row r = Inr r'" and new: "map_of s (ir_Key r') = None"
      and s': "s' = AList.update (ir_Key r') r' s"
      by (auto simp: postgres_records_def pg_CreateRecord_def pg_insert_def
          split: option.splits sum.splits if_splits)
    from idem_rowD [OF row] have "ir_Key r' = ir_Key r" by (simp add: same_record_def)
    then show ?thesis using idem_rowD [OF row] new s' gm_wf_update [OF wf, of r' "ir_Key r"] by simp
  qed
  show "map_of s (ir_Key r) \<noteq> None \<and> same_record r r' \<and> s' = AList.update (ir_Key r) r' s \<and> gm_wf ir_Key s'"
    if "rep_UpdateRecord postgres_records c r s = (Inr r', s')"
  proof -
    from that obtain r0 where row: "idem_set r r0 = Inr r'" and old: "map_of s (ir_Key r) = Some r0"
      and s': "s' = AList.update (ir_Key r') r' s"
      by (auto simp: postgres_records_def pg_UpdateRecord_def pg_update_def
          split: option.splits sum.splits if_splits)
    from idem_setD [OF row] have "ir_Key r' = ir_Key r" by (simp add: same_record_def)
    then show ?thesis using idem_setD [OF row] old s' gm_wf_update [OF wf, of r' "ir_Key r"] by simp
  qed
qed (auto simp: postgres_records_def pg_GetRecord_def pg_CreateRecord_def pg_UpdateRecord_def
    pg_insert_def pg_update_def pg_select_row_def split: option.splits sum.splits if_splits)

interpretation pg_replay: replay_store postgres_records "\<lambda>s. s" "gm_wf ir_Key" "NoopCache pgc_err"
  "\<lambda>s k h. None"
  by unfold_locales (auto simp: NoopCache_def split: option.splits)

section \<open>Redis\<close>

text \<open>
  A value is the JSON of \<open>cachedResponseDTO\<close>, or bytes that do not decode as one. The answer of
  GET is \<open>None\<close> for \<open>goredis.Nil\<close>.
\<close>

datatype redis_value = CachedDTO cached_response | OtherBytes

record ('c, 'k) redis_strings =
  rs_Get :: "'c \<Rightarrow> string \<Rightarrow> ('k, redis_value option) act"
  rs_Set :: "'c \<Rightarrow> string \<Rightarrow> redis_value \<Rightarrow> duration \<Rightarrow> ('k, unit) act"

record ('c, 'k) redis_cache =
  rc_client :: "('c, 'k) redis_strings"
  rc_prefix :: string
  rc_ttl :: duration

definition NewCache :: "('c, 'k) redis_strings option \<Rightarrow> string \<Rightarrow> duration \<Rightarrow> error + ('c, 'k) redis_cache" where
  "NewCache client prefix0 ttl =
     (case client of None \<Rightarrow> Inl ErrClientRequired
      | Some cl \<Rightarrow>
        if ttl \<le> 0 then Inl ErrTTLRequired
        else let prefix = trim_space prefix0 in
          Inr \<lparr>rc_client = cl,
            rc_prefix = (if prefix = '''' then ''paycore:idempotency:response'' else prefix), rc_ttl = ttl\<rparr>)"

definition cacheKey :: "string \<Rightarrow> string \<Rightarrow> string \<Rightarrow> string" where
  "cacheKey prefix key requestHash = prefix @ '':'' @ trim_space key @ '':'' @ trim_space requestHash"

definition redis_GetResponse ::
  "('c, 'k) redis_cache \<Rightarrow> 'c \<Rightarrow> string \<Rightarrow> string \<Rightarrow> ('k, cached_response) act" where
  "redis_GetResponse rc c key requestHash =
     act_bind (rs_Get (rc_client rc) c (cacheKey (rc_prefix rc) key requestHash)) (\<lambda>value.
       case value of
         None \<Rightarrow> act_fail ErrCachedResponseNotFound
       | Some OtherBytes \<Rightarrow> act_fail (ErrMsg ''json unmarshal'')
       | Some (CachedDTO dto) \<Rightarrow> act_return dto)"

definition redis_SetResponse :: "('c, 'k) redis_cache \<Rightarrow> 'c \<Rightarrow> cached_response \<Rightarrow> duration \<Rightarrow> ('k, unit) act" where
  "redis_SetResponse rc c response ttl0 =
     (let ttl = (if ttl0 \<le> 0 then rc_ttl rc else ttl0) in
      rs_Set (rc_client rc) c (cacheKey (rc_prefix rc) (cr_Key response) (cr_RequestHash response))
        (CachedDTO response) ttl)"

text \<open>The state of the API: the records and what the cache server holds.\<close>

definition on_fst :: "('r, 'a) act \<Rightarrow> ('r \<times> 'k, 'a) act" where
  "on_fst m = (\<lambda>(r, k). let (q, r') = m r in (q, (r', k)))"

definition on_snd :: "('k, 'a) act \<Rightarrow> ('r \<times> 'k, 'a) act" where
  "on_snd m = (\<lambda>(r, k). let (q, k') = m k in (q, (r, k')))"

definition records_in :: "('c, 'r) idem_repository \<Rightarrow> ('c, 'r \<times> 'k) idem_repository" where
  "records_in rep = \<lparr>rep_CreateRecord = (\<lambda>c r. on_fst (rep_CreateRecord rep c r)),
     rep_GetRecord = (\<lambda>c k. on_fst (rep_GetRecord rep c k)),
     rep_UpdateRecord = (\<lambda>c r. on_fst (rep_UpdateRecord rep c r))\<rparr>"

definition cache_in :: "('c, 'k) redis_cache \<Rightarrow> ('c, 'r \<times> 'k) idem_cache" where
  "cache_in rc = \<lparr>ca_GetResponse = (\<lambda>c k h. on_snd (redis_GetResponse rc c k h)),
     ca_SetResponse = (\<lambda>c y ttl. on_snd (redis_SetResponse rc c y ttl))\<rparr>"

lemmas redis_cache_defs = NewCache_def cacheKey_def redis_GetResponse_def redis_SetResponse_def
  on_fst_def on_snd_def records_in_def cache_in_def

declare redis_cache_defs [go_eval]

text \<open>
  What the Redis documentation says of GET and SET, as far as the program needs it: GET answers
  with the value held, if it answers with one; no command makes a key hold a value but a SET of that
  value to that key. A key may lose its value at any time.
\<close>

definition redis_strings_ok :: "('c, 'k) redis_strings \<Rightarrow> ('k \<Rightarrow> string \<Rightarrow> redis_value option) \<Rightarrow> bool" where
  "redis_strings_ok client held \<longleftrightarrow>
     (\<forall>c x st q st'. rs_Get client c x st = (q, st') \<longrightarrow>
        (\<forall>v. q = Inr (Some v) \<longrightarrow> held st x = Some v) \<and>
        (\<forall>y v. held st' y = Some v \<longrightarrow> held st y = Some v)) \<and>
     (\<forall>c x w ttl st q st'. rs_Set client c x w ttl st = (q, st') \<longrightarrow>
        (\<forall>y v. held st' y = Some v \<longrightarrow> held st y = Some v \<or> y = x \<and> v = w))"

section \<open>The cache as the service needs it\<close>

definition redis_cached ::
  "('c, 'k) redis_cache \<Rightarrow> ('k \<Rightarrow> string \<Rightarrow> redis_value option) \<Rightarrow> 'r \<times> 'k \<Rightarrow> string \<Rightarrow> string \<Rightarrow>
   cached_response option" where
  "redis_cached rc held s k h =
     (case held (snd s) (cacheKey (rc_prefix rc) k h) of Some (CachedDTO x) \<Rightarrow> Some x | _ \<Rightarrow> None)"

lemma redis_cached_Some:
  "redis_cached rc held s k h = Some x \<longleftrightarrow> held (snd s) (cacheKey (rc_prefix rc) k h) = Some (CachedDTO x)"
  by (auto simp: redis_cached_def split: option.splits redis_value.splits)

lemma cacheKey_inj:
  assumes "keyed_hash k h" "keyed_hash k' h'"
  shows "cacheKey p k h = cacheKey p k' h' \<longleftrightarrow> k = k' \<and> h = h'"
proof -
  have "length h = length h'" using assms by (simp add: keyed_hash_def)
  then have "k @ '':'' @ h = k' @ '':'' @ h' \<longleftrightarrow> k @ '':'' = k' @ '':'' \<and> h = h'"
    unfolding append_assoc [symmetric] by (rule append_eq_append_conv [OF disjI2])
  then show ?thesis using assms by (auto simp: cacheKey_def keyed_hash_def)
qed

lemma redis_getD:
  assumes "redis_strings_ok client held" "rs_Get client c x st = (q, st')"
  shows "held st' y = Some v \<Longrightarrow> held st y = Some v" "q = Inr (Some v) \<Longrightarrow> held st x = Some v"
  using assms unfolding redis_strings_ok_def by blast+

lemma redis_setD:
  assumes "redis_strings_ok client held" "rs_Set client c x w ttl st = (q, st')" "held st' y = Some v"
  shows "held st y = Some v \<or> y = x \<and> v = w"
  using assms unfolding redis_strings_ok_def by blast

lemma redis_GetResponse_cases:
  assumes ok: "redis_strings_ok (rc_client rc) held" and run: "redis_GetResponse rc c k h st = (g, st')"
  shows "held st' y = Some v \<Longrightarrow> held st y = Some v"
    "g = Inr x \<Longrightarrow> held st (cacheKey (rc_prefix rc) k h) = Some (CachedDTO x)"
proof -
  obtain q st1 where get: "rs_Get (rc_client rc) c (cacheKey (rc_prefix rc) k h) st = (q, st1)" by fastforce
  have st1: "st1 = st'"
    using run get by (auto simp: redis_GetResponse_def act_defs split: sum.splits option.splits redis_value.splits)
  show "held st' y = Some v \<Longrightarrow> held st y = Some v" using redis_getD(1) [OF ok get] st1 by simp
  show "g = Inr x \<Longrightarrow> held st (cacheKey (rc_prefix rc) k h) = Some (CachedDTO x)"
    using run get redis_getD(2) [OF ok get]
    by (auto simp: redis_GetResponse_def act_defs split: sum.splits option.splits redis_value.splits)
qed

text \<open>
  The contract of the service is kept by a repository with this cache when the repository keeps its
  own: what the laws say of each is \<open>record_store_def\<close> and \<open>replay_store_axioms_def\<close>.
\<close>

lemma records_in_run:
  "rep_CreateRecord (records_in Rep) c r s = (q, s') \<longleftrightarrow> rep_CreateRecord Rep c r (fst s) = (q, fst s') \<and> snd s' = snd s"
  "rep_GetRecord (records_in Rep) c k s = (q, s') \<longleftrightarrow> rep_GetRecord Rep c k (fst s) = (q, fst s') \<and> snd s' = snd s"
  "rep_UpdateRecord (records_in Rep) c r s = (q, s') \<longleftrightarrow> rep_UpdateRecord Rep c r (fst s) = (q, fst s') \<and> snd s' = snd s"
  by (cases s; cases s'; auto simp: records_in_def on_fst_def split: prod.splits)+

lemma record_store_on_fst:
  assumes "record_store Rep records sinv"
  shows "record_store (records_in Rep) (\<lambda>s. records (fst s)) (\<lambda>s. sinv (fst s))"
proof (unfold_locales, unfold records_in_run)
  fix s s' :: "'b \<times> 'd" and c r r' k err assume inv: "sinv (fst s)"
  show "gm_wf ir_Key (records (fst s))" by (rule record_store.keyed [OF assms inv])
  show "map_of (records (fst s)) (ir_Key r) = None \<and> same_record r r' \<and>
      records (fst s') = AList.update (ir_Key r) r' (records (fst s)) \<and> sinv (fst s')"
    if "rep_CreateRecord Rep c r (fst s) = (Inr r', fst s') \<and> snd s' = snd s"
    by (rule record_store.create_law [OF assms inv that [THEN conjunct1]])
  show "map_of (records (fst s)) k = Some r \<and> s' = s"
    if "rep_GetRecord Rep c k (fst s) = (Inr r, fst s') \<and> snd s' = snd s"
    using record_store.get_law [OF assms inv that [THEN conjunct1]] that by (simp add: prod_eq_iff)
  show "map_of (records (fst s)) (ir_Key r) \<noteq> None \<and> same_record r r' \<and>
      records (fst s') = AList.update (ir_Key r) r' (records (fst s)) \<and> sinv (fst s')"
    if "rep_UpdateRecord Rep c r (fst s) = (Inr r', fst s') \<and> snd s' = snd s"
    by (rule record_store.update_law [OF assms inv that [THEN conjunct1]])
  note errors = record_store.error_states [OF assms inv]
  show "s' = s" if "rep_CreateRecord Rep c r (fst s) = (Inl err, fst s') \<and> snd s' = snd s"
    using errors(1) [OF that [THEN conjunct1]] that by (simp add: prod_eq_iff)
  show "s' = s" if "rep_GetRecord Rep c k (fst s) = (Inl err, fst s') \<and> snd s' = snd s"
    using errors(2) [OF that [THEN conjunct1]] that by (simp add: prod_eq_iff)
  show "s' = s" if "rep_UpdateRecord Rep c r (fst s) = (Inl err, fst s') \<and> snd s' = snd s"
    using errors(3) [OF that [THEN conjunct1]] that by (simp add: prod_eq_iff)
qed

lemma replay_over_redis:
  assumes "record_store Rep records sinv" and ok: "redis_strings_ok (rc_client rc) held"
  shows "replay_store (records_in Rep) (\<lambda>s. records (fst s)) (\<lambda>s. sinv (fst s)) (cache_in rc)
    (redis_cached rc held)"
proof -
  have "replay_store_axioms (records_in Rep) (\<lambda>s. records (fst s)) (\<lambda>s. sinv (fst s)) (cache_in rc)
    (redis_cached rc held)"
  proof
    fix s s' :: "'b \<times> 'c" assume inv: "sinv (fst s)"
    show "records (fst s') = records (fst s) \<and> sinv (fst s') \<and>
        (\<forall>k h x. redis_cached rc held s' k h = Some x \<longrightarrow> redis_cached rc held s k h = Some x) \<and>
        (\<forall>x. g = Inr x \<longrightarrow> redis_cached rc held s k h = Some x)"
      if "ca_GetResponse (cache_in rc) c k h s = (g, s')" for c k h g
    proof -
      from that have get: "redis_GetResponse rc c k h (snd s) = (g, snd s')" and "fst s' = fst s"
        by (auto simp: cache_in_def on_snd_def split: prod.splits)
      then show ?thesis
        using inv redis_GetResponse_cases [OF ok get] by (auto simp: redis_cached_Some)
    qed
    show "records (fst s') = records (fst s) \<and> sinv (fst s') \<and>
        (\<forall>k h x. redis_cached rc held s' k h = Some x \<longrightarrow> keyed_hash k h \<longrightarrow>
           keyed_hash (cr_Key y) (cr_RequestHash y) \<longrightarrow>
           redis_cached rc held s k h = Some x \<or> k = cr_Key y \<and> h = cr_RequestHash y \<and> x = y)"
      if "ca_SetResponse (cache_in rc) c y ttl s = (u, s')" for c y ttl u
    proof -
      from that have set: "redis_SetResponse rc c y ttl (snd s) = (u, snd s')" and "fst s' = fst s"
        by (auto simp: cache_in_def on_snd_def split: prod.splits)
      moreover have "redis_cached rc held s k h = Some x \<or> k = cr_Key y \<and> h = cr_RequestHash y \<and> x = y"
        if "redis_cached rc held s' k h = Some x" "keyed_hash k h" "keyed_hash (cr_Key y) (cr_RequestHash y)"
        for k h x
        using redis_setD [OF ok set [unfolded redis_SetResponse_def Let_def] that(1) [unfolded redis_cached_Some]]
          cacheKey_inj [OF that(2,3)] by (simp add: redis_cached_Some)
      ultimately show ?thesis using inv by simp
    qed
    show "redis_cached rc held s' = redis_cached rc held s"
      if "rep_CreateRecord (records_in Rep) c r s = (q, s')" for c r q
      using that by (simp add: records_in_run redis_cached_def fun_eq_iff)
    show "redis_cached rc held s' = redis_cached rc held s"
      if "rep_UpdateRecord (records_in Rep) c r s = (q, s')" for c r q
      using that by (simp add: records_in_run redis_cached_def fun_eq_iff)
  qed
  then show ?thesis using record_store_on_fst [OF assms(1)] by (simp add: replay_store_def)
qed

section \<open>The service of the API\<close>

text \<open>
  \<open>cmd/paycore-api/main.go\<close>: the cache the configuration asks for (\<open>ping\<close> is the answer of
  the server at start-up) and the service over it.
\<close>

definition newIdempotencyCache ::
  "('c \<Rightarrow> error option) \<Rightarrow> bool \<Rightarrow> duration \<Rightarrow> ('c, 'k) redis_strings \<Rightarrow> error option \<Rightarrow>
   error + ('c, 'r \<times> 'k) idem_cache" where
  "newIdempotencyCache ctx_err enabled ttl client ping =
     (if \<not> enabled then Inr (NoopCache ctx_err)
      else case ping of Some err \<Rightarrow> Inl (Wrapped ''ping redis: '' err)
        | None \<Rightarrow>
          (case NewCache (Some client) '''' ttl of Inl err \<Rightarrow> Inl err | Inr rc \<Rightarrow> Inr (cache_in rc)))"

definition api_idempotency ::
  "('c \<Rightarrow> error option) \<Rightarrow> ('c, 's) idem_repository \<Rightarrow> ('c, 's) idem_cache \<Rightarrow> ('c, 's) idem_service" where
  "api_idempotency ctx_err repository cache =
     NewServiceWithCacheAndMetrics ctx_err repository (Some cache) True (24 * hour)"

definition postgres_idempotency ::
  "(pg_call, 'k) redis_cache \<Rightarrow> (pg_call, idem_record gomap \<times> 'k) idem_service" where
  "postgres_idempotency rc = api_idempotency pgc_err (records_in postgres_records) (cache_in rc)"

declare newIdempotencyCache_def [go_eval] api_idempotency_def [go_eval] postgres_idempotency_def [go_eval]

lemma api_idempotency_sel [simp]:
  "is_repository (api_idempotency x rep cache) = rep" "is_cache (api_idempotency x rep cache) = cache"
  "is_ttl (api_idempotency x rep cache) = 24 * hour" "is_metrics (api_idempotency x rep cache)"
  by (simp_all add: api_idempotency_def NewServiceWithCacheAndMetrics_def hour_def minute_def second_def)

lemma api_idempotency_cache [simp]:
  "(api_idempotency x rep cache)\<lparr>is_cache := cache'\<rparr> = api_idempotency x rep cache'"
  by (simp add: api_idempotency_def NewServiceWithCacheAndMetrics_def)

lemma HashRequest_keyed: "call_hash_ok (Start env key (HashRequest m p b))"
  by (simp add: trim_HashRequest HashRequest_def length_hex_encode length_sha256)
    (simp add: HashRequest_def [symmetric] trim_HashRequest)

text \<open>The laws for the service of the API, and the state the first request meets.\<close>

lemma pg_redis_store:
  "redis_strings_ok (rc_client rc) held \<Longrightarrow>
   replay_store (records_in postgres_records) (\<lambda>s. fst s) (\<lambda>s. gm_wf ir_Key (fst s)) (cache_in rc)
     (redis_cached rc held)"
  by (rule replay_over_redis [OF pg_records.record_store_axioms])

text \<open>The states of the service: what holds from the empty table on.\<close>

definition idem_ok ::
  "(pg_call, 'k) redis_cache \<Rightarrow> ('k \<Rightarrow> string \<Rightarrow> redis_value option) \<Rightarrow> idem_record gomap \<times> 'k \<Rightarrow> bool" where
  "idem_ok rc held = replay_store.well_recorded (\<lambda>s. fst s) (\<lambda>s. gm_wf ir_Key (fst s)) (redis_cached rc held)"

lemma postgres_idempotency_sel:
  "is_repository (postgres_idempotency rc) = records_in postgres_records"
  "is_cache (postgres_idempotency rc) = cache_in rc"
  by (simp_all add: postgres_idempotency_def)

lemma idem_ok_empty:
  fixes rc :: "(pg_call, 'k) redis_cache"
  assumes "redis_strings_ok (rc_client rc) held" and "\<And>x. held k x = None"
  shows "idem_ok rc held ([], k)"
  unfolding idem_ok_def
  by (rule replay_store.well_recordedI [OF pg_redis_store [OF assms(1)]])
    (simp_all add: redis_cached_Some assms(2))

text \<open>The facts of \<open>replay_store\<close> for it.\<close>

lemmas idem_laws = pg_redis_store [THEN replay_store.run_calls_next, OF _ postgres_idempotency_sel, folded idem_ok_def]
  pg_redis_store [THEN replay_store.granted_once, OF _ postgres_idempotency_sel, folded idem_ok_def]
  pg_redis_store [THEN replay_store.replays_recorded, OF _ postgres_idempotency_sel, folded idem_ok_def]
  pg_redis_store [THEN replay_store.start_step, OF _ _ postgres_idempotency_sel, folded idem_ok_def]
  pg_redis_store [THEN replay_store.complete_step, OF _ _ postgres_idempotency_sel, folded idem_ok_def]
  pg_redis_store [THEN replay_store.start_without_cache, OF _ _ postgres_idempotency_sel, folded idem_ok_def]

section \<open>Requests the database answers\<close>

lemma db_time_add:
  assumes "d mod 1000 = 0"
  shows "db_time (t + d) = db_time t + d"
proof -
  obtain q where "d = 1000 * q" using assms by (metis mod_eq_0_iff_dvd dvdE)
  then have "(t + d) mod 1000 = t mod 1000" by simp
  then show ?thesis by (simp only: db_time_def truncate_time_def) simp
qed

lemma db_time_day: "db_time t < db_time (t + 24 * hour)"
proof -
  have "24 * hour mod 1000 = 0" "0 < 24 * hour" by (simp_all add: hour_def minute_def second_def)
  from db_time_add [OF this(1)] this(2) show ?thesis by (simp only: less_add_same_cancel1)
qed

definition started_record :: "string \<Rightarrow> string \<Rightarrow> time \<Rightarrow> idem_record" where
  "started_record key hash now = \<lparr>ir_Key = key, ir_RequestHash = hash, ir_Status = IdemInProgress,
     ir_ResponseCode = 0, ir_ResponseBody = [], ir_CreatedAt = db_time now, ir_UpdatedAt = db_time now,
     ir_ExpiresAt = db_time (now + 24 * hour)\<rparr>"

lemma new_record:
  assumes "trim_space key \<noteq> ''''" "trim_space hash = hash" "hash \<noteq> ''''"
  shows "NewRecord \<lparr>nri_Key = key, nri_RequestHash = hash, nri_Now = now, nri_TTL = 24 * hour\<rparr> =
    Inr \<lparr>ir_Key = trim_space key, ir_RequestHash = hash, ir_Status = IdemInProgress, ir_ResponseCode = 0,
      ir_ResponseBody = [], ir_CreatedAt = now, ir_UpdatedAt = now, ir_ExpiresAt = now + 24 * hour\<rparr>"
  using assms by (simp add: NewRecord_def Let_def utc_def hour_def minute_def second_def)

lemma start_new:
  assumes "\<And>n. pgc_err (ie_call env n) = None" and "trim_space key \<noteq> ''''" "trim_space hash = hash" "hash \<noteq> ''''"
    and "map_of s (trim_space key) = None"
  shows "fst (fst (StartRequest (api_idempotency pgc_err postgres_records cache) env key hash s)) =
    Inr \<lparr>sr_Record = started_record (trim_space key) hash (ie_now env), sr_Replay = False,
      sr_ResponseCode = 0, sr_ResponseBody = []\<rparr>"
  using assms(1,5) new_record [OF assms(2-4)] db_time_day
  by (simp add: StartRequest_def utc_def Let_def postgres_records_def pg_CreateRecord_def pg_insert_def
      idem_row_def idem_checks_def started_record_def)

lemma start_known:
  assumes "\<And>n. pgc_err (ie_call env n) = None" and "trim_space key \<noteq> ''''" "trim_space hash = hash" "hash \<noteq> ''''"
    and "map_of s (trim_space key) = Some r"
  shows "fst (fst (StartRequest (api_idempotency pgc_err postgres_records (NoopCache pgc_err)) env key hash s)) =
    (if IsExpired r (ie_now env) then Inl ErrExpiredIdempotencyKey
     else if ir_RequestHash r \<noteq> hash then Inl ErrRequestHashMismatch
     else if ir_Status r = IdemInProgress then Inl ErrRequestInProgress
     else if ir_Status r = IdemFailed then Inl ErrInvalidStatus
     else Inr \<lparr>sr_Record = r, sr_Replay = True, sr_ResponseCode = ir_ResponseCode r,
       sr_ResponseBody = ir_ResponseBody r\<rparr>)"
  using assms(1,5) new_record [OF assms(2-4)] db_time_day
  by (cases "ir_Status r") (simp_all add: StartRequest_def utc_def Let_def NoopCache_def postgres_records_def
      pg_CreateRecord_def pg_GetRecord_def pg_insert_def pg_select_row_def idem_row_def idem_checks_def)

lemma start_on_fst:
  "fst (fst (StartRequest (api_idempotency x (records_in rep) (NoopCache y)) env key hash s)) =
   fst (fst (StartRequest (api_idempotency x rep (NoopCache y)) env key hash (fst s)))"
  by (cases s) (simp add: StartRequest_def records_in_def on_fst_def NoopCache_def Let_def
      split: sum.split prod.split option.split)

text \<open>In its reachable states the service answers from its records.\<close>

lemma start_from_records:
  assumes "redis_strings_ok (rc_client rc) held" and "idem_ok rc held s"
    and "length hash = 64" "trim_space hash = hash"
  shows "fst (fst (StartRequest (postgres_idempotency rc) env key hash s)) =
    fst (fst (StartRequest (api_idempotency pgc_err postgres_records (NoopCache pgc_err)) env key hash (fst s)))"
  using idem_laws(6) [OF assms, of pgc_err env key]
  by (simp add: postgres_idempotency_def start_on_fst)

lemma complete_live:
  assumes "\<And>n. pgc_err (ie_call env n) = None" and "map_of m key = Some r" and "ir_Status r = IdemInProgress"
    and "ir_Key r = key" and "body \<noteq> []" and "0 \<le> code" "code < 2 ^ 31" and "ir_CreatedAt r < db_time (ir_ExpiresAt r)"
  shows "\<exists>u k'. CompleteRequest (postgres_idempotency rc) env key code body (m, k) =
      (Inr u, (AList.update key u m, k')) \<and> ir_ExpiresAt u = db_time (ir_ExpiresAt r) \<and>
      ir_RequestHash u = ir_RequestHash r"
proof -
  let ?c = "r\<lparr>ir_Status := IdemCompleted, ir_ResponseCode := code, ir_ResponseBody := body,
    ir_UpdatedAt := ie_now env\<rparr>"
  let ?u = "?c\<lparr>ir_CreatedAt := db_time (ir_CreatedAt r), ir_UpdatedAt := db_time (ie_now env),
    ir_ExpiresAt := db_time (ir_ExpiresAt r)\<rparr>"
  have created: "db_time (ir_CreatedAt r) \<le> ir_CreatedAt r" by (rule db_time_le)
  have get: "pg_GetRecord (ie_call env 0) key m = (Inr r, m)"
    using assms(1,2) by (simp add: pg_GetRecord_def pg_select_row_def)
  have upd: "pg_UpdateRecord (ie_call env 1) ?c m = (Inr ?u, AList.update key ?u m)"
    using assms created by (simp add: pg_UpdateRecord_def pg_update_def idem_set_def idem_row_def idem_checks_def)
  show ?thesis
    using get upd assms(3)
    by (simp add: postgres_idempotency_def CompleteRequest_def act_defs records_in_def on_fst_def
        postgres_records_def Complete_def cache_in_def on_snd_def utc_def Let_def split: prod.split)
qed

end
