(* ===== verification/IdempotencyGuarantees.thy ===== *)
theory IdempotencyGuarantees
  imports IdempotencyBackends
begin

text \<open>
  What a client of the API can rely on when it sends an \<open>Idempotency-Key\<close>, with the records in
  Postgres and the response cache in Redis. Histories are \<open>run_calls\<close> from an empty table and an
  empty cache; a call carries a hash of the shape \<open>HashRequest\<close> gives.
\<close>

section \<open>A history for the witnesses\<close>

text \<open>A Redis that forgets nothing, and a client that sends a request, completes it and repeats it.\<close>

definition plain_redis :: "('c, redis_value gomap) redis_strings" where
  "plain_redis = \<lparr>rs_Get = (\<lambda>c x st. (Inr (map_of st x), st)),
     rs_Set = (\<lambda>c x v ttl st. (Inr (), AList.update x v st))\<rparr>"

definition plain_cache :: "(pg_call, redis_value gomap) redis_cache" where
  "plain_cache = \<lparr>rc_client = plain_redis, rc_prefix = ''r'', rc_ttl = hour\<rparr>"

definition at_minute :: "int \<Rightarrow> pg_call idem_env" where
  "at_minute n = \<lparr>ie_now = n * minute, ie_call = (\<lambda>i. quiet_call)\<rparr>"

definition some_hash :: string where "some_hash = replicate 64 (CHR ''a'')"

definition first_calls :: "pg_call idem_call list" where
  "first_calls = [Start (at_minute 1) ''k'' some_hash, Start (at_minute 1) '' k'' some_hash]"

declare plain_redis_def [go_eval] plain_cache_def [go_eval] at_minute_def [go_eval]
  some_hash_def [go_eval] first_calls_def [go_eval]

lemma plain_redis_ok: "redis_strings_ok (rc_client plain_cache) map_of"
  by (auto simp: redis_strings_ok_def plain_cache_def plain_redis_def split: if_splits)

lemma some_hash_ok: "call_hash_ok (Start env key some_hash)"
  by code_simp

lemma first_calls_ok: "list_all call_hash_ok first_calls"
  by (simp add: first_calls_def some_hash_ok del: call_hash_ok.simps)

definition first_record :: "idem_status \<Rightarrow> int \<Rightarrow> bytes \<Rightarrow> int \<Rightarrow> idem_record" where
  "first_record status code body n = \<lparr>ir_Key = ''k'', ir_RequestHash = some_hash, ir_Status = status,
     ir_ResponseCode = code, ir_ResponseBody = body, ir_CreatedAt = minute, ir_UpdatedAt = n * minute,
     ir_ExpiresAt = minute + 24 * hour\<rparr>"

definition after_first :: "idem_record gomap \<times> redis_value gomap" where
  "after_first = ([(''k'', first_record IdemInProgress 0 [] 1)], [])"

definition after_response :: "idem_record gomap \<times> redis_value gomap" where
  "after_response = ([(''k'', first_record IdemCompleted 201 ''{}'' 2)],
     [(cacheKey ''r'' ''k'' some_hash, CachedDTO \<lparr>cr_Key = ''k'', cr_RequestHash = some_hash,
       cr_ResponseCode = 201, cr_ResponseBody = ''{}''\<rparr>)])"

definition granted_first :: "(error + start_result) option" where
  "granted_first = Some (Inr \<lparr>sr_Record = first_record IdemInProgress 0 [] 1, sr_Replay = False,
     sr_ResponseCode = 0, sr_ResponseBody = []\<rparr>)"

definition replayed_last :: "error + start_result" where
  "replayed_last = Inr \<lparr>sr_Record = first_record IdemCompleted 201 ''{}'' 2, sr_Replay = True,
     sr_ResponseCode = 201, sr_ResponseBody = ''{}''\<rparr>"

lemma first_run: "run_calls (postgres_idempotency plain_cache) first_calls ([], []) =
    ([granted_first, Some (Inl ErrRequestInProgress)], after_first)"
  by code_simp

lemma response_run: "CompleteRequest (postgres_idempotency plain_cache) (at_minute 2) ''k'' 201 ''{}'' after_first =
    (Inr (first_record IdemCompleted 201 ''{}'' 2), after_response)"
  by code_simp

lemma repeat_run: "run_calls (postgres_idempotency plain_cache) [Start (at_minute 3) ''k'' some_hash] after_response =
    ([Some replayed_last], after_response)"
  by code_simp

section \<open>Histories on the database\<close>

text \<open>
  C22. However requests interleave, and whatever fails, at most one of the requests that carry a key
  is let through to run; this needs of Redis only that it does not invent values.
\<close>

theorem key_runs_once:
  assumes "redis_strings_ok (rc_client rc) held" and "\<And>x. held k x = None"
    and "list_all call_hash_ok calls"
  shows "length (filter (granted key) (fst (run_calls (postgres_idempotency rc) calls ([], k)))) \<le> 1"
  using idem_laws(2) [OF assms(1) idem_ok_empty [OF assms(1,2)] assms(3)] by (metis prod.collapse)

theorem key_runs_once_witness:
  "length (filter (granted ''k'') (fst (run_calls (postgres_idempotency plain_cache) first_calls ([], [])))) \<le> 1 \<and>
   filter (granted ''k'') (fst (run_calls (postgres_idempotency plain_cache) first_calls ([], []))) = [granted_first]"
  using key_runs_once [OF plain_redis_ok _ first_calls_ok, of "[]" "''k''"]
  by (simp add: first_run granted_first_def first_record_def)

text \<open>
  C23. What is replayed is what was recorded: once the response of a key's request is stored, every
  later replay for the key is that status and body, whether it comes from Redis or from Postgres.
\<close>

theorem replay_is_the_response:
  assumes "redis_strings_ok (rc_client rc) held" and "\<And>x. held k x = None"
    and "list_all call_hash_ok (before @ later)"
    and "run_calls (postgres_idempotency rc) before ([], k) = (as1, s1)"
    and "CompleteRequest (postgres_idempotency rc) env key code body s1 = (Inr u, s2)"
    and "run_calls (postgres_idempotency rc) later s2 = (as2, s3)"
    and "a \<in> set as2" and "replayed key a = Some x"
  shows "x = (code, body)"
proof -
  have hash: "list_all call_hash_ok before" "list_all call_hash_ok later" using assms(3) by simp_all
  have s1: "idem_ok rc held s1"
    using idem_laws(1) [OF assms(1) idem_ok_empty [OF assms(1,2)] hash(1) assms(4)] by blast
  note stored = idem_laws(5) [OF assms(1) s1 assms(5)]
  then have u: "map_of (fst s2) key = Some u" "ir_Status u = IdemCompleted"
    "ir_ResponseCode u = code" "ir_ResponseBody u = body" by auto
  have s2: "idem_ok rc held s2" using stored by blast
  show ?thesis
    using idem_laws(3) [OF assms(1) s2 hash(2) assms(6) u(1,2) assms(7,8)] u by simp
qed

theorem replay_is_the_response_witness:
  "replayed ''k'' (Some replayed_last) = Some (201, ''{}'')"
proof -
  obtain x where x: "replayed ''k'' (Some replayed_last) = Some x"
    by (simp add: replayed_last_def first_record_def)
  have calls: "list_all call_hash_ok (first_calls @ [Start (at_minute 3) ''k'' some_hash])"
    using first_calls_ok some_hash_ok by simp
  have "x = (201, ''{}'')"
    by (rule replay_is_the_response [OF plain_redis_ok _ calls first_run response_run repeat_run _ x]) simp_all
  with x show ?thesis by simp
qed

text \<open>
  C24. The cache decides nothing: in every state the service reaches, a request gets the answer it
  would get with the cache switched off.
\<close>

theorem cache_decides_nothing:
  assumes "redis_strings_ok (rc_client rc) held" and "\<And>x. held k x = None"
    and "list_all call_hash_ok calls" and "call_hash_ok (Start env key hash)"
    and "run_calls (postgres_idempotency rc) calls ([], k) = (as, s)"
  shows "fst (fst (StartRequest (postgres_idempotency rc) env key hash s)) =
    fst (fst (StartRequest (api_idempotency pgc_err (records_in postgres_records) (NoopCache pgc_err))
      env key hash s))"
proof -
  have s: "idem_ok rc held s"
    using idem_laws(1) [OF assms(1) idem_ok_empty [OF assms(1,2)] assms(3,5)] by blast
  show ?thesis
    using idem_laws(6) [OF assms(1) s, of hash pgc_err env key] assms(4)
    by (simp add: postgres_idempotency_def)
qed

theorem cache_decides_nothing_witness:
  "fst (fst (StartRequest (postgres_idempotency plain_cache) (at_minute 2) ''k'' some_hash after_first)) =
   fst (fst (StartRequest (api_idempotency pgc_err (records_in postgres_records) (NoopCache pgc_err))
     (at_minute 2) ''k'' some_hash after_first))"
  by (rule cache_decides_nothing [OF plain_redis_ok _ first_calls_ok some_hash_ok first_run]) simp

section \<open>One request\<close>

text \<open>
  C25. What a request with a key is answered when the database answers: a new key is let through; a
  key in use is refused when it has expired, when it belongs to another request, and while its
  request runs; a completed one is replayed.
\<close>

theorem start_answers:
  assumes "\<And>n. pgc_err (ie_call env n) = None" and "trim_space key \<noteq> ''''"
    and "trim_space hash = hash" and "hash \<noteq> ''''"
  shows "fst (fst (StartRequest (api_idempotency pgc_err postgres_records (NoopCache pgc_err)) env key hash s)) =
    (case map_of s (trim_space key) of
       None \<Rightarrow> Inr \<lparr>sr_Record = \<lparr>ir_Key = trim_space key, ir_RequestHash = hash, ir_Status = IdemInProgress,
           ir_ResponseCode = 0, ir_ResponseBody = [], ir_CreatedAt = db_time (ie_now env),
           ir_UpdatedAt = db_time (ie_now env), ir_ExpiresAt = db_time (ie_now env + 24 * hour)\<rparr>,
         sr_Replay = False, sr_ResponseCode = 0, sr_ResponseBody = []\<rparr>
     | Some r \<Rightarrow>
         if IsExpired r (ie_now env) then Inl ErrExpiredIdempotencyKey
         else if ir_RequestHash r \<noteq> hash then Inl ErrRequestHashMismatch
         else if ir_Status r = IdemInProgress then Inl ErrRequestInProgress
         else if ir_Status r = IdemFailed then Inl ErrInvalidStatus
         else Inr \<lparr>sr_Record = r, sr_Replay = True, sr_ResponseCode = ir_ResponseCode r,
           sr_ResponseBody = ir_ResponseBody r\<rparr>)"
proof (cases "map_of s (trim_space key)")
  case None
  then show ?thesis using start_new [OF assms None] by (simp add: started_record_def)
next
  case (Some r)
  then show ?thesis using start_known [OF assms Some] by simp
qed

theorem start_answers_witness:
  "fst (fst (StartRequest (api_idempotency pgc_err postgres_records (NoopCache pgc_err)) (at_minute 3) ''k''
     some_hash [(''k'', first_record IdemCompleted 201 ''{}'' 2)])) = replayed_last"
proof -
  have "IsExpired (first_record IdemCompleted 201 ''{}'' 2) (ie_now (at_minute 3)) = False"
    "trim_space ''k'' = ''k''" "trim_space some_hash = some_hash" "some_hash \<noteq> ''''"
    by code_simp+
  then show ?thesis
    using start_answers [of "at_minute 3" "''k''" some_hash "[(''k'', first_record IdemCompleted 201 ''{}'' 2)]"]
    by (simp add: at_minute_def quiet_call_def replayed_last_def) (simp add: first_record_def)
qed

text \<open>
  A response without a body is never stored in the database: its request stays in progress, and
  the table is left as it is.
\<close>

theorem empty_response_not_stored:
  "\<exists>err. fst (CompleteRequest (postgres_idempotency rc) env key code [] s) = Inl err \<and>
     snd (CompleteRequest (postgres_idempotency rc) env key code [] s) = s"
proof -
  obtain r k where s: "s = (r, k)" by (cases s)
  show ?thesis
    by (auto simp: s postgres_idempotency_def CompleteRequest_def act_defs records_in_def on_fst_def
        postgres_records_def pg_GetRecord_def pg_UpdateRecord_def pg_select_row_def pg_update_def
        idem_set_def Complete_def Let_def split: option.splits sum.splits if_splits)
qed

end
