(* ===== verification/PaymentHandlerGuarantees.thy ===== *)
theory PaymentHandlerGuarantees
  imports PaymentHandler IdempotencyGuarantees PaymentGuarantees
begin

text \<open>
  What a client of the payment endpoints sees: a retry with the same key is answered with the first
  response and touches nothing, no history of requests runs a key twice, and which status a request is
  answered with.
\<close>

section \<open>One answer\<close>

definition fresh_writer :: "response_writer \<Rightarrow> bool" where
  "fresh_writer w \<longleftrightarrow> rw_status w = None \<and> rw_body w = []"

definition written :: "int \<Rightarrow> bytes \<Rightarrow> recorder \<Rightarrow> bool" where
  "written status body r \<longleftrightarrow> rr_statusCode r = status \<and> rr_body r = body \<and>
     rw_status (rr_writer r) = Some status \<and> rw_body (rr_writer r) = body"

lemma written_Write:
  "fresh_writer w \<Longrightarrow> written status (json @ [CHR 0x0A]) (recorder_Write status json (newResponseRecorder w))"
  by (simp add: written_def fresh_writer_def recorder_Write_def newResponseRecorder_def rr_SetHeader_def
      rr_WriteHeader_def rr_Write_def)

lemma written_replay:
  "fresh_writer w \<Longrightarrow> written status body (rr_Write body (rr_WriteHeader status
     (rr_SetHeader k v (newResponseRecorder w))))"
  by (simp add: written_def fresh_writer_def newResponseRecorder_def rr_SetHeader_def
      rr_WriteHeader_def rr_Write_def)

lemma authorization_statuses:
  "fst (authorizationErrorResponse err) \<in> {400, 404, 409, 422}"
  by (simp add: authorizationErrorResponse_def)

lemma capture_statuses: "fst (captureErrorResponse err) \<in> {400, 404, 409, 422}"
  by (simp add: captureErrorResponse_def)

lemma authorize_rest_written:
  assumes "fresh_writer w" and "authorize_rest svc env body (newResponseRecorder w) s = ((r, obs), s')"
  shows "\<exists>status json. written status (json @ [CHR 0x0A]) r \<and> status \<in> {201, 400, 404, 409, 422}"
proof (cases "he_decode env body")
  case None
  then show ?thesis
    using assms written_Write [OF assms(1)] by (auto simp: authorize_rest_def recorder_error_def)
next
  case (Some q)
  obtain a o1 s1 where run: "AuthorizePayment svc (he_env env)
      \<lparr>ai_MerchantID = aq_MerchantID q, ai_PayerID = aq_PayerID q, ai_AmountMinor = aq_AmountMinor q,
       ai_Currency = aq_Currency q\<rparr> s = ((a, o1), s1)" by (metis prod.exhaust)
  show ?thesis
  proof (cases a)
    case (Inl err)
    then have "r = recorder_Write (fst (authorizationErrorResponse err))
        (json_object (snd (authorizationErrorResponse err))) (newResponseRecorder w)"
      using assms(2) Some run by (simp add: authorize_rest_def recorder_error_def)
    then show ?thesis using written_Write [OF assms(1)] authorization_statuses [of err] by blast
  next
    case (Inr x)
    then have "r = recorder_Write 201 (json_object (authorizePaymentResponse (he_offset env) x)) (newResponseRecorder w)"
      using assms(2) Some run by (simp add: authorize_rest_def)
    then show ?thesis using written_Write [OF assms(1)] by blast
  qed
qed

lemma capture_rest_written:
  assumes "fresh_writer w" and "capture_rest svc env pid (newResponseRecorder w) s = ((r, obs), s')"
  shows "\<exists>status json. written status (json @ [CHR 0x0A]) r \<and> status \<in> {200, 400, 404, 409, 422}"
proof -
  obtain a o1 s1 where run: "CapturePayment svc (he_env env) pid s = ((a, o1), s1)" by (metis prod.exhaust)
  show ?thesis
  proof (cases a)
    case (Inl err)
    then have "r = recorder_Write (fst (captureErrorResponse err))
        (json_object (snd (captureErrorResponse err))) (newResponseRecorder w)"
      using assms(2) run by (simp add: capture_rest_def recorder_error_def)
    then show ?thesis using written_Write [OF assms(1)] capture_statuses [of err] by blast
  next
    case (Inr x)
    then have "r = recorder_Write 200 (json_object (capturePaymentResponse (he_offset env) x)) (newResponseRecorder w)"
      using assms(2) run by (simp add: capture_rest_def)
    then show ?thesis using written_Write [OF assms(1)] by blast
  qed
qed

section \<open>What both handlers do with a key\<close>

text \<open>A request that gets as far as its key: what runs after the key has been let through.\<close>

definition rest_of ::
  "('c, 's, 'd, 'i) handler \<Rightarrow> ('c, 'd) handler_env \<Rightarrow> http_request \<Rightarrow> bytes \<Rightarrow> recorder \<Rightarrow> 's \<Rightarrow>
   (recorder \<times> observation list) \<times> 's" where
  "rest_of h env rq body =
     (if rq_Path rq = ''/payments/authorize'' then authorize_rest (ph_service h) env body
      else capture_rest (ph_service h) env (rq_payment_id rq))"

definition keyed_request :: "http_request \<Rightarrow> bytes \<Rightarrow> bool" where
  "keyed_request rq body \<longleftrightarrow> rq_Method rq = ''POST'' \<and> rq_Body rq = Inr body \<and>
     (rq_Path rq = ''/payments/authorize'' \<or> rq_payment_id rq \<noteq> '''')"

lemma ServeHTTP_keyed:
  "keyed_request rq body \<Longrightarrow>
   ServeHTTP h env w rq st = idempotently h env rq body (newResponseRecorder w) (rest_of h env rq body) st"
  by (auto simp: keyed_request_def ServeHTTP_def HandleAuthorize_def HandleCapture_def rest_of_def Let_def)

lemma ServeHTTP_other:
  "(\<And>body. \<not> keyed_request rq body) \<Longrightarrow> ServeHTTP h env w rq st = (out, st') \<Longrightarrow>
   st' = st \<and> hd_payment_obs out = [] \<and> hd_idem_obs out = []"
  by (cases "rq_Body rq") (auto simp: keyed_request_def ServeHTTP_def HandleAuthorize_def HandleCapture_def
      untouched_def Let_def split: if_splits)

lemma rest_written:
  assumes "fresh_writer w" and "rest_of h env rq body (newResponseRecorder w) s = ((r, obs), s')"
  shows "\<exists>status json. written status (json @ [CHR 0x0A]) r \<and> status \<in> {200, 201, 400, 404, 409, 422}"
proof (cases "rq_Path rq = ''/payments/authorize''")
  case True
  then show ?thesis using assms(2) authorize_rest_written [OF assms(1)] unfolding rest_of_def by fastforce
next
  case False
  then show ?thesis using assms(2) capture_rest_written [OF assms(1)] unfolding rest_of_def by fastforce
qed

text \<open>The two ways through \<open>idempotently\<close>.\<close>

lemma idempotently_granted:
  assumes "ph_idempotency h = Some svc" and "rq_IdempotencyKey rq \<noteq> ''''"
    and "StartRequest svc (he_start env) (rq_IdempotencyKey rq)
      (HashRequest (rq_Method rq) (rq_Path rq) body) i = ((Inr x, io), i1)" and "\<not> sr_Replay x"
    and "rest w s = ((r, obs), s')"
  shows "idempotently h env rq body w rest (s, i) =
    (\<lparr>hd_writer = rr_writer r, hd_payment_obs = obs, hd_idem_obs = io\<rparr>,
     (s', snd (CompleteRequest svc (he_complete env) (ir_Key (sr_Record x)) (rr_statusCode r) (rr_body r) i1)))"
  using assms by (simp add: idempotently_def handleIdempotencyStart_def completeIdempotency_def Let_def)

lemma idempotently_replayed:
  assumes "ph_idempotency h = Some svc" and "rq_IdempotencyKey rq \<noteq> ''''"
    and "StartRequest svc (he_start env) (rq_IdempotencyKey rq)
      (HashRequest (rq_Method rq) (rq_Path rq) body) i = ((Inr x, io), i1)" and "sr_Replay x"
  shows "idempotently h env rq body w rest (s, i) =
    (\<lparr>hd_writer = rr_writer (rr_Write (sr_ResponseBody x) (rr_WriteHeader (sr_ResponseCode x)
        (rr_SetHeader ''Content-Type'' ''application/json'' w))), hd_payment_obs = [], hd_idem_obs = io\<rparr>,
     (s, i1))"
  using assms by (simp add: idempotently_def handleIdempotencyStart_def Let_def)

section \<open>A shop for the witnesses\<close>

definition shop_handler :: "(pg_call, pgdb, pg_call, idem_record gomap \<times> redis_value gomap) handler" where
  "shop_handler = \<lparr>ph_service = postgres_service live_tx,
     ph_idempotency = Some (postgres_idempotency plain_cache)\<rparr>"

definition shop_env :: "int \<Rightarrow> (pg_call, pg_call) handler_env" where
  "shop_env n = \<lparr>he_env = run_env day 0, he_start = at_minute n, he_complete = at_minute n,
     he_decode = (\<lambda>b. Some \<lparr>aq_MerchantID = ''m'', aq_PayerID = ''p'', aq_AmountMinor = 300, aq_Currency = ''USD''\<rparr>),
     he_offset = (\<lambda>t. 0)\<rparr>"

definition shop_request :: http_request where
  "shop_request = \<lparr>rq_Method = ''POST'', rq_Path = ''/payments/authorize'', rq_Body = Inr ''{}'',
     rq_IdempotencyKey = ''k'', rq_payment_id = ''''\<rparr>"

lemma shop_sel:
  "ph_idempotency shop_handler = Some (postgres_idempotency plain_cache)"
  "keyed_request shop_request ''{}''" "fresh_writer new_writer" "rq_IdempotencyKey shop_request = ''k''"
  "pgc_err (ie_call (he_start (shop_env n)) j) = None" "pgc_err (ie_call (he_complete (shop_env n)) j) = None"
  "ie_now (he_start (shop_env n)) = n * minute"
  by (simp_all add: shop_handler_def shop_env_def shop_request_def keyed_request_def fresh_writer_def
      at_minute_def quiet_call_def)

section \<open>A retry\<close>

lemma HashRequest_shape: "length (HashRequest m p b) = 64"
  by (simp add: HashRequest_def length_hex_encode length_sha256)

lemma trim_not_blank: "trim_space s \<noteq> '''' \<Longrightarrow> s \<noteq> ''''"
  by (auto simp: trim_space_def trim_left_def)

text \<open>The first request of a key: it runs, and its answer becomes the record of the key.\<close>

lemma first_request:
  assumes laws: "redis_strings_ok (rc_client rc) held" and ok: "idem_ok rc held i"
    and h: "ph_idempotency h = Some (postgres_idempotency rc)" and rq: "keyed_request rq body"
    and live: "\<And>n. pgc_err (ie_call (he_start env) n) = None" "\<And>n. pgc_err (ie_call (he_complete env) n) = None"
    and key: "trim_space (rq_IdempotencyKey rq) \<noteq> ''''" "map_of (fst i) (trim_space (rq_IdempotencyKey rq)) = None"
    and w: "fresh_writer w" and run: "ServeHTTP h env w rq (s, i) = (out, (s1, i1))"
  shows "idem_ok rc held i1 \<and> (\<exists>u. map_of (fst i1) (trim_space (rq_IdempotencyKey rq)) = Some u \<and>
    ir_Status u = IdemCompleted \<and> ir_RequestHash u = HashRequest (rq_Method rq) (rq_Path rq) body \<and>
    ir_ExpiresAt u = db_time (ie_now (he_start env) + 24 * hour) \<and>
    rw_status (hd_writer out) = Some (ir_ResponseCode u) \<and> rw_body (hd_writer out) = ir_ResponseBody u)"
proof -
  let ?key = "rq_IdempotencyKey rq" and ?hash = "HashRequest (rq_Method rq) (rq_Path rq) body"
  let ?r = "started_record (trim_space ?key) ?hash (ie_now (he_start env))"
  have key': "?key \<noteq> ''''" by (rule trim_not_blank [OF key(1)])
  have "fst (fst (StartRequest (postgres_idempotency rc) (he_start env) ?key ?hash i)) =
      Inr \<lparr>sr_Record = ?r, sr_Replay = False, sr_ResponseCode = 0, sr_ResponseBody = []\<rparr>"
    using start_from_records [OF laws ok HashRequest_shape trim_HashRequest]
      start_new [OF live(1) key(1) trim_HashRequest HashRequest_not_Nil key(2)] by simp
  then obtain io j where start: "StartRequest (postgres_idempotency rc) (he_start env) ?key ?hash i =
      ((Inr \<lparr>sr_Record = ?r, sr_Replay = False, sr_ResponseCode = 0, sr_ResponseBody = []\<rparr>, io), j)"
    by (metis prod.collapse)
  from idem_laws(4) [OF laws ok HashRequest_shape trim_HashRequest start]
  have j: "idem_ok rc held j" "map_of (fst j) (trim_space ?key) = Some ?r" by auto
  obtain r obs s' where rest: "rest_of h env rq body (newResponseRecorder w) s = ((r, obs), s')"
    by (metis prod.exhaust)
  obtain status json where ans: "written status (json @ [CHR 0x0A]) r" "status \<in> {200, 201, 400, 404, 409, 422}"
    using rest_written [OF w rest] by blast
  have ran: "out = \<lparr>hd_writer = rr_writer r, hd_payment_obs = obs, hd_idem_obs = io\<rparr>"
    "i1 = snd (CompleteRequest (postgres_idempotency rc) (he_complete env) (trim_space ?key) status
       (json @ [CHR 0x0A]) j)"
    using run idempotently_granted
      [where rest = "rest_of h env rq body" and w = "newResponseRecorder w", OF h key' start _ rest] ans(1) ServeHTTP_keyed [OF rq, of h env w "(s, i)"]
    by (simp_all add: written_def started_record_def)
  have code: "0 \<le> status" "status < 2 ^ 31" using ans(2) by auto
  have "ir_CreatedAt ?r < db_time (ir_ExpiresAt ?r)" using db_time_day by (simp add: started_record_def)
  then obtain u k where complete: "CompleteRequest (postgres_idempotency rc) (he_complete env) (trim_space ?key) status
      (json @ [CHR 0x0A]) j = (Inr u, (AList.update (trim_space ?key) u (fst j), k))"
      "ir_ExpiresAt u = db_time (ir_ExpiresAt ?r)" "ir_RequestHash u = ir_RequestHash ?r"
    using complete_live [OF live(2), of "fst j" "trim_space ?key" ?r "json @ [CHR 0x0A]" status rc "snd j"] j(2) code
    by (auto simp: started_record_def)
  from idem_laws(5) [OF laws j(1) complete(1)] j(2)
  have u: "idem_ok rc held i1" "map_of (fst i1) (trim_space ?key) = Some u" "ir_Status u = IdemCompleted"
    "ir_ResponseCode u = status" "ir_ResponseBody u = json @ [CHR 0x0A]"
    using ran(2) complete(1) by auto
  show ?thesis
    using u complete(2,3) ran(1) ans(1) by (auto simp: written_def started_record_def)
qed

text \<open>
  C26. A client that sends a payment request and sends it again with the same \<open>Idempotency-Key\<close>
  within a day gets the first response again, success or error, and the second request touches no
  payment: whatever other keys were used in between, and whatever the payments are by then.
\<close>

theorem retry_gets_the_first_response:
  assumes "redis_strings_ok (rc_client rc) held" and "idem_ok rc held i"
    and "ph_idempotency h = Some (postgres_idempotency rc)" and "keyed_request rq body"
    and "\<And>n. pgc_err (ie_call (he_start env) n) = None" and "\<And>n. pgc_err (ie_call (he_complete env) n) = None"
    and "\<And>n. pgc_err (ie_call (he_start env') n) = None"
    and "trim_space (rq_IdempotencyKey rq) \<noteq> ''''" and "map_of (fst i) (trim_space (rq_IdempotencyKey rq)) = None"
    and "fresh_writer w" and "fresh_writer w'"
    and "ServeHTTP h env w rq (s, i) = (out, (s1, i1))"
    and "list_all call_hash_ok later" and "run_calls (postgres_idempotency rc) later i1 = (as, i2)"
    and "ie_now (he_start env') \<le> db_time (ie_now (he_start env) + 24 * hour)"
    and "ServeHTTP h env' w' rq (s2, i2) = (out', (s3, i3))"
  shows "rw_status (hd_writer out') = rw_status (hd_writer out) \<and> rw_body (hd_writer out') = rw_body (hd_writer out) \<and>
    rw_status (hd_writer out) \<noteq> None \<and> s3 = s2 \<and> hd_payment_obs out' = []"
proof -
  let ?key = "rq_IdempotencyKey rq" and ?hash = "HashRequest (rq_Method rq) (rq_Path rq) body"
  obtain u where i1: "idem_ok rc held i1" and u: "map_of (fst i1) (trim_space ?key) = Some u"
    "ir_Status u = IdemCompleted" "ir_RequestHash u = ?hash"
    "ir_ExpiresAt u = db_time (ie_now (he_start env) + 24 * hour)"
    "rw_status (hd_writer out) = Some (ir_ResponseCode u)" "rw_body (hd_writer out) = ir_ResponseBody u"
    using first_request [OF assms(1-6,8-10,12)] by blast
  from idem_laws(1) [OF assms(1) i1 assms(13,14)]
  have i2: "idem_ok rc held i2" "map_of (fst i2) (trim_space ?key) = Some u"
    using records_next_completed [OF _ u(1,2)] by blast+
  have "\<not> IsExpired u (ie_now (he_start env'))" using assms(15) u(4) by (simp add: IsExpired_def utc_def)
  then have "fst (fst (StartRequest (postgres_idempotency rc) (he_start env') ?key ?hash i2)) =
      Inr \<lparr>sr_Record = u, sr_Replay = True, sr_ResponseCode = ir_ResponseCode u, sr_ResponseBody = ir_ResponseBody u\<rparr>"
    using start_from_records [OF assms(1) i2(1) HashRequest_shape trim_HashRequest]
      start_known [OF assms(7,8) trim_HashRequest HashRequest_not_Nil i2(2)] u by simp
  then obtain io j where start: "StartRequest (postgres_idempotency rc) (he_start env') ?key ?hash i2 =
      ((Inr \<lparr>sr_Record = u, sr_Replay = True, sr_ResponseCode = ir_ResponseCode u, sr_ResponseBody = ir_ResponseBody u\<rparr>, io), j)"
    by (metis prod.collapse)
  have key': "?key \<noteq> ''''" by (rule trim_not_blank [OF assms(8)])
  show ?thesis
    using assms(16) idempotently_replayed [OF assms(3) key' start] ServeHTTP_keyed [OF assms(4), of h env' w' "(s2, i2)"]
      written_replay [OF assms(11)] u(5,6) by (auto simp: written_def)
qed

theorem retry_gets_the_first_response_witness:
  "\<exists>out st out' st'. ServeHTTP shop_handler (shop_env 1) new_writer shop_request (run_payer, ([], [])) = (out, st) \<and>
     ServeHTTP shop_handler (shop_env 2) new_writer shop_request st = (out', st') \<and>
     rw_status (hd_writer out') = rw_status (hd_writer out) \<and>
     rw_body (hd_writer out') = rw_body (hd_writer out) \<and> fst st' = fst st \<and> hd_payment_obs out' = []"
proof -
  obtain out s1 i1 where run: "ServeHTTP shop_handler (shop_env 1) new_writer shop_request (run_payer, ([], [])) =
      (out, (s1, i1))" by (metis prod.exhaust)
  obtain out' s3 i3 where again: "ServeHTTP shop_handler (shop_env 2) new_writer shop_request (s1, i1) =
      (out', (s3, i3))" by (metis prod.exhaust)
  have key: "trim_space (rq_IdempotencyKey shop_request) \<noteq> ''''" unfolding shop_sel by code_simp
  have "2 * minute \<le> db_time (1 * minute + 24 * hour)" by code_simp
  then have "ie_now (he_start (shop_env 2)) \<le> db_time (ie_now (he_start (shop_env 1)) + 24 * hour)"
    unfolding shop_sel .
  moreover have "idem_ok plain_cache map_of ([], [])" by (rule idem_ok_empty [OF plain_redis_ok]) simp
  moreover have none: "list_all call_hash_ok []" "run_calls (postgres_idempotency plain_cache) [] i1 = ([], i1)"
    by simp_all
  ultimately have "rw_status (hd_writer out') = rw_status (hd_writer out) \<and>
      rw_body (hd_writer out') = rw_body (hd_writer out) \<and> rw_status (hd_writer out) \<noteq> None \<and>
      s3 = s1 \<and> hd_payment_obs out' = []"
    using retry_gets_the_first_response [OF plain_redis_ok _ shop_sel(1,2) shop_sel(5) shop_sel(6) shop_sel(5)
        key _ shop_sel(3) shop_sel(3) run none _ again] by simp
  then show ?thesis using run again by auto
qed

section \<open>Any number of requests\<close>

text \<open>How many of the requests with a key have reached the payments: reported a metric or changed them.\<close>

fun acting ::
  "('c, 's, 'd, 'i) handler \<Rightarrow> string \<Rightarrow> (('c, 'd) handler_env \<times> response_writer \<times> http_request) list \<Rightarrow>
   's \<times> 'i \<Rightarrow> nat" where
  "acting h key [] st = 0"
| "acting h key ((env, w, rq) # rqs) st =
     (let (out, st') = ServeHTTP h env w rq st in
      (if trim_space (rq_IdempotencyKey rq) = key \<and> (hd_payment_obs out \<noteq> [] \<or> fst st' \<noteq> fst st) then 1 else 0) +
      acting h key rqs st')"

lemma serve_step:
  assumes laws: "redis_strings_ok (rc_client rc) held" and ok: "idem_ok rc held i"
    and h: "ph_idempotency h = Some (postgres_idempotency rc)"
    and run: "ServeHTTP h env w rq (s, i) = (out, (s', i'))"
  shows "idem_ok rc held i' \<and> records_next (fst i) (fst i') \<and>
    (hd_payment_obs out \<noteq> [] \<or> s' \<noteq> s \<longrightarrow> map_of (fst i) (trim_space (rq_IdempotencyKey rq)) = None \<and>
       map_of (fst i') (trim_space (rq_IdempotencyKey rq)) \<noteq> None)"
proof (cases "\<exists>body. keyed_request rq body")
  case False
  then show ?thesis using ServeHTTP_other [OF _ run] ok by simp
next
  case True
  let ?key = "rq_IdempotencyKey rq"
  obtain body where "keyed_request rq body" using True by blast
  then have run': "idempotently h env rq body (newResponseRecorder w) (rest_of h env rq body) (s, i) = (out, (s', i'))"
    using run by (simp add: ServeHTTP_keyed)
  show ?thesis
  proof (cases "?key = ''''")
    case True
    then show ?thesis using run' h ok by (auto simp: idempotently_def handleIdempotencyStart_def)
  next
    case False
    let ?hash = "HashRequest (rq_Method rq) (rq_Path rq) body"
    obtain res io j where start: "StartRequest (postgres_idempotency rc) (he_start env) ?key ?hash i = ((res, io), j)"
      by (metis prod.exhaust)
    note begun = idem_laws(4) [OF laws ok HashRequest_shape trim_HashRequest start]
    show ?thesis
    proof (cases "\<exists>x. res = Inr x \<and> \<not> sr_Replay x")
      case False
      then have "s' = s \<and> i' = j \<and> hd_payment_obs out = []"
        using run' h start \<open>?key \<noteq> ''''\<close>
        by (cases res) (auto simp: idempotently_def handleIdempotencyStart_def Let_def)
      then show ?thesis using begun by blast
    next
      case True
      then obtain x where x: "res = Inr x" "\<not> sr_Replay x" by blast
      obtain r obs s2 where rest: "rest_of h env rq body (newResponseRecorder w) s = ((r, obs), s2)"
        by (metis prod.exhaust)
      obtain q where q: "CompleteRequest (postgres_idempotency rc) (he_complete env) (ir_Key (sr_Record x))
          (rr_statusCode r) (rr_body r) j = (q, i')"
        using run' idempotently_granted [where rest = "rest_of h env rq body" and w = "newResponseRecorder w",
            OF h \<open>?key \<noteq> ''''\<close> start [unfolded x(1)] x(2) rest]
        by (metis prod.collapse prod.inject)
      have j: "idem_ok rc held j" "records_next (fst i) (fst j)" "map_of (fst i) (trim_space ?key) = None"
        "map_of (fst j) (trim_space ?key) \<noteq> None"
        using begun x by simp_all
      from idem_laws(5) [OF laws j(1) q] have "idem_ok rc held i'" "records_next (fst j) (fst i')" by blast+
      then show ?thesis using j records_next_trans records_next_dom by blast
    qed
  qed
qed

lemma acting_known:
  assumes "redis_strings_ok (rc_client rc) held" and "ph_idempotency h = Some (postgres_idempotency rc)"
  shows "idem_ok rc held (snd st) \<Longrightarrow> map_of (fst (snd st)) key \<noteq> None \<Longrightarrow> acting h key rqs st = 0"
proof (induction rqs arbitrary: st)
  case (Cons x rqs)
  obtain env w rq s i where x: "x = (env, w, rq)" "st = (s, i)" by (metis prod.exhaust)
  obtain out s' i' where run: "ServeHTTP h env w rq (s, i) = (out, (s', i'))" by (metis prod.exhaust)
  note step = serve_step [OF assms(1) _ assms(2) run]
  have "map_of (fst i') key \<noteq> None" using step Cons.prems x records_next_dom by auto
  then show ?case using Cons.IH [of "(s', i')"] step Cons.prems x run by auto
qed simp

lemma acting_once:
  assumes "redis_strings_ok (rc_client rc) held" and "ph_idempotency h = Some (postgres_idempotency rc)"
  shows "idem_ok rc held (snd st) \<Longrightarrow> acting h key rqs st \<le> 1"
proof (induction rqs arbitrary: st)
  case (Cons x rqs)
  obtain env w rq s i where x: "x = (env, w, rq)" "st = (s, i)" by (metis prod.exhaust)
  obtain out s' i' where run: "ServeHTTP h env w rq (s, i) = (out, (s', i'))" by (metis prod.exhaust)
  note step = serve_step [OF assms(1) _ assms(2) run]
  have ok: "idem_ok rc held i'" using step Cons.prems x by simp
  show ?case
  proof (cases "trim_space (rq_IdempotencyKey rq) = key \<and> (hd_payment_obs out \<noteq> [] \<or> s' \<noteq> s)")
    case True
    then have "map_of (fst i') key \<noteq> None" using step Cons.prems x by auto
    then show ?thesis using acting_known [OF assms, of "(s', i')"] ok x run by simp
  next
    case False
    then show ?thesis using Cons.IH [of "(s', i')"] ok x run by auto
  qed
qed simp

text \<open>
  C27. However many payment requests carry one \<open>Idempotency-Key\<close>, in any order with others and
  whatever calls fail, at most one of them reaches the payments.
\<close>

theorem requests_act_once:
  assumes "redis_strings_ok (rc_client rc) held" and "\<And>x. held k x = None"
    and "ph_idempotency h = Some (postgres_idempotency rc)"
  shows "acting h key rqs (s, ([], k)) \<le> 1"
  using acting_once [OF assms(1,3)] idem_ok_empty [OF assms(1,2)] by simp

theorem requests_act_once_witness:
  "acting shop_handler ''k'' [(shop_env 1, new_writer, shop_request), (shop_env 1, new_writer, shop_request)]
     (run_payer, ([], [])) \<le> 1"
  by (rule requests_act_once [OF plain_redis_ok _ shop_sel(1)]) simp

text \<open>
  C28. A payment request that reaches the service is answered once, with a status of the 200s exactly
  when the use case succeeded; every error, one of the database too, is a status of the 400s, and the
  errors the API does not name are 400.
\<close>

theorem authorize_answers:
  assumes "fresh_writer w" and "he_decode env body = Some q"
    and "AuthorizePayment svc (he_env env) \<lparr>ai_MerchantID = aq_MerchantID q, ai_PayerID = aq_PayerID q,
      ai_AmountMinor = aq_AmountMinor q, ai_Currency = aq_Currency q\<rparr> s = ((res, obs), s1)"
    and "authorize_rest svc env body (newResponseRecorder w) s = ((r, obs'), s')"
  shows "rw_status (rr_writer r) = Some (case res of
      Inr x \<Rightarrow> 201
    | Inl err \<Rightarrow>
        if errors_is err ErrMerchantNotFound \<or> errors_is err ErrPayerNotFound then 404
        else if errors_is err ErrPayerVersionConflict \<or> errors_is err ErrMerchantCannotCreatePayments then 409
        else if errors_is err ErrPayerCurrencyMismatch \<or> errors_is err ErrInsufficientAvailableBalance then 422
        else 400) \<and> s' = s1 \<and> obs' = obs"
proof (cases res)
  case (Inl err)
  have status: "fst (authorizationErrorResponse err) =
      (if errors_is err ErrMerchantNotFound \<or> errors_is err ErrPayerNotFound then 404
       else if errors_is err ErrPayerVersionConflict \<or> errors_is err ErrMerchantCannotCreatePayments then 409
       else if errors_is err ErrPayerCurrencyMismatch \<or> errors_is err ErrInsufficientAvailableBalance then 422
       else 400)"
    by (simp add: authorizationErrorResponse_def)
  have r: "r = recorder_Write (fst (authorizationErrorResponse err))
      (json_object (snd (authorizationErrorResponse err))) (newResponseRecorder w)" "s' = s1" "obs' = obs"
    using assms(2-4) Inl by (simp_all add: authorize_rest_def recorder_error_def)
  have "rw_status (rr_writer r) = Some (fst (authorizationErrorResponse err))"
    unfolding r(1) using written_Write [OF assms(1)] unfolding written_def by blast
  then show ?thesis unfolding status Inl using r(2,3) by simp
next
  case (Inr x)
  then have r: "r = recorder_Write 201 (json_object (authorizePaymentResponse (he_offset env) x)) (newResponseRecorder w)"
    "s' = s1" "obs' = obs"
    using assms(2-4) by (simp_all add: authorize_rest_def)
  have "rw_status (rr_writer r) = Some 201"
    unfolding r(1) using written_Write [OF assms(1)] unfolding written_def by blast
  then show ?thesis using r(2,3) Inr by simp
qed

theorem authorize_answers_witness:
  "\<exists>r obs. authorize_rest (postgres_service live_tx) (shop_env 1) ''{}'' (newResponseRecorder new_writer) run_payer =
      ((r, obs), run_authorized) \<and> rw_status (rr_writer r) = Some 201"
proof -
  obtain r obs s' where run: "authorize_rest (postgres_service live_tx) (shop_env 1) ''{}''
      (newResponseRecorder new_writer) run_payer = ((r, obs), s')" by (metis prod.exhaust)
  let ?q = "\<lparr>aq_MerchantID = ''m'', aq_PayerID = ''p'', aq_AmountMinor = 300, aq_Currency = ''USD''\<rparr>"
  have env: "he_decode (shop_env 1) ''{}'' = Some ?q" "he_env (shop_env 1) = run_env day 0"
    by (simp_all add: shop_env_def)
  have "\<lparr>ai_MerchantID = aq_MerchantID ?q, ai_PayerID = aq_PayerID ?q, ai_AmountMinor = aq_AmountMinor ?q,
      ai_Currency = aq_Currency ?q\<rparr> = order" by (simp add: order_def)
  then show ?thesis
    using authorize_answers [OF shop_sel(3) env(1) _ run] run_authorize_answer run unfolding env(2) by auto
qed

end
