(* ===== verification/GoText.thy ===== *)
theory GoText
  imports HttpResponse
begin

text \<open>
  The parts of \<open>strings\<close> and \<open>strconv\<close> that the configuration, the middleware and the
  commands read texts with: \<open>Split\<close>, \<open>ToLower\<close>, \<open>ParseInt\<close>, \<open>Atoi\<close> and
  \<open>ParseBool\<close>; and that a number that was written is read back.
\<close>

section \<open>Splitting\<close>

text \<open>\<open>strings.Split\<close> at a separator of one character.\<close>

fun split_at :: "char \<Rightarrow> string \<Rightarrow> string list" where
  "split_at sep [] = [[]]"
| "split_at sep (c # s) =
     (if c = sep then [] # split_at sep s
      else case split_at sep s of [] \<Rightarrow> [[c]] | part # parts \<Rightarrow> (c # part) # parts)"

definition go_to_lower_rune :: "char \<Rightarrow> char" where
  "go_to_lower_rune c =
     (let n = rune c in
      if 65 \<le> n \<and> n \<le> 90 \<or> 0xC0 \<le> n \<and> n \<le> 0xDE \<and> n \<noteq> 0xD7 then char_of (n + 32) else c)"

definition to_lower :: "string \<Rightarrow> string" where
  "to_lower s = map go_to_lower_rune s"

section \<open>Numbers and truth values\<close>

definition is_digit :: "char \<Rightarrow> bool" where
  "is_digit c \<longleftrightarrow> 48 \<le> rune c \<and> rune c \<le> 57"

definition digits_value :: "string \<Rightarrow> int" where
  "digits_value s = foldl (\<lambda>n c. 10 * n + (int (rune c) - 48)) 0 s"

definition parse_digits :: "string \<Rightarrow> int option" where
  "parse_digits s = (if s = '''' \<or> \<not> list_all is_digit s then None else Some (digits_value s))"

text \<open>
  \<open>strconv.ParseInt(s, 10, 64)\<close> and \<open>strconv.Atoi(s)\<close>, where an \<open>int\<close> has 64 bits;
  \<open>None\<close> is an error of either kind, of syntax or of range.
\<close>

definition parse_int :: "string \<Rightarrow> int option" where
  "parse_int s =
     (let value =
        (case s of
           [] \<Rightarrow> None
         | c # rest \<Rightarrow>
             if c = CHR ''-'' then map_option uminus (parse_digits rest)
             else if c = CHR ''+'' then parse_digits rest else parse_digits s)
      in case value of None \<Rightarrow> None
         | Some n \<Rightarrow> if - (2 ^ 63) \<le> n \<and> n < 2 ^ 63 then Some n else None)"

definition parse_bool :: "string \<Rightarrow> bool option" where
  "parse_bool s =
     (if s \<in> {''1'', ''t'', ''T'', ''true'', ''TRUE'', ''True''} then Some True
      else if s \<in> {''0'', ''f'', ''F'', ''false'', ''FALSE'', ''False''} then Some False
      else None)"

lemmas go_text_defs = go_to_lower_rune_def to_lower_def is_digit_def digits_value_def parse_digits_def
  parse_int_def parse_bool_def

declare go_text_defs [go_eval]

section \<open>Reading what was written\<close>

lemma split_at_not_Nil: "split_at sep s \<noteq> []"
  by (induction s) (auto split: list.splits)

lemma hd_split_at: "hd (split_at sep s) = takeWhile (\<lambda>c. c \<noteq> sep) s"
  using split_at_not_Nil by (induction s) (auto split: list.splits)

lemma join_split_at: "sep \<notin> set s \<Longrightarrow> split_at sep (s @ sep # t) = s # split_at sep t"
  by (induction s) auto

lemma split_at_single: "sep \<notin> set s \<Longrightarrow> split_at sep s = [s]"
  by (induction s) auto

lemma rune_digit: "rune (digit n) = 48 + n mod 10"
proof -
  have "n mod 10 < 10" by simp
  then have "48 + n mod 10 < 256" by linarith
  then show ?thesis by (simp add: digit_def)
qed

lemma is_digit_digit [simp]: "is_digit (digit n)"
proof -
  have "n mod 10 < 10" by simp
  then show ?thesis unfolding is_digit_def rune_digit by linarith
qed

lemma digits_value_snoc: "digits_value (s @ [c]) = 10 * digits_value s + (int (rune c) - 48)"
  by (simp add: digits_value_def)

lemma nat_text_digits: "nat_text n \<noteq> '''' \<and> list_all is_digit (nat_text n) \<and> digits_value (nat_text n) = int n"
proof (induction n rule: nat_text.induct)
  case (1 n)
  show ?case
  proof (cases "n < 10")
    case True
    then have shape: "nat_text n = [digit n]" by (simp add: nat_text.simps)
    have "digits_value (nat_text n) = int n"
      unfolding shape using True by (simp add: digits_value_def rune_digit)
    then show ?thesis unfolding shape by simp
  next
    case False
    then have shape: "nat_text n = nat_text (n div 10) @ [digit n]" by (simp add: nat_text.simps)
    have "digits_value (nat_text n) = 10 * int (n div 10) + int (n mod 10)"
      unfolding shape using 1 [OF False] by (simp add: digits_value_snoc rune_digit)
    also have "\<dots> = int n" by (simp flip: of_nat_mult of_nat_add add: of_nat_div of_nat_mod)
    finally show ?thesis unfolding shape using 1 [OF False] by simp
  qed
qed

lemma parse_digits_nat_text: "parse_digits (nat_text n) = Some (int n)"
  using nat_text_digits [of n] by (simp add: parse_digits_def)

lemma not_sign_digit: "is_digit c \<Longrightarrow> c \<noteq> CHR ''-'' \<and> c \<noteq> CHR ''+''"
  by (auto simp: is_digit_def rune_def)

lemma parse_int_text:
  assumes "- (2 ^ 63) \<le> n" "n < 2 ^ 63"
  shows "parse_int (int_text n) = Some n"
proof (cases "n < 0")
  case True
  then show ?thesis
    using assms by (simp add: parse_int_def int_text_def parse_digits_nat_text)
next
  case False
  obtain c rest where shape: "nat_text (nat n) = c # rest" "is_digit c"
    using nat_text_digits [of "nat n"] by (cases "nat_text (nat n)") auto
  then have "parse_digits (c # rest) = Some n"
    using parse_digits_nat_text [of "nat n"] False by simp
  then show ?thesis
    using assms False not_sign_digit [OF shape(2)] shape(1) by (simp add: parse_int_def int_text_def)
qed

lemma int_text_not_Nil: "int_text n \<noteq> ''''"
  using nat_text_digits by (simp add: int_text_def)

end
