(* ===== verification/RateLimit.thy ===== *)
theory RateLimit
  imports HttpResponse
begin

text \<open>
  The limit on the payment requests of a client: \<open>internal/ratelimit/limiter.go\<close> and the
  fixed window it counts in Redis, \<open>internal/ratelimit/adapters/redis/limiter.go\<close>. The Redis
  server is a parameter, a record of the three commands the limiter sends; the argument of a command
  decides its answer: the context, the time and whether the network fails.
\<close>

section \<open>The limiter\<close>

record limit_result =
  lr_Allowed :: bool
  lr_Limit :: int64
  lr_Remaining :: int64
  lr_RetryAfter :: duration

text \<open>A limiter, and \<open>NoopLimiter\<close>, whose argument is \<open>ctx.Err()\<close>.\<close>

type_synonym ('c, 'k) limiter = "'c \<Rightarrow> string \<Rightarrow> ('k, limit_result) act"

definition NoopLimiter :: "(error option, 'k) limiter" where
  "NoopLimiter ctx_err key =
     (case ctx_err of
        Some err \<Rightarrow> act_fail err
      | None \<Rightarrow> act_return \<lparr>lr_Allowed = True, lr_Limit = 0, lr_Remaining = 0, lr_RetryAfter = 0\<rparr>)"

record ('c, 'k) redis_counters =
  rk_Incr :: "'c \<Rightarrow> string \<Rightarrow> ('k, int64) act"
  rk_Expire :: "'c \<Rightarrow> string \<Rightarrow> duration \<Rightarrow> ('k, unit) act"
  rk_TTL :: "'c \<Rightarrow> string \<Rightarrow> ('k, duration) act"

record ('c, 'k) redis_limiter =
  rl_client :: "('c, 'k) redis_counters"
  rl_prefix :: string
  rl_limit :: int64
  rl_window :: duration

definition NewLimiter ::
  "('c, 'k) redis_counters option \<Rightarrow> string \<Rightarrow> int64 \<Rightarrow> duration \<Rightarrow> error + ('c, 'k) redis_limiter" where
  "NewLimiter client prefix0 limit window =
     (case client of None \<Rightarrow> Inl ErrClientRequired
      | Some cl \<Rightarrow>
        if limit \<le>s 0 then Inl ErrLimitRequired
        else if window \<le> 0 then Inl ErrWindowRequired
        else let prefix = trim_space prefix0 in
          Inr \<lparr>rl_client = cl, rl_prefix = (if prefix = '''' then ''paycore:rate_limit'' else prefix),
            rl_limit = limit, rl_window = window\<rparr>)"

definition limitKey :: "string \<Rightarrow> string \<Rightarrow> string" where
  "limitKey prefix key0 =
     (let key = trim_space key0 in prefix @ '':'' @ (if key = '''' then ''anonymous'' else key))"

text \<open>The calls of one \<open>Allow\<close>: an argument for each of the commands it may send.\<close>

record 'c limit_env =
  le_incr :: 'c
  le_expire :: 'c
  le_ttl :: 'c

definition limit_answer :: "int64 \<Rightarrow> int64 \<Rightarrow> duration \<Rightarrow> limit_result" where
  "limit_answer limit n retryAfter =
     \<lparr>lr_Allowed = (n \<le>s limit), lr_Limit = limit,
      lr_Remaining = (if limit - n <s 0 then 0 else limit - n), lr_RetryAfter = retryAfter\<rparr>"

definition Allow :: "('c, 'k) redis_limiter \<Rightarrow> ('c limit_env, 'k) limiter" where
  "Allow l env key0 k =
     (let redisKey = limitKey (rl_prefix l) key0 in
      case rk_Incr (rl_client l) (le_incr env) redisKey k of
        (Inl err, k1) \<Rightarrow> (Inl ErrLimiterUnavailable, k1)
      | (Inr n, k1) \<Rightarrow>
          (case (if n = 1 then rk_Expire (rl_client l) (le_expire env) redisKey (rl_window l) k1
                 else (Inr (), k1)) of
             (Inl err, k2) \<Rightarrow> (Inl ErrLimiterUnavailable, k2)
           | (Inr u, k2) \<Rightarrow>
               if n \<le>s rl_limit l then (Inr (limit_answer (rl_limit l) n 0), k2)
               else (case rk_TTL (rl_client l) (le_ttl env) redisKey k2 of
                   (Inl err, k3) \<Rightarrow> (Inr (limit_answer (rl_limit l) n (rl_window l)), k3)
                 | (Inr ttl, k3) \<Rightarrow>
                     (Inr (limit_answer (rl_limit l) n (if ttl < 0 then rl_window l else ttl)), k3))))"

lemmas rate_limit_defs = NoopLimiter_def NewLimiter_def limitKey_def limit_answer_def Allow_def

declare rate_limit_defs [go_eval]

section \<open>Its commands one by one\<close>

text \<open>
  The requests of several clients, and of several processes, run \<open>Allow\<close> at the same time and
  meet in Redis, which serves one command at a time. A request is at a stage of \<open>Allow\<close>; a
  schedule says which request's next command is served, and with which argument.
\<close>

datatype stage =
    Counting
  | Expiring int64
  | Asking int64
  | Finished "error + limit_result"

definition counted_stage :: "int64 \<Rightarrow> int64 \<Rightarrow> stage" where
  "counted_stage limit n =
     (if n \<le>s limit then Finished (Inr (limit_answer limit n 0)) else Asking n)"

fun allow_command :: "('c, 'k) redis_limiter \<Rightarrow> string \<Rightarrow> 'c \<Rightarrow> stage \<Rightarrow> 'k \<Rightarrow> stage \<times> 'k" where
  "allow_command l key c Counting k =
     (case rk_Incr (rl_client l) c (limitKey (rl_prefix l) key) k of
        (Inl err, k') \<Rightarrow> (Finished (Inl ErrLimiterUnavailable), k')
      | (Inr n, k') \<Rightarrow> (if n = 1 then Expiring n else counted_stage (rl_limit l) n, k'))"
| "allow_command l key c (Expiring n) k =
     (case rk_Expire (rl_client l) c (limitKey (rl_prefix l) key) (rl_window l) k of
        (Inl err, k') \<Rightarrow> (Finished (Inl ErrLimiterUnavailable), k')
      | (Inr u, k') \<Rightarrow> (counted_stage (rl_limit l) n, k'))"
| "allow_command l key c (Asking n) k =
     (case rk_TTL (rl_client l) c (limitKey (rl_prefix l) key) k of
        (Inl err, k') \<Rightarrow> (Finished (Inr (limit_answer (rl_limit l) n (rl_window l))), k')
      | (Inr ttl, k') \<Rightarrow>
          (Finished (Inr (limit_answer (rl_limit l) n (if ttl < 0 then rl_window l else ttl))), k'))"
| "allow_command l key c (Finished r) k = (Finished r, k)"

text \<open>\<open>keys i\<close> is the key of request \<open>i\<close>, \<open>st i\<close> its stage.\<close>

type_synonym stages = "nat \<Rightarrow> stage"

fun serve_commands ::
  "('c, 'k) redis_limiter \<Rightarrow> (nat \<Rightarrow> string) \<Rightarrow> (nat \<times> 'c) list \<Rightarrow> stages \<times> 'k \<Rightarrow> stages \<times> 'k" where
  "serve_commands l keys [] s = s"
| "serve_commands l keys ((i, c) # rest) (st, k) =
     (let (stage, k') = allow_command l (keys i) c (st i) k
      in serve_commands l keys rest (st(i := stage), k'))"

text \<open>A request that is alone runs \<open>Allow\<close>: at most three of its commands are served.\<close>

definition command_argument :: "'c limit_env \<Rightarrow> stage \<Rightarrow> 'c" where
  "command_argument env stage =
     (case stage of Counting \<Rightarrow> le_incr env | Expiring n \<Rightarrow> le_expire env | _ \<Rightarrow> le_ttl env)"

definition next_command ::
  "('c, 'k) redis_limiter \<Rightarrow> string \<Rightarrow> 'c limit_env \<Rightarrow> stage \<times> 'k \<Rightarrow> stage \<times> 'k" where
  "next_command l key env s = allow_command l key (command_argument env (fst s)) (fst s) (snd s)"

lemma Allow_commands:
  "(next_command l key env ^^ 3) (Counting, k) = map_prod Finished id (Allow l env key k)"
proof -
  let ?cl = "rl_client l" and ?key = "limitKey (rl_prefix l) key"
  obtain r k1 where incr: "rk_Incr ?cl (le_incr env) ?key k = (r, k1)" by fastforce
  obtain u k2 where expire: "rk_Expire ?cl (le_expire env) ?key (rl_window l) k1 = (u, k2)" by fastforce
  obtain t1 j1 where ttl1: "rk_TTL ?cl (le_ttl env) ?key k1 = (t1, j1)" by fastforce
  obtain t2 j2 where ttl2: "rk_TTL ?cl (le_ttl env) ?key k2 = (t2, j2)" by fastforce
  show ?thesis
    by (cases r; cases u; cases t1; cases t2)
      (simp_all add: eval_nat_numeral next_command_def command_argument_def Allow_def counted_stage_def
        Let_def incr expire ttl1 ttl2)
qed

section \<open>What Redis promises\<close>

text \<open>
  A counter has a value and perhaps a time at which it ends; it lives until then. \<open>view\<close> reads
  the counters of the server's state and \<open>at\<close> the time at which a command is served.
  \<open>INCR\<close> counts on from a live counter and starts one at 1, without an end, where there is none;
  \<open>EXPIRE\<close>, with a time of whole seconds, sets the end of a live counter; \<open>TTL\<close> changes
  nothing. A command whose answer is an error may have been served or not. No command changes another
  counter. So the law leaves out a client library that sends an \<open>INCR\<close> again by itself after a
  network error, as the one used does by default, so that a request may be counted twice, and a server
  that loses a live counter (a restart, an eviction, a failover).
\<close>

type_synonym counter = "int \<times> time option"

definition live :: "time \<Rightarrow> counter option \<Rightarrow> bool" where
  "live now c \<longleftrightarrow> (case c of None \<Rightarrow> False | Some (n, None) \<Rightarrow> True | Some (n, Some e) \<Rightarrow> now < e)"

definition counter_after :: "time \<Rightarrow> counter option \<Rightarrow> counter" where
  "counter_after now c = (if live now c then (fst (the c) + 1, snd (the c)) else (1, None))"

definition ends_at :: "time \<Rightarrow> time \<Rightarrow> counter option \<Rightarrow> counter option" where
  "ends_at now e c = (if live now c then Some (fst (the c), Some e) else c)"

definition redis_counters_ok ::
  "('c, 'k) redis_counters \<Rightarrow> ('c \<Rightarrow> time) \<Rightarrow> ('k \<Rightarrow> string \<Rightarrow> counter option) \<Rightarrow> bool" where
  "redis_counters_ok cl at view \<longleftrightarrow>
     (\<forall>c key k r k'. rk_Incr cl c key k = (r, k') \<longrightarrow>
        (view k' = (view k)(key := Some (counter_after (at c) (view k key))) \<or> (\<exists>err. r = Inl err) \<and> view k' = view k) \<and>
        (\<forall>n. r = Inr n \<longrightarrow> sint n = fst (counter_after (at c) (view k key)))) \<and>
     (\<forall>c key d k r k'. rk_Expire cl c key d k = (r, k') \<longrightarrow> 0 < d \<longrightarrow> d mod second = 0 \<longrightarrow>
        view k' = (view k)(key := ends_at (at c) (at c + d) (view k key)) \<or> (\<exists>err. r = Inl err) \<and> view k' = view k) \<and>
     (\<forall>c key k. view (snd (rk_TTL cl c key k)) = view k)"

lemma redis_IncrD:
  assumes "redis_counters_ok cl at view" and "rk_Incr cl c key k = (r, k')"
  shows "view k' = (view k)(key := Some (counter_after (at c) (view k key))) \<or> (\<exists>err. r = Inl err) \<and> view k' = view k"
    and "r = Inr n \<Longrightarrow> sint n = fst (counter_after (at c) (view k key))"
  using assms unfolding redis_counters_ok_def by blast+

lemma redis_ExpireD:
  assumes "redis_counters_ok cl at view" and "rk_Expire cl c key d k = (r, k')" and "0 < d" "d mod second = 0"
  shows "view k' = (view k)(key := ends_at (at c) (at c + d) (view k key)) \<or> view k' = view k"
  using assms(1) [unfolded redis_counters_ok_def, THEN conjunct2, THEN conjunct1, rule_format, OF assms(2-4)]
  by blast

lemma redis_TTLD: "redis_counters_ok cl at view \<Longrightarrow> rk_TTL cl c key k = (r, k') \<Longrightarrow> view k' = view k"
  unfolding redis_counters_ok_def by (metis snd_conv)

end
