(* ===== verification/HttpMiddleware.thy ===== *)
theory HttpMiddleware
  imports GoText RateLimit Currency
begin

text \<open>
  \<open>internal/http/middleware.go\<close>: what the router puts around every handler. A handler takes a
  request, the writer and the state of the process, and leaves the calls it has made on the writer, the
  value of a panic that ended it, and what it has logged and measured. Durations are not part of
  that. A request body is the bytes that can be read from it and the error they end with, if any.
\<close>

section \<open>Requests and handlers\<close>

type_synonym body_reader = "bytes \<times> error option"

text \<open>\<open>io.ReadAll\<close>, and \<open>http.MaxBytesReader\<close> in front of a body.\<close>

definition read_all :: "body_reader \<Rightarrow> error + bytes" where
  "read_all r = (case snd r of None \<Rightarrow> Inr (fst r) | Some err \<Rightarrow> Inl err)"

definition max_bytes_reader :: "int \<Rightarrow> body_reader \<Rightarrow> body_reader" where
  "max_bytes_reader n r =
     (if n < int (length (fst r)) then (take (nat n) (fst r), Some (ErrMsg ''http: request body too large'')) else r)"

text \<open>
  \<open>wq_header\<close> is \<open>r.Header.Get\<close>; \<open>wq_request_id\<close> is the value the context has under
  \<open>requestIDContextKey\<close> and \<open>wq_payment_id\<close> the URL parameter the router has set. Of the
  environment of a request, \<open>wenv_rand\<close> is what \<open>rand.Read\<close> gives and \<open>wenv_now\<close> the time.
\<close>

record web_request =
  wq_Method :: string
  wq_Path :: string
  wq_Body :: body_reader
  wq_header :: "string \<Rightarrow> string"
  wq_RemoteAddr :: string
  wq_request_id :: "string option"
  wq_payment_id :: string

record web_env =
  wenv_rand :: "error + nat list"
  wenv_now :: time

datatype http_observation =
    HttpRequestLogged string string string int int string
  | PanicLogged string string string string
  | HttpRequestObserved string string int
  | RateLimitObserved string

record served =
  sv_calls :: response_writer
  sv_panic :: "string option"
  sv_seen :: "http_observation list"

type_synonym 'u web_handler = "web_request \<Rightarrow> 'u \<Rightarrow> served \<times> 'u"

definition only_calls :: "response_writer \<Rightarrow> served" where
  "only_calls calls = \<lparr>sv_calls = calls, sv_panic = None, sv_seen = []\<rparr>"

section \<open>Identifiers and errors\<close>

text \<open>The layout \<open>20060102150405.000000000\<close> of a time in UTC.\<close>

definition clock_text :: "time \<Rightarrow> string" where
  "clock_text t =
     (let secs = t div second; days = secs div 86400; s = secs mod 86400; (year, month, day) = civil_date days
      in padded 4 year @ padded 2 month @ padded 2 day @ padded 2 (s div 3600) @ padded 2 (s div 60 mod 60) @
         padded 2 (s mod 60) @ ''.'' @ padded 9 (t mod second))"

definition newRequestID :: "web_env \<Rightarrow> string" where
  "newRequestID env =
     (case wenv_rand env of Inl err \<Rightarrow> clock_text (utc (wenv_now env)) | Inr bs \<Rightarrow> hex_encode bs)"

definition requestIDFromContext :: "web_request \<Rightarrow> string" where
  "requestIDFromContext r =
     (case wq_request_id r of None \<Rightarrow> '''' | Some requestID \<Rightarrow> if requestID = '''' then '''' else requestID)"

text \<open>\<open>writeError\<close> and \<open>notFoundHandler\<close> of \<open>internal/http/router.go\<close>.\<close>

definition writeError :: "web_env \<Rightarrow> web_request \<Rightarrow> int \<Rightarrow> string \<Rightarrow> string \<Rightarrow> response_writer \<Rightarrow> response_writer" where
  "writeError env r status errorCode message =
     httpjson_Write status (json_object
       [(''error_code'', JText errorCode), (''message'', JText message),
        (''request_id'', JText (requestIDFromContext r)),
        (''timestamp'', JText (format_time 0 (utc (wenv_now env))))])"

section \<open>The recorder of the middleware\<close>

record response_recorder =
  mr_writer :: response_writer
  mr_statusCode :: int
  mr_bytes :: int

definition mr_WriteHeader :: "int \<Rightarrow> response_recorder \<Rightarrow> response_recorder" where
  "mr_WriteHeader statusCode r =
     r\<lparr>mr_statusCode := statusCode, mr_writer := write_header statusCode (mr_writer r)\<rparr>"

definition mr_Write :: "bytes \<Rightarrow> response_recorder \<Rightarrow> response_recorder" where
  "mr_Write body r =
     (let r1 = (if mr_statusCode r = 0 then r\<lparr>mr_statusCode := 200\<rparr> else r)
      in r1\<lparr>mr_writer := write_body body (mr_writer r1), mr_bytes := mr_bytes r1 + int (length body)\<rparr>)"

fun recorder_call :: "writer_call \<Rightarrow> response_recorder \<Rightarrow> response_recorder" where
  "recorder_call (SetHeader k v) r = r\<lparr>mr_writer := set_header k v (mr_writer r)\<rparr>"
| "recorder_call (WriteHeader code) r = mr_WriteHeader code r"
| "recorder_call (WriteBody body) r = mr_Write body r"

text \<open>A recorder in front of a new writer, after the calls a handler has made on it.\<close>

definition recorded_calls :: "response_writer \<Rightarrow> response_recorder" where
  "recorded_calls calls = fold recorder_call calls \<lparr>mr_writer = new_writer, mr_statusCode = 0, mr_bytes = 0\<rparr>"

definition recorded_status :: "response_recorder \<Rightarrow> int" where
  "recorded_status r = (if mr_statusCode r = 0 then 200 else mr_statusCode r)"

section \<open>Middleware\<close>

definition requestIDMiddleware :: "web_env \<Rightarrow> 'u web_handler \<Rightarrow> 'u web_handler" where
  "requestIDMiddleware env next r u =
     (let given = wq_header r ''X-Request-ID'';
          requestID = (if given = '''' then newRequestID env else given);
          (sv, u') = next (r\<lparr>wq_request_id := Some requestID\<rparr>) u
      in (sv\<lparr>sv_calls := SetHeader ''X-Request-ID'' requestID # sv_calls sv\<rparr>, u'))"

definition recoveryMiddleware :: "web_env \<Rightarrow> 'u web_handler \<Rightarrow> 'u web_handler" where
  "recoveryMiddleware env next r u =
     (let (sv, u') = next r u in
      case sv_panic sv of
        None \<Rightarrow> (sv, u')
      | Some recovered \<Rightarrow>
          (\<lparr>sv_calls = writeError env r 500 ''INTERNAL_SERVER_ERROR'' ''Internal server error'' (sv_calls sv),
            sv_panic = None,
            sv_seen = sv_seen sv @ [PanicLogged (requestIDFromContext r) (wq_Method r) (wq_Path r) recovered]\<rparr>, u'))"

definition bodyLimitMiddleware :: "int \<Rightarrow> 'u web_handler \<Rightarrow> 'u web_handler" where
  "bodyLimitMiddleware maxBodyBytes0 next r u =
     (let maxBodyBytes = (if maxBodyBytes0 \<le> 0 then 1048576 else maxBodyBytes0)
      in next (r\<lparr>wq_Body := max_bytes_reader maxBodyBytes (wq_Body r)\<rparr>) u)"

text \<open>A panic of the inner handler passes through both: nothing is logged or measured then.\<close>

definition loggingMiddleware :: "'u web_handler \<Rightarrow> 'u web_handler" where
  "loggingMiddleware next r u =
     (let (sv, u') = next r u; recorder = recorded_calls (sv_calls sv); sv' = sv\<lparr>sv_calls := mr_writer recorder\<rparr> in
      case sv_panic sv of
        Some recovered \<Rightarrow> (sv', u')
      | None \<Rightarrow>
          (sv'\<lparr>sv_seen := sv_seen sv @ [HttpRequestLogged (requestIDFromContext r) (wq_Method r) (wq_Path r)
             (recorded_status recorder) (mr_bytes recorder) (wq_RemoteAddr r)]\<rparr>, u'))"

text \<open>\<open>pattern\<close> is the pattern of the route, which the router sets before \<open>next\<close> returns.\<close>

definition routePattern :: "string option \<Rightarrow> string" where
  "routePattern routeContext =
     (case routeContext of None \<Rightarrow> ''unknown''
      | Some pattern \<Rightarrow> if pattern = '''' then ''unmatched'' else pattern)"

definition metricsMiddleware :: "(web_request \<Rightarrow> string option) \<Rightarrow> 'u web_handler \<Rightarrow> 'u web_handler" where
  "metricsMiddleware route next r u =
     (let (sv, u') = next r u; recorder = recorded_calls (sv_calls sv); sv' = sv\<lparr>sv_calls := mr_writer recorder\<rparr> in
      case sv_panic sv of
        Some recovered \<Rightarrow> (sv', u')
      | None \<Rightarrow>
          (sv'\<lparr>sv_seen := sv_seen sv @
             [HttpRequestObserved (wq_Method r) (routePattern (route r)) (recorded_status recorder)]\<rparr>, u'))"

section \<open>The rate limit\<close>

definition rateLimitKey :: "web_request \<Rightarrow> string" where
  "rateLimitKey r =
     (let forwardedFor = wq_header r ''X-Forwarded-For'';
          candidate = trim_space (hd (split_at (CHR '','') forwardedFor));
          realIP = trim_space (wq_header r ''X-Real-IP'');
          remoteAddr = trim_space (wq_RemoteAddr r)
      in if forwardedFor \<noteq> '''' \<and> candidate \<noteq> '''' then candidate
         else if realIP \<noteq> '''' then realIP
         else if remoteAddr \<noteq> '''' then remoteAddr
         else ''unknown'')"

definition observeRateLimit :: "bool \<Rightarrow> string \<Rightarrow> http_observation list" where
  "observeRateLimit recorder result = (if recorder then [RateLimitObserved result] else [])"

text \<open>
  \<open>lim\<close> is \<open>limiter.Allow\<close> in the context of the request; \<open>metricsRecorder\<close> says whether
  there is one. \<open>int64(d.Seconds())\<close> drops the fraction of a second.
\<close>

definition rateLimitMiddleware ::
  "web_env \<Rightarrow> (string \<Rightarrow> ('u, limit_result) act) \<Rightarrow> bool \<Rightarrow> 'u web_handler \<Rightarrow> 'u web_handler" where
  "rateLimitMiddleware env lim metricsRecorder next r u =
     (case lim (rateLimitKey r) u of
        (Inl err, u') \<Rightarrow>
          if errors_is err ErrLimiterUnavailable
          then (\<lparr>sv_calls = writeError env r 503 ''RATE_LIMITER_UNAVAILABLE'' ''Rate limiter unavailable'' new_writer,
                 sv_panic = None, sv_seen = observeRateLimit metricsRecorder ''redis_error''\<rparr>, u')
          else (\<lparr>sv_calls = writeError env r 500 ''RATE_LIMIT_ERROR'' ''Rate limit check failed'' new_writer,
                 sv_panic = None, sv_seen = observeRateLimit metricsRecorder ''error''\<rparr>, u')
      | (Inr result, u') \<Rightarrow>
          (let limits =
             (if 0 <s lr_Limit result
              then [SetHeader ''RateLimit-Limit'' (int_text (sint (lr_Limit result))),
                    SetHeader ''RateLimit-Remaining'' (int_text (sint (lr_Remaining result)))]
              else []) in
           if \<not> lr_Allowed result
           then (\<lparr>sv_calls = writeError env r 429 ''RATE_LIMIT_EXCEEDED'' ''Rate limit exceeded''
                   (limits @ (if 0 < lr_RetryAfter result
                     then [SetHeader ''Retry-After'' (int_text (lr_RetryAfter result div second))] else [])),
                  sv_panic = None, sv_seen = observeRateLimit metricsRecorder ''rejected''\<rparr>, u')
           else (let (sv, u'') = next r u' in
             (sv\<lparr>sv_calls := limits @ sv_calls sv, sv_seen := observeRateLimit metricsRecorder ''allowed'' @ sv_seen sv\<rparr>,
              u''))))"

lemmas http_middleware_defs = read_all_def max_bytes_reader_def only_calls_def clock_text_def newRequestID_def
  requestIDFromContext_def writeError_def mr_WriteHeader_def mr_Write_def recorded_calls_def recorded_status_def
  requestIDMiddleware_def recoveryMiddleware_def bodyLimitMiddleware_def loggingMiddleware_def
  routePattern_def metricsMiddleware_def rateLimitKey_def observeRateLimit_def rateLimitMiddleware_def

declare http_middleware_defs [go_eval]

section \<open>Facts\<close>

text \<open>A recorder passes every call on and knows the last status written, or 200 for a body without one.\<close>

lemma recorder_call_writer: "mr_writer (recorder_call c r) = mr_writer r @ [c]"
  by (cases c) (simp_all add: set_header_def mr_WriteHeader_def write_header_def mr_Write_def write_body_def Let_def)

lemma mr_writer_fold: "mr_writer (fold recorder_call calls r) = mr_writer r @ calls"
  by (induction calls arbitrary: r) (simp_all add: recorder_call_writer)

lemma recorded_writer [simp]: "mr_writer (recorded_calls calls) = calls"
  by (simp add: recorded_calls_def mr_writer_fold new_writer_def)

lemma rw_status_append: "rw_status (w @ calls) = (if rw_status w = None then rw_status calls else rw_status w)"
proof (induction calls rule: rev_induct)
  case (snoc c calls)
  then show ?case
    by (cases c) (auto simp: rw_status_def append_assoc [symmetric] sent_step Let_def simp del: append_assoc)
qed (simp add: rw_status_def sent_def)

lemma rw_status_Nil [simp]: "rw_status [] = None"
  by (simp add: rw_status_def sent_def)

lemma rw_status_SetHeader [simp]: "rw_status (SetHeader k v # calls) = rw_status calls"
  using rw_status_append [of "[SetHeader k v]" calls] by (simp add: rw_status_def sent_def)

lemma writeError_status [simp]:
  "rw_status (writeError env r status code message w) = (if rw_status w = None then Some status else rw_status w)"
  by (simp add: writeError_def httpjson_Write_def)

text \<open>When no header is written twice the recorder has the status the client gets.\<close>

definition header_calls :: "response_writer \<Rightarrow> nat" where
  "header_calls calls = length [c \<leftarrow> calls. case c of WriteHeader n \<Rightarrow> True | _ \<Rightarrow> False]"

lemma recorded_snoc: "recorded_calls (calls @ [c]) = recorder_call c (recorded_calls calls)"
  by (simp add: recorded_calls_def)

lemma rw_status_snoc:
  "rw_status (calls @ [c]) = (if rw_status calls \<noteq> None then rw_status calls
     else case c of SetHeader k v \<Rightarrow> None | WriteHeader n \<Rightarrow> Some n | WriteBody b \<Rightarrow> Some 200)"
  by (cases c) (auto simp: rw_status_def sent_step Let_def)

end
