(* ===== verification/MerchantPayerHandlers.thy ===== *)
theory MerchantPayerHandlers
  imports HttpMiddleware Merchant Payer
begin

text \<open>
  The HTTP handlers of merchants and of payers: \<open>internal/merchant/handler.go\<close> and
  \<open>internal/payer/handler.go\<close>, over the methods of the two services. Decoding the JSON of a body
  into the request struct is an argument, with \<open>None\<close> for an error, and so are the time and the
  offset from UTC of the location a time is in.
\<close>

definition method_not_allowed_answer :: response_writer where
  "method_not_allowed_answer =
     httpjson_Write 405 (json_object (error_body ''METHOD_NOT_ALLOWED'' ''Method not allowed'')) new_writer"

definition invalid_json_answer :: response_writer where
  "invalid_json_answer =
     httpjson_Write 400 (json_object (error_body ''INVALID_JSON'' ''Request body must be valid JSON'')) new_writer"

section \<open>Merchants\<close>

fun merchant_status_string :: "merchant_status \<Rightarrow> string" where
  "merchant_status_string MerchantStatusActive = ''ACTIVE''"
| "merchant_status_string MerchantStatusSuspended = ''SUSPENDED''"
| "merchant_status_string MerchantStatusClosed = ''CLOSED''"

text \<open>\<open>mh_create\<close> and \<open>mh_list\<close> are those of the repository, in the context of the request.\<close>

record 'u merchant_handler =
  mh_create :: "merchant \<Rightarrow> ('u, merchant) act"
  mh_list :: "('u, merchant list) act"
  mh_decode :: "body_reader \<Rightarrow> create_merchant_input option"
  mh_now :: time
  mh_offset :: "time \<Rightarrow> int"

definition merchantResponse :: "(time \<Rightarrow> int) \<Rightarrow> merchant \<Rightarrow> json_fields" where
  "merchantResponse offset m =
     [(''id'', JText (merchant_ID m)),
      (''name'', JText (merchant_Name m)),
      (''status'', JText (merchant_status_string (merchant_Status m))),
      (''settlement_currency'', JText (SettlementCurrency m)),
      (''created_at'', JText (format_time (offset (merchant_CreatedAt m)) (merchant_CreatedAt m))),
      (''updated_at'', JText (format_time (offset (merchant_UpdatedAt m)) (merchant_UpdatedAt m)))]"

definition merchantErrorResponse :: "error \<Rightarrow> int \<times> json_fields" where
  "merchantErrorResponse err =
     (if errors_is err ErrDuplicateMerchant
        then (409, error_body ''MERCHANT_ALREADY_EXISTS'' ''Merchant already exists'')
      else if errors_is err ErrMerchantNotFound
        then (404, error_body ''MERCHANT_NOT_FOUND'' ''Merchant not found'')
      else (400, error_body ''INVALID_MERCHANT'' (error_text err)))"

definition createMerchant :: "'u merchant_handler \<Rightarrow> 'u web_handler" where
  "createMerchant h r u =
     (case mh_decode h (wq_Body r) of
        None \<Rightarrow> (only_calls invalid_json_answer, u)
      | Some request \<Rightarrow>
          (case MerchantService_CreateMerchant (mh_create h) (mh_now h) request u of
             (Inl err, u') \<Rightarrow>
               (let (status, body) = merchantErrorResponse err
                in (only_calls (httpjson_Write status (json_object body) new_writer), u'))
           | (Inr merchant, u') \<Rightarrow>
               (only_calls (httpjson_Write 201 (json_object (merchantResponse (mh_offset h) merchant)) new_writer), u')))"

definition listMerchants :: "'u merchant_handler \<Rightarrow> 'u web_handler" where
  "listMerchants h r u =
     (case MerchantService_ListMerchants (mh_list h) u of
        (Inl err, u') \<Rightarrow>
          (only_calls (httpjson_Write 500
            (json_object (error_body ''MERCHANT_LIST_FAILED'' ''Failed to list merchants'')) new_writer), u')
      | (Inr merchants, u') \<Rightarrow>
          (only_calls (httpjson_Write 200
            (json_array (map (merchantResponse (mh_offset h)) merchants)) new_writer), u'))"

definition HandleMerchants :: "'u merchant_handler \<Rightarrow> 'u web_handler" where
  "HandleMerchants h r u =
     (if wq_Method r = ''POST'' then createMerchant h r u
      else if wq_Method r = ''GET'' then listMerchants h r u
      else (only_calls method_not_allowed_answer, u))"

section \<open>Payers\<close>

record 'u payer_handler =
  yh_create :: "payer \<Rightarrow> ('u, payer) act"
  yh_list :: "('u, payer list) act"
  yh_decode :: "body_reader \<Rightarrow> create_payer_input option"
  yh_now :: time
  yh_offset :: "time \<Rightarrow> int"

definition payerResponse :: "(time \<Rightarrow> int) \<Rightarrow> payer \<Rightarrow> json_fields" where
  "payerResponse offset p =
     [(''id'', JText (payer_ID p)),
      (''available_balance_minor'', JNumber (sint (AvailableBalanceMinor p))),
      (''held_balance_minor'', JNumber (sint (HeldBalanceMinor p))),
      (''currency'', JText (payer_Currency p)),
      (''version'', JNumber (sint (payer_Version p))),
      (''created_at'', JText (format_time (offset (payer_CreatedAt p)) (payer_CreatedAt p))),
      (''updated_at'', JText (format_time (offset (payer_UpdatedAt p)) (payer_UpdatedAt p)))]"

definition payerErrorResponse :: "error \<Rightarrow> int \<times> json_fields" where
  "payerErrorResponse err =
     (if errors_is err ErrDuplicatePayer
        then (409, error_body ''PAYER_ALREADY_EXISTS'' ''Payer already exists'')
      else if errors_is err ErrPayerNotFound
        then (404, error_body ''PAYER_NOT_FOUND'' ''Payer not found'')
      else (400, error_body ''INVALID_PAYER'' (error_text err)))"

definition createPayer :: "'u payer_handler \<Rightarrow> 'u web_handler" where
  "createPayer h r u =
     (case yh_decode h (wq_Body r) of
        None \<Rightarrow> (only_calls invalid_json_answer, u)
      | Some request \<Rightarrow>
          (case PayerService_CreatePayer (yh_create h) (yh_now h) request u of
             (Inl err, u') \<Rightarrow>
               (let (status, body) = payerErrorResponse err
                in (only_calls (httpjson_Write status (json_object body) new_writer), u'))
           | (Inr payer, u') \<Rightarrow>
               (only_calls (httpjson_Write 201 (json_object (payerResponse (yh_offset h) payer)) new_writer), u')))"

definition listPayers :: "'u payer_handler \<Rightarrow> 'u web_handler" where
  "listPayers h r u =
     (case PayerService_ListPayers (yh_list h) u of
        (Inl err, u') \<Rightarrow>
          (only_calls (httpjson_Write 500
            (json_object (error_body ''PAYER_LIST_FAILED'' ''Failed to list payers'')) new_writer), u')
      | (Inr payers, u') \<Rightarrow>
          (only_calls (httpjson_Write 200 (json_array (map (payerResponse (yh_offset h)) payers)) new_writer), u'))"

definition HandlePayers :: "'u payer_handler \<Rightarrow> 'u web_handler" where
  "HandlePayers h r u =
     (if wq_Method r = ''POST'' then createPayer h r u
      else if wq_Method r = ''GET'' then listPayers h r u
      else (only_calls method_not_allowed_answer, u))"

lemmas merchant_payer_handler_defs = method_not_allowed_answer_def invalid_json_answer_def merchantResponse_def
  merchantErrorResponse_def createMerchant_def listMerchants_def HandleMerchants_def payerResponse_def
  payerErrorResponse_def createPayer_def listPayers_def HandlePayers_def

declare merchant_payer_handler_defs [go_eval]

end
