(* ===== verification/HttpRouter.thy ===== *)
theory HttpRouter
  imports MerchantPayerHandlers PaymentHandler
begin

text \<open>
  \<open>internal/http/router.go\<close> and \<open>internal/http/system_handler.go\<close>: the routes, the middleware
  around them and the handlers of the system. Which route a request takes is decided by the chi library:
  it is a function from the routes that \<open>NewRouter\<close> registers, the method and the path.
\<close>

section \<open>System handlers\<close>

record 'u router_config =
  cfg_ServiceName :: string
  cfg_Version :: string
  cfg_StartedAt :: time
  cfg_MerchantHandler :: "'u web_handler option"
  cfg_PayerHandler :: "'u web_handler option"
  cfg_PaymentHandler :: "'u web_handler option"
  cfg_MetricsHandler :: "'u web_handler option"
  cfg_Metrics :: bool
  cfg_RateLimiter :: "(string \<Rightarrow> ('u, limit_result) act) option"

definition healthHandler :: "'u web_handler" where
  "healthHandler r u = (only_calls (httpjson_Write 200 (json_object [(''status'', JText ''ok'')]) new_writer), u)"

definition readyHandler :: "'u web_handler" where
  "readyHandler r u = (only_calls (httpjson_Write 200 (json_object [(''status'', JText ''ready'')]) new_writer), u)"

text \<open>The encoder sorts the keys of a map.\<close>

definition versionHandler :: "'u router_config \<Rightarrow> 'u web_handler" where
  "versionHandler config r u =
     (only_calls (httpjson_Write 200 (json_object
       [(''service'', JText (cfg_ServiceName config)),
        (''started_at'', JText (format_time 0 (utc (cfg_StartedAt config)))),
        (''version'', JText (cfg_Version config))]) new_writer), u)"

definition notFoundHandler :: "web_env \<Rightarrow> 'u web_handler" where
  "notFoundHandler env r u = (only_calls (writeError env r 404 ''ROUTE_NOT_FOUND'' ''Route not found'' new_writer), u)"

section \<open>Routes\<close>

datatype endpoint = HealthEndpoint | ReadyEndpoint | VersionEndpoint | MetricsEndpoint | MerchantsEndpoint
  | PayersEndpoint | AuthorizeEndpoint | CaptureEndpoint

text \<open>A route for a method, or for every method, and the router mounted at a prefix.\<close>

record route =
  route_method :: "string option"
  route_pattern :: string
  route_endpoint :: endpoint

record route_table =
  rt_routes :: "route list"
  rt_mounted :: "(string \<times> route list) option"

definition get_route :: "string \<Rightarrow> endpoint \<Rightarrow> route" where
  "get_route pattern e = \<lparr>route_method = Some ''GET'', route_pattern = pattern, route_endpoint = e\<rparr>"

definition post_route :: "string \<Rightarrow> endpoint \<Rightarrow> route" where
  "post_route pattern e = \<lparr>route_method = Some ''POST'', route_pattern = pattern, route_endpoint = e\<rparr>"

definition handle_route :: "string \<Rightarrow> endpoint \<Rightarrow> route" where
  "handle_route pattern e = \<lparr>route_method = None, route_pattern = pattern, route_endpoint = e\<rparr>"

definition routes :: "'u router_config \<Rightarrow> route_table" where
  "routes config =
     \<lparr>rt_routes =
        [get_route ''/healthz'' HealthEndpoint, get_route ''/readyz'' ReadyEndpoint,
         get_route ''/version'' VersionEndpoint] @
        (if cfg_MetricsHandler config \<noteq> None then [handle_route ''/metrics'' MetricsEndpoint] else []) @
        (if cfg_MerchantHandler config \<noteq> None then [handle_route ''/merchants'' MerchantsEndpoint] else []) @
        (if cfg_PayerHandler config \<noteq> None then [handle_route ''/payers'' PayersEndpoint] else []),
      rt_mounted =
        (if cfg_PaymentHandler config \<noteq> None
         then Some (''/payments'', [post_route ''/authorize'' AuthorizeEndpoint,
           post_route ''/{payment_id}/capture'' CaptureEndpoint])
         else None)\<rparr>"

text \<open>
  What chi answers: the endpoint and the URL parameter, that there is no route, or that there is one for
  another method; the pattern it has found, and whether the path belongs to the mounted router, whose
  middleware then runs. \<open>chi_not_allowed\<close> are the calls of chi's own answer with status 405.
\<close>

datatype chi_outcome = RouteFound endpoint string | NoRoute | NoMethod

record chi_match =
  cm_outcome :: chi_outcome
  cm_pattern :: string
  cm_mounted :: bool

record chi =
  chi_route :: "route_table \<Rightarrow> string \<Rightarrow> string \<Rightarrow> chi_match"
  chi_not_allowed :: response_writer

definition no_handler :: "'u web_handler option \<Rightarrow> 'u web_handler" where
  "no_handler h = (case h of None \<Rightarrow> (\<lambda>r u. (only_calls new_writer, u)) | Some next \<Rightarrow> next)"

fun endpoint_handler :: "'u router_config \<Rightarrow> endpoint \<Rightarrow> 'u web_handler" where
  "endpoint_handler config HealthEndpoint = healthHandler"
| "endpoint_handler config ReadyEndpoint = readyHandler"
| "endpoint_handler config VersionEndpoint = versionHandler config"
| "endpoint_handler config MetricsEndpoint = no_handler (cfg_MetricsHandler config)"
| "endpoint_handler config MerchantsEndpoint = no_handler (cfg_MerchantHandler config)"
| "endpoint_handler config PayersEndpoint = no_handler (cfg_PayerHandler config)"
| "endpoint_handler config AuthorizeEndpoint = no_handler (cfg_PaymentHandler config)"
| "endpoint_handler config CaptureEndpoint = no_handler (cfg_PaymentHandler config)"

text \<open>The mux: the middleware of the mounted router in front of what was found below its prefix.\<close>

definition dispatch :: "'u router_config \<Rightarrow> chi \<Rightarrow> web_env \<Rightarrow> 'u web_handler" where
  "dispatch config lib env r u =
     (let found = chi_route lib (routes config) (wq_Method r) (wq_Path r);
          handler = (case cm_outcome found of
              RouteFound e payment_id \<Rightarrow> (\<lambda>r. endpoint_handler config e (r\<lparr>wq_payment_id := payment_id\<rparr>))
            | NoRoute \<Rightarrow> notFoundHandler env
            | NoMethod \<Rightarrow> (\<lambda>r u. (only_calls (chi_not_allowed lib), u)))
      in case cfg_RateLimiter config of
           None \<Rightarrow> handler r u
         | Some lim \<Rightarrow>
             if cm_mounted found then rateLimitMiddleware env lim (cfg_Metrics config) handler r u
             else handler r u)"

definition NewRouter :: "'u router_config \<Rightarrow> chi \<Rightarrow> web_env \<Rightarrow> 'u web_handler" where
  "NewRouter config lib env =
     (let router = dispatch config lib env;
          measured = (if cfg_Metrics config
            then metricsMiddleware
              (\<lambda>r. Some (cm_pattern (chi_route lib (routes config) (wq_Method r) (wq_Path r)))) router
            else router)
      in requestIDMiddleware env (recoveryMiddleware env (loggingMiddleware (bodyLimitMiddleware 1048576 measured))))"

text \<open>What \<open>net/http\<close> sends: 200 when a handler has written nothing.\<close>

definition answer_status :: "served \<Rightarrow> int" where
  "answer_status sv = (case rw_status (sv_calls sv) of None \<Rightarrow> 200 | Some code \<Rightarrow> code)"

section \<open>The payment handler behind the router\<close>

text \<open>The parts of a request the payment handler reads, its state in that of the process.\<close>

definition payment_request :: "web_request \<Rightarrow> http_request" where
  "payment_request r =
     \<lparr>rq_Method = wq_Method r, rq_Path = wq_Path r, rq_Body = read_all (wq_Body r),
      rq_IdempotencyKey = wq_header r ''Idempotency-Key'', rq_payment_id = wq_payment_id r\<rparr>"

definition payment_web_handler ::
  "('c, 's, 'd, 'i) handler \<Rightarrow> ('c, 'd) handler_env \<Rightarrow> (('s \<times> 'i) \<times> 'k) web_handler" where
  "payment_web_handler h env r u =
     (let (out, st) = ServeHTTP h env new_writer (payment_request r) (fst u)
      in (only_calls (hd_writer out), (st, snd u)))"

definition limiter_of ::
  "('c, 'k) redis_limiter \<Rightarrow> 'c limit_env \<Rightarrow> string \<Rightarrow> ('w \<times> 'k, limit_result) act" where
  "limiter_of l env key u = (let (res, k) = Allow l env key (snd u) in (res, (fst u, k)))"

lemmas http_router_defs = healthHandler_def readyHandler_def versionHandler_def notFoundHandler_def
  get_route_def post_route_def handle_route_def routes_def no_handler_def dispatch_def NewRouter_def
  answer_status_def payment_request_def payment_web_handler_def limiter_of_def

declare http_router_defs [go_eval]

end
