(* ===== verification/RateLimitGuarantees.thy ===== *)
theory RateLimitGuarantees
  imports RateLimit
begin

text \<open>
  How many requests of a key the limiter lets through, whatever the order in which the commands of the
  concurrent requests reach Redis and whichever of them fail.
\<close>

section \<open>Admitted requests\<close>

text \<open>A stage from which a request is let through, unless its \<open>EXPIRE\<close> fails.\<close>

definition may_pass :: "int64 \<Rightarrow> stage \<Rightarrow> bool" where
  "may_pass limit stage =
     (case stage of
        Expiring n \<Rightarrow> n \<le>s limit
      | Asking n \<Rightarrow> n \<le>s limit
      | Finished (Inr r) \<Rightarrow> lr_Allowed r
      | _ \<Rightarrow> False)"

definition admitted_stage :: "stage \<Rightarrow> bool" where
  "admitted_stage stage = (case stage of Finished (Inr r) \<Rightarrow> lr_Allowed r | _ \<Rightarrow> False)"

text \<open>
  The requests of a Redis key that begin and are let through while a schedule is served, and those
  that may pass so far.
\<close>

definition admitted ::
  "('c, 'k) redis_limiter \<Rightarrow> (nat \<Rightarrow> string) \<Rightarrow> string \<Rightarrow> nat list \<Rightarrow> stages \<Rightarrow> stages \<Rightarrow> nat list" where
  "admitted l keys key requests st st' =
     [i \<leftarrow> requests. limitKey (rl_prefix l) (keys i) = key \<and> st i = Counting \<and> admitted_stage (st' i)]"

definition granted_to ::
  "('c, 'k) redis_limiter \<Rightarrow> (nat \<Rightarrow> string) \<Rightarrow> string \<Rightarrow> nat list \<Rightarrow> stages \<Rightarrow> stages \<Rightarrow> nat" where
  "granted_to l keys key requests st0 st =
     length [i \<leftarrow> requests. limitKey (rl_prefix l) (keys i) = key \<and> st0 i = Counting \<and>
       may_pass (rl_limit l) (st i)]"

lemma admitted_may_pass: "admitted_stage s \<Longrightarrow> may_pass limit s"
  by (simp add: admitted_stage_def may_pass_def split: stage.splits sum.splits)

lemma length_filter_mono: "(\<And>x. P x \<Longrightarrow> Q x) \<Longrightarrow> length (filter P xs) \<le> length (filter Q xs)"
  by (induction xs) auto

lemma admitted_le_granted:
  "length (admitted l keys key requests st0 st) \<le> granted_to l keys key requests st0 st"
  unfolding admitted_def granted_to_def
  by (rule length_filter_mono) (auto intro: admitted_may_pass)

lemma length_filter_point:
  assumes "distinct xs" and "\<And>x. x \<noteq> y \<Longrightarrow> P x = Q x"
  shows "length (filter P xs) \<le> length (filter Q xs) + (if P y \<and> \<not> Q y then 1 else 0)"
  using assms
proof (induction xs)
  case (Cons x xs)
  show ?case
  proof (cases "x = y")
    case True
    then have "filter P xs = filter Q xs"
      using Cons.prems by (intro filter_cong) (auto, metis+)
    then show ?thesis using True by auto
  next
    case False
    then show ?thesis using Cons by auto
  qed
qed simp

lemma granted_to_step:
  assumes "distinct requests"
  shows "granted_to l keys key requests st0 (st(i := s)) \<le> granted_to l keys key requests st0 st +
    (if limitKey (rl_prefix l) (keys i) = key \<and> may_pass (rl_limit l) s \<and> \<not> may_pass (rl_limit l) (st i) then 1 else 0)"
proof -
  let ?P = "\<lambda>s j. limitKey (rl_prefix l) (keys j) = key \<and> st0 j = Counting \<and> may_pass (rl_limit l) (s j)"
  have "length (filter (?P (st(i := s))) requests) \<le>
      length (filter (?P st) requests) + (if ?P (st(i := s)) i \<and> \<not> ?P st i then 1 else 0)"
    by (rule length_filter_point [OF assms]) simp
  moreover have "(if ?P (st(i := s)) i \<and> \<not> ?P st i then 1 else 0) \<le>
      (if limitKey (rl_prefix l) (keys i) = key \<and> may_pass (rl_limit l) s \<and> \<not> may_pass (rl_limit l) (st i)
       then 1 else (0 :: nat))" by simp
  ultimately show ?thesis unfolding granted_to_def by (rule order_trans [OF _ add_left_mono])
qed

section \<open>One command\<close>

text \<open>
  What a command of a limiter with a window of whole seconds does to a counter: nothing, or one of the
  three below; and a request comes to pass only by the \<open>INCR\<close> that counts it, up to the limit.
\<close>

definition counts_whole_seconds :: "('c, 'k) redis_limiter \<Rightarrow> bool" where
  "counts_whole_seconds l \<longleftrightarrow> 0 <s rl_limit l \<and> 0 < rl_window l \<and> rl_window l mod second = 0"

lemma sint_is_one: "sint (n :: int64) = 1 \<longleftrightarrow> n = 1"
proof -
  have "sint n = 1 \<longleftrightarrow> sint n = sint (1 :: int64)" by simp
  also have "\<dots> \<longleftrightarrow> n = 1" by (rule word_eq_iff_signed [symmetric])
  finally show ?thesis .
qed

lemma granted_counted_stage: "may_pass limit (counted_stage limit n) \<longleftrightarrow> n \<le>s limit"
  by (simp add: may_pass_def counted_stage_def limit_answer_def)

lemma command_effect:
  assumes laws: "redis_counters_ok (rl_client l) at view" and whole: "counts_whole_seconds l"
    and run: "allow_command l name c s k = (s', k')"
  shows "(key \<noteq> limitKey (rl_prefix l) name \<longrightarrow> view k' key = view k key) \<and>
    (key = limitKey (rl_prefix l) name \<longrightarrow>
       view k' key = view k key \<and> (may_pass (rl_limit l) s' \<longrightarrow> may_pass (rl_limit l) s) \<and>
         (\<forall>n. s' = Expiring n \<longrightarrow> s = s')
     \<or> s = Counting \<and> view k' key = Some (counter_after (at c) (view k key)) \<and>
         (may_pass (rl_limit l) s' \<longrightarrow> fst (counter_after (at c) (view k key)) \<le> sint (rl_limit l)) \<and>
         (\<forall>n. s' = Expiring n \<longrightarrow> fst (counter_after (at c) (view k key)) = 1)
     \<or> (\<exists>n. s = Expiring n) \<and> view k' key = ends_at (at c) (at c + rl_window l) (view k key) \<and>
         (may_pass (rl_limit l) s' \<longrightarrow> may_pass (rl_limit l) s) \<and> (\<forall>n. s' \<noteq> Expiring n))"
proof (cases s)
  case Counting
  let ?name = "limitKey (rl_prefix l) name"
  obtain r k1 where incr: "rk_Incr (rl_client l) c ?name k = (r, k1)" by fastforce
  note effect = redis_IncrD [OF laws incr]
  show ?thesis
  proof (cases r)
    case (Inl err)
    then show ?thesis using run Counting incr effect(1) by (auto simp: may_pass_def)
  next
    case (Inr n)
    have le: "n \<le>s rl_limit l \<longleftrightarrow> fst (counter_after (at c) (view k ?name)) \<le> sint (rl_limit l)"
      using effect(2) [OF Inr] by (simp add: word_sle_eq)
    have one: "n = 1 \<longleftrightarrow> fst (counter_after (at c) (view k ?name)) = 1"
      using effect(2) [OF Inr] by (simp add: sint_is_one [symmetric])
    have k': "k' = k1" "s' = (if n = 1 then Expiring n else counted_stage (rl_limit l) n)"
      using run Counting incr Inr by auto
    show ?thesis
      using effect(1) Inr k' Counting le one granted_counted_stage [of "rl_limit l" n]
      by (auto simp: may_pass_def counted_stage_def)
  qed
next
  case (Expiring n)
  let ?name = "limitKey (rl_prefix l) name"
  obtain r k1 where expire: "rk_Expire (rl_client l) c ?name (rl_window l) k = (r, k1)" by fastforce
  have "view k1 = (view k)(?name := ends_at (at c) (at c + rl_window l) (view k ?name)) \<or> view k1 = view k"
    using whole by (intro redis_ExpireD [OF laws expire]) (simp_all add: counts_whole_seconds_def)
  then show ?thesis
    using run Expiring expire granted_counted_stage [of "rl_limit l" n]
    by (cases r) (auto simp: may_pass_def counted_stage_def)
next
  case (Asking n)
  obtain r k1 where ttl: "rk_TTL (rl_client l) c (limitKey (rl_prefix l) name) k = (r, k1)" by fastforce
  show ?thesis
    using run Asking ttl redis_TTLD [OF laws ttl] by (cases r) (auto simp: may_pass_def limit_answer_def)
next
  case (Finished r)
  then show ?thesis using run by auto
qed

section \<open>Counters over a stretch of time\<close>

text \<open>
  Over a stretch that ends at \<open>until\<close>: every end that is set in it lies at its end or after it, so
  a counter that has one such, or none, lives through the stretch.
\<close>

definition count_of :: "counter option \<Rightarrow> int" where
  "count_of c = (case c of None \<Rightarrow> 0 | Some (n, e) \<Rightarrow> n)"

definition lasts :: "time \<Rightarrow> counter option \<Rightarrow> bool" where
  "lasts until c \<longleftrightarrow> (case c of None \<Rightarrow> False | Some (n, None) \<Rightarrow> True | Some (n, Some e) \<Rightarrow> until \<le> e)"

lemma lasts_live: "lasts until c \<Longrightarrow> now < until \<Longrightarrow> live now c"
  by (auto simp: lasts_def live_def split: option.splits prod.splits)

lemma lasts_counted: "\<not> live now c \<or> lasts until c \<Longrightarrow> lasts until (Some (counter_after now c))"
  by (auto simp: lasts_def live_def counter_after_def split: option.splits prod.splits)

lemma lasts_ends: "until \<le> e \<Longrightarrow> live now c \<Longrightarrow> lasts until (ends_at now e c)"
  by (auto simp: lasts_def live_def ends_at_def split: option.splits prod.splits)

lemma ends_dead: "\<not> live now c \<Longrightarrow> ends_at now e c = c"
  by (simp add: ends_at_def)

lemma count_of_ends [simp]: "count_of (ends_at now e c) = count_of c"
  by (auto simp: count_of_def ends_at_def live_def split: option.splits prod.splits)

lemma count_of_counted: "count_of (Some (counter_after now c)) = (if live now c then count_of c + 1 else 1)"
  by (auto simp: count_of_def counter_after_def live_def split: option.splits prod.splits)

lemma fst_counter_after: "fst (counter_after now c) = count_of (Some (counter_after now c))"
  by (simp add: count_of_def split: prod.splits)

text \<open>
  At most \<open>limit\<close> pass by one counter: as many as it counts. In a stretch no longer than the
  window at most one counter ends, so there are at most two.
\<close>

definition one_counter :: "int \<Rightarrow> time \<Rightarrow> time \<Rightarrow> int \<Rightarrow> counter option \<Rightarrow> bool" where
  "one_counter limit until now a c \<longleftrightarrow>
     \<not> live now c \<and> a = 0 \<or> lasts until c \<and> 0 \<le> count_of c \<and> a \<le> min limit (count_of c)"

definition two_counters :: "int \<Rightarrow> time \<Rightarrow> int \<Rightarrow> counter option \<Rightarrow> bool" where
  "two_counters limit until a c \<longleftrightarrow>
     0 \<le> count_of c \<and>
     (a \<le> min limit (count_of c) \<or> lasts until c \<and> a \<le> limit + min limit (count_of c))"

text \<open>The three things a command does to a counter keep both.\<close>

lemma one_counter_later:
  "one_counter limit until now a c \<Longrightarrow> now \<le> now' \<Longrightarrow> a' \<le> a \<Longrightarrow> 0 \<le> a' \<Longrightarrow> one_counter limit until now' a' c"
  by (auto simp: one_counter_def live_def split: option.splits prod.splits)

lemma one_counter_INCR:
  assumes "one_counter limit until now a c" and "now < until" and "0 < limit" and "0 \<le> a"
    and "a' \<le> a + (if fst (counter_after now c) \<le> limit then 1 else 0)"
  shows "one_counter limit until now a' (Some (counter_after now c))"
proof (cases "live now c")
  case True
  then have lasts: "lasts until c" "0 \<le> count_of c" "a \<le> min limit (count_of c)"
    using assms(1) by (auto simp: one_counter_def)
  then show ?thesis
    using assms lasts_counted [of now c until] True
    by (auto simp: one_counter_def fst_counter_after count_of_counted split: if_splits)
next
  case False
  then have "a \<le> 0 \<or> lasts until c" using assms(1) by (auto simp: one_counter_def)
  then have "a \<le> 0" using False lasts_live [OF _ assms(2)] by blast
  then show ?thesis
    using assms lasts_counted [of now c until] False
    by (auto simp: one_counter_def fst_counter_after count_of_counted split: if_splits)
qed

lemma one_counter_EXPIRE:
  "one_counter limit until now a c \<Longrightarrow> until \<le> e \<Longrightarrow> one_counter limit until now a (ends_at now e c)"
  by (cases "live now c") (auto simp: one_counter_def lasts_ends ends_dead)

lemma two_counters_INCR:
  assumes "two_counters limit until a c" and "now < until" and "0 < limit"
    and "a' \<le> a + (if fst (counter_after now c) \<le> limit then 1 else 0)"
  shows "two_counters limit until a' (Some (counter_after now c))"
proof (cases "live now c")
  case True
  then show ?thesis
    using assms lasts_counted [of now c until]
    by (auto simp: two_counters_def fst_counter_after count_of_counted split: if_splits)
next
  case False
  then have "a \<le> limit" using assms(1) lasts_live [OF _ assms(2)] by (auto simp: two_counters_def)
  then show ?thesis
    using assms lasts_counted [of now c until] False
    by (auto simp: two_counters_def fst_counter_after count_of_counted split: if_splits)
qed

lemma two_counters_EXPIRE:
  "two_counters limit until a c \<Longrightarrow> until \<le> e \<Longrightarrow> two_counters limit until a (ends_at now e c)"
  by (cases "live now c") (auto simp: two_counters_def lasts_ends ends_dead)

lemma two_counters_less: "two_counters limit until a c \<Longrightarrow> a' \<le> a \<Longrightarrow> two_counters limit until a' c"
  by (auto simp: two_counters_def)

section \<open>A whole schedule\<close>

text \<open>A bound on the passing requests by the counter that commands keep holds after every schedule.\<close>

locale counter_bound =
  fixes limit :: int and until :: time and bound :: "time \<Rightarrow> int \<Rightarrow> counter option \<Rightarrow> bool"
  assumes bound_later: "bound now a c \<Longrightarrow> now \<le> now' \<Longrightarrow> a' \<le> a \<Longrightarrow> 0 \<le> a' \<Longrightarrow> bound now' a' c"
    and bound_INCR: "bound now a c \<Longrightarrow> now < until \<Longrightarrow> 0 < limit \<Longrightarrow> 0 \<le> a \<Longrightarrow> 0 \<le> a' \<Longrightarrow>
      a' \<le> a + (if fst (counter_after now c) \<le> limit then 1 else 0) \<Longrightarrow> bound now a' (Some (counter_after now c))"
    and bound_EXPIRE: "bound now a c \<Longrightarrow> until \<le> e \<Longrightarrow> bound now a (ends_at now e c)"
begin

lemma bound_command:
  assumes laws: "redis_counters_ok (rl_client l) at view" and whole: "counts_whole_seconds l"
    and limit: "limit = sint (rl_limit l)" and requests: "distinct requests"
    and kept: "bound now (int (granted_to l keys key requests st0 st)) (view k key)"
    and time: "now \<le> at c" "at c < until" "until \<le> at c + rl_window l"
    and run: "allow_command l (keys i) c (st i) k = (s', k')"
  shows "bound (at c) (int (granted_to l keys key requests st0 (st(i := s')))) (view k' key)"
proof -
  let ?a = "int (granted_to l keys key requests st0 st)"
    and ?a' = "int (granted_to l keys key requests st0 (st(i := s')))"
    and ?mine = "key = limitKey (rl_prefix l) (keys i)"
  have step: "?a' \<le> ?a + (if ?mine \<and> may_pass (rl_limit l) s' \<and> \<not> may_pass (rl_limit l) (st i) then 1 else 0)"
    using granted_to_step [OF requests, of l keys key st0 st i s'] by (auto split: if_splits)
  have now: "bound (at c) ?a (view k key)" using bound_later [OF kept time(1)] by simp
  have pos: "0 < limit" using whole limit by (simp add: counts_whole_seconds_def word_sless_alt)
  consider (same) "view k' key = view k key" "?a' \<le> ?a"
    | (INCR) "view k' key = Some (counter_after (at c) (view k key))"
        "?a' \<le> ?a + (if fst (counter_after (at c) (view k key)) \<le> limit then 1 else 0)"
    | (EXPIRE) "view k' key = ends_at (at c) (at c + rl_window l) (view k key)" "?a' \<le> ?a"
  proof (cases ?mine)
    case False
    then show thesis using that(1) command_effect [OF laws whole run, of key] step by simp
  next
    case True
    let ?g = "may_pass (rl_limit l) s' \<longrightarrow> may_pass (rl_limit l) (st i)"
    have less: "?a' \<le> ?a" if ?g using step that by (auto split: if_splits)
    from command_effect [OF laws whole run, of key] True
    have "view k' key = view k key \<and> ?g \<or>
        view k' key = Some (counter_after (at c) (view k key)) \<and>
          (may_pass (rl_limit l) s' \<longrightarrow> fst (counter_after (at c) (view k key)) \<le> limit) \<or>
        view k' key = ends_at (at c) (at c + rl_window l) (view k key) \<and> ?g"
      unfolding limit by argo
    then show thesis
    proof (elim disjE conjE)
      assume "view k' key = Some (counter_after (at c) (view k key))"
        and "may_pass (rl_limit l) s' \<longrightarrow> fst (counter_after (at c) (view k key)) \<le> limit"
      then show thesis using that(2) step by (simp split: if_splits)
    qed (use that less in blast)+
  qed
  then show ?thesis
  proof cases
    case same
    then show ?thesis using bound_later [OF now] by simp
  next
    case INCR
    then show ?thesis using bound_INCR [OF now time(2) pos _ _ INCR(2)] by simp
  next
    case EXPIRE
    then show ?thesis using bound_later [OF bound_EXPIRE [OF now time(3)] order_refl EXPIRE(2)] by simp
  qed
qed

lemma bound_schedule:
  assumes laws: "redis_counters_ok (rl_client l) at view" and whole: "counts_whole_seconds l"
    and limit: "limit = sint (rl_limit l)" and requests: "distinct requests"
    and "bound now (int (granted_to l keys key requests st0 st)) (view k key)"
    and "sorted (now # map (at \<circ> snd) sched)" and "list_all (\<lambda>x. at (snd x) < until \<and> until \<le> at (snd x) + rl_window l) sched"
    and "serve_commands l keys sched (st, k) = (st', k')"
  shows "\<exists>now'. bound now' (int (granted_to l keys key requests st0 st')) (view k' key)"
  using assms(5-8)
proof (induction sched arbitrary: now st k)
  case (Cons x sched)
  obtain i c where x: "x = (i, c)" by fastforce
  obtain s' k1 where run: "allow_command l (keys i) c (st i) k = (s', k1)" by fastforce
  have "bound (at c) (int (granted_to l keys key requests st0 (st(i := s')))) (view k1 key)"
    using bound_command [OF laws whole limit requests Cons.prems(1) _ _ _ run] Cons.prems(2,3) x by simp
  then show ?case
    by (rule Cons.IH) (use Cons.prems(2-4) x run in \<open>simp_all add: fun_upd_def\<close>)
qed auto

end

interpretation one: counter_bound limit until "one_counter limit until" for limit until
  by unfold_locales (auto intro: one_counter_later one_counter_INCR one_counter_EXPIRE)

interpretation two: counter_bound limit until "\<lambda>now. two_counters limit until" for limit until
  by unfold_locales (auto intro: two_counters_less two_counters_INCR two_counters_EXPIRE)

lemma granted_to_start [simp]: "granted_to l keys key requests st st = 0"
  by (auto simp: granted_to_def may_pass_def filter_empty_conv)

section \<open>A counter without an end\<close>

text \<open>
  \<open>EXPIRE\<close> is sent only by the request that counter_after 1: a counter that lost it never ends.
\<close>

definition endless ::
  "('c, 'k) redis_limiter \<Rightarrow> (nat \<Rightarrow> string) \<Rightarrow> string \<Rightarrow> ('k \<Rightarrow> string \<Rightarrow> counter option) \<Rightarrow> nat list \<Rightarrow>
   stages \<Rightarrow> int \<Rightarrow> stages \<Rightarrow> 'k \<Rightarrow> bool" where
  "endless l keys key view requests st0 n st k \<longleftrightarrow>
     (\<forall>i m. limitKey (rl_prefix l) (keys i) = key \<longrightarrow> st i \<noteq> Expiring m) \<and>
     (\<exists>m. view k key = Some (m, None) \<and> 1 \<le> n \<and> n \<le> m \<and>
        int (granted_to l keys key requests st0 st) \<le> max 0 (min (sint (rl_limit l)) m - n))"

lemma endless_command:
  assumes laws: "redis_counters_ok (rl_client l) at view" and whole: "counts_whole_seconds l"
    and requests: "distinct requests" and kept: "endless l keys key view requests st0 n st k"
    and run: "allow_command l (keys i) c (st i) k = (s', k')"
  shows "endless l keys key view requests st0 n (st(i := s')) k'"
proof -
  let ?mine = "key = limitKey (rl_prefix l) (keys i)" and ?limit = "sint (rl_limit l)"
  let ?a = "int (granted_to l keys key requests st0 st)"
    and ?a' = "int (granted_to l keys key requests st0 (st(i := s')))"
  have step: "?a' \<le> ?a + (if ?mine \<and> may_pass (rl_limit l) s' \<and> \<not> may_pass (rl_limit l) (st i) then 1 else 0)"
    using granted_to_step [OF requests, of l keys key st0 st i s'] by (auto split: if_splits)
  obtain m where m: "view k key = Some (m, None)" "1 \<le> n" "n \<le> m" "?a \<le> max 0 (min ?limit m - n)"
    and others: "\<And>j m. limitKey (rl_prefix l) (keys j) = key \<Longrightarrow> st j \<noteq> Expiring m"
    using kept unfolding endless_def by blast
  have counter_after: "counter_after (at c) (view k key) = (m + 1, None)"
    by (simp add: m(1) counter_after_def live_def)
  show ?thesis
  proof (cases "?mine \<and> view k' key \<noteq> view k key")
    case False
    then have "view k' key = view k key" "?mine \<Longrightarrow> \<forall>m. s' \<noteq> Expiring m"
      "?mine \<Longrightarrow> may_pass (rl_limit l) s' \<longrightarrow> may_pass (rl_limit l) (st i)"
      using command_effect [OF laws whole run, of key] others [of i] counter_after m(1) by auto
    then show ?thesis using m others step unfolding endless_def by (auto split: if_splits)
  next
    case True
    then have incr: "view k' key = Some (m + 1, None)" "may_pass (rl_limit l) s' \<longrightarrow> m + 1 \<le> ?limit"
      "\<forall>m. s' \<noteq> Expiring m"
      using command_effect [OF laws whole run, of key] others [of i] counter_after m(2,3) by auto
    moreover have "?a' \<le> max 0 (min ?limit (m + 1) - n)"
      using step m(2-4) incr(2) by (auto split: if_splits)
    ultimately show ?thesis using m(2,3) others unfolding endless_def by auto
  qed
qed

lemma endless_schedule:
  assumes laws: "redis_counters_ok (rl_client l) at view" and whole: "counts_whole_seconds l"
    and requests: "distinct requests" and "endless l keys key view requests st0 n st k"
    and "serve_commands l keys sched (st, k) = (st', k')"
  shows "endless l keys key view requests st0 n st' k'"
  using assms(4,5)
proof (induction sched arbitrary: st k)
  case (Cons x sched)
  obtain i c where x: "x = (i, c)" by fastforce
  obtain s' k1 where run: "allow_command l (keys i) c (st i) k = (s', k1)" by fastforce
  show ?case
    by (rule Cons.IH [OF endless_command [OF laws whole requests Cons.prems(1) run]])
      (use Cons.prems(2) x run in \<open>simp add: fun_upd_def\<close>)
qed auto

section \<open>The limit\<close>

text \<open>
  C29. However the commands of concurrent requests interleave and whichever of them fail, a key with no
  live counter at the start of a window is let through at most \<open>limit\<close> times in it, and any key at
  most \<open>2 * limit\<close> times in any stretch as long as the window: a request is let through only by the
  \<open>INCR\<close> that counts it.
\<close>

theorem requests_are_limited:
  assumes "redis_counters_ok (rl_client l) at view" and "counts_whole_seconds l" and "distinct requests"
    and "sorted (start # map (at \<circ> snd) sched)" and "list_all (\<lambda>x. at (snd x) < start + rl_window l) sched"
    and "0 \<le> count_of (view k key)" and "serve_commands l keys sched (st, k) = (st', k')"
  shows "int (length (admitted l keys key requests st st')) \<le>
    (if live start (view k key) then 2 * sint (rl_limit l) else sint (rl_limit l))"
proof -
  let ?until = "start + rl_window l" and ?limit = "sint (rl_limit l)"
  have times: "list_all (\<lambda>x. at (snd x) < ?until \<and> ?until \<le> at (snd x) + rl_window l) sched"
    using assms(4,5) by (auto simp: list_all_iff)
  have pos: "0 < ?limit" using assms(2) by (simp add: counts_whole_seconds_def word_sless_alt)
  have le: "length (admitted l keys key requests st st') \<le> granted_to l keys key requests st st'"
    by (rule admitted_le_granted)
  show ?thesis
  proof (cases "live start (view k key)")
    case True
    have "two_counters ?limit ?until (int (granted_to l keys key requests st st)) (view k key)"
      using assms(6) pos by (simp add: two_counters_def)
    from two.bound_schedule [OF assms(1,2) refl assms(3) this assms(4) times assms(7)]
    show ?thesis using le True pos by (auto simp: two_counters_def)
  next
    case False
    then have "one_counter ?limit ?until start (int (granted_to l keys key requests st st)) (view k key)"
      by (simp add: one_counter_def)
    from one.bound_schedule [OF assms(1,2) refl assms(3) this assms(4) times assms(7)]
    show ?thesis using le False pos by (auto simp: one_counter_def)
  qed
qed

text \<open>
  C30. When the request that counter_after 1 does not get its \<open>EXPIRE\<close> through, the counter has no end and
  is never given one: from then on, for all time, the key is let through only for what is left of one
  limit, and is refused after that although the answers name a time to retry after.
\<close>

theorem lost_expiry_blocks:
  assumes "redis_counters_ok (rl_client l) at view" and "counts_whole_seconds l" and "distinct requests"
    and "view k key = Some (n, None)" and "1 \<le> n"
    and "\<And>i m. limitKey (rl_prefix l) (keys i) = key \<Longrightarrow> st i \<noteq> Expiring m"
    and "serve_commands l keys sched (st, k) = (st', k')"
  shows "int (length (admitted l keys key requests st st')) \<le> max 0 (sint (rl_limit l) - n) \<and>
    snd (the (view k' key)) = None"
proof -
  have "endless l keys key view requests st n st k"
    using assms(4-6) by (auto simp: endless_def)
  from endless_schedule [OF assms(1-3) this assms(7)]
  show ?thesis using admitted_le_granted [of l keys key requests st st'] unfolding endless_def by auto
qed

section \<open>A server\<close>

text \<open>A Redis server that serves commands at given times and fails when it is told to.\<close>

record redis_call =
  rd_at :: time
  rd_err :: "error option"

definition plain_counters :: "(redis_call, (string \<times> counter) list) redis_counters" where
  "plain_counters =
     \<lparr>rk_Incr = (\<lambda>c key s. let n = counter_after (rd_at c) (map_of s key) in
        case rd_err c of Some err \<Rightarrow> (Inl err, s)
        | None \<Rightarrow>
            if - (2 ^ 63) \<le> fst n \<and> fst n < 2 ^ 63 then (Inr (word_of_int (fst n)), AList.update key n s)
            else (Inl (DbErr ''increment or decrement would overflow''), s)),
      rk_Expire = (\<lambda>c key d s.
        case rd_err c of Some err \<Rightarrow> (Inl err, s)
        | None \<Rightarrow> (Inr (), case ends_at (rd_at c) (rd_at c + d) (map_of s key) of
            None \<Rightarrow> s | Some n \<Rightarrow> AList.update key n s)),
      rk_TTL = (\<lambda>c key s.
        case rd_err c of Some err \<Rightarrow> (Inl err, s)
        | None \<Rightarrow> (Inr (case map_of s key of
            None \<Rightarrow> - 2 | Some (n, None) \<Rightarrow> - 1 | Some (n, Some e) \<Rightarrow> (e - rd_at c) div second * second), s))\<rparr>"

lemma plain_counters_ok: "redis_counters_ok plain_counters rd_at map_of"
  unfolding redis_counters_ok_def plain_counters_def
  by (auto simp: Let_def ends_at_def sint_sbintrunc' signed_take_bit_int_eq_self
      split: option.splits if_splits)

definition pair_limiter :: "(redis_call, (string \<times> counter) list) redis_limiter" where
  "pair_limiter = \<lparr>rl_client = plain_counters, rl_prefix = ''paycore:rate_limit'', rl_limit = 2, rl_window = minute\<rparr>"

definition after_seconds :: "int \<Rightarrow> redis_call" where
  "after_seconds n = \<lparr>rd_at = n * second, rd_err = None\<rparr>"

definition lost_after :: "int \<Rightarrow> redis_call" where
  "lost_after n = \<lparr>rd_at = n * second, rd_err = Some (CtxErr ''context canceled'')\<rparr>"

text \<open>Three requests of one client at once, and two counter_after before the first has set the end.\<close>

definition three_at_once :: "(nat \<times> redis_call) list" where
  "three_at_once = [(0, after_seconds 1), (1, after_seconds 1), (0, after_seconds 2), (2, after_seconds 3),
     (2, after_seconds 3)]"

definition same_client :: "nat \<Rightarrow> string" where "same_client i = ''10.0.0.1''"

theorem requests_are_limited_witness:
  "\<exists>st' k'. serve_commands pair_limiter same_client three_at_once (\<lambda>i. Counting, []) = (st', k') \<and>
     int (length (admitted pair_limiter same_client ''paycore:rate_limit:10.0.0.1'' [0, 1, 2] (\<lambda>i. Counting) st')) \<le> 2"
proof -
  obtain st' k' where run: "serve_commands pair_limiter same_client three_at_once (\<lambda>i. Counting, []) = (st', k')"
    by fastforce
  have "counts_whole_seconds pair_limiter" "sint (rl_limit pair_limiter) = 2"
    by (simp_all add: counts_whole_seconds_def pair_limiter_def minute_def second_def word_sless_alt)
  moreover have "redis_counters_ok (rl_client pair_limiter) rd_at map_of"
    using plain_counters_ok by (simp add: pair_limiter_def)
  ultimately show ?thesis
    using requests_are_limited [OF _ _ _ _ _ _ run, of rd_at map_of "[0, 1, 2]" 0 "''paycore:rate_limit:10.0.0.1''"] run
    by (auto simp: three_at_once_def after_seconds_def pair_limiter_def minute_def second_def count_of_def live_def)
qed

theorem lost_expiry_blocks_witness:
  "\<exists>st k st' k'. serve_commands pair_limiter same_client
       [(0, after_seconds 1), (0, lost_after 1), (1, after_seconds 2)] (\<lambda>i. Counting, []) = (st, k) \<and>
     serve_commands pair_limiter same_client [(2, after_seconds 86400), (2, after_seconds 86400)] (st, k) = (st', k') \<and>
     length (admitted pair_limiter same_client ''paycore:rate_limit:10.0.0.1'' [2] st st') = 0"
proof -
  obtain st k where run: "serve_commands pair_limiter same_client
      [(0, after_seconds 1), (0, lost_after 1), (1, after_seconds 2)] (\<lambda>i. Counting, []) = (st, k)" by fastforce
  obtain st' k' where day: "serve_commands pair_limiter same_client
      [(2, after_seconds 86400), (2, after_seconds 86400)] (st, k) = (st', k')" by fastforce
  have key: "limitKey ''paycore:rate_limit'' ''10.0.0.1'' = ''paycore:rate_limit:10.0.0.1''"
    by (simp add: limitKey_def trim_space_def trim_left_def go_is_space_def rune_def)
  have state: "map_of k ''paycore:rate_limit:10.0.0.1'' = Some (2, None)" "\<And>i m. st i \<noteq> Expiring m"
    using run by (auto simp: pair_limiter_def same_client_def plain_counters_def after_seconds_def lost_after_def
        counter_after_def live_def counted_stage_def key Let_def split: if_splits)
  have "counts_whole_seconds pair_limiter" "sint (rl_limit pair_limiter) = 2"
    by (simp_all add: counts_whole_seconds_def pair_limiter_def minute_def second_def word_sless_alt)
  moreover have "redis_counters_ok (rl_client pair_limiter) rd_at map_of"
    using plain_counters_ok by (simp add: pair_limiter_def)
  ultimately show ?thesis
    using lost_expiry_blocks [where view = map_of and at = rd_at and requests = "[2]" and n = 2
        and key = "''paycore:rate_limit:10.0.0.1''", OF _ _ _ state(1) _ _ day] state(2) run day by auto
qed

end
