(* ===== verification/HttpGuarantees.thy ===== *)
theory HttpGuarantees
  imports HttpRouter RateLimitGuarantees PaymentHandlerGuarantees
begin

text \<open>
  What holds for every request that enters the router: it is answered whatever its handler does, and the
  payment endpoints are reached neither past the rate limit nor with a body over the limit.
\<close>

section \<open>Through the middleware\<close>

text \<open>The request as the mux sees it.\<close>

definition inner_request :: "web_env \<Rightarrow> web_request \<Rightarrow> web_request" where
  "inner_request env r =
     r\<lparr>wq_request_id := Some (if wq_header r ''X-Request-ID'' = '''' then newRequestID env
         else wq_header r ''X-Request-ID''),
       wq_Body := max_bytes_reader 1048576 (wq_Body r)\<rparr>"

lemma inner_request_sel [simp]:
  "wq_Method (inner_request env r) = wq_Method r" "wq_Path (inner_request env r) = wq_Path r"
  "wq_header (inner_request env r) = wq_header r" "wq_RemoteAddr (inner_request env r) = wq_RemoteAddr r"
  "wq_Body (inner_request env r) = max_bytes_reader 1048576 (wq_Body r)"
  by (simp_all add: inner_request_def)

lemma rateLimitKey_inner [simp]: "rateLimitKey (inner_request env r) = rateLimitKey r"
  by (simp add: rateLimitKey_def)

lemma metricsMiddleware_calls:
  assumes "metricsMiddleware route next r u = (sv, u')"
  shows "\<exists>sv0. next r u = (sv0, u') \<and> sv_calls sv = sv_calls sv0 \<and> sv_panic sv = sv_panic sv0"
  using assms by (auto simp: metricsMiddleware_def Let_def split: prod.splits option.splits)

lemma loggingMiddleware_calls:
  assumes "loggingMiddleware next r u = (sv, u')"
  shows "\<exists>sv0. next r u = (sv0, u') \<and> sv_calls sv = sv_calls sv0 \<and> sv_panic sv = sv_panic sv0"
  using assms by (auto simp: loggingMiddleware_def Let_def split: prod.splits option.splits)

lemma NewRouter_dispatch:
  assumes "NewRouter config lib env r u = (sv, u')"
  shows "\<exists>sv0. dispatch config lib env (inner_request env r) u = (sv0, u') \<and> sv_panic sv = None \<and>
    (\<exists>requestID calls. sv_calls sv = SetHeader ''X-Request-ID'' requestID # calls \<and>
       wq_request_id (inner_request env r) = Some requestID \<and>
       rw_status calls = (if sv_panic sv0 = None then rw_status (sv_calls sv0)
         else case rw_status (sv_calls sv0) of None \<Rightarrow> Some 500 | Some code \<Rightarrow> Some code))"
proof -
  let ?rq = "r\<lparr>wq_request_id := wq_request_id (inner_request env r)\<rparr>"
  let ?router = "dispatch config lib env"
    and ?measured = "if cfg_Metrics config
      then metricsMiddleware
        (\<lambda>r. Some (cm_pattern (chi_route lib (routes config) (wq_Method r) (wq_Path r)))) (dispatch config lib env)
      else dispatch config lib env"
  obtain sv1 u1 where logged: "loggingMiddleware (bodyLimitMiddleware 1048576 ?measured) ?rq u = (sv1, u1)"
    by fastforce
  obtain sv2 where measured: "bodyLimitMiddleware 1048576 ?measured ?rq u = (sv2, u1)"
    "sv_calls sv1 = sv_calls sv2" "sv_panic sv1 = sv_panic sv2"
    using loggingMiddleware_calls [OF logged] by (elim exE conjE)
  have limited: "?measured (inner_request env r) u = (sv2, u1)"
    using measured(1) by (simp add: bodyLimitMiddleware_def inner_request_def Let_def)
  obtain sv0 where inner: "?router (inner_request env r) u = (sv0, u1)"
    "sv_calls sv2 = sv_calls sv0" "sv_panic sv2 = sv_panic sv0"
  proof (cases "cfg_Metrics config")
    case True
    with limited have "metricsMiddleware
        (\<lambda>r. Some (cm_pattern (chi_route lib (routes config) (wq_Method r) (wq_Path r)))) ?router
        (inner_request env r) u = (sv2, u1)" by simp
    from metricsMiddleware_calls [OF this] show thesis using that by blast
  next
    case False
    with limited have "?router (inner_request env r) u = (sv2, u1)" by simp
    then show thesis using that by blast
  qed
  let ?id = "if wq_header r ''X-Request-ID'' = '''' then newRequestID env else wq_header r ''X-Request-ID''"
  have ran: "NewRouter config lib env r u = (let (sv, u') = recoveryMiddleware env
      (loggingMiddleware (bodyLimitMiddleware 1048576 ?measured)) ?rq u
      in (sv\<lparr>sv_calls := SetHeader ''X-Request-ID'' ?id # sv_calls sv\<rparr>, u'))"
    by (simp add: NewRouter_def requestIDMiddleware_def inner_request_def Let_def)
  have id: "wq_request_id (inner_request env r) = Some ?id" by (simp add: inner_request_def)
  show ?thesis
  proof (cases "sv_panic sv1")
    case None
    then have "sv = sv1\<lparr>sv_calls := SetHeader ''X-Request-ID'' ?id # sv_calls sv1\<rparr>" "u' = u1"
      using assms unfolding ran by (simp_all add: recoveryMiddleware_def logged)
    then show ?thesis
      using None measured(2,3) inner id by (intro exI [of _ sv0] conjI exI [of _ ?id] exI [of _ "sv_calls sv0"]) simp_all
  next
    case (Some p)
    let ?calls = "writeError env ?rq 500 ''INTERNAL_SERVER_ERROR'' ''Internal server error'' (sv_calls sv1)"
    from Some have "u' = u1" "sv_calls sv = SetHeader ''X-Request-ID'' ?id # ?calls" "sv_panic sv = None"
      using assms unfolding ran by (auto simp: recoveryMiddleware_def logged Let_def)
    then show ?thesis
      using Some measured(2,3) inner id by (intro exI [of _ sv0] conjI exI [of _ ?id] exI [of _ ?calls])
        (simp_all split: option.splits)
  qed
qed

text \<open>
  C31. No panic of a handler leaves the router: every answer carries the identifier of the request first,
  the client's own if it sent one, and has the status of the handler; a handler that panics before it
  has written a status is answered 500, and one that panics later keeps the status it has written.
\<close>

theorem every_request_is_answered:
  "\<exists>requestID calls. sv_panic (fst (NewRouter config lib env r u)) = None \<and>
    sv_calls (fst (NewRouter config lib env r u)) = SetHeader ''X-Request-ID'' requestID # calls \<and>
    requestID = (if wq_header r ''X-Request-ID'' = '''' then newRequestID env else wq_header r ''X-Request-ID'') \<and>
    answer_status (fst (NewRouter config lib env r u)) =
      (let inner = fst (dispatch config lib env (inner_request env r) u) in
       if sv_panic inner \<noteq> None \<and> rw_status (sv_calls inner) = None then 500 else answer_status inner)"
proof -
  obtain sv u' where run: "NewRouter config lib env r u = (sv, u')" by fastforce
  obtain sv0 where inner: "dispatch config lib env (inner_request env r) u = (sv0, u')" "sv_panic sv = None"
    and rest: "\<exists>requestID calls. sv_calls sv = SetHeader ''X-Request-ID'' requestID # calls \<and>
       wq_request_id (inner_request env r) = Some requestID \<and>
       rw_status calls = (if sv_panic sv0 = None then rw_status (sv_calls sv0)
         else case rw_status (sv_calls sv0) of None \<Rightarrow> Some 500 | Some code \<Rightarrow> Some code)"
    using NewRouter_dispatch [OF run] by blast
  then obtain requestID calls where calls: "sv_calls sv = SetHeader ''X-Request-ID'' requestID # calls"
    "wq_request_id (inner_request env r) = Some requestID"
    "rw_status calls = (if sv_panic sv0 = None then rw_status (sv_calls sv0)
       else case rw_status (sv_calls sv0) of None \<Rightarrow> Some 500 | Some code \<Rightarrow> Some code)" by blast
  have "answer_status sv = (if sv_panic sv0 \<noteq> None \<and> rw_status (sv_calls sv0) = None then 500 else answer_status sv0)"
    unfolding answer_status_def calls(1) rw_status_SetHeader calls(3) by (simp split: option.split)
  then show ?thesis
    unfolding run fst_conv using calls(1,2) inner
    by (intro exI [of _ requestID] exI [of _ calls] conjI) (simp_all add: inner_request_def Let_def)
qed

text \<open>The status of an answer, from that of the handler the mux has run.\<close>

lemma NewRouter_status:
  assumes "NewRouter config lib env r u = (sv, u')" and "dispatch config lib env (inner_request env r) u = (sv0, u0)"
    and "sv_panic sv0 = None"
  shows "u' = u0 \<and> sv_panic sv = None \<and> answer_status sv = answer_status sv0"
  using NewRouter_dispatch [OF assms(1)] assms(2,3) by (auto simp: answer_status_def)

section \<open>A request\<close>

text \<open>A router with the payment endpoints, and a request of one client for \<open>/payments/authorize\<close>.\<close>

definition plain_chi :: chi where
  "plain_chi =
     \<lparr>chi_route = (\<lambda>table method path.
        if path = ''/payments/authorize'' \<and> rt_mounted table \<noteq> None
        then \<lparr>cm_outcome = (if method = ''POST'' then RouteFound AuthorizeEndpoint '''' else NoMethod),
              cm_pattern = ''/payments/authorize'', cm_mounted = True\<rparr>
        else \<lparr>cm_outcome = NoRoute, cm_pattern = '''', cm_mounted = False\<rparr>),
      chi_not_allowed = [WriteHeader 405]\<rparr>"

type_synonym shop_state = "(pgdb \<times> (idem_record gomap \<times> (string \<times> redis_value) list)) \<times> (string \<times> counter) list"

definition shop_router :: "(string \<Rightarrow> (shop_state, limit_result) act) option \<Rightarrow> shop_state router_config" where
  "shop_router lim =
     \<lparr>cfg_ServiceName = ''paycore-api'', cfg_Version = ''0.1.0'', cfg_StartedAt = 0, cfg_MerchantHandler = None,
      cfg_PayerHandler = None, cfg_PaymentHandler = Some (payment_web_handler shop_handler (shop_env 1)),
      cfg_MetricsHandler = None, cfg_Metrics = True, cfg_RateLimiter = lim\<rparr>"

definition shop_call :: "bytes \<Rightarrow> web_request" where
  "shop_call body =
     \<lparr>wq_Method = ''POST'', wq_Path = ''/payments/authorize'', wq_Body = (body, None),
      wq_header = (\<lambda>name. if name = ''Idempotency-Key'' then ''k'' else ''''), wq_RemoteAddr = ''10.0.0.1'',
      wq_request_id = None, wq_payment_id = ''''\<rparr>"

definition shop_web :: web_env where
  "shop_web = \<lparr>wenv_rand = Inr (replicate 16 0), wenv_now = day\<rparr>"

lemma shop_router_sel:
  "cfg_PaymentHandler (shop_router lim) = Some (payment_web_handler shop_handler (shop_env 1))"
  "cfg_RateLimiter (shop_router lim) = lim"
  "chi_route plain_chi (routes (shop_router lim)) (wq_Method (shop_call body)) (wq_Path (shop_call body)) =
     \<lparr>cm_outcome = RouteFound AuthorizeEndpoint '''', cm_pattern = ''/payments/authorize'', cm_mounted = True\<rparr>"
  "rateLimitKey (shop_call body) = ''10.0.0.1''"
  by (simp_all add: shop_router_def plain_chi_def routes_def shop_call_def rateLimitKey_def trim_space_def
      trim_left_def go_is_space_def rune_def)

section \<open>The payment endpoints\<close>

text \<open>
  C32. A request below \<open>/payments\<close> that the limiter refuses, or cannot count because Redis does not
  answer, is answered 429 or 503 and touches neither the payments nor the idempotency records.
\<close>

theorem refused_request_touches_nothing:
  assumes "cfg_RateLimiter config = Some (limiter_of l calls)"
    and "cm_mounted (chi_route lib (routes config) (wq_Method r) (wq_Path r))"
    and "Allow l calls (rateLimitKey r) k = (res, k')"
    and "case res of Inl err \<Rightarrow> True | Inr answer \<Rightarrow> \<not> lr_Allowed answer"
    and "NewRouter config lib env r (w, k) = (sv, u')"
  shows "u' = (w, k') \<and> answer_status sv = (case res of Inl err \<Rightarrow> 503 | Inr answer \<Rightarrow> 429)"
proof -
  obtain sv0 u0 where inner: "dispatch config lib env (inner_request env r) (w, k) = (sv0, u0)"
    by (metis prod.exhaust)
  have unavailable: "res = Inl ErrLimiterUnavailable" if "res = Inl err" for err
    using assms(3) that by (auto simp: Allow_def Let_def split: prod.splits sum.splits if_splits)
  have "sv_panic sv0 = None \<and> u0 = (w, k') \<and>
      answer_status sv0 = (case res of Inl err \<Rightarrow> 503 | Inr answer \<Rightarrow> 429)"
  proof (cases res)
    case (Inl err)
    with unavailable have "res = Inl ErrLimiterUnavailable" by blast
    then show ?thesis
      using inner assms(1-3)
      by (auto simp: dispatch_def Let_def limiter_of_def rateLimitMiddleware_def answer_status_def)
  next
    case (Inr answer)
    then have "\<not> lr_Allowed answer" using assms(4) by simp
    then show ?thesis
      using inner assms(1-3) Inr
      by (auto simp: dispatch_def Let_def limiter_of_def rateLimitMiddleware_def answer_status_def)
  qed
  then show ?thesis using NewRouter_status [OF assms(5) inner] by simp
qed

theorem refused_request_touches_nothing_witness:
  "\<exists>sv k'. NewRouter (shop_router (Some (limiter_of pair_limiter
        \<lparr>le_incr = after_seconds 1, le_expire = after_seconds 1, le_ttl = after_seconds 1\<rparr>))) plain_chi shop_web
      (shop_call ''{}'') ((run_payer, ([], [])), [(''paycore:rate_limit:10.0.0.1'', (2, Some minute))]) =
      (sv, ((run_payer, ([], [])), k')) \<and> answer_status sv = 429"
proof -
  let ?calls = "\<lparr>le_incr = after_seconds 1, le_expire = after_seconds 1, le_ttl = after_seconds 1\<rparr>"
    and ?counters = "[(''paycore:rate_limit:10.0.0.1'', (2 :: int, Some minute))]"
  obtain sv u' where run: "NewRouter (shop_router (Some (limiter_of pair_limiter ?calls))) plain_chi shop_web
      (shop_call ''{}'') ((run_payer, ([], [])), ?counters) = (sv, u')" by (metis prod.exhaust)
  obtain res k' where allow: "Allow pair_limiter ?calls ''10.0.0.1'' ?counters = (res, k')" by (metis prod.exhaust)
  have "limitKey ''paycore:rate_limit'' ''10.0.0.1'' = ''paycore:rate_limit:10.0.0.1''"
    by (simp add: limitKey_def trim_space_def trim_left_def go_is_space_def rune_def)
  then have "\<exists>answer. res = Inr answer \<and> \<not> lr_Allowed answer"
    using allow by (auto simp: Allow_def pair_limiter_def plain_counters_def after_seconds_def counter_after_def live_def
        limit_answer_def word_sle_eq minute_def second_def Let_def)
  then show ?thesis
    using refused_request_touches_nothing [OF shop_router_sel(2) _ _ _ run] allow run
    by (auto simp: shop_router_sel)
qed

text \<open>
  A payment request with a body of more than 1 MiB is answered 400 without an idempotency record and
  without reaching the payments, whatever the handler it is for.
\<close>

theorem oversized_body_is_refused:
  assumes "cfg_PaymentHandler config = Some (payment_web_handler h henv)" and "cfg_RateLimiter config = None"
    and "cm_outcome (chi_route lib (routes config) (wq_Method r) (wq_Path r)) = RouteFound e payment_id"
    and "e = AuthorizeEndpoint \<and> wq_Path r = ''/payments/authorize'' \<or> e = CaptureEndpoint \<and> payment_id \<noteq> ''''"
    and "wq_Method r = ''POST''" and "1048576 < length (fst (wq_Body r))"
    and "NewRouter config lib env r u = (sv, u')"
  shows "u' = u \<and> answer_status sv = 400"
proof -
  obtain sv0 u0 where inner: "dispatch config lib env (inner_request env r) u = (sv0, u0)"
    by (metis prod.exhaust)
  have body: "read_all (max_bytes_reader 1048576 (wq_Body r)) = Inl (ErrMsg ''http: request body too large'')"
    using assms(6) by (simp add: max_bytes_reader_def read_all_def)
  have "endpoint_handler config e = payment_web_handler h henv"
    using assms(1,4) by (auto simp: no_handler_def)
  then have "sv_panic sv0 = None \<and> u0 = u \<and> answer_status sv0 = 400"
    using inner assms(2-5) body
    by (auto simp: dispatch_def Let_def payment_web_handler_def payment_request_def ServeHTTP_def HandleAuthorize_def
        HandleCapture_def untouched_def only_calls_def answer_status_def unreadable_body_def recorder_error_def
        recorder_Write_new split: if_splits prod.splits)
  then show ?thesis using NewRouter_status [OF assms(7) inner] by simp
qed

theorem oversized_body_is_refused_witness:
  "\<exists>sv. NewRouter (shop_router None) plain_chi shop_web (shop_call (replicate 1048577 CHR ''x''))
      ((run_payer, ([], [])), []) = (sv, ((run_payer, ([], [])), [])) \<and> answer_status sv = 400"
proof -
  let ?r = "shop_call (replicate 1048577 CHR ''x'')"
  obtain sv u' where run: "NewRouter (shop_router None) plain_chi shop_web ?r ((run_payer, ([], [])), []) = (sv, u')"
    by (metis prod.exhaust)
  have found: "cm_outcome (chi_route plain_chi (routes (shop_router None)) (wq_Method ?r) (wq_Path ?r)) =
      RouteFound AuthorizeEndpoint ''''" by (simp only: shop_router_sel chi_match.simps)
  have "wq_Path ?r = ''/payments/authorize''" "wq_Method ?r = ''POST''" "1048576 < length (fst (wq_Body ?r))"
    by (simp_all add: shop_call_def)
  then show ?thesis
    using oversized_body_is_refused [OF shop_router_sel(1,2) found _ _ _ run] run by simp
qed

end
