(* ===== verification/Metrics.thy ===== *)
theory Metrics
  imports PaymentService SettlementService OutboxWorker Idempotency HttpMiddleware
begin

text \<open>
  \<open>internal/shared/metrics/metrics.go\<close>: the collectors of the program and what is reported to
  them. The Prometheus library keeps the samples; what the code decides is which collectors there are,
  with which labels, and which calls it makes on them. A call on a vector carries the values of its
  labels; a duration is observed in seconds, here by its nanoseconds.
\<close>

section \<open>Collectors\<close>

datatype collector_kind = Counter | CounterVec | Gauge | HistogramVec

record collector =
  cl_kind :: collector_kind
  cl_name :: string
  cl_labels :: "string list"

definition NewCounterVec :: "string \<Rightarrow> string list \<Rightarrow> collector" where
  "NewCounterVec name labels = \<lparr>cl_kind = CounterVec, cl_name = name, cl_labels = labels\<rparr>"

definition NewHistogramVec :: "string \<Rightarrow> string list \<Rightarrow> collector" where
  "NewHistogramVec name labels = \<lparr>cl_kind = HistogramVec, cl_name = name, cl_labels = labels\<rparr>"

definition NewCounter :: "string \<Rightarrow> collector" where
  "NewCounter name = \<lparr>cl_kind = Counter, cl_name = name, cl_labels = []\<rparr>"

definition NewGauge :: "string \<Rightarrow> collector" where
  "NewGauge name = \<lparr>cl_kind = Gauge, cl_name = name, cl_labels = []\<rparr>"

record metrics =
  httpRequestsTotal :: collector
  httpRequestDuration :: collector
  settlementBatchTotal :: collector
  settlementBatchDuration :: collector
  settlementPaymentsTotal :: collector
  settlementRecoveredBatchesTotal :: collector
  outboxClaimedEventsTotal :: collector
  outboxPublishAttemptsTotal :: collector
  outboxPublishFailuresTotal :: collector
  outboxEventsPublishedTotal :: collector
  outboxPendingEvents :: collector
  outboxPublishLag :: collector
  rateLimitAllowedTotal :: collector
  rateLimitRejectedTotal :: collector
  rateLimitRedisErrorsTotal :: collector
  rateLimitCheckDuration :: collector
  idempotencyCacheHitsTotal :: collector
  idempotencyCacheMissesTotal :: collector
  idempotencyCacheErrorsTotal :: collector
  idempotencyPostgresFallbackTotal :: collector
  authorizationTotal :: collector
  authorizationLatency :: collector
  captureTotal :: collector
  captureLatency :: collector
  payerVersionConflictsTotal :: collector

definition New :: metrics where
  "New =
     \<lparr>httpRequestsTotal = NewCounterVec ''paycore_http_requests_total'' [''method'', ''route'', ''status''],
      httpRequestDuration =
        NewHistogramVec ''paycore_http_request_duration_seconds'' [''method'', ''route'', ''status''],
      settlementBatchTotal = NewCounterVec ''paycore_settlement_batch_total'' [''status''],
      settlementBatchDuration = NewHistogramVec ''paycore_settlement_batch_duration_seconds'' [''status''],
      settlementPaymentsTotal = NewCounter ''paycore_settlement_payments_total'',
      settlementRecoveredBatchesTotal = NewCounter ''paycore_settlement_recovered_batches_total'',
      outboxClaimedEventsTotal = NewCounterVec ''paycore_outbox_claimed_events_total'' [''publisher''],
      outboxPublishAttemptsTotal = NewCounterVec ''paycore_outbox_publish_attempts_total'' [''publisher''],
      outboxPublishFailuresTotal = NewCounterVec ''paycore_outbox_publish_failures_total'' [''publisher''],
      outboxEventsPublishedTotal = NewCounterVec ''paycore_outbox_events_published_total'' [''publisher''],
      outboxPendingEvents = NewGauge ''paycore_outbox_pending_events'',
      outboxPublishLag = NewGauge ''paycore_outbox_publish_lag_seconds'',
      rateLimitAllowedTotal = NewCounter ''paycore_rate_limit_allowed_total'',
      rateLimitRejectedTotal = NewCounter ''paycore_rate_limit_rejected_total'',
      rateLimitRedisErrorsTotal = NewCounter ''paycore_rate_limit_redis_errors_total'',
      rateLimitCheckDuration = NewHistogramVec ''paycore_rate_limit_check_duration_seconds'' [''result''],
      idempotencyCacheHitsTotal = NewCounter ''paycore_idempotency_cache_hits_total'',
      idempotencyCacheMissesTotal = NewCounter ''paycore_idempotency_cache_misses_total'',
      idempotencyCacheErrorsTotal = NewCounter ''paycore_idempotency_cache_errors_total'',
      idempotencyPostgresFallbackTotal = NewCounter ''paycore_idempotency_postgres_fallback_total'',
      authorizationTotal = NewCounterVec ''paycore_authorization_total'' [''result''],
      authorizationLatency = NewHistogramVec ''paycore_authorization_latency_seconds'' [''result''],
      captureTotal = NewCounterVec ''paycore_capture_total'' [''result''],
      captureLatency = NewHistogramVec ''paycore_capture_latency_seconds'' [''result''],
      payerVersionConflictsTotal = NewCounter ''paycore_payer_version_conflicts_total''\<rparr>"

text \<open>What is registered beside the collectors of the Go runtime and of the process.\<close>

definition registered :: "metrics \<Rightarrow> collector list" where
  "registered m =
     [httpRequestsTotal m, httpRequestDuration m, settlementBatchTotal m, settlementBatchDuration m,
      settlementPaymentsTotal m, settlementRecoveredBatchesTotal m, outboxClaimedEventsTotal m,
      outboxPublishAttemptsTotal m, outboxPublishFailuresTotal m, outboxEventsPublishedTotal m,
      outboxPendingEvents m, outboxPublishLag m, rateLimitAllowedTotal m, rateLimitRejectedTotal m,
      rateLimitRedisErrorsTotal m, rateLimitCheckDuration m, idempotencyCacheHitsTotal m,
      idempotencyCacheMissesTotal m, idempotencyCacheErrorsTotal m, idempotencyPostgresFallbackTotal m,
      authorizationTotal m, authorizationLatency m, captureTotal m, captureLatency m,
      payerVersionConflictsTotal m]"

section \<open>Reporting\<close>

datatype metric_call =
    Inc collector "string list"
  | Add collector "string list" int
  | SetGauge collector int
  | SetGaugeSeconds collector duration
  | Observe collector "string list" duration

definition Metrics_ObserveHTTPRequest :: "metrics \<Rightarrow> string \<Rightarrow> string \<Rightarrow> int \<Rightarrow> duration \<Rightarrow> metric_call list" where
  "Metrics_ObserveHTTPRequest m method route statusCode d =
     (let status = int_text statusCode in
      [Inc (httpRequestsTotal m) [method, route, status],
       Observe (httpRequestDuration m) [method, route, status] d])"

definition Metrics_ObserveSettlementBatch :: "metrics \<Rightarrow> string \<Rightarrow> int \<Rightarrow> duration \<Rightarrow> metric_call list" where
  "Metrics_ObserveSettlementBatch m status payments d =
     [Inc (settlementBatchTotal m) [status], Observe (settlementBatchDuration m) [status] d] @
     (if 0 < payments then [Add (settlementPaymentsTotal m) [] payments] else [])"

definition Metrics_ObserveSettlementRecoveredBatches :: "metrics \<Rightarrow> int \<Rightarrow> metric_call list" where
  "Metrics_ObserveSettlementRecoveredBatches m n = (if 0 < n then [Add (settlementRecoveredBatchesTotal m) [] n] else [])"

definition Metrics_ObserveOutboxBatch :: "metrics \<Rightarrow> string \<Rightarrow> int \<Rightarrow> int \<Rightarrow> int \<Rightarrow> metric_call list" where
  "Metrics_ObserveOutboxBatch m publisher claimed published failed =
     (let attempts = published + failed in
      (if 0 < claimed then [Add (outboxClaimedEventsTotal m) [publisher] claimed] else []) @
      (if 0 < attempts then [Add (outboxPublishAttemptsTotal m) [publisher] attempts] else []) @
      (if 0 < published then [Add (outboxEventsPublishedTotal m) [publisher] published] else []) @
      (if 0 < failed then [Add (outboxPublishFailuresTotal m) [publisher] failed] else []))"

definition Metrics_ObserveOutboxStats :: "metrics \<Rightarrow> int \<Rightarrow> duration \<Rightarrow> metric_call list" where
  "Metrics_ObserveOutboxStats m pendingEvents publishLag =
     [SetGauge (outboxPendingEvents m) pendingEvents, SetGaugeSeconds (outboxPublishLag m) publishLag]"

definition Metrics_ObserveRateLimit :: "metrics \<Rightarrow> string \<Rightarrow> duration \<Rightarrow> metric_call list" where
  "Metrics_ObserveRateLimit m result d =
     (if result = ''allowed'' then [Inc (rateLimitAllowedTotal m) []]
      else if result = ''rejected'' then [Inc (rateLimitRejectedTotal m) []]
      else if result = ''redis_error'' then [Inc (rateLimitRedisErrorsTotal m) []]
      else []) @ [Observe (rateLimitCheckDuration m) [result] d]"

definition Metrics_ObserveIdempotencyCacheHit :: "metrics \<Rightarrow> metric_call list" where
  "Metrics_ObserveIdempotencyCacheHit m = [Inc (idempotencyCacheHitsTotal m) []]"

definition Metrics_ObserveIdempotencyCacheMiss :: "metrics \<Rightarrow> metric_call list" where
  "Metrics_ObserveIdempotencyCacheMiss m = [Inc (idempotencyCacheMissesTotal m) []]"

definition Metrics_ObserveIdempotencyCacheError :: "metrics \<Rightarrow> metric_call list" where
  "Metrics_ObserveIdempotencyCacheError m = [Inc (idempotencyCacheErrorsTotal m) []]"

definition Metrics_ObserveIdempotencyPostgresFallback :: "metrics \<Rightarrow> metric_call list" where
  "Metrics_ObserveIdempotencyPostgresFallback m = [Inc (idempotencyPostgresFallbackTotal m) []]"

definition Metrics_ObserveAuthorization :: "metrics \<Rightarrow> string \<Rightarrow> duration \<Rightarrow> metric_call list" where
  "Metrics_ObserveAuthorization m result d =
     [Inc (authorizationTotal m) [result], Observe (authorizationLatency m) [result] d]"

definition Metrics_ObserveCapture :: "metrics \<Rightarrow> string \<Rightarrow> duration \<Rightarrow> metric_call list" where
  "Metrics_ObserveCapture m result d = [Inc (captureTotal m) [result], Observe (captureLatency m) [result] d]"

definition Metrics_ObservePayerVersionConflict :: "metrics \<Rightarrow> metric_call list" where
  "Metrics_ObservePayerVersionConflict m = [Inc (payerVersionConflictsTotal m) []]"

text \<open>
  The reports of the program: the methods of \<open>Metrics\<close> behind the interfaces through which the
  payment service, the settlement service, the outbox worker, the idempotency service and the middleware
  report. The duration of a request or of a check of the limit is \<open>d\<close>.
\<close>

fun payment_report :: "metrics \<Rightarrow> observation \<Rightarrow> metric_call list" where
  "payment_report m (ObserveAuthorization result d) = Metrics_ObserveAuthorization m result d"
| "payment_report m (ObserveCapture result d) = Metrics_ObserveCapture m result d"
| "payment_report m ObservePayerVersionConflict = Metrics_ObservePayerVersionConflict m"

fun settlement_report :: "metrics \<Rightarrow> settlement_observation \<Rightarrow> metric_call list" where
  "settlement_report m (ObserveSettlementBatch status payments d) = Metrics_ObserveSettlementBatch m status payments d"
| "settlement_report m (ObserveSettlementRecoveredBatches n) = Metrics_ObserveSettlementRecoveredBatches m n"

fun outbox_report :: "metrics \<Rightarrow> worker_observation \<Rightarrow> metric_call list" where
  "outbox_report m (ObserveOutboxStats pending lag) = Metrics_ObserveOutboxStats m pending lag"
| "outbox_report m (ObserveOutboxBatch publisher claimed published failed) =
     Metrics_ObserveOutboxBatch m publisher claimed published failed"

fun idempotency_report :: "metrics \<Rightarrow> idem_observation \<Rightarrow> metric_call list" where
  "idempotency_report m CacheHit = Metrics_ObserveIdempotencyCacheHit m"
| "idempotency_report m CacheMiss = Metrics_ObserveIdempotencyCacheMiss m"
| "idempotency_report m CacheError = Metrics_ObserveIdempotencyCacheError m"
| "idempotency_report m PostgresFallback = Metrics_ObserveIdempotencyPostgresFallback m"

fun http_report :: "metrics \<Rightarrow> duration \<Rightarrow> http_observation \<Rightarrow> metric_call list" where
  "http_report m d (HttpRequestObserved method route statusCode) = Metrics_ObserveHTTPRequest m method route statusCode d"
| "http_report m d (RateLimitObserved result) = Metrics_ObserveRateLimit m result d"
| "http_report m d (HttpRequestLogged requestID method path status n remote) = []"
| "http_report m d (PanicLogged requestID method path recovered) = []"

lemmas metrics_defs = NewCounterVec_def NewHistogramVec_def NewCounter_def NewGauge_def New_def registered_def
  Metrics_ObserveHTTPRequest_def Metrics_ObserveSettlementBatch_def Metrics_ObserveSettlementRecoveredBatches_def Metrics_ObserveOutboxBatch_def
  Metrics_ObserveOutboxStats_def Metrics_ObserveRateLimit_def Metrics_ObserveIdempotencyCacheHit_def Metrics_ObserveIdempotencyCacheMiss_def
  Metrics_ObserveIdempotencyCacheError_def Metrics_ObserveIdempotencyPostgresFallback_def Metrics_ObserveAuthorization_def
  Metrics_ObserveCapture_def Metrics_ObservePayerVersionConflict_def

declare metrics_defs [go_eval]

section \<open>No report panics\<close>

lemma list_all_concat: "(\<And>x. list_all P (f x)) \<Longrightarrow> list_all P (concat (map f xs))"
  by (simp add: list_all_iff)

text \<open>
  The library panics when two collectors of one name are registered, when the number of label values is
  not that of the labels, and when a counter is to go down; a collector that is not registered reports
  nothing. It panics, too, for a label value that is not valid UTF-8, which is not one of the strings here.
\<close>

fun call_fits :: "collector list \<Rightarrow> metric_call \<Rightarrow> bool" where
  "call_fits known (Inc c labels) \<longleftrightarrow>
     c \<in> set known \<and> cl_kind c \<in> {Counter, CounterVec} \<and> length labels = length (cl_labels c)"
| "call_fits known (Add c labels n) \<longleftrightarrow>
     c \<in> set known \<and> cl_kind c \<in> {Counter, CounterVec} \<and> length labels = length (cl_labels c) \<and> 0 \<le> n"
| "call_fits known (SetGauge c n) \<longleftrightarrow> c \<in> set known \<and> cl_kind c = Gauge"
| "call_fits known (SetGaugeSeconds c d) \<longleftrightarrow> c \<in> set known \<and> cl_kind c = Gauge"
| "call_fits known (Observe c labels d) \<longleftrightarrow>
     c \<in> set known \<and> cl_kind c = HistogramVec \<and> length labels = length (cl_labels c)"

text \<open>
  C34. Every report of every component, with any numbers and texts, makes calls that fit their collectors:
  each collector is registered once under a name of its own, gets as many label values as it has labels,
  and is never asked to count down.
\<close>

theorem reports_fit_collectors:
  "distinct (map cl_name (registered New)) \<and>
   list_all (call_fits (registered New))
     (concat (map (payment_report New) os) @ concat (map (settlement_report New) ss) @
      concat (map (outbox_report New) ws) @ concat (map (idempotency_report New) is) @
      concat (map (http_report New d) hs))"
proof
  show "distinct (map cl_name (registered New))"
    by (simp add: registered_def New_def NewCounterVec_def NewHistogramVec_def NewCounter_def NewGauge_def)
  have fits: "list_all (call_fits (registered New)) (payment_report New x1)"
    "list_all (call_fits (registered New)) (settlement_report New x2)"
    "list_all (call_fits (registered New)) (outbox_report New x3)"
    "list_all (call_fits (registered New)) (idempotency_report New x4)"
    "list_all (call_fits (registered New)) (http_report New d x5)" for x1 x2 x3 x4 x5
    subgoal by (cases x1) (simp_all add: metrics_defs Let_def)
    subgoal by (cases x2) (simp_all add: metrics_defs Let_def)
    subgoal by (cases x3) (simp_all add: metrics_defs Let_def)
    subgoal by (cases x4) (simp_all add: metrics_defs Let_def)
    subgoal by (cases x5) (simp_all add: metrics_defs Let_def)
    done
  show "list_all (call_fits (registered New))
     (concat (map (payment_report New) os) @ concat (map (settlement_report New) ss) @
      concat (map (outbox_report New) ws) @ concat (map (idempotency_report New) is) @
      concat (map (http_report New d) hs))"
    unfolding list_all_append by (intro conjI list_all_concat fits)
qed

end
