(* ===== verification/Migrate.thy ===== *)
theory Migrate
  imports HttpResponse
begin

text \<open>
  \<open>cmd/paycore-migrate/main.go\<close>: the migrations of the database. What the SQL of a migration does
  to the schema is an argument, and so is the content of the files; the state is the schema and the table
  \<open>schema_migrations\<close>. The arguments of the calls for one migration are the answers of the
  database where it fails: a transaction that is not committed leaves no trace, but a commit that the
  process is told has failed may have been made.
\<close>

section \<open>Files\<close>

record migration_file =
  mf_version :: string
  mf_path :: string
  mf_sql :: bytes

text \<open>\<open>filepath.Base\<close> of a path without a slash at its end.\<close>

definition base_name :: "string \<Rightarrow> string" where
  "base_name path = rev (takeWhile (\<lambda>c. c \<noteq> CHR ''/'') (rev path))"

fun read_migrations :: "(string \<Rightarrow> error + bytes) \<Rightarrow> string list \<Rightarrow> error + migration_file list" where
  "read_migrations read_file [] = Inr []"
| "read_migrations read_file (path # paths) =
     (case read_file path of
        Inl err \<Rightarrow> Inl err
      | Inr body \<Rightarrow>
          (case read_migrations read_file paths of
             Inl err \<Rightarrow> Inl err
           | Inr rest \<Rightarrow> Inr (\<lparr>mf_version = base_name path, mf_path = path, mf_sql = body\<rparr> # rest)))"

text \<open>\<open>glob\<close> is what \<open>filepath.Glob\<close> answers for the directory.\<close>

definition listMigrations :: "error + string list \<Rightarrow> (string \<Rightarrow> error + bytes) \<Rightarrow> error + migration_file list" where
  "listMigrations glob read_file =
     (case glob of Inl err \<Rightarrow> Inl err | Inr paths \<Rightarrow> read_migrations read_file (sort paths))"

section \<open>Applying\<close>

record 'd migration_db =
  md_schema :: 'd
  md_versions :: "string list"

record migration_call =
  mc_query :: "error option"
  mc_begin :: "error option"
  mc_insert :: "error option"
  mc_commit :: "error option"
  mc_commit_applied :: bool

definition migrationApplied :: "migration_call \<Rightarrow> string \<Rightarrow> ('d migration_db, bool) act" where
  "migrationApplied c version s =
     (case mc_query c of Some err \<Rightarrow> (Inl err, s) | None \<Rightarrow> (Inr (version \<in> set (md_versions s)), s))"

text \<open>
  The primary key refuses a version twice; an insert that succeeds affects one row. When the commit runs
  into the deadline of the process or loses its connection, the server may have made it.
\<close>

definition applyMigration ::
  "(bytes \<Rightarrow> 'd \<Rightarrow> error + 'd) \<Rightarrow> migration_call \<Rightarrow> migration_file \<Rightarrow> ('d migration_db, unit) act" where
  "applyMigration execute c migration s =
     (case mc_begin c of Some err \<Rightarrow> (Inl err, s)
      | None \<Rightarrow>
        (case execute (mf_sql migration) (md_schema s) of
           Inl err \<Rightarrow> (Inl (Wrapped ''execute migration sql: '' err), s)
         | Inr schema \<Rightarrow>
            (case (if mf_version migration \<in> set (md_versions s) then Some (DbErr ''unique_violation'')
                   else mc_insert c) of
               Some err \<Rightarrow> (Inl (Wrapped ''record migration version: '' err), s)
             | None \<Rightarrow>
                (let s' = \<lparr>md_schema = schema, md_versions = md_versions s @ [mf_version migration]\<rparr> in
                 case mc_commit c of
                   Some err \<Rightarrow> (Inl err, if mc_commit_applied c then s' else s)
                 | None \<Rightarrow> (Inr (), s')))))"

text \<open>
  The loop of \<open>main\<close>: which migrations it has applied, and the error it exits with.
  \<open>calls\<close> gives the arguments for a version.
\<close>

fun migrate ::
  "(bytes \<Rightarrow> 'd \<Rightarrow> error + 'd) \<Rightarrow> (string \<Rightarrow> migration_call) \<Rightarrow> migration_file list \<Rightarrow> 'd migration_db \<Rightarrow>
   (error option \<times> string list) \<times> 'd migration_db" where
  "migrate execute calls [] s = ((None, []), s)"
| "migrate execute calls (migration # rest) s =
     (case migrationApplied (calls (mf_version migration)) (mf_version migration) s of
        (Inl err, s1) \<Rightarrow> ((Some err, []), s1)
      | (Inr True, s1) \<Rightarrow> migrate execute calls rest s1
      | (Inr False, s1) \<Rightarrow>
          (case applyMigration execute (calls (mf_version migration)) migration s1 of
             (Inl err, s2) \<Rightarrow> ((Some err, []), s2)
           | (Inr u, s2) \<Rightarrow>
               (let ((err, applied), s3) = migrate execute calls rest s2
                in ((err, mf_version migration # applied), s3))))"

lemmas migrate_defs = base_name_def listMigrations_def migrationApplied_def applyMigration_def

declare migrate_defs [go_eval]

section \<open>An interrupted run\<close>

definition live_migration :: "string \<Rightarrow> migration_call" where
  "live_migration v = \<lparr>mc_query = None, mc_begin = None, mc_insert = None, mc_commit = None, mc_commit_applied = True\<rparr>"

lemmas apply_cases = applyMigration_def live_migration_def Let_def

lemma apply_live:
  "applyMigration execute c m s = (Inr u, s') \<Longrightarrow> applyMigration execute (live_migration v) m s = (Inr (), s')"
  by (auto simp: apply_cases split: option.splits sum.splits if_splits)

text \<open>A migration that is reported as failed has not been made, or has been made as a whole.\<close>

lemma apply_error:
  "applyMigration execute c m s = (Inl err, s') \<Longrightarrow>
   s' = s \<or> applyMigration execute (live_migration v) m s = (Inr (), s')"
  by (auto simp: apply_cases split: option.splits sum.splits if_splits)

lemma apply_versions:
  "applyMigration execute c m s = (Inr u, s') \<Longrightarrow> md_versions s' = md_versions s @ [mf_version m]"
  by (auto simp: apply_cases split: option.splits sum.splits if_splits)

text \<open>What a run does with its first file.\<close>

lemma migrate_Cons:
  assumes "migrate execute calls (m # ms) s = ((err, applied), s')"
  obtains (stopped) e where "err = Some e" "applied = []" "s' = s"
    | (lost) e where "err = Some e" "applied = []" "mf_version m \<notin> set (md_versions s)"
        "applyMigration execute (live_migration (mf_version m)) m s = (Inr (), s')"
    | (known) "mf_version m \<in> set (md_versions s)" "migrate execute calls ms s = ((err, applied), s')"
    | (fresh) t rest where "mf_version m \<notin> set (md_versions s)"
        "applyMigration execute (calls (mf_version m)) m s = (Inr (), t)"
        "migrate execute calls ms t = ((err, rest), s')" "applied = mf_version m # rest"
proof (cases "mc_query (calls (mf_version m))")
  case (Some e)
  then show thesis using assms that(1) [of e] by (auto simp: migrationApplied_def)
next
  case None
  obtain r t where run: "applyMigration execute (calls (mf_version m)) m s = (r, t)" by fastforce
  consider "mf_version m \<in> set (md_versions s)" | "mf_version m \<notin> set (md_versions s)" by blast
  then show thesis
  proof cases
    case 1
    then show thesis using assms that(3) None by (simp add: migrationApplied_def)
  next
    case 2
    show thesis
    proof (cases r)
      case (Inl e)
      then have stop: "err = Some e" "applied = []" "s' = t"
        using assms 2 None run by (simp_all add: migrationApplied_def)
      show thesis using apply_error [OF run [unfolded Inl]] that(1,2) [of e] stop 2 by blast
    next
      case (Inr u)
      obtain err' rest s'' where "migrate execute calls ms t = ((err', rest), s'')" by (metis prod.exhaust)
      then show thesis using assms that(4) 2 None run Inr by (simp add: migrationApplied_def)
    qed
  qed
qed

text \<open>The recorded versions: those the run has counted, and perhaps one whose commit it took for failed.\<close>

lemma migrate_versions:
  "migrate execute calls ms s = ((err, applied), s') \<Longrightarrow>
    \<exists>lost. length lost \<le> 1 \<and> (err = None \<longrightarrow> lost = [] \<and> mf_version ` set ms \<subseteq> set (md_versions s')) \<and>
      md_versions s' = md_versions s @ applied @ lost"
proof (induction ms arbitrary: applied s)
  case (Cons m ms)
  from Cons.prems show ?case
  proof (cases rule: migrate_Cons)
    case lost
    then show ?thesis using apply_versions [OF lost(4)] by (intro exI [of _ "[mf_version m]"]) simp
  next
    case known
    then show ?thesis using Cons.IH [OF known(2)] by auto
  next
    case (fresh t rest)
    then show ?thesis using Cons.IH [OF fresh(3)] apply_versions [OF fresh(2)] by auto
  qed auto
qed simp

text \<open>A version that is known is passed over, whatever comes after it.\<close>

lemma migrate_known:
  "mf_version ` set ms \<subseteq> set (md_versions s) \<Longrightarrow> migrate execute live_migration ms s = ((None, []), s)"
  by (induction ms) (simp_all add: migrationApplied_def live_migration_def)

lemmas migrate_live_first = migrationApplied_def live_migration_def

text \<open>A run that answers to the end does the same whatever the arguments of its calls.\<close>

lemma migrate_live:
  "migrate execute calls ms s = ((None, applied), s') \<Longrightarrow>
   migrate execute live_migration ms s = ((None, applied), s')"
proof (induction ms arbitrary: applied s)
  case (Cons m ms)
  from Cons.prems show ?case
  proof (cases rule: migrate_Cons)
    case known
    from Cons.IH [OF known(2)] show ?thesis using known(1) by (simp add: migrate_live_first)
  next
    case (fresh t rest)
    from Cons.IH [OF fresh(3)] show ?thesis
      using fresh(1,4) apply_live [OF fresh(2)] by (simp add: migrate_live_first)
  qed simp_all
qed simp

text \<open>A run that stopped and a run that finishes: the second goes on where the first one stopped.\<close>

lemma migrate_resume:
  assumes "migrate execute calls ms s = ((err, applied), s1)"
    and "migrate execute calls' ms s1 = ((None, applied'), s2)"
  shows "\<exists>lost. length lost \<le> 1 \<and> (err = None \<longrightarrow> lost = []) \<and> md_versions s1 = md_versions s @ applied @ lost \<and>
    migrate execute live_migration ms s = ((None, applied @ lost @ applied'), s2)"
  using assms
proof (induction ms arbitrary: applied s)
  case (Cons m ms)
  have later: "migrate execute calls' ms s1 = ((None, applied'), s2)" if "mf_version m \<in> set (md_versions s1)"
    using Cons.prems(2) that by (auto simp: migrationApplied_def split: option.splits)
  from Cons.prems(1) show ?case
  proof (cases rule: migrate_Cons)
    case stopped
    then show ?thesis using migrate_live [OF Cons.prems(2)] by simp
  next
    case lost
    note versions = apply_versions [OF lost(4)]
    have "migrate execute live_migration ms s1 = ((None, applied'), s2)" using migrate_live later versions by simp
    then have "migrate execute live_migration (m # ms) s = ((None, mf_version m # applied'), s2)"
      using lost(3,4) by (simp add: migrate_live_first)
    then show ?thesis using lost(1,2) versions by (intro exI [of _ "[mf_version m]"]) simp
  next
    case known
    have "mf_version m \<in> set (md_versions s1)" using known(1) migrate_versions [OF known(2)] by auto
    from Cons.IH [OF known(2) later [OF this]] show ?thesis
      using known(1) by (simp add: migrate_live_first)
  next
    case (fresh t rest)
    have "mf_version m \<in> set (md_versions s1)"
      using apply_versions [OF fresh(2)] migrate_versions [OF fresh(3)] by auto
    from Cons.IH [OF fresh(3) later [OF this]] show ?thesis
      using fresh(1,4) apply_live [OF fresh(2)] apply_versions [OF fresh(2)] by (auto simp: migrate_live_first)
  qed
qed simp

text \<open>
  C35. A run of the migrations that stopped anywhere, followed by one that finishes, leaves the database
  as a single run without a failure. The single run applies what the first run has applied, then at most
  one migration whose commit was made although the first run was told that it failed, then what the
  second run applies; so no migration is applied twice and none is left out, and a run after that applies
  nothing.
\<close>

theorem migrations_resume:
  assumes "migrate execute calls ms s = ((err, applied), s1)"
    and "migrate execute calls' ms s1 = ((None, applied'), s2)"
  shows "(\<exists>lost. length lost \<le> 1 \<and> (err = None \<longrightarrow> lost = []) \<and> md_versions s1 = md_versions s @ applied @ lost \<and>
      migrate execute live_migration ms s = ((None, applied @ lost @ applied'), s2)) \<and>
    migrate execute live_migration ms s2 = ((None, []), s2)"
  using migrate_resume [OF assms] migrate_versions [OF assms(2)] migrate_known [of ms s2 execute] by blast

definition three_files :: "migration_file list" where
  "three_files = map (\<lambda>(v, sql). \<lparr>mf_version = v, mf_path = ''migrations/'' @ v, mf_sql = sql\<rparr>)
     [(''1.sql'', ''a''), (''2.sql'', ''b''), (''3.sql'', ''c'')]"

text \<open>The commit of the second migration is made and reported as failed.\<close>

definition lost_commit :: "string \<Rightarrow> migration_call" where
  "lost_commit v = (live_migration v)\<lparr>mc_commit := (if v = ''2.sql'' then Some (DbErr ''deadline'') else None)\<rparr>"

theorem migrations_resume_witness:
  "\<exists>s1 s2. migrate (\<lambda>sql schema. Inr (schema @ [sql])) lost_commit three_files \<lparr>md_schema = [], md_versions = []\<rparr> =
      ((Some (DbErr ''deadline''), [''1.sql'']), s1) \<and>
    migrate (\<lambda>sql schema. Inr (schema @ [sql])) live_migration three_files s1 = ((None, [''3.sql'']), s2) \<and>
    migrate (\<lambda>sql schema. Inr (schema @ [sql])) live_migration three_files \<lparr>md_schema = [], md_versions = []\<rparr> =
      ((None, [''1.sql'', ''2.sql'', ''3.sql'']), s2)"
proof -
  let ?run = "migrate (\<lambda>sql schema. Inr (schema @ [sql]))"
  let ?s1 = "\<lparr>md_schema = [''a'', ''b''], md_versions = [''1.sql'', ''2.sql'']\<rparr>"
  have first: "?run lost_commit three_files \<lparr>md_schema = [], md_versions = []\<rparr> =
      ((Some (DbErr ''deadline''), [''1.sql'']), ?s1)"
    by (simp add: three_files_def lost_commit_def migrationApplied_def apply_cases)
  moreover have second: "?run live_migration three_files ?s1 =
      ((None, [''3.sql'']), \<lparr>md_schema = [''a'', ''b'', ''c''], md_versions = [''1.sql'', ''2.sql'', ''3.sql'']\<rparr>)"
    by (simp add: three_files_def migrationApplied_def apply_cases)
  moreover obtain lost where "md_versions ?s1 = [] @ [''1.sql''] @ lost"
    "?run live_migration three_files \<lparr>md_schema = [], md_versions = []\<rparr> =
      ((None, [''1.sql''] @ lost @ [''3.sql'']), \<lparr>md_schema = [''a'', ''b'', ''c''], md_versions = [''1.sql'', ''2.sql'', ''3.sql'']\<rparr>)"
    using migrations_resume [OF first second] by auto
  ultimately show ?thesis by simp
qed

end
