(* ===== verification/Config.thy ===== *)
theory Config
  imports GoText
begin

text \<open>
  The configuration of the processes: \<open>internal/shared/config/config.go\<close> and the settings the
  workers read themselves (\<open>intenv\<close>, \<open>loadWorkerConfig\<close> and \<open>previousFullWindow\<close> of
  \<open>cmd/paycore-settlement-worker/main.go\<close>, \<open>intenv\<close> of
  \<open>cmd/paycore-expiry-worker/main.go\<close>). The environment is a function from names to values,
  empty for a variable that is not set, as \<open>os.Getenv\<close> answers.
\<close>

type_synonym environment = "string \<Rightarrow> string"

definition getenv :: "environment \<Rightarrow> string \<Rightarrow> string \<Rightarrow> string" where
  "getenv env key fallback = (if env key = '''' then fallback else env key)"

text \<open>The product of two durations is one of 64-bit integers.\<close>

definition duration_times :: "int \<Rightarrow> duration \<Rightarrow> duration" where
  "duration_times n d = sint (word_of_int n * word_of_int d :: int64)"

definition durationSeconds :: "environment \<Rightarrow> string \<Rightarrow> duration \<Rightarrow> duration" where
  "durationSeconds env key fallback =
     (if env key = '''' then fallback
      else case parse_int (env key) of
        None \<Rightarrow> fallback
      | Some seconds \<Rightarrow> if seconds \<le> 0 then fallback else duration_times seconds second)"

definition boolenv :: "environment \<Rightarrow> string \<Rightarrow> bool \<Rightarrow> bool" where
  "boolenv env key fallback =
     (if env key = '''' then fallback
      else case parse_bool (env key) of None \<Rightarrow> fallback | Some b \<Rightarrow> b)"

definition int64env :: "environment \<Rightarrow> string \<Rightarrow> int \<Rightarrow> int" where
  "int64env env key fallback =
     (if env key = '''' then fallback
      else case parse_int (env key) of
        None \<Rightarrow> fallback
      | Some n \<Rightarrow> if n \<le> 0 then fallback else n)"

record config =
  Env :: string
  HTTPAddr :: string
  MetricsAddr :: string
  HTTPReadHeaderTimeout :: duration
  HTTPShutdownTimeout :: duration
  DatabaseURL :: string
  RedisAddr :: string
  KafkaBrokers :: string
  KafkaOutboxTopic :: string
  OutboxPublisher :: string
  RateLimitEnabled :: bool
  RateLimitRequests :: int
  RateLimitWindow :: duration
  IdempotencyCacheEnabled :: bool
  IdempotencyCacheTTL :: duration
  RepositoryBackend :: string

definition Load :: "environment \<Rightarrow> config" where
  "Load env =
     \<lparr>Env = getenv env ''PAYCORE_ENV'' ''local'',
      HTTPAddr = getenv env ''PAYCORE_HTTP_ADDR'' '':8080'',
      MetricsAddr = getenv env ''PAYCORE_METRICS_ADDR'' '':9091'',
      HTTPReadHeaderTimeout = durationSeconds env ''PAYCORE_HTTP_READ_HEADER_TIMEOUT_SECONDS'' (5 * second),
      HTTPShutdownTimeout = durationSeconds env ''PAYCORE_HTTP_SHUTDOWN_TIMEOUT_SECONDS'' (10 * second),
      DatabaseURL = getenv env ''PAYCORE_DATABASE_URL'' '''',
      RedisAddr = getenv env ''PAYCORE_REDIS_ADDR'' ''localhost:6379'',
      KafkaBrokers = getenv env ''PAYCORE_KAFKA_BROKERS'' ''localhost:9092'',
      KafkaOutboxTopic = getenv env ''PAYCORE_KAFKA_OUTBOX_TOPIC'' ''paycore.outbox.events'',
      OutboxPublisher = getenv env ''PAYCORE_OUTBOX_PUBLISHER'' ''logging'',
      RateLimitEnabled = boolenv env ''PAYCORE_RATE_LIMIT_ENABLED'' False,
      RateLimitRequests = int64env env ''PAYCORE_RATE_LIMIT_REQUESTS'' 60,
      RateLimitWindow = durationSeconds env ''PAYCORE_RATE_LIMIT_WINDOW_SECONDS'' minute,
      IdempotencyCacheEnabled = boolenv env ''PAYCORE_IDEMPOTENCY_CACHE_ENABLED'' False,
      IdempotencyCacheTTL = durationSeconds env ''PAYCORE_IDEMPOTENCY_CACHE_TTL_SECONDS'' (24 * hour),
      RepositoryBackend = getenv env ''PAYCORE_REPOSITORY_BACKEND'' ''memory''\<rparr>"

section \<open>Settings of the workers\<close>

definition intenv :: "environment \<Rightarrow> string \<Rightarrow> int \<Rightarrow> int" where
  "intenv env key fallback =
     (if env key = '''' then fallback
      else case parse_int (env key) of
        None \<Rightarrow> fallback
      | Some n \<Rightarrow> if n \<le> 0 then fallback else n)"

definition expiry_limit :: "environment \<Rightarrow> int" where
  "expiry_limit env = intenv env ''PAYCORE_EXPIRY_LIMIT'' 100"

record settlement_worker_config =
  swc_databaseURL :: string
  swc_workerID :: string
  swc_windowMinutes :: int
  swc_claimLimit :: int
  swc_lockTTL :: duration
  swc_metricsAddr :: string

definition loadWorkerConfig :: "environment \<Rightarrow> config \<Rightarrow> settlement_worker_config" where
  "loadWorkerConfig env base =
     \<lparr>swc_databaseURL = DatabaseURL base,
      swc_workerID = getenv env ''PAYCORE_SETTLEMENT_WORKER_ID'' ''paycore-settlement-worker'',
      swc_windowMinutes = intenv env ''PAYCORE_SETTLEMENT_WINDOW_MINUTES'' 60,
      swc_claimLimit = intenv env ''PAYCORE_SETTLEMENT_CLAIM_LIMIT'' 100,
      swc_lockTTL = duration_times (intenv env ''PAYCORE_SETTLEMENT_LOCK_MINUTES'' 5) minute,
      swc_metricsAddr = MetricsAddr base\<rparr>"

record settlement_window =
  sw_start :: time
  sw_end :: time

definition previousFullWindow :: "time \<Rightarrow> int \<Rightarrow> error + settlement_window" where
  "previousFullWindow now windowMinutes =
     (if windowMinutes \<le> 0 then Inl (ErrMsg ''settlement window minutes must be positive'')
      else let window = duration_times windowMinutes minute;
               end = truncate_time (utc now) window;
               start = end + duration_times (- 1) window
           in Inr \<lparr>sw_start = start, sw_end = end\<rparr>)"

lemmas config_defs = getenv_def duration_times_def durationSeconds_def boolenv_def int64env_def Load_def
  intenv_def expiry_limit_def loadWorkerConfig_def previousFullWindow_def

declare config_defs [go_eval]

section \<open>Durations in range\<close>

lemma duration_times_exact:
  assumes "- (2 ^ 63) \<le> n * d" "n * d < 2 ^ 63"
  shows "duration_times n d = n * d"
proof -
  have "duration_times n d = sint (word_of_int (n * d) :: int64)"
    by (simp only: duration_times_def wi_hom_mult)
  also have "\<dots> = n * d" unfolding sint_sbintrunc' using assms by (simp add: signed_take_bit_int_eq_self)
  finally show ?thesis .
qed

section \<open>Properties\<close>

text \<open>
  A positive number of the range of an \<open>int64\<close>, written in decimal into the environment, is what
  \<open>int64env\<close> and \<open>intenv\<close> read, and every other number leaves the fallback.
\<close>

theorem setting_is_read_back:
  assumes "env key = int_text n" and "- (2 ^ 63) \<le> n" and "n < 2 ^ 63"
  shows "int64env env key fallback = (if 0 < n then n else fallback) \<and>
    intenv env key fallback = int64env env key fallback"
  using assms parse_int_text [OF assms(2,3)] int_text_not_Nil [of n]
  by (simp add: int64env_def intenv_def)

theorem setting_is_read_back_witness:
  "int64env (\<lambda>key. int_text 120) ''PAYCORE_RATE_LIMIT_REQUESTS'' 60 = 120"
  using setting_is_read_back [of "\<lambda>key. int_text 120" "''PAYCORE_RATE_LIMIT_REQUESTS''" 120 60] by simp

text \<open>
  \<open>durationSeconds\<close> is exact up to 9223372036 seconds, and from the next number of seconds on
  the product wraps: that setting is a negative duration, though the code accepts positive seconds only.
\<close>

theorem duration_setting_bounds:
  assumes "env key = int_text n" and "0 < n" and "n \<le> 9223372037"
  shows "durationSeconds env key fallback =
    (if n \<le> 9223372036 then n * second else n * second - 2 ^ 64)"
proof -
  have "durationSeconds env key fallback = duration_times n second"
    using assms parse_int_text [of n] int_text_not_Nil [of n] by (simp add: durationSeconds_def)
  moreover have "duration_times n second = n * second" if "n \<le> 9223372036"
    using that assms(2) by (intro duration_times_exact) (simp_all add: second_def)
  moreover have "duration_times 9223372037 second = 9223372037 * second - 2 ^ 64"
    by (simp add: duration_times_def second_def)
  ultimately show ?thesis using assms(3) by (cases "n = 9223372037") auto
qed

theorem duration_setting_bounds_witness:
  "durationSeconds (\<lambda>key. int_text 9223372037) ''PAYCORE_RATE_LIMIT_WINDOW_SECONDS'' minute = - 9223372036709551616"
  using duration_setting_bounds [of "\<lambda>key. int_text 9223372037" "''PAYCORE_RATE_LIMIT_WINDOW_SECONDS''" 9223372037 minute]
  by (simp add: second_def)

text \<open>
  C33. The window a settlement run works on is the last one that has ended: it is as long as configured,
  begins and ends at a multiple of its length since the zero time, and has ended no longer than its
  length ago.
\<close>

theorem settlement_window_is_last_full:
  assumes "previousFullWindow now m = Inr w" and "m * minute < 2 ^ 63"
  shows "sw_end w - sw_start w = m * minute \<and> sw_end w mod (m * minute) = 0 \<and>
    sw_end w \<le> now \<and> now < sw_end w + m * minute"
proof -
  let ?d = "m * minute"
  have pos: "0 < m" using assms(1) by (auto simp: previousFullWindow_def split: if_splits)
  then have d: "0 < ?d" by (simp add: minute_def second_def)
  have exact: "duration_times m minute = ?d" "duration_times (- 1) ?d = - ?d"
    using assms(2) d by (simp_all add: duration_times_exact)
  have w: "sw_end w = now - now mod ?d" "sw_start w = sw_end w - ?d"
    using assms(1) pos d exact
    by (auto simp: previousFullWindow_def Let_def truncate_time_def utc_def)
  have "sw_end w mod ?d = 0" unfolding w by (simp add: minus_mod_eq_mult_div)
  then show ?thesis
    using w pos_mod_bound [OF d, of now] pos_mod_sign [OF d, of now] by linarith
qed

theorem settlement_window_is_last_full_witness:
  "\<exists>w. previousFullWindow (100 * minute + 30 * second) 60 = Inr w \<and> sw_start w = 0 \<and> sw_end w = hour"
proof -
  obtain w where w: "previousFullWindow (100 * minute + 30 * second) 60 = Inr w"
    by (simp add: previousFullWindow_def Let_def)
  have "sw_end w = hour"
    using w by (auto simp: previousFullWindow_def Let_def truncate_time_def duration_times_def utc_def hour_def
        minute_def second_def)
  then show ?thesis
    using settlement_window_is_last_full [OF w] w by (simp add: minute_def second_def hour_def)
qed

end
