(* ===== verification/Processes.thy ===== *)
theory Processes
  imports Config RateLimit IdempotencyBackends PaymentSystem
begin

text \<open>
  How the processes are put together: what the API builds from its configuration
  (\<open>cmd/paycore-api/main.go\<close>), the Kafka publisher (\<open>internal/outbox/adapters/kafka\<close>) and
  the choice of one (\<open>cmd/paycore-outbox-worker/main.go\<close>), and the runs of the workers
  (\<open>cmd/paycore-expiry-worker\<close>, \<open>cmd/paycore-settlement-worker\<close>,
  \<open>cmd/paycore-outbox-worker\<close>) on their services. The connection pool is not modelled: the errors
  of \<open>pgxpool.New\<close> and of a ping are arguments. A run leaves the exit code of the process.
\<close>

section \<open>The Kafka publisher\<close>

definition cleanBrokers :: "string list \<Rightarrow> string list" where
  "cleanBrokers values = filter (\<lambda>value. value \<noteq> '''') (map trim_space values)"

definition BrokersFromString :: "string \<Rightarrow> string list" where
  "BrokersFromString value = cleanBrokers (split_at (CHR '','') value)"

record kafka_writer =
  kw_Addr :: "string list"
  kw_Topic :: string
  kw_BatchTimeout :: duration
  kw_RequireAllAcks :: bool

definition NewPublisher :: "string list \<Rightarrow> string \<Rightarrow> error + kafka_writer" where
  "NewPublisher brokers0 topic0 =
     (let brokers = cleanBrokers brokers0 in
      if brokers = [] then Inl ErrBrokerRequired
      else let trimmed = trim_space topic0;
               topic = (if trimmed = '''' then ''paycore.outbox.events'' else trimmed) in
        if topic = '''' then Inl ErrTopicRequired
        else Inr \<lparr>kw_Addr = brokers, kw_Topic = topic, kw_BatchTimeout = 10000000, kw_RequireAllAcks = True\<rparr>)"

text \<open>The message of an event; \<open>WriteMessages\<close> of the library is an argument.\<close>

record kafka_message =
  km_Key :: string
  km_Value :: json
  km_Headers :: "(string \<times> string) list"
  km_Time :: time

definition kafka_message_of :: "event \<Rightarrow> kafka_message" where
  "kafka_message_of event =
     \<lparr>km_Key = AggregateID event, km_Value = Payload event,
      km_Headers = [(''event_id'', event_ID event), (''event_type'', EventType event),
        (''aggregate_type'', AggregateType event), (''aggregate_id'', AggregateID event)],
      km_Time = event_CreatedAt event\<rparr>"

definition kafka_Publish :: "(kafka_message \<Rightarrow> string option) \<Rightarrow> event \<Rightarrow> string option" where
  "kafka_Publish write event = write (kafka_message_of event)"

text \<open>\<open>loggingPublisher\<close> fails only on a context that is done.\<close>

definition logging_Publish :: "string option \<Rightarrow> event \<Rightarrow> string option" where
  "logging_Publish ctx_err event = ctx_err"

datatype outbox_publisher = LoggingPublisher | KafkaPublisher kafka_writer

definition newPublisher :: "config \<Rightarrow> error + outbox_publisher" where
  "newPublisher cfg =
     (let name = to_lower (trim_space (OutboxPublisher cfg)) in
      if name = '''' \<or> name = ''logging'' then Inr LoggingPublisher
      else if name = ''kafka'' then
        (case NewPublisher (BrokersFromString (KafkaBrokers cfg)) (KafkaOutboxTopic cfg) of
           Inl err \<Rightarrow> Inl err | Inr writer \<Rightarrow> Inr (KafkaPublisher writer))
      else Inl (ErrMsg ''unsupported outbox publisher''))"

section \<open>What the API builds\<close>

datatype repositories = MemoryRepositories | PostgresRepositories

definition newPostgresRepositories :: "error option \<Rightarrow> error option \<Rightarrow> string \<Rightarrow> error + repositories" where
  "newPostgresRepositories pool ping databaseURL =
     (if databaseURL = ''''
      then Inl (ErrMsg ''PAYCORE_DATABASE_URL is required when PAYCORE_REPOSITORY_BACKEND=postgres'')
      else case pool of Some err \<Rightarrow> Inl (Wrapped ''create postgres pool: '' err)
        | None \<Rightarrow>
          (case ping of Some err \<Rightarrow> Inl (Wrapped ''ping postgres: '' err)
           | None \<Rightarrow> Inr PostgresRepositories))"

definition newRepositories :: "error option \<Rightarrow> error option \<Rightarrow> config \<Rightarrow> error + repositories" where
  "newRepositories pool ping cfg =
     (if RepositoryBackend cfg = ''memory'' then Inr MemoryRepositories
      else if RepositoryBackend cfg = ''postgres'' then newPostgresRepositories pool ping (DatabaseURL cfg)
      else Inl (ErrMsg (''unsupported repository backend '' @ [CHR 0x22] @ RepositoryBackend cfg @ [CHR 0x22])))"

definition newRateLimiter ::
  "config \<Rightarrow> ('c, 'k) redis_counters \<Rightarrow> error option \<Rightarrow> error + ('c, 'k) redis_limiter option" where
  "newRateLimiter cfg client ping =
     (if \<not> RateLimitEnabled cfg then Inr None
      else case ping of Some err \<Rightarrow> Inl (Wrapped ''ping redis: '' err)
        | None \<Rightarrow>
          (case NewLimiter (Some client) '''' (word_of_int (RateLimitRequests cfg)) (RateLimitWindow cfg) of
             Inl err \<Rightarrow> Inl err | Inr l \<Rightarrow> Inr (Some l)))"

section \<open>Runs of the workers\<close>

definition canceled :: "error \<Rightarrow> bool" where
  "canceled err \<longleftrightarrow> errors_is err (CtxErr ''context canceled'')"

text \<open>Up to the ping all workers start alike.\<close>

definition connects :: "string \<Rightarrow> error option \<Rightarrow> error option \<Rightarrow> bool" where
  "connects databaseURL pool ping \<longleftrightarrow> databaseURL \<noteq> '''' \<and> pool = None \<and> ping = None"

text \<open>The expiry worker's service reports nothing.\<close>

definition NewServiceWithTransactorAndOutbox ::
  "('c, 's) repos \<Rightarrow> ('c \<Rightarrow> error option) \<Rightarrow> transactor option \<Rightarrow>
   ('c \<Rightarrow> event \<Rightarrow> ('s, event) act) option \<Rightarrow> ('c, 's) service" where
  "NewServiceWithTransactorAndOutbox R ctx_err tx outbox =
     NewServiceWithTransactorOutboxAndMetrics R ctx_err tx outbox False"

definition expiry_main ::
  "environment \<Rightarrow> error option \<Rightarrow> error option \<Rightarrow> tx_answers \<Rightarrow> pg_call env \<Rightarrow> pgdb \<Rightarrow> int \<times> pgdb" where
  "expiry_main environ pool ping db env s =
     (let cfg = Load environ; limit = expiry_limit environ in
      if \<not> connects (DatabaseURL cfg) pool ping then (1, s)
      else let service = NewServiceWithTransactorAndOutbox postgres_repos pgc_err (Some (PostgresTransactor db))
                 (Some pg_CreateEvent) in
        case ExpireAuthorizedPayments service env limit s of
          ((Inl err, obs), s') \<Rightarrow> (if canceled err then 0 else 1, s')
        | ((Inr result, obs), s') \<Rightarrow> (0, s'))"

text \<open>The settlement worker: recovery first, then the batch of the last full window.\<close>

definition settlement_main ::
  "environment \<Rightarrow> error option \<Rightarrow> error option \<Rightarrow> time \<Rightarrow> tx_answers \<Rightarrow> pg_call env \<Rightarrow> pg_call env \<Rightarrow>
   pgdb \<Rightarrow> int \<times> pgdb" where
  "settlement_main environ pool ping now db recover_env create_env s =
     (let cfg = loadWorkerConfig environ (Load environ) in
      if \<not> connects (swc_databaseURL cfg) pool ping then (1, s)
      else case postgres_settlement_service db True (swc_workerID cfg) (swc_claimLimit cfg) (swc_lockTTL cfg) of
        Inl err \<Rightarrow> (1, s)
      | Inr service \<Rightarrow>
          (case previousFullWindow (utc now) (swc_windowMinutes cfg) of
             Inl err \<Rightarrow> (1, s)
           | Inr window \<Rightarrow>
               (case RecoverStaleBatches service recover_env (swc_claimLimit cfg) s of
                  ((Inl err, obs), s1) \<Rightarrow> (if canceled err then 0 else 1, s1)
                | ((Inr recovered, obs), s1) \<Rightarrow>
                    (case CreateBatch service create_env (sw_start window) (sw_end window) s1 of
                       ((Inl err, obs'), s2) \<Rightarrow> (if canceled err then 0 else 1, s2)
                     | ((Inr result, obs'), s2) \<Rightarrow> (0, s2)))))"

text \<open>
  The outbox worker: a batch at the start and one at each tick until the context is done, which the
  length of the list of surroundings says. The result of a batch is only logged.
\<close>

fun outbox_ticks :: "('c, 's) worker \<Rightarrow> 'c worker_env list \<Rightarrow> 's \<Rightarrow> 's" where
  "outbox_ticks w [] s = s"
| "outbox_ticks w (env # envs) s = outbox_ticks w envs (snd (ProcessBatch w env s))"

definition outbox_main ::
  "environment \<Rightarrow> error option \<Rightarrow> error option \<Rightarrow> (outbox_publisher \<Rightarrow> nat \<Rightarrow> event \<Rightarrow> string option) \<Rightarrow>
   tx_answers \<Rightarrow> (pg_call \<times> time) worker_env list \<Rightarrow> pgdb \<Rightarrow> int \<times> pgdb" where
  "outbox_main environ pool ping publish db envs s =
     (let cfg = Load environ in
      if \<not> connects (DatabaseURL cfg) pool ping then (1, s)
      else case newPublisher cfg of
        Inl err \<Rightarrow> (1, s)
      | Inr publisher \<Rightarrow>
          (case postgres_worker db (publish publisher) True ''paycore-outbox-worker'' 100 (OutboxPublisher cfg) of
             Inl err \<Rightarrow> (1, s)
           | Inr w \<Rightarrow> (0, outbox_ticks w envs s)))"

lemmas process_defs = cleanBrokers_def BrokersFromString_def NewPublisher_def kafka_message_of_def
  kafka_Publish_def logging_Publish_def newPublisher_def newPostgresRepositories_def newRepositories_def
  newRateLimiter_def canceled_def connects_def NewServiceWithTransactorAndOutbox_def expiry_main_def
  settlement_main_def outbox_main_def

declare process_defs [go_eval]

section \<open>Brokers\<close>

text \<open>A list of brokers written with commas is read back.\<close>

fun comma_list :: "string list \<Rightarrow> string" where
  "comma_list [] = ''''"
| "comma_list [x] = x"
| "comma_list (x # y # ys) = x @ CHR '','' # comma_list (y # ys)"

lemma split_comma_list: "xs \<noteq> [] \<Longrightarrow> (\<And>x. x \<in> set xs \<Longrightarrow> CHR '','' \<notin> set x) \<Longrightarrow> split_at (CHR '','') (comma_list xs) = xs"
  by (induction xs rule: comma_list.induct) (auto simp: split_at_single join_split_at)

lemma cleanBrokers_fixed: "list_all (\<lambda>x. x \<noteq> '''' \<and> trim_space x = x) xs \<Longrightarrow> cleanBrokers xs = xs"
  by (induction xs) (auto simp: cleanBrokers_def)

lemma cleanBrokers_ok: "list_all (\<lambda>x. x \<noteq> '''' \<and> trim_space x = x) (cleanBrokers xs)"
  by (induction xs) (auto simp: cleanBrokers_def)

section \<open>A process takes the steps of the program\<close>

lemma expiry_service_state:
  "snd (ExpireAuthorizedPayments (NewServiceWithTransactorAndOutbox postgres_repos pgc_err
      (Some (PostgresTransactor db)) (Some pg_CreateEvent)) env limit s) =
   snd (ExpireAuthorizedPayments (postgres_service db) env limit s)"
  by (simp add: ExpireAuthorizedPayments_def NewServiceWithTransactorAndOutbox_def postgres_service_def
      NewServiceWithTransactorOutboxAndMetrics_def Let_def split: prod.split sum.split)

lemma expiry_main_steps: "expiry_main environ pool ping db env s = (code, s') \<Longrightarrow> pg_step\<^sup>*\<^sup>* s s'"
proof -
  let ?svc = "NewServiceWithTransactorAndOutbox postgres_repos pgc_err (Some (PostgresTransactor db)) (Some pg_CreateEvent)"
  assume run: "expiry_main environ pool ping db env s = (code, s')"
  have "s' = s \<or> s' = snd (ExpireAuthorizedPayments ?svc env (expiry_limit environ) s)"
    using run by (auto simp: expiry_main_def Let_def split: if_splits prod.splits sum.splits)
  then consider "s' = s" | "s' = snd (ExpireAuthorizedPayments (postgres_service db) env (expiry_limit environ) s)"
    unfolding expiry_service_state by blast
  then show ?thesis
  proof cases
    case 2
    have "pg_step s (snd (ExpireAuthorizedPayments (postgres_service db) env (expiry_limit environ) s))"
      by (rule pg_step.expire) (rule prod.collapse [symmetric])
    then show ?thesis unfolding 2 by (rule r_into_rtranclp)
  qed simp
qed

lemma settlement_main_steps:
  assumes "settlement_main environ pool ping now db e1 e2 s = (code, s')"
  shows "pg_step\<^sup>*\<^sup>* s s'"
proof -
  let ?cfg = "loadWorkerConfig environ (Load environ)"
  let ?service = "postgres_settlement_service db True (swc_workerID ?cfg) (swc_claimLimit ?cfg) (swc_lockTTL ?cfg)"
  consider "s' = s"
    | svc r1 where "?service = Inr svc" "RecoverStaleBatches svc e1 (swc_claimLimit ?cfg) s = (r1, s')"
    | svc r1 s1 r2 ws we where "?service = Inr svc" "RecoverStaleBatches svc e1 (swc_claimLimit ?cfg) s = (r1, s1)"
        "CreateBatch svc e2 ws we s1 = (r2, s')"
    using assms by (auto simp: settlement_main_def Let_def split: if_splits prod.splits sum.splits)
  then show ?thesis
  proof cases
    case (2 svc r1)
    from pg_step.recover [OF this] show ?thesis by (rule r_into_rtranclp)
  next
    case (3 svc r1 s1 r2 ws we)
    from pg_step.recover [OF 3(1,2)] pg_step.settle [OF 3(1,3)] show ?thesis
      by (rule converse_rtranclp_into_rtranclp [OF _ r_into_rtranclp])
  qed simp
qed

lemma outbox_ticks_steps:
  assumes "postgres_worker db publish metrics worker batchSize name = Inr w"
  shows "pg_step\<^sup>*\<^sup>* s (outbox_ticks w envs s)"
proof (induction envs arbitrary: s)
  case (Cons env envs)
  have "pg_step s (snd (ProcessBatch w env s))"
    by (rule pg_step.publish_events [OF assms]) (rule prod.collapse [symmetric])
  then show ?case using Cons by (simp add: converse_rtranclp_into_rtranclp)
qed simp

lemma outbox_main_steps:
  assumes "outbox_main environ pool ping publish db envs s = (code, s')"
  shows "pg_step\<^sup>*\<^sup>* s s'"
  using assms outbox_ticks_steps
  by (auto simp: outbox_main_def Let_def split: if_splits sum.splits)

end
