(* ===== verification/WorkerGuarantees.thy ===== *)
theory WorkerGuarantees
  imports PaymentGuarantees Processes
begin

text \<open>
  What the runs of the workers do to the database. The expiry worker works off what is overdue: each of
  its runs that succeeds takes a whole limit of overdue authorizations off the backlog, the oldest first.
  And the processes, one after the other, take only steps of the program, so that the invariants of its
  states hold after them.
\<close>

section \<open>The backlog\<close>

definition backlog :: "time \<Rightarrow> pgdb \<Rightarrow> nat" where
  "backlog t s = length (filter (expired_authorized t) (gm_values (t_payments s)))"

definition overdue :: "time \<Rightarrow> pgdb \<Rightarrow> string set" where
  "overdue t s = {pid. \<exists>p. map_of (t_payments s) pid = Some p \<and> expired_authorized t p}"

lemma overdue_values:
  assumes "gm_wf payment_ID (t_payments s)"
  shows "overdue t s = payment_ID ` set (filter (expired_authorized t) (gm_values (t_payments s)))"
  using gm_values_lookup [OF assms] gm_wf_key [OF assms] map_of_gm_values [of "t_payments s"]
  unfolding overdue_def by (auto simp: image_iff)

lemma backlog_card:
  assumes "gm_wf payment_ID (t_payments s)"
  shows "backlog t s = card (overdue t s)" "finite (overdue t s)"
proof -
  have "distinct (map payment_ID (filter (expired_authorized t) (gm_values (t_payments s))))"
    using distinct_gm_values [OF assms] by (rule distinct_map_filter)
  then show "backlog t s = card (overdue t s)"
    unfolding overdue_values [OF assms] backlog_def by (metis distinct_card length_map set_map)
  show "finite (overdue t s)" unfolding overdue_values [OF assms] by simp
qed

section \<open>One run\<close>

text \<open>The rows a run takes: all that is overdue at an earlier time, or a full limit of it.\<close>

lemma rows_cover:
  assumes wf: "gm_wf payment_ID (t_payments s)"
    and ps: "ps = take n (sort_key expiry_key (filter (expired_authorized now) (gm_values (t_payments s))))"
    and t: "t \<le> now"
  shows "overdue t s \<subseteq> payment_ID ` set ps \<or> payment_ID ` set ps \<subseteq> overdue t s \<and> card (payment_ID ` set ps) = n"
proof (rule disjCI)
  let ?xs = "filter (expired_authorized now) (gm_values (t_payments s))"
  assume "\<not> (payment_ID ` set ps \<subseteq> overdue t s \<and> card (payment_ID ` set ps) = n)"
  have split: "sort_key expiry_key ?xs = ps @ drop n (sort_key expiry_key ?xs)" by (simp add: ps)
  have dist: "distinct (map payment_ID ps)"
    by (rule sort_key_prefix(4) [OF split distinct_map_filter [OF distinct_gm_values [OF wf]]])
  show "overdue t s \<subseteq> payment_ID ` set ps"
  proof (rule ccontr)
    assume "\<not> overdue t s \<subseteq> payment_ID ` set ps"
    then obtain z where z: "z \<in> set (filter (expired_authorized t) (gm_values (t_payments s)))" "z \<notin> set ps"
      unfolding overdue_values [OF wf] by auto
    then have zxs: "z \<in> set ?xs" using t by (auto simp: expired_authorized_def)
    have "n < length ?xs"
    proof (rule ccontr)
      assume "\<not> n < length ?xs"
      then have "ps = sort_key expiry_key ?xs" by (simp add: ps)
      then show False using zxs z(2) by simp
    qed
    then have "length ps = n" by (simp add: ps)
    then have "card (payment_ID ` set ps) = n" using dist by (metis distinct_card length_map set_map)
    moreover have "payment_ID ` set ps \<subseteq> overdue t s"
    proof
      fix i assume "i \<in> payment_ID ` set ps"
      then obtain y where y: "y \<in> set ps" "i = payment_ID y" by auto
      have "expiry_key y \<le> expiry_key z" using sort_key_prefix(2) [OF split y(1) zxs z(2)] .
      then have "payment_ExpiresAt y \<le> t" using z(1) by (auto simp: expiry_key_def expired_authorized_def)
      then show "i \<in> overdue t s"
        using sort_key_prefix(3) [OF split] y unfolding overdue_values [OF wf] by (auto simp: expired_authorized_def)
    qed
    ultimately show False using \<open>\<not> (payment_ID ` set ps \<subseteq> overdue t s \<and> card (payment_ID ` set ps) = n)\<close> by blast
  qed
qed

lemma expired_run:
  assumes ok: "pg_ok s" and run: "ExpireAuthorizedPayments (postgres_service db) env n s = ((Inr res, obs), s')"
    and unlocked: "pgc_locked (env_call env 0) = []" and t: "t \<le> db_time (env_now env)"
  shows "pg_ok s' \<and> backlog t s' \<le> backlog t s - nat (if n \<le> 0 then 100 else n)"
proof
  let ?n = "if n \<le> 0 then 100 else n"
  have step: "pg_step s s'" by (rule pg_step.expire [OF run])
  show ok': "pg_ok s'" using pg_step_good [OF step ok] by (simp add: good_step_def)
  have wf: "gm_wf payment_ID (t_payments s)" "gm_wf payment_ID (t_payments s')"
    using pg_okD(2) [OF ok] pg_okD(2) [OF ok'] by (auto dest!: ledger_okD(1) simp: ledger_keys_ok_def)
  obtain ps where list: "pg_ListExpiredAuthorizedPayments (env_call env 0) (env_now env) ?n s = (Inr ps, s)"
    and loop: "expire_loop postgres_repos env 1 0 (env_now env) ps \<lparr>res_Payments = [], res_Holds = [], res_Payers = []\<rparr> s =
      (Inr res, s')"
    using use_case_inner(3) [OF run] pg_ListExpired_rows(1) [OF wf(1)]
    by (auto simp: expire_tx_def Let_def utc_def act_simps) metis
  have ps: "ps = take (nat ?n) (sort_key expiry_key
      (filter (expired_authorized (db_time (env_now env))) (gm_values (t_payments s))))"
    using list unlocked by (auto simp: pg_ListExpiredAuthorizedPayments_def Let_def sql_limit_def utc_def
        pg_select_rows_success)
  have rows: "expired_list_ok (t_payments s) (env_now env) ps" using pg_ListExpired_rows(2) [OF wf(1) list] .
  then have expired: "expired_from (pg_view s) ps (pg_view s')"
    using pg.expire_loop_success [OF loop pg_okD(1,2) [OF ok]] by (auto simp: expired_list_ok_def)
  have others: "map_of (t_payments s') pid = map_of (t_payments s) pid" if "pid \<notin> payment_ID ` set ps" for pid
    using expired that unfolding expired_from_def by simp
  have gone: "\<exists>p. map_of (t_payments s') pid = Some p \<and> payment_Status p = StatusExpired"
    if "pid \<in> payment_ID ` set ps" for pid
    using expired that unfolding expired_from_def by auto
  have "pid \<in> overdue t s' \<longleftrightarrow> pid \<in> overdue t s - payment_ID ` set ps" for pid
    using others [of pid] gone [of pid]
    by (cases "pid \<in> payment_ID ` set ps") (auto simp: overdue_def expired_authorized_def)
  then have "overdue t s' = overdue t s - payment_ID ` set ps" by blast
  then have card: "backlog t s' = card (overdue t s - payment_ID ` set ps)"
    using backlog_card(1) [OF wf(2)] by simp
  show "backlog t s' \<le> backlog t s - nat ?n"
    using rows_cover [OF wf(1) ps t]
  proof
    assume "overdue t s \<subseteq> payment_ID ` set ps"
    then show ?thesis unfolding card by (simp add: Diff_eq_empty_iff [THEN iffD2])
  next
    assume "payment_ID ` set ps \<subseteq> overdue t s \<and> card (payment_ID ` set ps) = nat ?n"
    then show ?thesis unfolding card backlog_card(1) [OF wf(1)] by (simp add: card_Diff_subset)
  qed
qed

section \<open>Many runs\<close>

text \<open>Runs of the worker, one after the other, as long as they succeed.\<close>

fun expiry_runs :: "tx_answers \<Rightarrow> int \<Rightarrow> pg_call env list \<Rightarrow> pgdb \<Rightarrow> pgdb option" where
  "expiry_runs db n [] s = Some s"
| "expiry_runs db n (env # envs) s =
     (case ExpireAuthorizedPayments (postgres_service db) env n s of
        ((Inl err, obs), s') \<Rightarrow> None
      | ((Inr res, obs), s') \<Rightarrow> expiry_runs db n envs s')"

text \<open>
  C38. Whatever is overdue at a time is worked off by runs of the expiry worker after it: every run that
  succeeds takes a whole limit of it, so after as many runs as it has limits, none of it is authorized
  any more, and no run is needed that finds more than one limit left. The runs come one after the other
  and find no row locked by another transaction.
\<close>

theorem expiry_works_off_backlog:
  assumes "pg_ok s" and "expiry_runs db n envs s = Some s'"
    and "\<And>env. env \<in> set envs \<Longrightarrow> pgc_locked (env_call env 0) = [] \<and> t \<le> db_time (env_now env)"
  shows "backlog t s' \<le> backlog t s - length envs * nat (if n \<le> 0 then 100 else n)"
  using assms
proof (induction envs arbitrary: s)
  case (Cons env envs)
  obtain res obs s1 where run: "ExpireAuthorizedPayments (postgres_service db) env n s = ((Inr res, obs), s1)"
    and rest: "expiry_runs db n envs s1 = Some s'"
    using Cons.prems(2) by (auto split: prod.splits sum.splits)
  have one: "pg_ok s1" "backlog t s1 \<le> backlog t s - nat (if n \<le> 0 then 100 else n)"
    using expired_run [OF Cons.prems(1) run] Cons.prems(3) [of env] by auto
  have "backlog t s' \<le> backlog t s1 - length envs * nat (if n \<le> 0 then 100 else n)"
    using Cons.IH [OF one(1) rest] Cons.prems(3) by simp
  then show ?case using one(2) by simp
qed simp

theorem expiry_works_off_backlog_witness:
  "\<exists>s'. expiry_runs live_tx 10 [run_env (day + hour) 3] run_authorized = Some s' \<and>
    backlog (day + hour) run_authorized = 1 \<and> backlog (day + hour) s' = 0"
proof -
  obtain s' where run: "expiry_runs live_tx 10 [run_env (day + hour) 3] run_authorized = Some s'"
    using run_expire_answer by (cases "ExpireAuthorizedPayments (postgres_service live_tx) (run_env (day + hour) 3) 10
      run_authorized") auto
  have one: "backlog (day + hour) run_authorized = 1"
    unfolding run_authorized_eq by code_simp
  have env: "pgc_locked (env_call (run_env (day + hour) 3) 0) = []" "day + hour \<le> db_time (env_now (run_env (day + hour) 3))"
    by (simp_all add: run_env_def quiet_call_def db_time_def truncate_time_def day_def hour_def minute_def second_def)
  have "backlog (day + hour) s' \<le> 1 - length [run_env (day + hour) 3] * nat (if (10 :: int) \<le> 0 then 100 else 10)"
    using expiry_works_off_backlog [OF run_ok(2) run, of "day + hour"] env unfolding one by simp
  then show ?thesis using run one by simp
qed

section \<open>The processes\<close>

text \<open>
  Whatever the environment, the database and Redis do to them, a run of the expiry worker, then one
  of the settlement worker, then any number of ticks of the outbox worker lead from a state the program
  reaches to one it reaches, in which the books are in order; and a worker without a database URL
  changes nothing.
\<close>

theorem workers_keep_the_books:
  assumes "pg_reachable s" and "expiry_main environ pool ping db env s = (code1, s1)"
    and "settlement_main environ pool ping now db recover_env create_env s1 = (code2, s2)"
    and "outbox_main environ pool ping publish db ticks s2 = (code3, s3)"
  shows "pg_reachable s3 \<and> pg_ok s3 \<and>
    (environ ''PAYCORE_DATABASE_URL'' = '''' \<longrightarrow> s3 = s \<and> code1 = 1 \<and> code2 = 1 \<and> code3 = 1)"
proof (intro conjI impI)
  have reach: "pg_reachable t \<Longrightarrow> pg_step\<^sup>*\<^sup>* t t' \<Longrightarrow> pg_reachable t'" for t t'
    by (erule rtranclp_induct) (auto intro: pg_reachable.step)
  show "pg_reachable s3"
    using reach [OF reach [OF reach [OF assms(1) expiry_main_steps [OF assms(2)]] settlement_main_steps [OF assms(3)]]
        outbox_main_steps [OF assms(4)]] .
  then show "pg_ok s3" by (rule pg_reachable_ok)
  assume "environ ''PAYCORE_DATABASE_URL'' = ''''"
  then have "DatabaseURL (Load environ) = ''''" by (simp add: Load_def getenv_def)
  then show "s3 = s" "code1 = 1" "code2 = 1" "code3 = 1"
    using assms(2-4) by (simp_all add: expiry_main_def settlement_main_def outbox_main_def connects_def
        loadWorkerConfig_def Let_def)
qed

definition shop_environment :: environment where
  "shop_environment key = (if key = ''PAYCORE_DATABASE_URL'' then ''postgres://paycore'' else '''')"

theorem workers_keep_the_books_witness:
  "\<exists>c1 s1 c2 s2 c3 s3. expiry_main shop_environment None None live_tx (run_env (day + hour) 3) run_authorized = (c1, s1) \<and>
    settlement_main shop_environment None None (day + hour) live_tx (run_env (day + hour) 4) (run_env (day + hour) 5) s1 =
      (c2, s2) \<and>
    outbox_main shop_environment None None (\<lambda>p i e. None) live_tx [] s2 = (c3, s3) \<and> pg_ok s3"
proof -
  obtain c1 s1 where 1: "expiry_main shop_environment None None live_tx (run_env (day + hour) 3) run_authorized = (c1, s1)"
    by fastforce
  obtain c2 s2 where 2: "settlement_main shop_environment None None (day + hour) live_tx (run_env (day + hour) 4)
      (run_env (day + hour) 5) s1 = (c2, s2)" by fastforce
  obtain c3 s3 where 3: "outbox_main shop_environment None None (\<lambda>p i e. None) live_tx [] s2 = (c3, s3)"
    by fastforce
  show ?thesis using workers_keep_the_books [OF _ 1 2 3] run_reachable 1 2 3 by blast
qed

end
