(* ===== verification/SqlColumns.thy ===== *)
theory SqlColumns
  imports IdempotencyBackends
begin

text \<open>
  Rows column by column: the values the driver sends and receives, the columns of a table with their
  types, the \<open>INSERT\<close> and \<open>UPDATE\<close> statements with their numbered parameters, and \<open>Scan\<close>,
  which reads the columns of an answer by their positions. What a value becomes in a column of its type
  is that of \<open>PostgresTables\<close>.
\<close>

section \<open>Values and columns\<close>

datatype pg_value = PgText string | PgInt int | PgTime time | PgJson json | PgBytes bytes | PgNull

datatype column_type = TEXT | CHAR3 | BIGINT | INTEGER | TIMESTAMPTZ | JSONB | BYTEA

record column =
  col_name :: string
  col_type :: column_type
  col_nullable :: bool

definition column :: "string \<Rightarrow> column_type \<Rightarrow> column" where
  "column name type = \<lparr>col_name = name, col_type = type, col_nullable = False\<rparr>"

definition null_column :: "string \<Rightarrow> column_type \<Rightarrow> column" where
  "null_column name type = \<lparr>col_name = name, col_type = type, col_nullable = True\<rparr>"

type_synonym cells = "(string \<times> pg_value) list"

definition sum_bind :: "'e + 'a \<Rightarrow> ('a \<Rightarrow> 'e + 'b) \<Rightarrow> 'e + 'b" where
  "sum_bind r f = (case r of Inl e \<Rightarrow> Inl e | Inr x \<Rightarrow> f x)"

definition type_mismatch :: error where "type_mismatch = DbErr ''datatype_mismatch''"

text \<open>A value in a column: padded, truncated to microseconds, or refused.\<close>

definition integer_in :: "int \<Rightarrow> nat \<Rightarrow> error + pg_value" where
  "integer_in n bits =
     (if - (2 ^ (bits - 1)) \<le> n \<and> n < 2 ^ (bits - 1) then Inr (PgInt n)
      else Inl (DbErr ''numeric_value_out_of_range''))"

fun store_value :: "column_type \<Rightarrow> pg_value \<Rightarrow> error + pg_value" where
  "store_value TEXT (PgText s) = Inr (PgText s)"
| "store_value CHAR3 (PgText s) = sum_bind (char3 s) (\<lambda>c. Inr (PgText c))"
| "store_value BIGINT (PgInt n) = integer_in n 64"
| "store_value INTEGER (PgInt n) = integer_in n 32"
| "store_value TIMESTAMPTZ (PgTime t) = Inr (PgTime (db_time t))"
| "store_value JSONB (PgJson j) = Inr (PgJson j)"
| "store_value BYTEA (PgBytes b) = Inr (PgBytes b)"
| "store_value type value = Inl type_mismatch"

definition store_column :: "column \<Rightarrow> pg_value \<Rightarrow> error + pg_value" where
  "store_column c value =
     (if value = PgNull then (if col_nullable c then Inr PgNull else Inl not_null_violation)
      else store_value (col_type c) value)"

definition value_of :: "cells \<Rightarrow> string \<Rightarrow> pg_value" where
  "value_of row name = (case map_of row name of None \<Rightarrow> PgNull | Some v \<Rightarrow> v)"

fun store_row :: "column list \<Rightarrow> cells \<Rightarrow> error + cells" where
  "store_row [] values = Inr []"
| "store_row (c # cs) values =
     sum_bind (store_column c (value_of values (col_name c))) (\<lambda>v.
     sum_bind (store_row cs values) (\<lambda>row. Inr ((col_name c, v) # row)))"

section \<open>Statements\<close>

text \<open>\<open>INSERT INTO table (columns) VALUES ($1, ..., $n)\<close>.\<close>

definition sql_insert :: "column list \<Rightarrow> string list \<Rightarrow> pg_value list \<Rightarrow> error + cells" where
  "sql_insert table columns args = store_row table (zip columns args)"

text \<open>\<open>UPDATE table SET column = expression, ...\<close>, with parameters counted from 1.\<close>

datatype set_expression = Param nat | Value pg_value | ColumnPlus string int

fun set_value :: "pg_value list \<Rightarrow> cells \<Rightarrow> set_expression \<Rightarrow> pg_value" where
  "set_value args row (Param n) = args ! (n - 1)"
| "set_value args row (Value v) = v"
| "set_value args row (ColumnPlus name k) =
     (case value_of row name of PgInt n \<Rightarrow> PgInt (n + k) | v \<Rightarrow> v)"

definition sql_update ::
  "column list \<Rightarrow> (string \<times> set_expression) list \<Rightarrow> pg_value list \<Rightarrow> cells \<Rightarrow> error + cells" where
  "sql_update table sets args row =
     sum_bind (store_row (filter (\<lambda>c. col_name c \<in> set (map fst sets)) table)
        (map (\<lambda>(name, e). (name, set_value args row e)) sets)) (\<lambda>changed.
     Inr (map (\<lambda>(name, v). (name, case map_of changed name of None \<Rightarrow> v | Some v' \<Rightarrow> v')) row))"

text \<open>The columns of a row that \<open>SELECT\<close> or \<open>RETURNING\<close> names.\<close>

definition sql_columns :: "string list \<Rightarrow> cells \<Rightarrow> pg_value list" where
  "sql_columns columns row = map (value_of row) columns"

section \<open>Scan\<close>

definition scan_error :: error where "scan_error = DbErr ''cannot scan''"

fun scan_text :: "pg_value \<Rightarrow> error + string" where
  "scan_text (PgText s) = Inr s" | "scan_text v = Inl scan_error"

fun scan_int :: "pg_value \<Rightarrow> error + int" where
  "scan_int (PgInt n) = Inr n" | "scan_int v = Inl scan_error"

fun scan_int64 :: "pg_value \<Rightarrow> error + int64" where
  "scan_int64 (PgInt n) = Inr (word_of_int n)" | "scan_int64 v = Inl scan_error"

fun scan_time :: "pg_value \<Rightarrow> error + time" where
  "scan_time (PgTime t) = Inr t" | "scan_time v = Inl scan_error"

fun scan_json :: "pg_value \<Rightarrow> error + json" where
  "scan_json (PgJson j) = Inr j" | "scan_json v = Inl scan_error"

fun scan_bytes :: "pg_value \<Rightarrow> error + bytes" where
  "scan_bytes (PgBytes b) = Inr b" | "scan_bytes v = Inl scan_error"

text \<open>\<open>pgtype.Timestamptz\<close> and \<open>*string\<close>.\<close>

definition scan_null :: "(pg_value \<Rightarrow> error + 'a) \<Rightarrow> pg_value \<Rightarrow> error + 'a option" where
  "scan_null scan v = (if v = PgNull then Inr None else sum_bind (scan v) (\<lambda>x. Inr (Some x)))"

definition null_value :: "('a \<Rightarrow> pg_value) \<Rightarrow> 'a option \<Rightarrow> pg_value" where
  "null_value f x = (case x of None \<Rightarrow> PgNull | Some y \<Rightarrow> f y)"

text \<open>
  A status is read as its text; the tables' \<open>CHECK\<close>s admit no others than the constants of the program.
\<close>

definition scan_status :: "('a \<Rightarrow> string) \<Rightarrow> 'a list \<Rightarrow> pg_value \<Rightarrow> error + 'a" where
  "scan_status text statuses v =
     sum_bind (scan_text v) (\<lambda>s. case find (\<lambda>st. text st = s) statuses of None \<Rightarrow> Inl scan_error | Some st \<Rightarrow> Inr st)"

text \<open>\<open>Scan\<close> into a number of destinations.\<close>

definition scan_columns :: "nat \<Rightarrow> (pg_value list \<Rightarrow> error + 'a) \<Rightarrow> pg_value list \<Rightarrow> error + 'a" where
  "scan_columns n scan values = (if length values = n then scan values else Inl scan_error)"

text \<open>What a statement answers, scanned; and two answers that agree but for the text of an error.\<close>

definition scanned :: "(pg_value list \<Rightarrow> error + 'a) \<Rightarrow> string list \<Rightarrow> error + cells \<Rightarrow> error + 'a" where
  "scanned scan columns r = sum_bind r (\<lambda>row. scan (sql_columns columns row))"

definition agree :: "error + 'a \<Rightarrow> error + 'a \<Rightarrow> bool" where
  "agree r r' \<longleftrightarrow> (isl r \<and> isl r') \<or> r = r'"

lemmas sql_defs = column_def null_column_def sum_bind_def store_column_def value_of_def sql_insert_def
  sql_update_def sql_columns_def scan_null_def null_value_def scan_status_def scan_columns_def scanned_def

declare sql_defs [go_eval] type_mismatch_def [go_eval] integer_in_def [go_eval] scan_error_def [go_eval]
  agree_def [go_eval]

section \<open>Lemmas\<close>

lemma sum_bind_simps [simp]:
  "sum_bind (Inl e) f = Inl e" "sum_bind (Inr x) f = f x"
  by (simp_all add: sum_bind_def)

lemma agree_refl [simp]: "agree r r"
  by (simp add: agree_def)

lemma agree_Inr [simp]: "agree (Inr x) (Inr y) \<longleftrightarrow> x = y" "agree (Inl e) (Inl e')" "\<not> agree (Inl e) (Inr y)"
    "\<not> agree (Inr x) (Inl e)"
  by (auto simp: agree_def)

lemma integer_in_word [simp]: "integer_in (sint (w :: int64)) 64 = Inr (PgInt (sint w))"
  using sint64_bounds [of w] by (simp add: integer_in_def)

lemma null_value_simps [simp]: "null_value f None = PgNull" "null_value f (Some x) = f x"
  by (simp_all add: null_value_def)

lemma value_of_Cons [simp]:
  "value_of ((k, v) # row) name = (if name = k then v else value_of row name)" "value_of [] name = PgNull"
  by (simp_all add: value_of_def)

lemma store_column_simps [simp]:
  "store_column (column n TEXT) (PgText s) = Inr (PgText s)"
  "store_column (column n CHAR3) (PgText s) = sum_bind (char3 s) (\<lambda>c. Inr (PgText c))"
  "store_column (column n BIGINT) (PgInt (sint (w :: int64))) = Inr (PgInt (sint w))"
  "store_column (column n INTEGER) (PgInt k) = integer_in k 32"
  "store_column (column n TIMESTAMPTZ) (PgTime t) = Inr (PgTime (db_time t))"
  "store_column (column n JSONB) (PgJson j) = Inr (PgJson j)"
  "store_column (column n BYTEA) (PgBytes b) = Inr (PgBytes b)"
  "store_column (column n type) PgNull = Inl not_null_violation"
  "store_column (null_column n TEXT) (null_value PgText u) = Inr (null_value PgText u)"
  "store_column (null_column n TIMESTAMPTZ) (null_value PgTime v) = Inr (null_value PgTime (map_option db_time v))"
  "store_column (null_column n type) PgNull = Inr PgNull"
  "store_column (null_column n TEXT) (PgText s) = Inr (PgText s)"
  "store_column (null_column n TIMESTAMPTZ) (PgTime t) = Inr (PgTime (db_time t))"
  by (simp_all add: store_column_def column_def null_column_def null_value_def split: option.split)

lemma column_name [simp]: "col_name (column n t) = n" "col_name (null_column n t) = n"
  by (simp_all add: column_def null_column_def)

end
