(* ===== verification/PostgresColumns.thy ===== *)
theory PostgresColumns
  imports SqlColumns MerchantPayerHandlers Scenario
begin

text \<open>
  The tables of \<open>migrations/*.sql\<close> and the statements of the Postgres adapters column by column: which
  argument goes into which column, which columns come back, and what \<open>scanMerchant\<close>,
  \<open>scanPayer\<close> and the others make of them. The record-level rows of \<open>PostgresBackend\<close>,
  \<open>SettlementStore\<close>, \<open>OutboxPostgres\<close> and \<open>IdempotencyBackends\<close> are what these statements do.
\<close>

section \<open>merchants\<close>

definition merchants_table :: "column list" where
  "merchants_table = [column ''id'' TEXT, column ''name'' TEXT, column ''status'' TEXT,
     column ''settlement_currency'' CHAR3, column ''created_at'' TIMESTAMPTZ, column ''updated_at'' TIMESTAMPTZ]"

definition merchant_columns :: "string list" where
  "merchant_columns = [''id'', ''name'', ''status'', ''settlement_currency'', ''created_at'', ''updated_at'']"

definition merchant_args :: "merchant \<Rightarrow> pg_value list" where
  "merchant_args m = [PgText (merchant_ID m), PgText (merchant_Name m),
     PgText (merchant_status_string (merchant_Status m)), PgText (SettlementCurrency m),
     PgTime (merchant_CreatedAt m), PgTime (merchant_UpdatedAt m)]"

definition scanMerchant :: "pg_value list \<Rightarrow> error + merchant" where
  "scanMerchant = scan_columns 6 (\<lambda>v.
     sum_bind (scan_text (v ! 0)) (\<lambda>ident.
     sum_bind (scan_text (v ! 1)) (\<lambda>name.
     sum_bind (scan_status merchant_status_string [MerchantStatusActive, MerchantStatusSuspended,
       MerchantStatusClosed] (v ! 2)) (\<lambda>status.
     sum_bind (scan_text (v ! 3)) (\<lambda>currency.
     sum_bind (scan_time (v ! 4)) (\<lambda>createdAt.
     sum_bind (scan_time (v ! 5)) (\<lambda>updatedAt.
     Inr \<lparr>merchant_ID = ident, merchant_Name = name, merchant_Status = status, SettlementCurrency = currency,
       merchant_CreatedAt = createdAt, merchant_UpdatedAt = updatedAt\<rparr>)))))))"

section \<open>payers\<close>

definition payers_table :: "column list" where
  "payers_table = [column ''id'' TEXT, column ''available_balance_minor'' BIGINT,
     column ''held_balance_minor'' BIGINT, column ''currency'' CHAR3, column ''version'' BIGINT,
     column ''created_at'' TIMESTAMPTZ, column ''updated_at'' TIMESTAMPTZ]"

definition payer_columns :: "string list" where
  "payer_columns = [''id'', ''available_balance_minor'', ''held_balance_minor'', ''currency'', ''version'',
     ''created_at'', ''updated_at'']"

definition payer_args :: "payer \<Rightarrow> pg_value list" where
  "payer_args y = [PgText (payer_ID y), PgInt (sint (AvailableBalanceMinor y)),
     PgInt (sint (HeldBalanceMinor y)), PgText (payer_Currency y), PgInt (sint (payer_Version y)),
     PgTime (payer_CreatedAt y), PgTime (payer_UpdatedAt y)]"

definition payer_update :: "(string \<times> set_expression) list" where
  "payer_update = [(''available_balance_minor'', Param 2), (''held_balance_minor'', Param 3),
     (''currency'', Param 4), (''version'', Param 5), (''updated_at'', Param 6)]"

text \<open>The last argument is the version in the \<open>WHERE\<close> clause.\<close>

definition payer_update_args :: "payer \<Rightarrow> pg_value list" where
  "payer_update_args y = [PgText (payer_ID y), PgInt (sint (AvailableBalanceMinor y)),
     PgInt (sint (HeldBalanceMinor y)), PgText (payer_Currency y), PgInt (sint (payer_Version y)),
     PgTime (payer_UpdatedAt y), PgInt (sint (payer_Version y - 1))]"

definition scanPayer :: "pg_value list \<Rightarrow> error + payer" where
  "scanPayer = scan_columns 7 (\<lambda>v.
     sum_bind (scan_text (v ! 0)) (\<lambda>ident.
     sum_bind (scan_int64 (v ! 1)) (\<lambda>available.
     sum_bind (scan_int64 (v ! 2)) (\<lambda>held.
     sum_bind (scan_text (v ! 3)) (\<lambda>currency.
     sum_bind (scan_int64 (v ! 4)) (\<lambda>version.
     sum_bind (scan_time (v ! 5)) (\<lambda>createdAt.
     sum_bind (scan_time (v ! 6)) (\<lambda>updatedAt.
     Inr \<lparr>payer_ID = ident, AvailableBalanceMinor = available, HeldBalanceMinor = held,
       payer_Currency = currency, payer_Version = version, payer_CreatedAt = createdAt,
       payer_UpdatedAt = updatedAt\<rparr>))))))))"

section \<open>payments\<close>

definition payments_table :: "column list" where
  "payments_table = [column ''id'' TEXT, column ''merchant_id'' TEXT, column ''payer_id'' TEXT,
     column ''amount_minor'' BIGINT, column ''currency'' CHAR3, column ''status'' TEXT,
     column ''authorization_hold_id'' TEXT, column ''authorized_at'' TIMESTAMPTZ,
     column ''expires_at'' TIMESTAMPTZ, null_column ''captured_at'' TIMESTAMPTZ,
     null_column ''settled_at'' TIMESTAMPTZ, column ''created_at'' TIMESTAMPTZ,
     column ''updated_at'' TIMESTAMPTZ, null_column ''settlement_batch_id'' TEXT]"

definition payment_columns :: "string list" where
  "payment_columns = [''id'', ''merchant_id'', ''payer_id'', ''amount_minor'', ''currency'', ''status'',
     ''authorization_hold_id'', ''authorized_at'', ''expires_at'', ''captured_at'', ''settled_at'',
     ''created_at'', ''updated_at'']"

definition payment_args :: "payment \<Rightarrow> pg_value list" where
  "payment_args p = [PgText (payment_ID p), PgText (payment_MerchantID p), PgText (payment_PayerID p),
     PgInt (sint (payment_AmountMinor p)), PgText (payment_Currency p),
     PgText (payment_status_string (payment_Status p)), PgText (AuthorizationHoldID p),
     PgTime (AuthorizedAt p), PgTime (payment_ExpiresAt p), null_value PgTime (CapturedAt p),
     null_value PgTime (SettledAt p), PgTime (payment_CreatedAt p), PgTime (payment_UpdatedAt p)]"

definition payment_update :: "(string \<times> set_expression) list" where
  "payment_update = [(''merchant_id'', Param 2), (''payer_id'', Param 3), (''amount_minor'', Param 4),
     (''currency'', Param 5), (''status'', Param 6), (''authorization_hold_id'', Param 7),
     (''authorized_at'', Param 8), (''expires_at'', Param 9), (''captured_at'', Param 10),
     (''settled_at'', Param 11), (''updated_at'', Param 12)]"

definition payment_update_args :: "payment \<Rightarrow> pg_value list" where
  "payment_update_args p = [PgText (payment_ID p), PgText (payment_MerchantID p), PgText (payment_PayerID p),
     PgInt (sint (payment_AmountMinor p)), PgText (payment_Currency p),
     PgText (payment_status_string (payment_Status p)), PgText (AuthorizationHoldID p),
     PgTime (AuthorizedAt p), PgTime (payment_ExpiresAt p), null_value PgTime (CapturedAt p),
     null_value PgTime (SettledAt p), PgTime (payment_UpdatedAt p)]"

definition payment_statuses :: "payment_status list" where
  "payment_statuses = [StatusPending, StatusAuthorized, StatusCaptured, StatusSettled, StatusExpired, StatusFailed]"

definition scanPayment :: "pg_value list \<Rightarrow> error + payment" where
  "scanPayment = scan_columns 13 (\<lambda>v.
     sum_bind (scan_text (v ! 0)) (\<lambda>ident.
     sum_bind (scan_text (v ! 1)) (\<lambda>merchant.
     sum_bind (scan_text (v ! 2)) (\<lambda>payer.
     sum_bind (scan_int64 (v ! 3)) (\<lambda>amount.
     sum_bind (scan_text (v ! 4)) (\<lambda>currency.
     sum_bind (scan_status payment_status_string payment_statuses (v ! 5)) (\<lambda>status.
     sum_bind (scan_text (v ! 6)) (\<lambda>hold.
     sum_bind (scan_time (v ! 7)) (\<lambda>authorizedAt.
     sum_bind (scan_time (v ! 8)) (\<lambda>expiresAt.
     sum_bind (scan_null scan_time (v ! 9)) (\<lambda>capturedAt.
     sum_bind (scan_null scan_time (v ! 10)) (\<lambda>settledAt.
     sum_bind (scan_time (v ! 11)) (\<lambda>createdAt.
     sum_bind (scan_time (v ! 12)) (\<lambda>updatedAt.
     Inr \<lparr>payment_ID = ident, payment_MerchantID = merchant, payment_PayerID = payer,
       payment_AmountMinor = amount, payment_Currency = currency, payment_Status = status,
       AuthorizationHoldID = hold, AuthorizedAt = authorizedAt, payment_ExpiresAt = expiresAt,
       CapturedAt = capturedAt, SettledAt = settledAt, payment_CreatedAt = createdAt,
       payment_UpdatedAt = updatedAt\<rparr>))))))))))))))"

section \<open>payment\_holds\<close>

definition holds_table :: "column list" where
  "holds_table = [column ''id'' TEXT, column ''payment_id'' TEXT, column ''payer_id'' TEXT,
     column ''amount_minor'' BIGINT, column ''currency'' CHAR3, column ''status'' TEXT,
     column ''created_at'' TIMESTAMPTZ, column ''updated_at'' TIMESTAMPTZ]"

definition hold_columns :: "string list" where
  "hold_columns = [''id'', ''payment_id'', ''payer_id'', ''amount_minor'', ''currency'', ''status'',
     ''created_at'', ''updated_at'']"

definition hold_args :: "hold \<Rightarrow> pg_value list" where
  "hold_args h = [PgText (hold_ID h), PgText (hold_PaymentID h), PgText (hold_PayerID h),
     PgInt (sint (hold_AmountMinor h)), PgText (hold_Currency h), PgText (hold_status_string (hold_Status h)),
     PgTime (hold_CreatedAt h), PgTime (hold_UpdatedAt h)]"

definition hold_update :: "(string \<times> set_expression) list" where
  "hold_update = [(''payment_id'', Param 2), (''payer_id'', Param 3), (''amount_minor'', Param 4),
     (''currency'', Param 5), (''status'', Param 6), (''updated_at'', Param 7)]"

definition hold_update_args :: "hold \<Rightarrow> pg_value list" where
  "hold_update_args h = [PgText (hold_ID h), PgText (hold_PaymentID h), PgText (hold_PayerID h),
     PgInt (sint (hold_AmountMinor h)), PgText (hold_Currency h), PgText (hold_status_string (hold_Status h)),
     PgTime (hold_UpdatedAt h)]"

definition scanHold :: "pg_value list \<Rightarrow> error + hold" where
  "scanHold = scan_columns 8 (\<lambda>v.
     sum_bind (scan_text (v ! 0)) (\<lambda>ident.
     sum_bind (scan_text (v ! 1)) (\<lambda>payment.
     sum_bind (scan_text (v ! 2)) (\<lambda>payer.
     sum_bind (scan_int64 (v ! 3)) (\<lambda>amount.
     sum_bind (scan_text (v ! 4)) (\<lambda>currency.
     sum_bind (scan_status hold_status_string [HoldStatusHeld, HoldStatusCaptured, HoldStatusReleased]
       (v ! 5)) (\<lambda>status.
     sum_bind (scan_time (v ! 6)) (\<lambda>createdAt.
     sum_bind (scan_time (v ! 7)) (\<lambda>updatedAt.
     Inr \<lparr>hold_ID = ident, hold_PaymentID = payment, hold_PayerID = payer, hold_AmountMinor = amount,
       hold_Currency = currency, hold_Status = status, hold_CreatedAt = createdAt,
       hold_UpdatedAt = updatedAt\<rparr>)))))))))"

section \<open>outbox\_events\<close>

fun event_status_string :: "event_status \<Rightarrow> string" where
  "event_status_string EventPending = ''PENDING''"
| "event_status_string EventInProgress = ''IN_PROGRESS''"
| "event_status_string EventPublished = ''PUBLISHED''"
| "event_status_string EventFailed = ''FAILED''"

definition events_table :: "column list" where
  "events_table = [column ''id'' TEXT, column ''aggregate_type'' TEXT, column ''aggregate_id'' TEXT,
     column ''event_type'' TEXT, column ''payload'' JSONB, column ''status'' TEXT, column ''attempts'' INTEGER,
     column ''available_at'' TIMESTAMPTZ, column ''created_at'' TIMESTAMPTZ, column ''updated_at'' TIMESTAMPTZ,
     null_column ''locked_at'' TIMESTAMPTZ, null_column ''locked_by'' TEXT,
     null_column ''published_at'' TIMESTAMPTZ, null_column ''last_error'' TEXT]"

definition event_columns :: "string list" where
  "event_columns = [''id'', ''aggregate_type'', ''aggregate_id'', ''event_type'', ''payload'', ''status'',
     ''attempts'', ''available_at'', ''created_at'', ''updated_at'', ''locked_at'', ''locked_by'',
     ''published_at'', ''last_error'']"

definition event_args :: "event \<Rightarrow> pg_value list" where
  "event_args e = [PgText (event_ID e), PgText (AggregateType e), PgText (AggregateID e),
     PgText (EventType e), PgJson (Payload e), PgText (event_status_string (event_Status e)),
     PgInt (sint (Attempts e)), PgTime (AvailableAt e), PgTime (event_CreatedAt e),
     PgTime (event_UpdatedAt e), null_value PgTime (LockedAt e), null_value PgText (LockedBy e),
     null_value PgTime (PublishedAt e), null_value PgText (event_LastError e)]"

definition claim_update :: "(string \<times> set_expression) list" where
  "claim_update = [(''status'', Value (PgText ''IN_PROGRESS'')), (''attempts'', ColumnPlus ''attempts'' 1),
     (''locked_at'', Param 1), (''locked_by'', Param 3), (''last_error'', Value PgNull),
     (''updated_at'', Param 1)]"

definition claim_args :: "claim_input \<Rightarrow> pg_value list" where
  "claim_args input = [PgTime (utc (ci_Now input)), PgInt (ci_Limit input), PgText (ci_WorkerID input)]"

definition published_update :: "(string \<times> set_expression) list" where
  "published_update = [(''status'', Value (PgText ''PUBLISHED'')), (''published_at'', Param 2),
     (''locked_at'', Value PgNull), (''locked_by'', Value PgNull), (''last_error'', Value PgNull),
     (''updated_at'', Param 2)]"

definition published_args :: "string \<Rightarrow> time \<Rightarrow> pg_value list" where
  "published_args eventID now = [PgText eventID, PgTime (utc now)]"

definition failed_update :: "(string \<times> set_expression) list" where
  "failed_update = [(''status'', Value (PgText ''FAILED'')), (''available_at'', Param 2),
     (''locked_at'', Value PgNull), (''locked_by'', Value PgNull), (''published_at'', Value PgNull),
     (''last_error'', Param 3), (''updated_at'', Param 4)]"

definition failed_args :: "mark_failed_input \<Rightarrow> pg_value list" where
  "failed_args input = [PgText (mfi_EventID input), PgTime (utc (mfi_NextAvailable input)),
     PgText (mfi_ErrorMessage input), PgTime (utc (mfi_Now input))]"

definition scanEvent :: "pg_value list \<Rightarrow> error + event" where
  "scanEvent = scan_columns 14 (\<lambda>v.
     sum_bind (scan_text (v ! 0)) (\<lambda>ident.
     sum_bind (scan_text (v ! 1)) (\<lambda>aggregateType.
     sum_bind (scan_text (v ! 2)) (\<lambda>aggregateID.
     sum_bind (scan_text (v ! 3)) (\<lambda>eventType.
     sum_bind (scan_json (v ! 4)) (\<lambda>payload.
     sum_bind (scan_status event_status_string [EventPending, EventInProgress, EventPublished, EventFailed]
       (v ! 5)) (\<lambda>status.
     sum_bind (scan_int64 (v ! 6)) (\<lambda>attempts.
     sum_bind (scan_time (v ! 7)) (\<lambda>availableAt.
     sum_bind (scan_time (v ! 8)) (\<lambda>createdAt.
     sum_bind (scan_time (v ! 9)) (\<lambda>updatedAt.
     sum_bind (scan_null scan_time (v ! 10)) (\<lambda>lockedAt.
     sum_bind (scan_null scan_text (v ! 11)) (\<lambda>lockedBy.
     sum_bind (scan_null scan_time (v ! 12)) (\<lambda>publishedAt.
     sum_bind (scan_null scan_text (v ! 13)) (\<lambda>lastError.
     Inr \<lparr>event_ID = ident, AggregateType = aggregateType, AggregateID = aggregateID,
       EventType = eventType, Payload = payload, event_Status = status, Attempts = attempts,
       AvailableAt = availableAt, event_CreatedAt = createdAt, event_UpdatedAt = updatedAt,
       LockedAt = lockedAt, LockedBy = lockedBy, PublishedAt = publishedAt,
       event_LastError = lastError\<rparr>)))))))))))))))"

section \<open>settlement\_batches and settlement\_line\_items\<close>

definition batches_table :: "column list" where
  "batches_table = [column ''id'' TEXT, column ''status'' TEXT, column ''window_start'' TIMESTAMPTZ,
     column ''window_end'' TIMESTAMPTZ, null_column ''claimed_by'' TEXT, null_column ''locked_until'' TIMESTAMPTZ,
     null_column ''completed_at'' TIMESTAMPTZ, null_column ''last_error'' TEXT,
     column ''created_at'' TIMESTAMPTZ, column ''updated_at'' TIMESTAMPTZ]"

definition batch_columns :: "string list" where
  "batch_columns = [''id'', ''status'', ''window_start'', ''window_end'', ''claimed_by'', ''locked_until'',
     ''completed_at'', ''last_error'', ''created_at'', ''updated_at'']"

definition batch_args :: "batch \<Rightarrow> pg_value list" where
  "batch_args b = [PgText (batch_ID b), PgText (batch_status_string (batch_Status b)),
     PgTime (WindowStart b), PgTime (WindowEnd b), null_value PgText (ClaimedBy b),
     null_value PgTime (LockedUntil b), null_value PgTime (CompletedAt b), null_value PgText (batch_LastError b),
     PgTime (batch_CreatedAt b), PgTime (batch_UpdatedAt b)]"

definition batch_update :: "(string \<times> set_expression) list" where
  "batch_update = [(''status'', Param 2), (''window_start'', Param 3), (''window_end'', Param 4),
     (''claimed_by'', Param 5), (''locked_until'', Param 6), (''completed_at'', Param 7),
     (''last_error'', Param 8), (''updated_at'', Param 9)]"

definition batch_update_args :: "batch \<Rightarrow> pg_value list" where
  "batch_update_args b = [PgText (batch_ID b), PgText (batch_status_string (batch_Status b)),
     PgTime (WindowStart b), PgTime (WindowEnd b), null_value PgText (ClaimedBy b),
     null_value PgTime (LockedUntil b), null_value PgTime (CompletedAt b), null_value PgText (batch_LastError b),
     PgTime (batch_UpdatedAt b)]"

definition scanBatch :: "pg_value list \<Rightarrow> error + batch" where
  "scanBatch = scan_columns 10 (\<lambda>v.
     sum_bind (scan_text (v ! 0)) (\<lambda>ident.
     sum_bind (scan_status batch_status_string [BatchStatusCreated, BatchStatusProcessing,
       BatchStatusCompleted, BatchStatusFailed] (v ! 1)) (\<lambda>status.
     sum_bind (scan_time (v ! 2)) (\<lambda>windowStart.
     sum_bind (scan_time (v ! 3)) (\<lambda>windowEnd.
     sum_bind (scan_null scan_text (v ! 4)) (\<lambda>claimedBy.
     sum_bind (scan_null scan_time (v ! 5)) (\<lambda>lockedUntil.
     sum_bind (scan_null scan_time (v ! 6)) (\<lambda>completedAt.
     sum_bind (scan_null scan_text (v ! 7)) (\<lambda>lastError.
     sum_bind (scan_time (v ! 8)) (\<lambda>createdAt.
     sum_bind (scan_time (v ! 9)) (\<lambda>updatedAt.
     Inr \<lparr>batch_ID = ident, batch_Status = status, WindowStart = windowStart, WindowEnd = windowEnd,
       ClaimedBy = claimedBy, LockedUntil = lockedUntil, CompletedAt = completedAt,
       batch_LastError = lastError, batch_CreatedAt = createdAt, batch_UpdatedAt = updatedAt\<rparr>)))))))))))"

definition line_items_table :: "column list" where
  "line_items_table = [column ''id'' TEXT, column ''settlement_batch_id'' TEXT, column ''merchant_id'' TEXT,
     column ''payment_id'' TEXT, column ''amount_minor'' BIGINT, column ''fee_amount_minor'' BIGINT,
     column ''net_amount_minor'' BIGINT, column ''currency'' CHAR3, column ''payment_captured_at'' TIMESTAMPTZ,
     column ''created_at'' TIMESTAMPTZ]"

definition line_item_columns :: "string list" where
  "line_item_columns = [''id'', ''settlement_batch_id'', ''merchant_id'', ''payment_id'', ''amount_minor'',
     ''fee_amount_minor'', ''net_amount_minor'', ''currency'', ''payment_captured_at'', ''created_at'']"

definition line_item_args :: "line_item \<Rightarrow> pg_value list" where
  "line_item_args it = [PgText (item_ID it), PgText (item_BatchID it), PgText (item_MerchantID it),
     PgText (item_PaymentID it), PgInt (sint (item_AmountMinor it)), PgInt (sint (FeeAmountMinor it)),
     PgInt (sint (NetAmountMinor it)), PgText (item_Currency it), PgTime (PaymentCaptured it),
     PgTime (item_CreatedAt it)]"

definition scanLineItem :: "pg_value list \<Rightarrow> error + line_item" where
  "scanLineItem = scan_columns 10 (\<lambda>v.
     sum_bind (scan_text (v ! 0)) (\<lambda>ident.
     sum_bind (scan_text (v ! 1)) (\<lambda>batch.
     sum_bind (scan_text (v ! 2)) (\<lambda>merchant.
     sum_bind (scan_text (v ! 3)) (\<lambda>payment.
     sum_bind (scan_int64 (v ! 4)) (\<lambda>amount.
     sum_bind (scan_int64 (v ! 5)) (\<lambda>fee.
     sum_bind (scan_int64 (v ! 6)) (\<lambda>net.
     sum_bind (scan_text (v ! 7)) (\<lambda>currency.
     sum_bind (scan_time (v ! 8)) (\<lambda>captured.
     sum_bind (scan_time (v ! 9)) (\<lambda>createdAt.
     Inr \<lparr>item_ID = ident, item_BatchID = batch, item_MerchantID = merchant, item_PaymentID = payment,
       item_AmountMinor = amount, FeeAmountMinor = fee, NetAmountMinor = net, item_Currency = currency,
       PaymentCaptured = captured, item_CreatedAt = createdAt\<rparr>)))))))))))"

text \<open>The claim of payments: what it sets and what it answers.\<close>

definition claimed_columns :: "string list" where
  "claimed_columns = [''id'', ''merchant_id'', ''amount_minor'', ''currency'', ''captured_at'', ''settlement_batch_id'']"

definition claim_payments_update :: "(string \<times> set_expression) list" where
  "claim_payments_update = [(''settlement_batch_id'', Param 4), (''updated_at'', Param 5)]"

definition claim_payments_args :: "claim_payments_input \<Rightarrow> pg_value list" where
  "claim_payments_args input = [PgTime (utc (cpi_WindowStart input)), PgTime (utc (cpi_WindowEnd input)),
     PgInt (cpi_Limit input), PgText (cpi_BatchID input), PgTime (utc (cpi_Now input))]"

definition scanClaimedPayment :: "pg_value list \<Rightarrow> error + claimed_payment" where
  "scanClaimedPayment = scan_columns 6 (\<lambda>v.
     sum_bind (scan_text (v ! 0)) (\<lambda>payment.
     sum_bind (scan_text (v ! 1)) (\<lambda>merchant.
     sum_bind (scan_int64 (v ! 2)) (\<lambda>amount.
     sum_bind (scan_text (v ! 3)) (\<lambda>currency.
     sum_bind (scan_time (v ! 4)) (\<lambda>capturedAt.
     sum_bind (scan_text (v ! 5)) (\<lambda>batch.
     Inr \<lparr>cp_PaymentID = payment, cp_MerchantID = merchant, cp_AmountMinor = amount, cp_Currency = currency,
       cp_CapturedAt = capturedAt, cp_SettlementBatch = batch\<rparr>)))))))"

section \<open>idempotency\_records\<close>

fun idem_status_string :: "idem_status \<Rightarrow> string" where
  "idem_status_string IdemInProgress = ''IN_PROGRESS''"
| "idem_status_string IdemCompleted = ''COMPLETED''"
| "idem_status_string IdemFailed = ''FAILED''"

definition records_table :: "column list" where
  "records_table = [column ''key'' TEXT, column ''request_hash'' TEXT, column ''status'' TEXT,
     column ''response_code'' INTEGER, column ''response_body'' BYTEA, column ''created_at'' TIMESTAMPTZ,
     column ''updated_at'' TIMESTAMPTZ, column ''expires_at'' TIMESTAMPTZ]"

definition record_columns :: "string list" where
  "record_columns = [''key'', ''request_hash'', ''status'', ''response_code'', ''response_body'', ''created_at'',
     ''updated_at'', ''expires_at'']"

text \<open>The body of a new record is empty and not nil; that of a completed one is nil when it is empty.\<close>

definition record_args :: "idem_record \<Rightarrow> pg_value list" where
  "record_args r = [PgText (ir_Key r), PgText (ir_RequestHash r), PgText (idem_status_string (ir_Status r)),
     PgInt (ir_ResponseCode r), PgBytes (ir_ResponseBody r), PgTime (ir_CreatedAt r),
     PgTime (ir_UpdatedAt r), PgTime (ir_ExpiresAt r)]"

definition record_update :: "(string \<times> set_expression) list" where
  "record_update = [(''request_hash'', Param 2), (''status'', Param 3), (''response_code'', Param 4),
     (''response_body'', Param 5), (''updated_at'', Param 6), (''expires_at'', Param 7)]"

definition record_update_args :: "idem_record \<Rightarrow> pg_value list" where
  "record_update_args r = [PgText (ir_Key r), PgText (ir_RequestHash r),
     PgText (idem_status_string (ir_Status r)), PgInt (ir_ResponseCode r),
     (if ir_ResponseBody r = [] then PgNull else PgBytes (ir_ResponseBody r)),
     PgTime (ir_UpdatedAt r), PgTime (ir_ExpiresAt r)]"

definition scanRecord :: "pg_value list \<Rightarrow> error + idem_record" where
  "scanRecord = scan_columns 8 (\<lambda>v.
     sum_bind (scan_text (v ! 0)) (\<lambda>key.
     sum_bind (scan_text (v ! 1)) (\<lambda>requestHash.
     sum_bind (scan_status idem_status_string [IdemInProgress, IdemCompleted, IdemFailed] (v ! 2)) (\<lambda>status.
     sum_bind (scan_int (v ! 3)) (\<lambda>code.
     sum_bind (scan_bytes (v ! 4)) (\<lambda>body.
     sum_bind (scan_time (v ! 5)) (\<lambda>createdAt.
     sum_bind (scan_time (v ! 6)) (\<lambda>updatedAt.
     sum_bind (scan_time (v ! 7)) (\<lambda>expiresAt.
     Inr \<lparr>ir_Key = key, ir_RequestHash = requestHash, ir_Status = status, ir_ResponseCode = code,
       ir_ResponseBody = body, ir_CreatedAt = createdAt, ir_UpdatedAt = updatedAt,
       ir_ExpiresAt = expiresAt\<rparr>)))))))))"

section \<open>Rows\<close>

text \<open>The cells of a stored record; those of a payment with the batch that has claimed it.\<close>

definition merchant_cells :: "merchant \<Rightarrow> cells" where
  "merchant_cells m = zip merchant_columns (merchant_args m)"

definition payer_cells :: "payer \<Rightarrow> cells" where
  "payer_cells y = zip payer_columns (payer_args y)"

definition payment_cells :: "payment \<Rightarrow> string option \<Rightarrow> cells" where
  "payment_cells p batch = zip payment_columns (payment_args p) @ [(''settlement_batch_id'', null_value PgText batch)]"

definition hold_cells :: "hold \<Rightarrow> cells" where
  "hold_cells h = zip hold_columns (hold_args h)"

definition event_cells :: "event \<Rightarrow> cells" where
  "event_cells e = zip event_columns (event_args e)"

definition batch_cells :: "batch \<Rightarrow> cells" where
  "batch_cells b = zip batch_columns (batch_args b)"

definition line_item_cells :: "line_item \<Rightarrow> cells" where
  "line_item_cells it = zip line_item_columns (line_item_args it)"

definition record_cells :: "idem_record \<Rightarrow> cells" where
  "record_cells r = zip record_columns (record_args r)"

lemmas table_defs = merchants_table_def payers_table_def payments_table_def holds_table_def events_table_def
  batches_table_def line_items_table_def records_table_def
lemmas column_list_defs = merchant_columns_def payer_columns_def payment_columns_def hold_columns_def
  event_columns_def batch_columns_def line_item_columns_def record_columns_def claimed_columns_def
lemmas args_defs = merchant_args_def payer_args_def payment_args_def hold_args_def event_args_def
  batch_args_def line_item_args_def record_args_def
lemmas scan_defs = scanMerchant_def scanPayer_def scanPayment_def scanHold_def scanEvent_def scanBatch_def
  scanLineItem_def scanRecord_def scanClaimedPayment_def
lemmas cells_defs = merchant_cells_def payer_cells_def payment_cells_def hold_cells_def event_cells_def
  batch_cells_def line_item_cells_def record_cells_def

declare table_defs [go_eval] column_list_defs [go_eval] args_defs [go_eval] scan_defs [go_eval] cells_defs [go_eval] payment_statuses_def [go_eval]

lemma scan_null_value [simp]:
  "scan_null scan_time (null_value PgTime x) = Inr x" "scan_null scan_text (null_value PgText y) = Inr y"
  by (simp_all add: scan_null_def null_value_def split: option.splits)

lemma scan_statuses [simp]:
  "scan_status merchant_status_string [MerchantStatusActive, MerchantStatusSuspended, MerchantStatusClosed]
     (PgText (merchant_status_string a)) = Inr a"
  "scan_status payment_status_string payment_statuses (PgText (payment_status_string b)) = Inr b"
  "scan_status hold_status_string [HoldStatusHeld, HoldStatusCaptured, HoldStatusReleased]
     (PgText (hold_status_string c)) = Inr c"
  "scan_status event_status_string [EventPending, EventInProgress, EventPublished, EventFailed]
     (PgText (event_status_string d)) = Inr d"
  "scan_status batch_status_string [BatchStatusCreated, BatchStatusProcessing, BatchStatusCompleted,
     BatchStatusFailed] (PgText (batch_status_string f)) = Inr f"
  "scan_status idem_status_string [IdemInProgress, IdemCompleted, IdemFailed] (PgText (idem_status_string g)) = Inr g"
proof -
  note defs = scan_status_def payment_statuses_def
  show "scan_status merchant_status_string [MerchantStatusActive, MerchantStatusSuspended, MerchantStatusClosed]
      (PgText (merchant_status_string a)) = Inr a" by (cases a) (simp_all add: defs)
  show "scan_status payment_status_string payment_statuses (PgText (payment_status_string b)) = Inr b"
    by (cases b) (simp_all add: defs)
  show "scan_status hold_status_string [HoldStatusHeld, HoldStatusCaptured, HoldStatusReleased]
      (PgText (hold_status_string c)) = Inr c" by (cases c) (simp_all add: defs)
  show "scan_status event_status_string [EventPending, EventInProgress, EventPublished, EventFailed]
      (PgText (event_status_string d)) = Inr d" by (cases d) (simp_all add: defs)
  show "scan_status batch_status_string [BatchStatusCreated, BatchStatusProcessing, BatchStatusCompleted,
      BatchStatusFailed] (PgText (batch_status_string f)) = Inr f" by (cases f) (simp_all add: defs)
  show "scan_status idem_status_string [IdemInProgress, IdemCompleted, IdemFailed]
      (PgText (idem_status_string g)) = Inr g" by (cases g) (simp_all add: defs)
qed

section \<open>Reading\<close>

text \<open>The columns a query names are read into the fields they belong to.\<close>

lemmas read_defs = sql_columns_def column_list_defs args_defs scan_defs scan_columns_def cells_defs

lemma cells_read:
  "scanMerchant (sql_columns merchant_columns (merchant_cells m)) = Inr m"
  "scanPayer (sql_columns payer_columns (payer_cells y)) = Inr y"
  "scanPayment (sql_columns payment_columns (payment_cells p batch)) = Inr p"
  "scanHold (sql_columns hold_columns (hold_cells h)) = Inr h"
  "scanEvent (sql_columns event_columns (event_cells e)) = Inr e"
  "scanBatch (sql_columns batch_columns (batch_cells b)) = Inr b"
  "scanLineItem (sql_columns line_item_columns (line_item_cells it)) = Inr it"
  "scanRecord (sql_columns record_columns (record_cells r)) = Inr r"
  by (simp_all add: read_defs)

section \<open>Inserting\<close>

text \<open>A record in the cells of its row, or the error that kept it out.\<close>

definition in_cells :: "('a \<Rightarrow> cells) \<Rightarrow> error + 'a \<Rightarrow> error + cells" where
  "in_cells cells r = sum_bind r (\<lambda>x. Inr (cells x))"

lemma in_cells_simps [simp]: "in_cells f (Inl e) = Inl e" "in_cells f (Inr x) = Inr (f x)"
  by (simp_all add: in_cells_def)

lemmas write_defs = sql_insert_def table_defs column_list_defs args_defs cells_defs

lemma inserted_cells:
  "agree (sql_insert merchants_table merchant_columns (merchant_args m)) (in_cells merchant_cells (merchant_row m))"
  "agree (sql_insert payers_table payer_columns (payer_args y)) (in_cells payer_cells (payer_row y))"
  "agree (sql_insert payments_table payment_columns (payment_args p))
     (in_cells (\<lambda>p. payment_cells p None) (payment_row p))"
  "agree (sql_insert holds_table hold_columns (hold_args h)) (in_cells hold_cells (hold_row h))"
  "agree (sql_insert events_table event_columns (event_args e)) (in_cells event_cells (event_row e))"
  "agree (sql_insert batches_table batch_columns (batch_args b)) (Inr (batch_cells (batch_row b)))"
  "agree (sql_insert line_items_table line_item_columns (line_item_args it)) (in_cells line_item_cells (line_item_row it))"
  "agree (sql_insert records_table record_columns (record_args r)) (in_cells record_cells (idem_row r))"
proof -
  show "agree (sql_insert merchants_table merchant_columns (merchant_args m)) (in_cells merchant_cells (merchant_row m))"
    by (cases "char3 (SettlementCurrency m)") (simp_all add: write_defs merchant_row_def)
  show "agree (sql_insert payers_table payer_columns (payer_args y)) (in_cells payer_cells (payer_row y))"
    by (cases "char3 (payer_Currency y)") (simp_all add: write_defs payer_row_def)
  show "agree (sql_insert payments_table payment_columns (payment_args p))
      (in_cells (\<lambda>p. payment_cells p None) (payment_row p))"
    by (cases "char3 (payment_Currency p)") (simp_all add: write_defs payment_row_def)
  show "agree (sql_insert holds_table hold_columns (hold_args h)) (in_cells hold_cells (hold_row h))"
    by (cases "char3 (hold_Currency h)") (simp_all add: write_defs hold_row_def)
  show "agree (sql_insert events_table event_columns (event_args e)) (in_cells event_cells (event_row e))"
    by (simp add: write_defs event_row_def integer_in_def)
  show "agree (sql_insert batches_table batch_columns (batch_args b)) (Inr (batch_cells (batch_row b)))"
    by (simp add: write_defs batch_row_def)
  show "agree (sql_insert line_items_table line_item_columns (line_item_args it)) (in_cells line_item_cells (line_item_row it))"
    by (cases "char3 (item_Currency it)") (simp_all add: write_defs line_item_row_def)
  show "agree (sql_insert records_table record_columns (record_args r)) (in_cells record_cells (idem_row r))"
    by (simp add: write_defs idem_row_def integer_in_def)
qed

lemma agree_scanned:
  "agree r (in_cells cells x) \<Longrightarrow> (\<And>y. scan (sql_columns columns (cells y)) = Inr y) \<Longrightarrow>
   agree (scanned scan columns r) x"
  by (cases r; cases x) (auto simp: scanned_def)

text \<open>
  C36. What an \<open>INSERT\<close> of the adapters writes, read back by its \<open>RETURNING\<close> clause and scanned, is
  the record that was given, every field in its own place: up to the blanks of a currency and the
  microseconds of times as the row of the table says, and refused when the row is.
\<close>

theorem rows_are_read_back:
  "agree (scanned scanMerchant merchant_columns (sql_insert merchants_table merchant_columns (merchant_args m)))
     (merchant_row m) \<and>
   agree (scanned scanPayer payer_columns (sql_insert payers_table payer_columns (payer_args y))) (payer_row y) \<and>
   agree (scanned scanPayment payment_columns (sql_insert payments_table payment_columns (payment_args p)))
     (payment_row p) \<and>
   agree (scanned scanHold hold_columns (sql_insert holds_table hold_columns (hold_args h))) (hold_row h) \<and>
   agree (scanned scanEvent event_columns (sql_insert events_table event_columns (event_args e))) (event_row e) \<and>
   agree (scanned scanBatch batch_columns (sql_insert batches_table batch_columns (batch_args b)))
     (Inr (batch_row b)) \<and>
   agree (scanned scanLineItem line_item_columns (sql_insert line_items_table line_item_columns (line_item_args it)))
     (line_item_row it) \<and>
   agree (scanned scanRecord record_columns (sql_insert records_table record_columns (record_args r))) (idem_row r)"
proof (intro conjI)
  have "agree (sql_insert batches_table batch_columns (batch_args b)) (in_cells batch_cells (Inr (batch_row b)))"
    using inserted_cells(6) by simp
  then show "agree (scanned scanBatch batch_columns (sql_insert batches_table batch_columns (batch_args b)))
      (Inr (batch_row b))"
    by (rule agree_scanned) (rule cells_read)
qed (rule agree_scanned, rule inserted_cells, rule cells_read)+

section \<open>Updating\<close>

lemmas set_defs = sql_update_def table_defs column_list_defs args_defs cells_defs payer_update_def
  payer_update_args_def payment_update_def payment_update_args_def hold_update_def hold_update_args_def
  batch_update_def batch_update_args_def record_update_def record_update_args_def claim_update_def claim_args_def
  published_update_def published_args_def failed_update_def failed_args_def claim_payments_update_def
  claim_payments_args_def

lemma updated_payer:
  assumes "payer_ID y = payer_ID r0" "db_time (payer_CreatedAt r0) = payer_CreatedAt r0"
  shows "agree (sql_update payers_table payer_update (payer_update_args y) (payer_cells r0))
    (in_cells payer_cells (payer_set y r0))"
  using assms by (cases "char3 (payer_Currency y)") (simp_all add: set_defs payer_set_def payer_row_def)

lemma updated_payment:
  assumes "payment_ID p = payment_ID r0" "db_time (payment_CreatedAt r0) = payment_CreatedAt r0"
  shows "agree (sql_update payments_table payment_update (payment_update_args p) (payment_cells r0 batch))
    (in_cells (\<lambda>p. payment_cells p batch) (payment_set p r0))"
  using assms by (cases "char3 (payment_Currency p)") (simp_all add: set_defs payment_set_def payment_row_def)

lemma updated_hold:
  assumes "hold_ID h = hold_ID r0" "db_time (hold_CreatedAt r0) = hold_CreatedAt r0"
  shows "agree (sql_update holds_table hold_update (hold_update_args h) (hold_cells r0))
    (in_cells hold_cells (hold_set h r0))"
  using assms by (cases "char3 (hold_Currency h)") (simp_all add: set_defs hold_set_def hold_row_def)

lemma updated_batch:
  assumes "batch_ID b = batch_ID r0" "db_time (batch_CreatedAt r0) = batch_CreatedAt r0"
  shows "agree (sql_update batches_table batch_update (batch_update_args b) (batch_cells r0))
    (Inr (batch_cells (batch_row (b\<lparr>batch_CreatedAt := batch_CreatedAt r0\<rparr>))))"
  using assms by (simp add: set_defs batch_row_def)

lemma updated_record:
  assumes "ir_Key r = ir_Key r0" "db_time (ir_CreatedAt r0) = ir_CreatedAt r0"
  shows "agree (sql_update records_table record_update (record_update_args r) (record_cells r0))
    (in_cells record_cells (idem_set r r0))"
  using assms by (simp add: set_defs idem_set_def idem_row_def integer_in_def)

lemma updated_events:
  "sql_update events_table published_update (published_args i now) (event_cells e) =
     Inr (event_cells (e\<lparr>event_Status := EventPublished, PublishedAt := Some (db_time (utc now)),
       LockedAt := None, LockedBy := None, event_LastError := None, event_UpdatedAt := db_time (utc now)\<rparr>))"
  "sql_update events_table failed_update (failed_args input) (event_cells e) =
     Inr (event_cells (e\<lparr>event_Status := EventFailed, AvailableAt := db_time (utc (mfi_NextAvailable input)),
       LockedAt := None, LockedBy := None, PublishedAt := None, event_LastError := Some (mfi_ErrorMessage input),
       event_UpdatedAt := db_time (utc (mfi_Now input))\<rparr>))"
  by (simp_all add: set_defs)

text \<open>A claim, of events and of payments: \<open>attempts\<close> counts in a column of 32 bits.\<close>

lemma sint_plus_one: "sint w < 2 ^ 63 - 1 \<Longrightarrow> sint (w + 1 :: int64) = sint w + 1"
  using sint64_bounds [of w] by (subst sint_add64) simp_all

lemma claimed_event:
  assumes "0 \<le> sint (Attempts e)" "sint (Attempts e) < 2 ^ 31"
  shows "agree (sql_update events_table claim_update (claim_args input) (event_cells e))
    (if sint (Attempts (pg_claimed_row input e)) < 2 ^ 31 then Inr (event_cells (pg_claimed_row input e))
     else Inl (DbErr ''integer out of range''))"
proof -
  have "sint (Attempts e + 1) = sint (Attempts e) + 1"
    using assms by (intro sint_plus_one) simp
  then show ?thesis
    using assms by (auto simp: set_defs pg_claimed_row_def integer_in_def)
qed

lemma claimed_payment:
  "sql_update payments_table claim_payments_update (claim_payments_args input) (payment_cells p batch) =
     Inr (payment_cells (p\<lparr>payment_UpdatedAt := db_time (utc (cpi_Now input))\<rparr>) (Some (cpi_BatchID input)))"
  by (simp add: set_defs)

lemma scanned_claim:
  assumes "CapturedAt p \<noteq> None"
  shows "scanClaimedPayment (sql_columns claimed_columns (payment_cells p (Some batch))) = Inr (claimed_of batch p)"
  using assms by (auto simp: read_defs claimed_of_def)

text \<open>What was stored stays when a statement does not name it: the key and the time of creation.\<close>

definition stored_under :: "string \<Rightarrow> time \<Rightarrow> string \<Rightarrow> bool" where
  "stored_under stored_key created key \<longleftrightarrow> stored_key = key \<and> db_time created = created"

declare stored_under_def [go_eval]

text \<open>
  C37. An \<open>UPDATE\<close> of the adapters writes each field into its own column and leaves the others, the
  time of creation above all, and what comes back and is scanned is the row that the database then holds.
  For a payment, a payer, a hold, a batch and an idempotency record, for the three updates of an outbox
  event and for the claim of captured payments, whose answer names the batch.
\<close>

theorem updates_are_read_back:
  assumes "stored_under (payer_ID y0) (payer_CreatedAt y0) (payer_ID y)"
    and "stored_under (payment_ID p0) (payment_CreatedAt p0) (payment_ID p)"
    and "stored_under (hold_ID h0) (hold_CreatedAt h0) (hold_ID h)"
    and "stored_under (batch_ID b0) (batch_CreatedAt b0) (batch_ID b)"
    and "stored_under (ir_Key r0) (ir_CreatedAt r0) (ir_Key r)"
    and "0 \<le> sint (Attempts e)" and "sint (Attempts e) < 2 ^ 31 - 1" and "CapturedAt p0 \<noteq> None"
  shows "agree (scanned scanPayer payer_columns
      (sql_update payers_table payer_update (payer_update_args y) (payer_cells y0))) (payer_set y y0) \<and>
    agree (scanned scanPayment payment_columns
      (sql_update payments_table payment_update (payment_update_args p) (payment_cells p0 batch))) (payment_set p p0) \<and>
    agree (scanned scanHold hold_columns
      (sql_update holds_table hold_update (hold_update_args h) (hold_cells h0))) (hold_set h h0) \<and>
    agree (scanned scanBatch batch_columns
      (sql_update batches_table batch_update (batch_update_args b) (batch_cells b0)))
      (Inr (batch_row (b\<lparr>batch_CreatedAt := batch_CreatedAt b0\<rparr>))) \<and>
    agree (scanned scanRecord record_columns
      (sql_update records_table record_update (record_update_args r) (record_cells r0))) (idem_set r r0) \<and>
    scanned scanEvent event_columns (sql_update events_table claim_update (claim_args ci) (event_cells e)) =
      Inr (pg_claimed_row ci e) \<and>
    pg_MarkEventPublished c eventID now s = pg_update (pgc_err c) (in_progress_row s eventID)
      ErrEventNotFound (\<lambda>r. scanned scanEvent event_columns (sql_update events_table published_update
        (published_args eventID now) (event_cells r))) event_checks (\<lambda>r. True)
      (\<lambda>r s. s\<lparr>t_outbox_events := AList.update eventID r (t_outbox_events s)\<rparr>) s \<and>
    pg_MarkEventFailed c mi s = pg_update (pgc_err c) (in_progress_row s (mfi_EventID mi))
      ErrEventNotFound (\<lambda>r. scanned scanEvent event_columns (sql_update events_table failed_update
        (failed_args mi) (event_cells r))) event_checks (\<lambda>r. True)
      (\<lambda>r s. s\<lparr>t_outbox_events := AList.update (mfi_EventID mi) r (t_outbox_events s)\<rparr>) s \<and>
    scanned scanClaimedPayment claimed_columns (sql_update payments_table claim_payments_update
      (claim_payments_args input) (payment_cells p0 batch)) = Inr (claimed_of (cpi_BatchID input) p0)"
proof (intro conjI)
  note stored = assms(1-5) [unfolded stored_under_def]
  have batch: "agree (sql_update batches_table batch_update (batch_update_args b) (batch_cells b0))
      (in_cells batch_cells (Inr (batch_row (b\<lparr>batch_CreatedAt := batch_CreatedAt b0\<rparr>))))"
    using updated_batch [of b b0] stored by simp
  have attempts: "sint (Attempts (pg_claimed_row ci e)) < 2 ^ 31"
    using assms(7) by (simp add: pg_claimed_row_def sint_plus_one)
  show "agree (scanned scanPayer payer_columns
      (sql_update payers_table payer_update (payer_update_args y) (payer_cells y0))) (payer_set y y0)"
    by (rule agree_scanned, rule updated_payer) (use stored in \<open>simp_all add: cells_read\<close>)
  show "agree (scanned scanPayment payment_columns
      (sql_update payments_table payment_update (payment_update_args p) (payment_cells p0 batch))) (payment_set p p0)"
    by (rule agree_scanned, rule updated_payment) (use stored in \<open>simp_all add: cells_read\<close>)
  show "agree (scanned scanHold hold_columns
      (sql_update holds_table hold_update (hold_update_args h) (hold_cells h0))) (hold_set h h0)"
    by (rule agree_scanned, rule updated_hold) (use stored in \<open>simp_all add: cells_read\<close>)
  show "agree (scanned scanBatch batch_columns
      (sql_update batches_table batch_update (batch_update_args b) (batch_cells b0)))
      (Inr (batch_row (b\<lparr>batch_CreatedAt := batch_CreatedAt b0\<rparr>)))"
    by (rule agree_scanned, rule batch) (rule cells_read)
  show "agree (scanned scanRecord record_columns
      (sql_update records_table record_update (record_update_args r) (record_cells r0))) (idem_set r r0)"
    by (rule agree_scanned, rule updated_record) (use stored in \<open>simp_all add: cells_read\<close>)
  show "scanned scanEvent event_columns (sql_update events_table claim_update (claim_args ci) (event_cells e)) =
      Inr (pg_claimed_row ci e)"
    using claimed_event [of e ci] assms(6,7) attempts by (simp add: agree_def scanned_def cells_read)
  show "scanned scanClaimedPayment claimed_columns (sql_update payments_table claim_payments_update
      (claim_payments_args input) (payment_cells p0 batch)) = Inr (claimed_of (cpi_BatchID input) p0)"
    by (simp add: claimed_payment scanned_def scanned_claim assms(8)) (simp add: claimed_of_def)
qed (simp_all add: pg_MarkEventPublished_def pg_MarkEventFailed_def updated_events scanned_def cells_read)

text \<open>The updates of a capture and of the claims that follow it.\<close>

definition captured_deal :: payment where
  "captured_deal = deal StatusCaptured (Some (day + minute)) None (day + minute)"

definition first_batch :: batch where
  "first_batch = \<lparr>batch_ID = ''b'', batch_Status = BatchStatusCreated, WindowStart = day, WindowEnd = day + hour,
     ClaimedBy = None, LockedUntil = None, CompletedAt = None, batch_LastError = None,
     batch_CreatedAt = day, batch_UpdatedAt = day\<rparr>"

definition first_record :: idem_record where
  "first_record = \<lparr>ir_Key = ''k'', ir_RequestHash = ''h'', ir_Status = IdemInProgress, ir_ResponseCode = 0,
     ir_ResponseBody = [], ir_CreatedAt = day, ir_UpdatedAt = day, ir_ExpiresAt = day + hour\<rparr>"

lemma updates_are_read_back_witness:
  "scanned scanPayer payer_columns (sql_update payers_table payer_update
     (payer_update_args (buyer 700 0 2 (day + minute))) (payer_cells (buyer 700 300 1 day))) =
     Inr (buyer 700 0 2 (day + minute)) \<and>
   scanned scanClaimedPayment claimed_columns (sql_update payments_table claim_payments_update
     (claim_payments_args \<lparr>cpi_BatchID = ''b'', cpi_WindowStart = day, cpi_WindowEnd = day + hour,
        cpi_Limit = 10, cpi_Now = day + hour\<rparr>) (payment_cells captured_deal None)) =
     Inr \<lparr>cp_PaymentID = ''pay_00'', cp_MerchantID = ''m'', cp_AmountMinor = 300, cp_Currency = ''USD'',
       cp_CapturedAt = day + minute, cp_SettlementBatch = ''b''\<rparr>"
proof -
  note t = updates_are_read_back [where ?y0.0 = "buyer 700 300 1 day" and y = "buyer 700 0 2 (day + minute)"
    and ?p0.0 = captured_deal and p = captured_deal and ?h0.0 = "deal_hold HoldStatusHeld day"
    and h = "deal_hold HoldStatusCaptured (day + minute)" and ?b0.0 = first_batch and b = first_batch
    and ?r0.0 = first_record and r = first_record and e = "snd captured_event" and batch = None
    and input = "\<lparr>cpi_BatchID = ''b'', cpi_WindowStart = day, cpi_WindowEnd = day + hour, cpi_Limit = 10,
      cpi_Now = day + hour\<rparr>"]
  have stored: "stored_under (payer_ID (buyer 700 300 1 day)) (payer_CreatedAt (buyer 700 300 1 day))
      (payer_ID (buyer 700 0 2 (day + minute)))"
    "stored_under (payment_ID captured_deal) (payment_CreatedAt captured_deal) (payment_ID captured_deal)"
    "stored_under (hold_ID (deal_hold HoldStatusHeld day)) (hold_CreatedAt (deal_hold HoldStatusHeld day))
      (hold_ID (deal_hold HoldStatusCaptured (day + minute)))"
    "stored_under (batch_ID first_batch) (batch_CreatedAt first_batch) (batch_ID first_batch)"
    "stored_under (ir_Key first_record) (ir_CreatedAt first_record) (ir_Key first_record)"
    "0 \<le> sint (Attempts (snd captured_event))" "sint (Attempts (snd captured_event)) < 2 ^ 31 - 1"
    "CapturedAt captured_deal \<noteq> None"
    by code_simp+
  have "payer_set (buyer 700 0 2 (day + minute)) (buyer 700 300 1 day) = Inr (buyer 700 0 2 (day + minute))"
    "claimed_of ''b'' captured_deal = \<lparr>cp_PaymentID = ''pay_00'', cp_MerchantID = ''m'', cp_AmountMinor = 300,
      cp_Currency = ''USD'', cp_CapturedAt = day + minute, cp_SettlementBatch = ''b''\<rparr>"
    by code_simp+
  then show ?thesis
    using t [OF stored] by (auto simp: agree_def)
qed

end
