(* ===== verification/ApiProcess.thy ===== *)
theory ApiProcess
  imports HttpRouter Processes MemoryBackend
begin

text \<open>
  The API process of \<open>cmd/paycore-api/main.go\<close>: what it builds over either backend, the requests
  it serves with it, and what it opens and closes on the way. The repositories of a backend are a record
  over any state; the state of the process is that of the repositories, the idempotency records, what the
  cache server holds and the counters of the rate limit. The library serves requests that arrive at the
  same time at the same time; here a run has the requests that do not overlap, one after the other, and
  \<open>Histories\<close> has what requests that overlap do to the database.
\<close>

section \<open>The repositories\<close>

record ('c, 's) api_repositories =
  ar_CreateMerchant :: "'c \<Rightarrow> merchant \<Rightarrow> ('s, merchant) act"
  ar_ListMerchants :: "'c \<Rightarrow> ('s, merchant list) act"
  ar_CreatePayer :: "'c \<Rightarrow> payer \<Rightarrow> ('s, payer) act"
  ar_ListPayers :: "'c \<Rightarrow> ('s, payer list) act"
  ar_payments :: "('c, 's) repos"
  ar_CreateEvent :: "'c \<Rightarrow> event \<Rightarrow> ('s, event) act"
  ar_idempotency :: "('c, idem_record gomap) idem_repository"
  ar_transactor :: transactor
  ar_ctx_err :: "'c \<Rightarrow> error option"

definition newMemoryRepositories :: "(error option, memdb) api_repositories" where
  "newMemoryRepositories =
     \<lparr>ar_CreateMerchant = mem_CreateMerchant, ar_ListMerchants = (\<lambda>c. in_merchants (ListMerchants c)),
      ar_CreatePayer = mem_CreatePayer, ar_ListPayers = (\<lambda>c. in_payers (ListPayers c)),
      ar_payments = memory_repos, ar_CreateEvent = (\<lambda>c e. in_events (CreateEvent c e)),
      ar_idempotency = memory_records, ar_transactor = NoopTransactor, ar_ctx_err = (\<lambda>c. c)\<rparr>"

text \<open>\<open>tx\<close> is what the database answers to the transaction of one request.\<close>

definition postgresRepositories :: "tx_answers \<Rightarrow> (pg_call, pgdb) api_repositories" where
  "postgresRepositories tx =
     \<lparr>ar_CreateMerchant = pg_CreateMerchant, ar_ListMerchants = pg_ListMerchants,
      ar_CreatePayer = pg_CreatePayer, ar_ListPayers = pg_ListPayers,
      ar_payments = postgres_repos, ar_CreateEvent = pg_CreateEvent,
      ar_idempotency = postgres_records, ar_transactor = PostgresTransactor tx, ar_ctx_err = pgc_err\<rparr>"

section \<open>The router of the process\<close>

type_synonym ('s, 'k, 'q) api_state = "('s \<times> (idem_record gomap \<times> 'k)) \<times> 'q"

definition in_process :: "('s, 'a) act \<Rightarrow> (('s \<times> 'i) \<times> 'q, 'a) act" where
  "in_process m u = (let (r, s') = m (fst (fst u)) in (r, ((s', snd (fst u)), snd u)))"

text \<open>What one request meets: the answers of the stores and of Redis, the time, what its body decodes to.\<close>

record ('c, 'l) surroundings =
  sg_tx :: tx_answers
  sg_web :: web_env
  sg_call :: 'c
  sg_now :: time
  sg_merchant :: "body_reader \<Rightarrow> create_merchant_input option"
  sg_payer :: "body_reader \<Rightarrow> create_payer_input option"
  sg_payment :: "('c, 'c) handler_env"
  sg_limit :: "'l limit_env"

definition api_merchant_handler ::
  "('c, 's) api_repositories \<Rightarrow> ('c, 'l) surroundings \<Rightarrow> ('s, 'k, 'q) api_state merchant_handler" where
  "api_merchant_handler repositories sg =
     \<lparr>mh_create = (\<lambda>m. in_process (ar_CreateMerchant repositories (sg_call sg) m)),
      mh_list = in_process (ar_ListMerchants repositories (sg_call sg)), mh_decode = sg_merchant sg,
      mh_now = sg_now sg, mh_offset = he_offset (sg_payment sg)\<rparr>"

definition api_payer_handler ::
  "('c, 's) api_repositories \<Rightarrow> ('c, 'l) surroundings \<Rightarrow> ('s, 'k, 'q) api_state payer_handler" where
  "api_payer_handler repositories sg =
     \<lparr>yh_create = (\<lambda>y. in_process (ar_CreatePayer repositories (sg_call sg) y)),
      yh_list = in_process (ar_ListPayers repositories (sg_call sg)), yh_decode = sg_payer sg,
      yh_now = sg_now sg, yh_offset = he_offset (sg_payment sg)\<rparr>"

definition api_payment_service :: "('c, 's) api_repositories \<Rightarrow> ('c, 's) service" where
  "api_payment_service repositories =
     NewServiceWithTransactorOutboxAndMetrics (ar_payments repositories) (ar_ctx_err repositories)
       (Some (ar_transactor repositories)) (Some (ar_CreateEvent repositories)) True"

definition api_payment_handler ::
  "('c, 's) api_repositories \<Rightarrow> ('c, idem_record gomap \<times> 'k) idem_cache \<Rightarrow>
   ('c, 's, 'c, idem_record gomap \<times> 'k) handler" where
  "api_payment_handler repositories cache =
     \<lparr>ph_service = api_payment_service repositories,
      ph_idempotency = Some (api_idempotency (ar_ctx_err repositories)
        (records_in (ar_idempotency repositories)) cache)\<rparr>"

text \<open>\<open>metrics\<close> is the handler of the Prometheus library.\<close>

definition api_router_config ::
  "('c, 's) api_repositories \<Rightarrow> ('c, idem_record gomap \<times> 'k) idem_cache \<Rightarrow> ('l, 'q) redis_limiter option \<Rightarrow>
   time \<Rightarrow> (web_request \<Rightarrow> served) \<Rightarrow> ('c, 'l) surroundings \<Rightarrow> ('s, 'k, 'q) api_state router_config" where
  "api_router_config repositories cache limiter started metrics sg =
     \<lparr>cfg_ServiceName = ''paycore-api'', cfg_Version = ''0.1.0'', cfg_StartedAt = utc started,
      cfg_MerchantHandler = Some (HandleMerchants (api_merchant_handler repositories sg)),
      cfg_PayerHandler = Some (HandlePayers (api_payer_handler repositories sg)),
      cfg_PaymentHandler = Some (payment_web_handler (api_payment_handler repositories cache) (sg_payment sg)),
      cfg_MetricsHandler = Some (\<lambda>r u. (metrics r, u)), cfg_Metrics = True,
      cfg_RateLimiter = map_option (\<lambda>l. limiter_of l (sg_limit sg)) limiter\<rparr>"

text \<open>Requests of which each is answered before the next one comes.\<close>

fun serve_requests ::
  "(tx_answers \<Rightarrow> ('c, 's) api_repositories) \<Rightarrow> ('c, idem_record gomap \<times> 'k) idem_cache \<Rightarrow>
   ('l, 'q) redis_limiter option \<Rightarrow> time \<Rightarrow> (web_request \<Rightarrow> served) \<Rightarrow> chi \<Rightarrow>
   (('c, 'l) surroundings \<times> web_request) list \<Rightarrow> ('s, 'k, 'q) api_state \<Rightarrow>
   served list \<times> ('s, 'k, 'q) api_state" where
  "serve_requests repositories cache limiter started metrics lib [] u = ([], u)"
| "serve_requests repositories cache limiter started metrics lib ((sg, r) # requests) u =
     (let (sv, u1) = NewRouter (api_router_config (repositories (sg_tx sg)) cache limiter started metrics sg) lib
            (sg_web sg) r u;
          (svs, u2) = serve_requests repositories cache limiter started metrics lib requests u1
      in (sv # svs, u2))"

section \<open>What the process opens and closes\<close>

datatype resource = DatabasePool | LimiterClient | CacheClient | SignalContext | DeadlineContext | MetricsServer
  | KafkaWriter | Ticker

datatype resource_event = Opened resource | Closed resource

text \<open>
  A \<open>main\<close> as far as resources go, statement by statement: it opens one, closes one, defers a function
  that closes some (the function may be empty), or exits with code 1. Deferred functions run when it
  returns, the last one first, and not when it exits.
\<close>

datatype main_step = Opens resource | Closes resource | Defers "resource list" | Exits

fun run_main :: "main_step list \<Rightarrow> resource list list \<Rightarrow> int \<times> resource_event list" where
  "run_main [] deferred = (0, map Closed (concat deferred))"
| "run_main (Opens r # steps) deferred = (let (code, es) = run_main steps deferred in (code, Opened r # es))"
| "run_main (Closes r # steps) deferred = (let (code, es) = run_main steps deferred in (code, Closed r # es))"
| "run_main (Defers rs # steps) deferred = run_main steps (rs # deferred)"
| "run_main (Exits # steps) deferred = (1, [])"

text \<open>A pool that does not answer is closed by \<open>newPostgresRepositories\<close>; before it there is none.\<close>

definition repositories_steps :: "error option \<Rightarrow> config \<Rightarrow> error + repositories \<Rightarrow> main_step list" where
  "repositories_steps pool cfg result =
     (if RepositoryBackend cfg = ''postgres'' \<and> DatabaseURL cfg \<noteq> '''' \<and> pool = None
      then Opens DatabasePool # (if isl result then [Closes DatabasePool] else []) else [])"

text \<open>\<open>repositories.close\<close>.\<close>

definition close_repositories :: "repositories \<Rightarrow> resource list" where
  "close_repositories repositories =
     (case repositories of MemoryRepositories \<Rightarrow> [] | PostgresRepositories \<Rightarrow> [DatabasePool])"

text \<open>A Redis client, closed again when the ping or the constructor fails, and its closer.\<close>

definition client_steps :: "resource \<Rightarrow> bool \<Rightarrow> error + 'a \<Rightarrow> main_step list" where
  "client_steps client enabled result =
     (if enabled then Opens client # (if isl result then [Closes client] else []) else [])"

definition close_client :: "resource \<Rightarrow> bool \<Rightarrow> resource list" where
  "close_client client enabled = (if enabled then [client] else [])"

section \<open>main\<close>

text \<open>
  How the server ends: \<open>ListenAndServe\<close> fails, or an interrupt shuts it down, with an error or
  without. \<open>os.Exit\<close> runs no deferred function.
\<close>

datatype server_end = ListenFailed | Interrupted "error option"

record ('c, 'l, 'k, 'q) api_world =
  aw_counters :: "('l, 'q) redis_counters"
  aw_counters_ping :: "error option"
  aw_strings :: "('c, 'k) redis_strings"
  aw_strings_ping :: "error option"
  aw_started :: time
  aw_metrics :: "web_request \<Rightarrow> served"
  aw_chi :: chi
  aw_requests :: "(('c, 'l) surroundings \<times> web_request) list"
  aw_end :: server_end

record api_run =
  run_code :: int
  run_trace :: "resource_event list"
  run_answers :: "served list"

text \<open>From the wait for an interrupt on.\<close>

definition end_steps :: "server_end \<Rightarrow> main_step list" where
  "end_steps ending =
     (case ending of
        ListenFailed \<Rightarrow> [Exits]
      | Interrupted shutdown \<Rightarrow>
          [Opens DeadlineContext, Defers [DeadlineContext]] @ (if shutdown = None then [] else [Exits]))"

text \<open>Everything after the repositories: the statements on resources, and the answers.\<close>

definition serve_main ::
  "config \<Rightarrow> (tx_answers \<Rightarrow> ('c, 's) api_repositories) \<Rightarrow> ('c \<Rightarrow> error option) \<Rightarrow> ('c, 'l, 'k, 'q) api_world \<Rightarrow>
   ('s, 'k, 'q) api_state \<Rightarrow> (main_step list \<times> served list) \<times> ('s, 'k, 'q) api_state" where
  "serve_main cfg repositories ctx_err world u =
     (let limiter = newRateLimiter cfg (aw_counters world) (aw_counters_ping world);
          limited = client_steps LimiterClient (RateLimitEnabled cfg) limiter in
      case limiter of
        Inl err \<Rightarrow> ((limited @ [Exits], []), u)
      | Inr rateLimiter \<Rightarrow>
        (let cache = newIdempotencyCache ctx_err (IdempotencyCacheEnabled cfg) (IdempotencyCacheTTL cfg)
               (aw_strings world) (aw_strings_ping world);
             cached = limited @ [Defers (close_client LimiterClient (RateLimitEnabled cfg))] @
               client_steps CacheClient (IdempotencyCacheEnabled cfg) cache in
         case cache of
           Inl err \<Rightarrow> ((cached @ [Exits], []), u)
         | Inr idempotencyCache \<Rightarrow>
           (let (answers, u') = serve_requests repositories idempotencyCache rateLimiter (aw_started world)
                  (aw_metrics world) (aw_chi world) (aw_requests world) u
            in ((cached @ [Defers (close_client CacheClient (IdempotencyCacheEnabled cfg)),
                   Opens SignalContext, Defers [SignalContext]] @ end_steps (aw_end world), answers), u'))))"

definition api_run_of :: "main_step list \<Rightarrow> served list \<Rightarrow> api_run" where
  "api_run_of steps answers =
     (let (code, trace) = run_main steps [] in \<lparr>run_code = code, run_trace = trace, run_answers = answers\<rparr>)"

text \<open>
  \<open>state\<close> is the database with the idempotency records, the cache server and the counters. The
  stores of the memory backend are new with each process and are gone after it.
\<close>

definition api_main ::
  "environment \<Rightarrow> error option \<Rightarrow> error option \<Rightarrow> (error option, 'l, 'k, 'q) api_world \<Rightarrow>
   (pg_call, 'l, 'k, 'q) api_world \<Rightarrow> (pgdb, 'k, 'q) api_state \<Rightarrow> api_run \<times> (pgdb, 'k, 'q) api_state" where
  "api_main environ pool ping memory_world postgres_world state =
     (let cfg = Load environ; result = newRepositories pool ping cfg;
          opened = repositories_steps pool cfg result in
      case result of
        Inl err \<Rightarrow> (api_run_of (opened @ [Exits]) [], state)
      | Inr repositories \<Rightarrow>
        (let ((steps, answers), state') = (case repositories of
               PostgresRepositories \<Rightarrow> serve_main cfg postgresRepositories pgc_err postgres_world state
             | MemoryRepositories \<Rightarrow>
                 (let ((db, (records, cached)), counters) = state;
                      (run, u) = serve_main cfg (\<lambda>tx. newMemoryRepositories) (\<lambda>c. c) memory_world
                        ((empty_memdb, ([], cached)), counters)
                  in (run, ((db, (records, snd (snd (fst u)))), snd u))))
         in (api_run_of (opened @ Defers (close_repositories repositories) # steps) answers, state')))"

end
