(* ===== verification/WorkerProcesses.thy ===== *)
theory WorkerProcesses
  imports ApiProcess Migrate
begin

text \<open>
  The other processes from start to end: the metrics server of \<open>internal/shared/metrics/server.go\<close>,
  and what \<open>cmd/paycore-expiry-worker\<close>, \<open>cmd/paycore-settlement-worker\<close>,
  \<open>cmd/paycore-outbox-worker\<close> and \<open>cmd/paycore-migrate\<close> open and close around their runs.
\<close>

section \<open>The metrics server\<close>

record metrics_server =
  ms_Addr :: string
  ms_ReadHeaderTimeout :: duration

text \<open>\<open>handler\<close> is whether there is a handler; without one, or without an address, nothing is started.\<close>

definition StartServer :: "string \<Rightarrow> bool \<Rightarrow> metrics_server option" where
  "StartServer addr handler =
     (if addr = '''' \<or> \<not> handler then None
      else Some \<lparr>ms_Addr = addr, ms_ReadHeaderTimeout = 5 * second\<rparr>)"

text \<open>The mux of the server; \<open>other\<close> is what \<open>http.ServeMux\<close> answers for a path that is not registered.\<close>

definition metrics_mux :: "(web_request \<Rightarrow> served) \<Rightarrow> (web_request \<Rightarrow> served) \<Rightarrow> web_request \<Rightarrow> served" where
  "metrics_mux handler other r = (if wq_Path r = ''/metrics'' then handler r else other r)"

definition server_resources :: "metrics_server option \<Rightarrow> resource list" where
  "server_resources server = (case server of None \<Rightarrow> [] | Some s \<Rightarrow> [MetricsServer])"

text \<open>
  When the context of the process is done, by an interrupt or when \<open>main\<close> returns, a goroutine shuts the
  server down on its own, at any point: here after \<open>n\<close> events of \<open>main\<close>, and not at all when the
  process ends before. The deferred shutdown of a server that has been shut down does nothing.
\<close>

definition shutdown_goroutine :: "nat \<Rightarrow> int \<times> resource_event list \<Rightarrow> int \<times> resource_event list" where
  "shutdown_goroutine n r = (case r of (code, es) \<Rightarrow>
     (code, if n \<le> length es \<and> Opened MetricsServer \<in> set (take n es)
            then take n es @ Closed MetricsServer # drop n es else es))"

section \<open>The workers\<close>

text \<open>
  What a \<open>main\<close> does with its resources, in the order of its statements; \<open>code\<close> is that of its run,
  which it exits with when it is not 0.
\<close>

definition exits_with :: "int \<Rightarrow> main_step list" where
  "exits_with code = (if code = 0 then [] else [Exits])"

definition require_url :: "string \<Rightarrow> main_step list" where
  "require_url databaseURL = (if databaseURL = '''' then [Exits] else [])"

definition pool_steps :: "error option \<Rightarrow> error option \<Rightarrow> main_step list" where
  "pool_steps pool ping =
     (if pool \<noteq> None then [Exits]
      else [Opens DatabasePool, Defers [DatabasePool]] @ (if ping \<noteq> None then [Exits] else []))"

text \<open>The metrics server, whose shutdown is deferred whether it has been started or not.\<close>

definition server_steps :: "metrics_server option \<Rightarrow> main_step list" where
  "server_steps server = map Opens (server_resources server) @ [Defers (server_resources server)]"

definition expiry_process ::
  "environment \<Rightarrow> error option \<Rightarrow> error option \<Rightarrow> tx_answers \<Rightarrow> pg_call env \<Rightarrow> pgdb \<Rightarrow>
   (int \<times> resource_event list) \<times> pgdb" where
  "expiry_process environ pool ping db env s =
     (let (code, s') = expiry_main environ pool ping db env s
      in (run_main (require_url (DatabaseURL (Load environ)) @ [Opens SignalContext, Defers [SignalContext]] @
            pool_steps pool ping @ exits_with code) [], s'))"

definition settlement_process ::
  "nat \<Rightarrow> environment \<Rightarrow> error option \<Rightarrow> error option \<Rightarrow> time \<Rightarrow> tx_answers \<Rightarrow> pg_call env \<Rightarrow> pg_call env \<Rightarrow> pgdb \<Rightarrow>
   (int \<times> resource_event list) \<times> pgdb" where
  "settlement_process n environ pool ping now db recover_env create_env s =
     (let cfg = loadWorkerConfig environ (Load environ);
          (code, s') = settlement_main environ pool ping now db recover_env create_env s
      in (shutdown_goroutine n (run_main (require_url (swc_databaseURL cfg) @ [Opens SignalContext, Defers [SignalContext]] @
            server_steps (StartServer (swc_metricsAddr cfg) True) @ pool_steps pool ping @ exits_with code) []), s'))"

definition publisher_resources :: "outbox_publisher \<Rightarrow> resource list" where
  "publisher_resources publisher =
     (case publisher of LoggingPublisher \<Rightarrow> [] | KafkaPublisher writer \<Rightarrow> [KafkaWriter])"

definition publisher_steps :: "error + outbox_publisher \<Rightarrow> main_step list" where
  "publisher_steps result = (case result of Inl err \<Rightarrow> [Exits]
     | Inr publisher \<Rightarrow> map Opens (publisher_resources publisher) @ [Defers (publisher_resources publisher)])"

definition outbox_process ::
  "nat \<Rightarrow> environment \<Rightarrow> error option \<Rightarrow> error option \<Rightarrow> (outbox_publisher \<Rightarrow> nat \<Rightarrow> event \<Rightarrow> string option) \<Rightarrow>
   tx_answers \<Rightarrow> (pg_call \<times> time) worker_env list \<Rightarrow> pgdb \<Rightarrow> (int \<times> resource_event list) \<times> pgdb" where
  "outbox_process n environ pool ping publish db ticks s =
     (let cfg = Load environ;
          (code, s') = outbox_main environ pool ping publish db ticks s
      in (shutdown_goroutine n (run_main (require_url (DatabaseURL cfg) @ [Opens SignalContext, Defers [SignalContext]] @
            server_steps (StartServer (MetricsAddr cfg) True) @ pool_steps pool ping @
            publisher_steps (newPublisher cfg) @ exits_with code @ [Opens Ticker, Defers [Ticker]]) []), s'))"

section \<open>The migrations\<close>

text \<open>The table of versions is part of the state from the start; creating it where it exists changes nothing.\<close>

definition ensureSchemaMigrations :: "error option \<Rightarrow> ('d migration_db, unit) act" where
  "ensureSchemaMigrations err s = (case err of Some e \<Rightarrow> (Inl e, s) | None \<Rightarrow> (Inr (), s))"

definition migrate_main ::
  "environment \<Rightarrow> error option \<Rightarrow> error option \<Rightarrow> error option \<Rightarrow> error + string list \<Rightarrow>
   (string \<Rightarrow> error + bytes) \<Rightarrow> (bytes \<Rightarrow> 'd \<Rightarrow> error + 'd) \<Rightarrow> (string \<Rightarrow> migration_call) \<Rightarrow> 'd migration_db \<Rightarrow>
   int \<times> 'd migration_db" where
  "migrate_main environ pool ping ensure glob read_file execute calls s =
     (if \<not> connects (DatabaseURL (Load environ)) pool ping then (1, s)
      else case ensureSchemaMigrations ensure s of
        (Inl err, s1) \<Rightarrow> (1, s1)
      | (Inr u, s1) \<Rightarrow>
          (case listMigrations glob read_file of
             Inl err \<Rightarrow> (1, s1)
           | Inr migrations \<Rightarrow>
               (let ((err, applied), s2) = migrate execute calls migrations s1
                in (if err = None then 0 else 1, s2))))"

definition migrate_process ::
  "environment \<Rightarrow> error option \<Rightarrow> error option \<Rightarrow> error option \<Rightarrow> error + string list \<Rightarrow>
   (string \<Rightarrow> error + bytes) \<Rightarrow> (bytes \<Rightarrow> 'd \<Rightarrow> error + 'd) \<Rightarrow> (string \<Rightarrow> migration_call) \<Rightarrow> 'd migration_db \<Rightarrow>
   (int \<times> resource_event list) \<times> 'd migration_db" where
  "migrate_process environ pool ping ensure glob read_file execute calls s =
     (let (code, s') = migrate_main environ pool ping ensure glob read_file execute calls s
      in (run_main (require_url (DatabaseURL (Load environ)) @ [Opens DeadlineContext, Defers [DeadlineContext]] @
            pool_steps pool ping @ exits_with code) [], s'))"

lemmas main_steps_defs = exits_with_def require_url_def pool_steps_def server_steps_def server_resources_def
  publisher_steps_def publisher_resources_def

lemmas worker_process_defs = StartServer_def metrics_mux_def shutdown_goroutine_def expiry_process_def
  settlement_process_def outbox_process_def ensureSchemaMigrations_def migrate_main_def migrate_process_def

declare main_steps_defs [go_eval] worker_process_defs [go_eval]

section \<open>What is opened is closed\<close>

text \<open>
  The resources a trace leaves open, the last opened first; \<open>None\<close> when one is closed that was not
  opened last, or not at all. Only a metrics server may be closed out of its turn, and again.
\<close>

fun held :: "resource_event list \<Rightarrow> resource list \<Rightarrow> resource list option" where
  "held [] st = Some st"
| "held (Opened r # es) st = held es (r # st)"
| "held (Closed r # es) st =
     (if r = MetricsServer then held es (filter (\<lambda>x. x \<noteq> r) st)
      else case st of [] \<Rightarrow> None | r' # st' \<Rightarrow> if r = r' then held es st' else None)"

lemma held_append: "held (es @ es') st = Option.bind (held es st) (held es')"
  by (induction es st rule: held.induct) (simp_all split: list.split)

text \<open>A server that is closed early is not open in the end, and nothing else changes.\<close>

lemma held_without_server:
  "held es st = Some left \<Longrightarrow> Opened MetricsServer \<notin> set es \<Longrightarrow>
   held es (filter (\<lambda>x. x \<noteq> MetricsServer) st) = Some (filter (\<lambda>x. x \<noteq> MetricsServer) left)"
  by (induction es st rule: held.induct) (auto split: list.splits if_splits)

text \<open>A process that ends with \<open>code\<close> and \<open>trace\<close>: closed in order, and all of it when it returns.\<close>

definition releases :: "int \<times> resource_event list \<Rightarrow> bool" where
  "releases r \<longleftrightarrow> (\<exists>left. held (snd r) [] = Some left \<and> distinct left \<and> (fst r = 0 \<longrightarrow> left = []) \<and> fst r \<in> {0, 1})"

lemma releases_shutdown:
  assumes "releases r" "count_list (snd r) (Opened MetricsServer) \<le> 1"
  shows "releases (shutdown_goroutine n r)"
proof -
  obtain code es where r: "r = (code, es)" by (rule prod.exhaust)
  obtain left where left: "held es [] = Some left" "distinct left" "code = 0 \<longrightarrow> left = []" "code \<in> {0, 1}"
    using assms(1) by (auto simp: releases_def r)
  show ?thesis
  proof (cases "n \<le> length es \<and> Opened MetricsServer \<in> set (take n es)")
    case True
    have "count_list (take n es) (Opened MetricsServer) \<noteq> 0" using True by (simp add: count_list_0_iff)
    moreover have "count_list (take n es) (Opened MetricsServer) + count_list (drop n es) (Opened MetricsServer) \<le> 1"
      using assms(2) by (simp add: r flip: count_list_append)
    ultimately have rest: "Opened MetricsServer \<notin> set (drop n es)" by (simp flip: count_list_0_iff)
    obtain st where st: "held (take n es) [] = Some st" "held (drop n es) st = Some left"
      using left(1) held_append [of "take n es" "drop n es" "[]"] by (cases "held (take n es) []") simp_all
    from held_without_server [OF st(2) rest] True st(1) left(2-4) show ?thesis
      by (auto simp: releases_def r shutdown_goroutine_def held_append)
  qed (use left in \<open>auto simp: releases_def r shutdown_goroutine_def\<close>)
qed

lemma main_codes:
  "fst (expiry_main environ pool ping db env s) \<in> {0, 1}"
  "fst (settlement_main environ pool ping now db e1 e2 s) \<in> {0, 1}"
  "fst (outbox_main environ pool ping publish db ticks s) \<in> {0, 1}"
  "fst (migrate_main environ pool ping ensure glob read_file execute calls m) \<in> {0, 1}"
  by (auto simp: expiry_main_def settlement_main_def outbox_main_def migrate_main_def Let_def
      split: prod.split sum.split)

text \<open>The statements on resources end with the code of the run.\<close>

lemma process_codes:
  "fst (fst (expiry_process environ pool ping db env s)) = fst (expiry_main environ pool ping db env s)"
  "fst (fst (settlement_process n environ pool ping now db e1 e2 s)) = fst (settlement_main environ pool ping now db e1 e2 s)"
  "fst (fst (outbox_process n environ pool ping publish db ticks s)) = fst (outbox_main environ pool ping publish db ticks s)"
  "fst (fst (migrate_process environ pool ping ensure glob read_file execute calls m)) =
     fst (migrate_main environ pool ping ensure glob read_file execute calls m)"
proof -
  have *: "code \<in> {0, 1 :: int} \<longleftrightarrow> code = 0 \<or> code = 1" for code by simp
  note codes = main_codes [of environ pool ping, unfolded *]
  show "fst (fst (expiry_process environ pool ping db env s)) = fst (expiry_main environ pool ping db env s)"
    using codes(1) [of db env s]
    by (auto simp: expiry_process_def main_steps_defs expiry_main_def connects_def Let_def split: prod.split)
  show "fst (fst (settlement_process n environ pool ping now db e1 e2 s)) = fst (settlement_main environ pool ping now db e1 e2 s)"
    using codes(2) [of now db e1 e2 s]
    by (auto simp: settlement_process_def main_steps_defs settlement_main_def connects_def shutdown_goroutine_def Let_def
        split: prod.split option.split)
  show "fst (fst (outbox_process n environ pool ping publish db ticks s)) = fst (outbox_main environ pool ping publish db ticks s)"
    using codes(3) [of publish db ticks s]
    by (auto simp: outbox_process_def main_steps_defs outbox_main_def connects_def shutdown_goroutine_def Let_def
        split: prod.split option.split sum.split outbox_publisher.split)
  show "fst (fst (migrate_process environ pool ping ensure glob read_file execute calls m)) =
      fst (migrate_main environ pool ping ensure glob read_file execute calls m)"
    using codes(4) [of ensure glob read_file execute calls m]
    by (auto simp: migrate_process_def main_steps_defs migrate_main_def connects_def Let_def split: prod.split)
qed

text \<open>The statements of a process, whatever the code.\<close>

lemma steps_release:
  "releases (run_main (require_url url @ [Opens SignalContext, Defers [SignalContext]] @ pool_steps pool ping @
     exits_with code) [])"
  "releases (run_main (require_url url @ [Opens DeadlineContext, Defers [DeadlineContext]] @ pool_steps pool ping @
     exits_with code) [])"
  "releases (shutdown_goroutine n (run_main (require_url url @ [Opens SignalContext, Defers [SignalContext]] @
     server_steps server @ pool_steps pool ping @ exits_with code) []))"
  "releases (shutdown_goroutine n (run_main (require_url url @ [Opens SignalContext, Defers [SignalContext]] @
     server_steps server @ pool_steps pool ping @ publisher_steps publisher @ exits_with code @
     [Opens Ticker, Defers [Ticker]]) []))"
proof -
  note step_cases = option.split sum.split outbox_publisher.split
  show "releases (run_main (require_url url @ [Opens SignalContext, Defers [SignalContext]] @ pool_steps pool ping @
      exits_with code) [])"
    by (auto simp: main_steps_defs releases_def)
  show "releases (run_main (require_url url @ [Opens DeadlineContext, Defers [DeadlineContext]] @ pool_steps pool ping @
      exits_with code) [])"
    by (auto simp: main_steps_defs releases_def)
  show "releases (shutdown_goroutine n (run_main (require_url url @ [Opens SignalContext, Defers [SignalContext]] @
      server_steps server @ pool_steps pool ping @ exits_with code) []))"
    by (rule releases_shutdown) (auto simp: main_steps_defs releases_def split: step_cases)
  show "releases (shutdown_goroutine n (run_main (require_url url @ [Opens SignalContext, Defers [SignalContext]] @
      server_steps server @ pool_steps pool ping @ publisher_steps publisher @ exits_with code @
      [Opens Ticker, Defers [Ticker]]) []))"
    by (rule releases_shutdown) (auto simp: main_steps_defs releases_def split: step_cases)
qed

lemma workers_release:
  "releases (fst (expiry_process environ pool ping db env s))"
  "releases (fst (settlement_process n environ pool ping now db e1 e2 s))"
  "releases (fst (outbox_process n environ pool ping publish db ticks s))"
  "releases (fst (migrate_process environ pool ping ensure glob read_file execute calls m))"
  using steps_release
  by (simp_all add: expiry_process_def settlement_process_def outbox_process_def migrate_process_def Let_def
      split: prod.split)

end
