(* ===== verification/ApiGuarantees.thy ===== *)
theory ApiGuarantees
  imports WorkerProcesses HttpGuarantees WorkerGuarantees
begin

text \<open>
  What a run of the API process does: every request that does not overlap with another one takes only
  steps of the program, whatever route it finds, so that the books are in order after any run with such
  requests and of the workers; and what the process has opened it closes in the opposite order, unless it
  exits with an error. \<open>Histories\<close> is about requests that overlap.
\<close>

section \<open>A request takes steps of the program\<close>

definition db_steps :: "(pgdb, 'k, 'q) api_state \<Rightarrow> (pgdb, 'k, 'q) api_state \<Rightarrow> bool" where
  "db_steps u u' \<longleftrightarrow> pg_step\<^sup>*\<^sup>* (fst (fst u)) (fst (fst u'))"

lemma db_steps_refl [simp]: "fst (fst u') = fst (fst u) \<Longrightarrow> db_steps u u'"
  by (simp add: db_steps_def)

lemma db_steps_trans: "db_steps u u1 \<Longrightarrow> db_steps u1 u2 \<Longrightarrow> db_steps u u2"
  unfolding db_steps_def by (rule rtranclp_trans)

lemma in_process_state: "snd (in_process m u) = ((snd (m (fst (fst u))), snd (fst u)), snd u)"
  by (simp add: in_process_def split: prod.split)

lemma MerchantService_in_process:
  "MerchantService_CreateMerchant (\<lambda>m. in_process (create m)) now input u =
   in_process (MerchantService_CreateMerchant create now input) u"
  by (simp add: MerchantService_CreateMerchant_def act_bind_def act_lift_def in_process_def split: sum.split)

lemma PayerService_in_process:
  "PayerService_CreatePayer (\<lambda>y. in_process (create y)) now input u =
   in_process (PayerService_CreatePayer create now input) u"
  by (simp add: PayerService_CreatePayer_def act_bind_def act_lift_def in_process_def split: sum.split)

lemma postgres_lists: "snd (pg_ListMerchants c s) = s" "snd (pg_ListPayers c s) = s"
  by (simp_all add: pg_ListMerchants_def pg_ListPayers_def pg_select_rows_def split: option.split)

text \<open>The state a handler leaves is that of the call of its service, if it makes one.\<close>

lemma HandleMerchants_state:
  "snd (HandleMerchants h r u) = u \<or> snd (HandleMerchants h r u) = snd (mh_list h u) \<or>
   (\<exists>request. snd (HandleMerchants h r u) = snd (MerchantService_CreateMerchant (mh_create h) (mh_now h) request u))"
proof -
  have "snd (createMerchant h r u) = (case mh_decode h (wq_Body r) of None \<Rightarrow> u
      | Some request \<Rightarrow> snd (MerchantService_CreateMerchant (mh_create h) (mh_now h) request u))"
    by (simp add: createMerchant_def Let_def split: option.split sum.split prod.split)
  moreover have "snd (listMerchants h r u) = snd (mh_list h u)"
    by (simp add: listMerchants_def split: sum.split prod.split)
  ultimately show ?thesis by (simp add: HandleMerchants_def split: option.split) blast
qed

lemma HandlePayers_state:
  "snd (HandlePayers h r u) = u \<or> snd (HandlePayers h r u) = snd (yh_list h u) \<or>
   (\<exists>request. snd (HandlePayers h r u) = snd (PayerService_CreatePayer (yh_create h) (yh_now h) request u))"
proof -
  have "snd (createPayer h r u) = (case yh_decode h (wq_Body r) of None \<Rightarrow> u
      | Some request \<Rightarrow> snd (PayerService_CreatePayer (yh_create h) (yh_now h) request u))"
    by (simp add: createPayer_def Let_def split: option.split sum.split prod.split)
  moreover have "snd (listPayers h r u) = snd (yh_list h u)"
    by (simp add: listPayers_def split: sum.split prod.split)
  ultimately show ?thesis by (simp add: HandlePayers_def split: option.split) blast
qed

lemma db_step: "pg_step (fst (fst u)) (fst (fst u')) \<Longrightarrow> db_steps u u'"
  unfolding db_steps_def by (rule r_into_rtranclp)

lemma api_handler_sel:
  "mh_create (api_merchant_handler (postgresRepositories tx) sg) = (\<lambda>m. in_process (pg_CreateMerchant (sg_call sg) m))"
  "mh_list (api_merchant_handler (postgresRepositories tx) sg) = in_process (pg_ListMerchants (sg_call sg))"
  "yh_create (api_payer_handler (postgresRepositories tx) sg) = (\<lambda>y. in_process (pg_CreatePayer (sg_call sg) y))"
  "yh_list (api_payer_handler (postgresRepositories tx) sg) = in_process (pg_ListPayers (sg_call sg))"
  by (simp_all add: api_merchant_handler_def api_payer_handler_def postgresRepositories_def)

lemma create_steps:
  "db_steps u (snd (in_process (MerchantService_CreateMerchant (pg_CreateMerchant c) now mi) u))"
  "db_steps u (snd (in_process (PayerService_CreatePayer (pg_CreatePayer c) now yi) u))"
  unfolding in_process_state
  by (rule db_step, unfold fst_conv, rule pg_step.create_merchant pg_step.create_payer,
      rule prod.collapse [symmetric])+

lemma merchants_steps: "db_steps u (snd (HandleMerchants (api_merchant_handler (postgresRepositories tx) sg) r u))"
  using HandleMerchants_state [of "api_merchant_handler (postgresRepositories tx) sg" r u] create_steps(1)
  unfolding api_handler_sel MerchantService_in_process
  by (elim disjE exE) (simp_all add: in_process_state postgres_lists)

lemma payers_steps: "db_steps u (snd (HandlePayers (api_payer_handler (postgresRepositories tx) sg) r u))"
  using HandlePayers_state [of "api_payer_handler (postgresRepositories tx) sg" r u] create_steps(2)
  unfolding api_handler_sel PayerService_in_process
  by (elim disjE exE) (simp_all add: in_process_state postgres_lists)

text \<open>The payment handler, whatever the idempotency service answers.\<close>

lemma idempotently_state:
  "fst (snd (idempotently h env rq body w rest st)) = fst st \<or>
   (\<exists>w'. fst (snd (idempotently h env rq body w rest st)) = snd (rest w' (fst st)))"
proof (cases "ph_idempotency h")
  case None
  then have "fst (snd (idempotently h env rq body w rest st)) = snd (rest w (fst st))"
    by (simp add: idempotently_def Let_def split: prod.split)
  then show ?thesis by blast
next
  case (Some svc)
  obtain started w1 iobs i1 where start: "handleIdempotencyStart svc (he_start env) rq body w (snd st) =
      (((started, w1), iobs), i1)" by (metis prod.exhaust)
  show ?thesis
  proof (cases started)
    case None
    then show ?thesis using Some start by (simp add: idempotently_def)
  next
    case (Some result)
    then have "fst (snd (idempotently h env rq body w rest st)) = snd (rest w1 (fst st))"
      using \<open>ph_idempotency h = Some svc\<close> start by (simp add: idempotently_def Let_def split: prod.split)
    then show ?thesis by blast
  qed
qed

lemma authorize_rest_state:
  "snd (authorize_rest svc env body w s) = s \<or>
   (\<exists>ai. snd (authorize_rest svc env body w s) = snd (AuthorizePayment svc (he_env env) ai s))"
proof (cases "he_decode env body")
  case (Some request)
  then have "snd (authorize_rest svc env body w s) = snd (AuthorizePayment svc (he_env env)
      \<lparr>ai_MerchantID = aq_MerchantID request, ai_PayerID = aq_PayerID request,
       ai_AmountMinor = aq_AmountMinor request, ai_Currency = aq_Currency request\<rparr> s)"
    by (simp add: authorize_rest_def split: sum.split prod.split)
  then show ?thesis by blast
qed (simp add: authorize_rest_def)

lemma capture_rest_state: "snd (capture_rest svc env pid w s) = snd (CapturePayment svc (he_env env) pid s)"
  by (simp add: capture_rest_def split: sum.split prod.split)

text \<open>What the payment handler may do to the payments.\<close>

definition payment_calls :: "('c, 's) service \<Rightarrow> 'c env \<Rightarrow> 's \<Rightarrow> 's \<Rightarrow> bool" where
  "payment_calls svc env s s' \<longleftrightarrow> s' = s \<or> (\<exists>ai. s' = snd (AuthorizePayment svc env ai s)) \<or>
     (\<exists>pid. s' = snd (CapturePayment svc env pid s))"

lemma rest_state: "payment_calls (ph_service h) (he_env env) s (snd (rest_of h env rq body w s))"
proof (cases "rq_Path rq = ''/payments/authorize''")
  case True
  then show ?thesis
    using authorize_rest_state [of "ph_service h" env body w s]
    unfolding rest_of_def payment_calls_def if_P [OF True] by blast
next
  case False
  then show ?thesis
    unfolding rest_of_def payment_calls_def if_not_P [OF False] capture_rest_state by blast
qed

lemma ServeHTTP_state: "payment_calls (ph_service h) (he_env env) (fst st) (fst (snd (ServeHTTP h env w rq st)))"
proof (cases "\<exists>body. keyed_request rq body")
  case True
  then obtain body where "keyed_request rq body" by blast
  then have run: "ServeHTTP h env w rq st = idempotently h env rq body (newResponseRecorder w) (rest_of h env rq body) st"
    by (rule ServeHTTP_keyed)
  from idempotently_state [of h env rq body "newResponseRecorder w" "rest_of h env rq body" st]
  show ?thesis
  proof (elim disjE exE)
    fix w' assume "fst (snd (idempotently h env rq body (newResponseRecorder w) (rest_of h env rq body) st)) =
      snd (rest_of h env rq body w' (fst st))"
    then show ?thesis unfolding run using rest_state [of h env "fst st" rq body w'] by simp
  qed (simp add: run payment_calls_def)
next
  case False
  then have "snd (ServeHTTP h env w rq st) = st" using ServeHTTP_other [of rq h env w st] by (metis prod.collapse)
  then show ?thesis by (simp add: payment_calls_def)
qed

lemma api_payment_service_postgres: "api_payment_service (postgresRepositories tx) = postgres_service tx"
  by (simp add: api_payment_service_def postgresRepositories_def postgres_service_def)

lemma payment_calls_step: "payment_calls (postgres_service tx) env s s' \<Longrightarrow> pg_step\<^sup>*\<^sup>* s s'"
  unfolding payment_calls_def
  by (elim disjE exE) (simp, (rule r_into_rtranclp, simp, rule pg_step.authorize pg_step.capture,
      rule prod.collapse [symmetric])+)

lemma payments_steps:
  "db_steps u (snd (payment_web_handler (api_payment_handler (postgresRepositories tx) cache) env r u))"
proof -
  let ?h = "api_payment_handler (postgresRepositories tx) cache"
  have svc: "ph_service ?h = postgres_service tx"
    by (simp add: api_payment_handler_def api_payment_service_postgres)
  have "fst (fst (snd (payment_web_handler ?h env r u))) =
      fst (snd (ServeHTTP ?h env new_writer (payment_request r) (fst u)))"
    by (simp add: payment_web_handler_def Let_def split: prod.split)
  then show ?thesis
    using payment_calls_step [OF ServeHTTP_state [of ?h env "fst u" new_writer "payment_request r", unfolded svc]]
    by (simp add: db_steps_def)
qed

text \<open>Any route, behind the limiter or not.\<close>

lemma endpoint_steps:
  "db_steps u (snd (endpoint_handler (api_router_config (postgresRepositories tx) cache limiter started metrics sg) e r u))"
  using merchants_steps payers_steps payments_steps
  by (cases e) (simp_all add: api_router_config_def no_handler_def healthHandler_def readyHandler_def versionHandler_def)

lemma limiter_steps:
  assumes "\<And>u. db_steps u (snd (inner r u))"
  shows "db_steps u (snd (rateLimitMiddleware env (limiter_of l calls) recorder inner r u))"
proof -
  obtain res k where allow: "Allow l calls (rateLimitKey r) (snd u) = (res, k)" by (metis prod.exhaust)
  then have lim: "limiter_of l calls (rateLimitKey r) u = (res, (fst u, k))" by (simp add: limiter_of_def)
  have ran: "db_steps u (snd (inner r (fst u, k)))"
    by (rule db_steps_trans [OF _ assms]) simp
  show ?thesis
  proof (cases res)
    case (Inr answer)
    obtain sv u1 where inner_run: "inner r (fst u, k) = (sv, u1)" by (rule prod.exhaust)
    show ?thesis using ran Inr by (simp add: rateLimitMiddleware_def lim inner_run Let_def)
  qed (simp add: rateLimitMiddleware_def lim)
qed

lemma dispatch_steps:
  "db_steps u (snd (dispatch (api_router_config (postgresRepositories tx) cache limiter started metrics sg) lib env r u))"
proof -
  let ?cfg = "api_router_config (postgresRepositories tx) cache limiter started metrics sg"
  let ?found = "chi_route lib (routes ?cfg) (wq_Method r) (wq_Path r)"
  define handler where "handler = (case cm_outcome ?found of
      RouteFound e payment_id \<Rightarrow> (\<lambda>r. endpoint_handler ?cfg e (r\<lparr>wq_payment_id := payment_id\<rparr>))
    | NoRoute \<Rightarrow> notFoundHandler env
    | NoMethod \<Rightarrow> (\<lambda>r u. (only_calls (chi_not_allowed lib), u)))"
  have steps: "db_steps u (snd (handler r u))" for u
    by (simp add: handler_def endpoint_steps notFoundHandler_def split: chi_outcome.split)
  have cfg: "cfg_RateLimiter ?cfg = map_option (\<lambda>l. limiter_of l (sg_limit sg)) limiter" "cfg_Metrics ?cfg"
    by (simp_all add: api_router_config_def)
  have "dispatch ?cfg lib env r u = (case limiter of None \<Rightarrow> handler r u
      | Some l \<Rightarrow> if cm_mounted ?found then rateLimitMiddleware env (limiter_of l (sg_limit sg)) True handler r u
        else handler r u)"
    using cfg(2) unfolding dispatch_def Let_def handler_def [symmetric] cfg(1) by (cases limiter) simp_all
  moreover have "db_steps u (snd (rateLimitMiddleware env (limiter_of l (sg_limit sg)) True handler r u))" for l
    using steps by (rule limiter_steps)
  ultimately show ?thesis using steps by (simp split: option.split)
qed

lemma serve_requests_steps:
  assumes "serve_requests postgresRepositories cache limiter started metrics lib requests u = (svs, u')"
  shows "db_steps u u' \<and> length svs = length requests \<and> list_all (\<lambda>sv. sv_panic sv = None) svs"
  using assms
proof (induction requests arbitrary: u svs)
  case (Cons q requests)
  obtain sg r where q: "q = (sg, r)" by (rule prod.exhaust)
  let ?cfg = "api_router_config (postgresRepositories (sg_tx sg)) cache limiter started metrics sg"
  obtain sv u1 where one: "NewRouter ?cfg lib (sg_web sg) r u = (sv, u1)" by (metis prod.exhaust)
  obtain svs' where rest: "serve_requests postgresRepositories cache limiter started metrics lib requests u1 = (svs', u')"
    and svs: "svs = sv # svs'"
    using Cons.prems one by (auto simp: q Let_def split: prod.splits)
  obtain sv0 where "dispatch ?cfg lib (sg_web sg) (inner_request (sg_web sg) r) u = (sv0, u1)" "sv_panic sv = None"
    using NewRouter_dispatch [OF one] by blast
  then have "db_steps u u1" using dispatch_steps [of u "sg_tx sg" cache limiter started metrics sg lib "sg_web sg"]
    by (metis snd_conv)
  then show ?case
    using Cons.IH [OF rest] \<open>sv_panic sv = None\<close> by (simp add: svs db_steps_trans [of u u1 u'])
qed simp

lemma serve_main_steps:
  assumes "serve_main cfg postgresRepositories ctx_err world u = ((steps, answers), u')"
  shows "db_steps u u' \<and> list_all (\<lambda>sv. sv_panic sv = None) answers"
proof -
  have "u' = u \<and> answers = [] \<or>
    (\<exists>limiter cache. serve_requests postgresRepositories cache limiter (aw_started world) (aw_metrics world)
       (aw_chi world) (aw_requests world) u = (answers, u'))"
    using assms
    by (auto simp: serve_main_def Let_def split: sum.splits prod.splits)
  then show ?thesis using serve_requests_steps by fastforce
qed

lemma api_main_steps:
  assumes "api_main environ pool ping memory_world postgres_world state = (run, state')"
  shows "db_steps state state'"
proof -
  consider "fst (fst state') = fst (fst state)"
    | steps answers where "serve_main (Load environ) postgresRepositories pgc_err postgres_world state = ((steps, answers), state')"
    using assms by (auto simp: api_main_def Let_def split: sum.splits repositories.splits prod.splits)
  then show ?thesis
  proof cases
    case 2
    then show ?thesis using serve_main_steps by blast
  qed simp
qed

section \<open>What is opened is closed\<close>

lemma run_main_returns: "Exits \<notin> set steps \<Longrightarrow> fst (run_main steps deferred) = 0"
  by (induction steps deferred rule: run_main.induct) (auto split: prod.split)

lemma repositories_no_exit: "Exits \<notin> set (repositories_steps pool cfg result)"
  by (simp add: repositories_steps_def)

lemma end_steps_trace:
  "\<exists>code es left. run_main (end_steps ending) ds = (code, es) \<and> code \<in> {0, 1} \<and> distinct left \<and>
     set left \<subseteq> {DeadlineContext} \<and>
     (\<forall>st. held es st = (if code = 0 then held (map Closed (concat ds)) st else Some (left @ st)))"
proof -
  consider "ending = ListenFailed" | "ending = Interrupted None" | e where "ending = Interrupted (Some e)"
    by (metis option.exhaust server_end.exhaust)
  then show ?thesis
  proof cases
    case 1
    then show ?thesis by (simp add: end_steps_def exI [of _ "[]"])
  next
    case 2
    then show ?thesis by (simp add: end_steps_def exI [of _ "[]"])
  next
    case 3
    then show ?thesis by (simp add: end_steps_def exI [of _ "[DeadlineContext]"])
  qed
qed

text \<open>The part of \<open>main\<close> after the repositories, with what has been deferred before.\<close>

lemma serve_main_trace:
  fixes world :: "('c, 'l, 'k, 'q) api_world"
  assumes "serve_main cfg repositories ctx_err world u = ((steps, answers), u')"
  shows "\<exists>code es left. run_main steps ds = (code, es) \<and> code \<in> {0, 1} \<and> distinct left \<and> DatabasePool \<notin> set left \<and>
    (\<forall>st. held es st = (if code = 0 then held (map Closed (concat ds)) st else Some (left @ st)))"
proof -
  let ?limiter = "newRateLimiter cfg (aw_counters world) (aw_counters_ping world)"
  let ?cache = "newIdempotencyCache ctx_err (IdempotencyCacheEnabled cfg) (IdempotencyCacheTTL cfg)
    (aw_strings world) (aw_strings_ping world) :: error + ('c, idem_record gomap \<times> 'k) idem_cache"
  show ?thesis
  proof (cases ?limiter)
    case (Inl e)
    then show ?thesis using assms by (auto simp: serve_main_def client_steps_def)
  next
    case l: (Inr l)
    show ?thesis
    proof (cases ?cache)
      case (Inl e)
      then show ?thesis
        using assms l
        by (cases "RateLimitEnabled cfg") (auto simp: serve_main_def client_steps_def)
    next
      case c: (Inr c)
      let ?ds = "[SignalContext] # close_client CacheClient (IdempotencyCacheEnabled cfg) #
        close_client LimiterClient (RateLimitEnabled cfg) # ds"
      obtain code es left where ending: "run_main (end_steps (aw_end world)) ?ds = (code, es)" "code \<in> {0, 1}"
        "distinct left" "set left \<subseteq> {DeadlineContext}"
        "\<And>st. held es st = (if code = 0 then held (map Closed (concat ?ds)) st else Some (left @ st))"
        using end_steps_trace [of "aw_end world" ?ds] by blast
      have "steps = client_steps LimiterClient (RateLimitEnabled cfg) ?limiter @
          [Defers (close_client LimiterClient (RateLimitEnabled cfg))] @
          client_steps CacheClient (IdempotencyCacheEnabled cfg) ?cache @
          [Defers (close_client CacheClient (IdempotencyCacheEnabled cfg)), Opens SignalContext, Defers [SignalContext]] @
          end_steps (aw_end world)"
        using assms l c by (simp add: serve_main_def Let_def split: prod.splits)
      then show ?thesis
        using ending l c
        by (intro exI [of _ code] exI [of _ "(if RateLimitEnabled cfg then [Opened LimiterClient] else []) @
              (if IdempotencyCacheEnabled cfg then [Opened CacheClient] else []) @ Opened SignalContext # es"]
            exI [of _ "left @ SignalContext # (if IdempotencyCacheEnabled cfg then [CacheClient] else []) @
              (if RateLimitEnabled cfg then [LimiterClient] else [])"])
          (auto simp: client_steps_def close_client_def)
    qed
  qed
qed

lemma api_main_run:
  assumes "api_main environ pool ping memory_world postgres_world state = (run, state')"
    and "newRepositories pool ping (Load environ) = Inr repositories"
  obtains steps answers where
    "run = api_run_of (repositories_steps pool (Load environ) (Inr repositories) @
      Defers (close_repositories repositories) # steps) answers"
    "(\<exists>u'. serve_main (Load environ) postgresRepositories pgc_err postgres_world state = ((steps, answers), u')) \<or>
      (\<exists>u u'. serve_main (Load environ) (\<lambda>tx. newMemoryRepositories) (\<lambda>c. c) memory_world u = ((steps, answers), u'))"
proof (cases repositories)
  case PostgresRepositories
  obtain steps answers u' where
    "serve_main (Load environ) postgresRepositories pgc_err postgres_world state = ((steps, answers), u')"
    by (metis prod.exhaust)
  then show thesis using that [of steps answers] assms PostgresRepositories by (auto simp: api_main_def Let_def)
next
  case MemoryRepositories
  obtain db records cached counters where state: "state = ((db, (records, cached)), counters)"
    by (metis prod.exhaust)
  obtain steps answers u' where serve: "serve_main (Load environ) (\<lambda>tx. newMemoryRepositories) (\<lambda>c. c) memory_world
      ((empty_memdb, ([], cached)), counters) = ((steps, answers), u')"
    by (metis prod.exhaust)
  show thesis
  proof (rule that)
    show "run = api_run_of (repositories_steps pool (Load environ) (Inr repositories) @
        Defers (close_repositories repositories) # steps) answers"
      using assms serve MemoryRepositories by (auto simp: api_main_def Let_def state)
  qed (use serve in blast)
qed

text \<open>A run of the API.\<close>

lemma api_releases:
  assumes "api_main environ pool ping memory_world postgres_world state = (run, state')"
  shows "\<exists>left. held (run_trace run) [] = Some left \<and> distinct left \<and> run_code run \<in> {0, 1} \<and>
    (run_code run = 0 \<longrightarrow> left = []) \<and>
    (isl (newRepositories pool ping (Load environ)) \<longrightarrow>
       left = [] \<and> run_code run = 1 \<and> run_answers run = [] \<and> state' = state) \<and>
    (DatabasePool \<in> set left \<longleftrightarrow>
       run_code run = 1 \<and> newRepositories pool ping (Load environ) = Inr PostgresRepositories)"
proof (cases "newRepositories pool ping (Load environ)")
  case (Inl e)
  then have run: "run = api_run_of (repositories_steps pool (Load environ) (Inl e) @ [Exits]) []" "state' = state"
    using assms by (simp_all add: api_main_def Let_def)
  show ?thesis
    using Inl by (cases "repositories_steps pool (Load environ) (Inl e :: error + repositories) = []")
      (auto simp: run api_run_of_def repositories_steps_def split: if_splits)
next
  case (Inr repositories)
  obtain steps answers where run: "run = api_run_of (repositories_steps pool (Load environ) (Inr repositories) @
      Defers (close_repositories repositories) # steps) answers"
    and main: "(\<exists>u'. serve_main (Load environ) postgresRepositories pgc_err postgres_world state = ((steps, answers), u')) \<or>
      (\<exists>u u'. serve_main (Load environ) (\<lambda>tx. newMemoryRepositories) (\<lambda>c. c) memory_world u = ((steps, answers), u'))"
    by (rule api_main_run [OF assms Inr])
  obtain code es left where left: "run_main steps [close_repositories repositories] = (code, es)" "code \<in> {0, 1}"
    "distinct left" "DatabasePool \<notin> set left"
    "\<And>st. held es st = (if code = 0 then held (map Closed (concat [close_repositories repositories])) st else Some (left @ st))"
    using main serve_main_trace [where ds = "[close_repositories repositories]"] by metis
  have opened: "repositories_steps pool (Load environ) (Inr repositories) =
      (if repositories = PostgresRepositories then [Opens DatabasePool] else [])"
    using Inr by (auto simp: repositories_steps_def newRepositories_def newPostgresRepositories_def
        split: if_splits option.splits)
  have "run = \<lparr>run_code = code, run_trace = (if repositories = PostgresRepositories then [Opened DatabasePool] else []) @ es,
      run_answers = answers\<rparr>"
    unfolding run opened using left(1) by (cases repositories) (simp_all add: api_run_of_def)
  then show ?thesis
    using Inr left(2-5) by (cases repositories) (auto simp: close_repositories_def)
qed

text \<open>
  C39. The processes close what they open in the opposite order and nothing twice, but for the metrics
  server, which a goroutine may shut down at any earlier point. One that ends with code 0 (the API after
  an interrupt and an orderly shutdown, a worker or the migrations when their \<open>main\<close> returns) leaves
  nothing open. When the repositories of the API cannot be had their pool is closed, no request is served
  and nothing changes; when something later fails it exits with code 1 and its pool stays open, since
  \<open>os.Exit\<close> runs no deferred function.
\<close>

theorem processes_release_resources:
  assumes "api_main environ pool ping memory_world postgres_world state = (run, state')"
  shows "releases (run_code run, run_trace run) \<and>
    (isl (newRepositories pool ping (Load environ)) \<longrightarrow>
       held (run_trace run) [] = Some [] \<and> run_code run = 1 \<and> run_answers run = [] \<and> state' = state) \<and>
    (newRepositories pool ping (Load environ) = Inr PostgresRepositories \<and> run_code run = 1 \<longrightarrow>
       (\<exists>left. held (run_trace run) [] = Some left \<and> DatabasePool \<in> set left)) \<and>
    releases (fst (expiry_process environ pool ping db env s)) \<and>
    releases (fst (settlement_process n environ pool ping now db recover_env create_env s)) \<and>
    releases (fst (outbox_process n environ pool ping publish db ticks s)) \<and>
    releases (fst (migrate_process environ pool ping ensure glob read_file execute calls m))"
  using api_releases [OF assms] workers_release unfolding releases_def by auto

section \<open>The books\<close>

text \<open>
  C40. A run of the API in which no two requests overlap, on either backend and whatever the requests
  are, whatever the database and Redis answer, then a run of the expiry worker, one of the settlement
  worker and any number of ticks of the outbox worker lead from a state that use cases reach one after the
  other to another such state, in which the books are in order; and without a database URL none of them
  changes the database. Requests that overlap may leave the books out of order, as C21 shows.
\<close>

theorem processes_keep_the_books:
  assumes "pg_reachable (fst (fst state))"
    and "api_main environ pool ping memory_world postgres_world state = (run, state')"
    and "expiry_main environ pool ping db env (fst (fst state')) = (code1, s1)"
    and "settlement_main environ pool ping now db recover_env create_env s1 = (code2, s2)"
    and "outbox_main environ pool ping publish db ticks s2 = (code3, s3)"
  shows "pg_reachable (fst (fst state')) \<and> pg_ok (fst (fst state')) \<and> pg_reachable s3 \<and> pg_ok s3 \<and>
    (environ ''PAYCORE_DATABASE_URL'' = '''' \<longrightarrow> fst (fst state') = fst (fst state) \<and> s3 = fst (fst state))"
proof (intro conjI impI)
  have reach: "pg_reachable t \<Longrightarrow> pg_step\<^sup>*\<^sup>* t t' \<Longrightarrow> pg_reachable t'" for t t'
    by (erule rtranclp_induct) (auto intro: pg_reachable.step)
  show api: "pg_reachable (fst (fst state'))"
    using reach [OF assms(1)] api_main_steps [OF assms(2)] unfolding db_steps_def by blast
  then show "pg_ok (fst (fst state'))" by (rule pg_reachable_ok)
  show s3: "pg_reachable s3"
    using reach [OF reach [OF reach [OF api expiry_main_steps [OF assms(3)]] settlement_main_steps [OF assms(4)]]
        outbox_main_steps [OF assms(5)]] .
  then show "pg_ok s3" by (rule pg_reachable_ok)
  assume "environ ''PAYCORE_DATABASE_URL'' = ''''"
  then have url: "DatabaseURL (Load environ) = ''''" by (simp add: Load_def getenv_def)
  then show api_same: "fst (fst state') = fst (fst state)"
    using assms(2) by (auto simp: api_main_def newRepositories_def newPostgresRepositories_def Let_def
        split: if_splits prod.splits)
  have "s3 = fst (fst state')"
    using assms(3-5) url by (simp add: expiry_main_def settlement_main_def outbox_main_def connects_def
        loadWorkerConfig_def Let_def)
  then show "s3 = fst (fst state)" by (simp add: api_same)
qed

section \<open>A run of the shop\<close>

text \<open>A world in which Redis answers, with the requests of a run and its end.\<close>

definition live_strings :: "('c, redis_value gomap) redis_strings" where
  "live_strings = \<lparr>rs_Get = (\<lambda>c key s. (Inr (map_of s key), s)),
     rs_Set = (\<lambda>c key v ttl s. (Inr (), AList.update key v s))\<rparr>"

definition live_world ::
  "(('c, redis_call) surroundings \<times> web_request) list \<Rightarrow> server_end \<Rightarrow>
   ('c, redis_call, redis_value gomap, (string \<times> counter) list) api_world" where
  "live_world requests end =
     \<lparr>aw_counters = plain_counters, aw_counters_ping = None, aw_strings = live_strings, aw_strings_ping = None,
      aw_started = day, aw_metrics = (\<lambda>r. only_calls []), aw_chi = plain_chi, aw_requests = requests, aw_end = end\<rparr>"

definition api_environment :: environment where
  "api_environment key =
     (if key = ''PAYCORE_DATABASE_URL'' then ''postgres://paycore''
      else if key = ''PAYCORE_REPOSITORY_BACKEND'' then ''postgres''
      else if key = ''PAYCORE_RATE_LIMIT_ENABLED'' then ''true''
      else if key = ''PAYCORE_IDEMPOTENCY_CACHE_ENABLED'' then ''true'' else '''')"

definition shop_surroundings :: "(pg_call, redis_call) surroundings" where
  "shop_surroundings =
     \<lparr>sg_tx = live_tx, sg_web = shop_web, sg_call = quiet_call, sg_now = day, sg_merchant = (\<lambda>b. None),
      sg_payer = (\<lambda>b. None), sg_payment = shop_env 1,
      sg_limit = \<lparr>le_incr = after_seconds 1, le_expire = after_seconds 1, le_ttl = after_seconds 1\<rparr>\<rparr>"

lemma api_opens:
  "\<not> isl (newRateLimiter (Load api_environment) plain_counters None)"
  "\<not> isl (NewCache (Some cl) '''' (IdempotencyCacheTTL (Load api_environment)))"
  "newRepositories None None (Load api_environment) = Inr PostgresRepositories"
  "RateLimitEnabled (Load api_environment)" "IdempotencyCacheEnabled (Load api_environment)"
  by code_simp+

lemma live_run:
  fixes requests :: "((pg_call, redis_call) surroundings \<times> web_request) list"
  assumes "api_main api_environment None None memory_world (live_world requests (Interrupted None)) state = (run, state')"
  shows "run_code run = 0 \<and> length (run_answers run) = length requests"
proof -
  let ?cfg = "Load api_environment"
  obtain l where l: "newRateLimiter ?cfg plain_counters None = Inr l"
    using api_opens(1) by (cases "newRateLimiter ?cfg plain_counters None") simp_all
  obtain rc where "NewCache (Some live_strings) '''' (IdempotencyCacheTTL ?cfg) =
      Inr (rc :: (pg_call, redis_value gomap) redis_cache)"
    using api_opens(2) [of "live_strings :: (pg_call, redis_value gomap) redis_strings"] by (metis isl_def sum.exhaust)
  then have c: "newIdempotencyCache pgc_err (IdempotencyCacheEnabled ?cfg) (IdempotencyCacheTTL ?cfg) live_strings None =
      (Inr (cache_in rc) :: error + (pg_call, idem_record gomap \<times> redis_value gomap) idem_cache)"
    by (simp add: newIdempotencyCache_def api_opens)
  obtain answers u where served: "serve_requests postgresRepositories (cache_in rc) l day (\<lambda>r. only_calls []) plain_chi
      requests state = (answers, u)" by (rule prod.exhaust)
  obtain steps where "serve_main ?cfg postgresRepositories pgc_err (live_world requests (Interrupted None)) state =
      ((steps, answers), u)" and "Exits \<notin> set steps"
    by (auto simp: serve_main_def live_world_def l c served client_steps_def end_steps_def)
  then have "run_code run = 0 \<and> run_answers run = answers"
    using assms run_main_returns [of "repositories_steps None ?cfg (Inr PostgresRepositories) @
        Defers (close_repositories PostgresRepositories) # steps" "[]"]
    by (auto simp: api_main_def Let_def api_opens(3) api_run_of_def repositories_no_exit split: prod.splits)
  then show ?thesis using serve_requests_steps [OF served] by simp
qed

text \<open>A payment is authorized and the process shut down.\<close>

theorem processes_release_resources_witness:
  "\<exists>run state'. api_main api_environment None None (live_world [] ListenFailed)
      (live_world [(shop_surroundings, shop_call ''{}'')] (Interrupted None)) ((run_payer, ([], [])), []) = (run, state') \<and>
    length (run_answers run) = 1 \<and> held (run_trace run) [] = Some []"
proof -
  obtain run state' where main: "api_main api_environment None None (live_world [] ListenFailed)
      (live_world [(shop_surroundings, shop_call ''{}'')] (Interrupted None)) ((run_payer, ([], [])), []) = (run, state')"
    by (rule prod.exhaust)
  have "releases (run_code run, run_trace run)"
    using processes_release_resources [OF main] by blast
  then show ?thesis using main live_run [OF main] by (simp add: releases_def)
qed

theorem processes_keep_the_books_witness:
  "\<exists>run state' c1 s1 c2 s2 c3 s3. api_main api_environment None None (live_world [] ListenFailed)
      (live_world [(shop_surroundings, shop_call ''{}'')] (Interrupted None)) ((run_payer, ([], [])), []) = (run, state') \<and>
    expiry_main api_environment None None live_tx (run_env (day + hour) 3) (fst (fst state')) = (c1, s1) \<and>
    settlement_main api_environment None None (day + hour) live_tx (run_env (day + hour) 4) (run_env (day + hour) 5) s1 =
      (c2, s2) \<and>
    outbox_main api_environment None None (\<lambda>p i e. None) live_tx [worker_env] s2 = (c3, s3) \<and>
    length (run_answers run) = 1 \<and> pg_ok (fst (fst state')) \<and> pg_ok s3"
proof -
  obtain run state' where 0: "api_main api_environment None None (live_world [] ListenFailed)
      (live_world [(shop_surroundings, shop_call ''{}'')] (Interrupted None)) ((run_payer, ([], [])), []) = (run, state')"
    by (rule prod.exhaust)
  obtain c1 s1 where 1: "expiry_main api_environment None None live_tx (run_env (day + hour) 3) (fst (fst state')) = (c1, s1)"
    by (rule prod.exhaust)
  obtain c2 s2 where 2: "settlement_main api_environment None None (day + hour) live_tx (run_env (day + hour) 4)
      (run_env (day + hour) 5) s1 = (c2, s2)" by (rule prod.exhaust)
  obtain c3 s3 where 3: "outbox_main api_environment None None (\<lambda>p i e. None) live_tx [worker_env] s2 = (c3, s3)"
    by (rule prod.exhaust)
  have "pg_reachable (fst (fst ((run_payer, ([] :: idem_record gomap, [] :: redis_value gomap)),
      [] :: (string \<times> counter) list)))"
    using run_reachable by simp
  then show ?thesis using processes_keep_the_books [OF _ 0 1 2 3] live_run [OF 0] 0 1 2 3 by auto
qed

end
