(* ===== verification/Spec2Isabelle.thy ===== *)
theory Spec2Isabelle
  imports MemoryGuarantees PayerConcurrency Histories PaymentHandlerGuarantees HttpGuarantees Metrics Migrate
    WorkerGuarantees PostgresColumns ApiGuarantees
begin

text \<open>
  paycore, a payment service in Go, modelled and verified.

  The program. Merchants and payers are registered; a payment is authorized (the amount moves from the
  payer's available to its held balance and a hold is kept), then captured (the held amount is gone and
  the hold is closed) or expired by a worker (the amount goes back), and captured payments are settled in
  batches by another worker. Every change of a payment writes an event into an outbox, in the same
  transaction, from which a third worker publishes. The HTTP API puts an idempotency key around the two
  payment endpoints, with durable records and a response cache in Redis, and a rate limit in front.
  The data lives in Postgres, or in memory for local use.

  \<^bold>\<open>Theories\<close>, each with the files it models (below \<open>src/internal\<close> where no other directory is
  named):
  \<^item> \<open>GoPrelude\<close>: strings, 64-bit integers, times, maps, errors as values (\<open>error\<close>, one
    constructor for each sentinel of the program), and actions, functions from a state to a result or an
    error and the new state. \<open>Currency\<close>: \<open>shared/currency\<close>, \<open>shared/id\<close>. \<open>GoText\<close>:
    the parsers of \<open>strconv\<close> and \<open>strings.Split\<close>.
  \<^item> \<open>Merchant\<close>, \<open>Payer\<close>, \<open>Payment\<close>, \<open>Outbox\<close>: the entities with every operation,
    their in-memory repositories and the small services (\<open>merchant\<close>, \<open>payer\<close>,
    \<open>payment/entity.go\<close>, \<open>payment/hold.go\<close>, \<open>outbox/event.go\<close>, \<open>adapters/memory\<close>);
    \<open>OutboxFacts\<close> has the lemmas on events.
  \<^item> \<open>Ledger\<close>: the transactors (\<open>shared/db\<close>), and the abstract state the use cases are about:
    merchants, payers, payments, holds and events as maps, with the invariant \<open>ledger_ok\<close>.
    \<open>LedgerSteps\<close> proves it kept by each group of writes a use case makes, \<open>LedgerTurns\<close> that the
    version of a payer counts the writes to it, and \<open>LedgerHistory\<close> what no step may undo and which
    events the outbox owes to the payments (\<open>ledger_next\<close>).
  \<^item> \<open>PaymentService\<close>: the three use cases of \<open>payment/service.go\<close> over any repositories.
    \<open>PaymentBackend\<close> is the locale of what the repositories promise, in which the use cases are
    verified once; \<open>MemoryBackend\<close> and \<open>PostgresBackend\<close> (\<open>adapters/postgres\<close>, the tables
    of \<open>src/migrations\<close>, with \<open>PostgresTables\<close> for the statements) interpret it;
    \<open>MemoryGuarantees\<close>: without transactions, a use case is all or nothing while its context lives.
    \<open>PaymentProgress\<close> is the locale of what the repositories promise when they answer, from which it
    follows that a use case succeeds.
  \<^item> \<open>SettlementEntity\<close>, \<open>SettlementStore\<close>, \<open>SettlementService\<close>,
    \<open>SettlementBackend\<close>, \<open>SettlementPostgres\<close>, \<open>SettlementInvariant\<close>: \<open>settlement\<close>, in
    the same layers.
  \<^item> \<open>OutboxWorker\<close>, \<open>OutboxPostgres\<close>: \<open>outbox/worker.go\<close> and its repository in Postgres.
  \<^item> \<open>PaymentSystem\<close>: the whole program over its database as the step relation \<open>pg_step\<close>, one
    rule for each use case and each worker run alone, and the states reached; \<open>Scenario\<close>: a concrete
    run, on which the witnesses evaluate the model; \<open>PaymentGuarantees\<close>: what a use case does, refuses
    and leaves untouched. \<open>PayerConcurrency\<close>: clients that read and write one payer in any order;
    \<open>ReadCommitted\<close>: use cases between the statements of another; \<open>Histories\<close>: the runs of the program,
    in which authorizations and captures overlap, as lists of committed states.
  \<^item> \<open>Processes\<close>: \<open>src/cmd\<close>, how the processes are built and run, and the Kafka publisher;
    \<open>WorkerGuarantees\<close>: what their runs do; \<open>ApiProcess\<close>, \<open>ApiGuarantees\<close>:
    \<open>src/cmd/paycore-api\<close>, the process around the router, and what a run of it does to the database and
    leaves open, with every \<open>defer\<close>; \<open>WorkerProcesses\<close>: the workers and the migrations from start
    to end, with the metrics server (\<open>shared/metrics/server.go\<close>). \<open>Config\<close>: \<open>shared/config\<close>.
    \<open>Migrate\<close>: \<open>src/cmd/paycore-migrate\<close>.
  \<^item> \<open>SqlColumns\<close>, \<open>PostgresColumns\<close>: the statements of the Postgres adapters column by column,
    with their numbered parameters and \<open>Scan\<close>; they write and read the rows the repositories are
    modelled with.
  \<^item> \<open>RequestHash\<close>: SHA-256 on 32-bit words and the hash of a request. \<open>Idempotency\<close>:
    \<open>idempotency\<close>, the records and the service; \<open>IdempotencyContract\<close>: histories of calls, and
    the locales of a store of records and of a cache; \<open>IdempotencyBackends\<close> interprets them in
    Postgres and over Redis; \<open>IdempotencyGuarantees\<close>: a key runs once and is answered alike.
  \<^item> \<open>HttpResponse\<close>: JSON, times and the response writer, a sequence of calls. \<open>PaymentHandler\<close>:
    \<open>payment/handler.go\<close>; \<open>PaymentHandlerGuarantees\<close>: retries. \<open>MerchantPayerHandlers\<close>: the
    two other handlers. \<open>RateLimit\<close>: \<open>ratelimit\<close>, also command by command;
    \<open>RateLimitGuarantees\<close>: the bounds, for any interleaving. \<open>HttpMiddleware\<close>, \<open>HttpRouter\<close>:
    \<open>http\<close>; \<open>HttpGuarantees\<close>: what holds for every request. \<open>Metrics\<close>: \<open>shared/metrics\<close>.

  \<^bold>\<open>Correspondence.\<close> A definition has the name of the function or type it models, with a prefix
  where two packages use one name (\<open>pg_\<close> for the Postgres adapters, \<open>redis_\<close> for Redis). A struct
  is a record, an enumeration a datatype, an \<open>int64\<close> a 64-bit word whose sums wrap, a Go map an
  association list whose order is one that Go may choose. A call takes its surroundings as arguments: the
  time, the random bytes, and what the context and the server answer, numbered in the order of the calls,
  so that a theorem holds for every way in which any call may fail. A transaction keeps the state
  before it and restores it when the function, or the commit, fails, unless the server applied a commit
  that it reported as failed.

  \<^bold>\<open>Parameters\<close>, for what is not in the repository: the Redis server (\<open>redis_strings_ok\<close> and
  \<open>redis_counters_ok\<close> say what its commands promise), the publisher and the writer of the Kafka
  library, the router library (\<open>chi\<close>), decoding JSON into a request struct, the effect of the SQL of a
  migration, and the offset of a time zone. Each theorem that assumes something of a parameter has a
  witness with a concrete one.

  \<^bold>\<open>What the theorems show.\<close> In this theory: the invariants of every state that a run commits and
  what no run undoes. A run is a history of committed states (\<open>history True\<close>): use cases and workers
  alone, and authorizations and captures whose statements, up to their first write, have seen earlier
  states of the history. It is required that no commit changes a payment between a capture's reads of it
  and of its payer. The requirement is not met by every run of the program, which does nothing to ensure
  it: without it (\<open>history False\<close>) a payment can be captured twice, and the invariants fail
  (\<open>racing_captures_take_twice\<close>). With it, every history is one of use cases run one after the other
  (\<open>overlapping_requests_serialize\<close>): the version of a payer counts its writes, so that a transaction
  whose \<open>UpdatePayer\<close> succeeds would have read the same at that time. In the theories named
  \<open>Guarantees\<close>: the effect of each use case on success, its refusals, that it succeeds when the database
  answers. At most one request for a key acts and every retry is answered with the first response; the
  limit on requests under interleaving; answers of the router; the expiry worker works off its backlog;
  the processes close what they have opened, and requests that do not overlap keep the books. All functions
  of the model are total and none needs fuel: the loops of the program run over lists.

  \<^bold>\<open>Not modelled.\<close> What a use case does from its first write to its commit is one step: it holds the
  lock on its payer then, and use cases of other payers touch no row that it reads or writes. A run of
  a worker is a step, too: the expiry and the settlement worker have one transaction each, in which the
  rows they list stay locked and the payers they write are checked by version; the outbox worker claims
  events and marks each in a transaction of its own, and between them only the delivery status of its
  events differs. A deadlock is an error. Rows locked by others only hide from the
  statements that skip them. A history has room for fewer than \<open>2 ^ 63\<close> payments, so that versions do not
  come round. Requests of the API are served one after the other in \<open>ApiProcess\<close>. The Redis client of
  the library may send a command again by itself, and a server may lose counters: neither is in the laws
  of \<open>redis_counters_ok\<close>. Panics inside the payment handler (the middleware has
  them as values). How the HTTP server of the library listens and drains its connections, and logging.
  The samples the metrics library keeps. Strings with runes above U+00FF or that are not UTF-8. The rest of the
  repository is tests, documents, scripts and SQL that the theories on Postgres take up as the
  constraints of their tables.
\<close>

section \<open>Every run of the program\<close>

text \<open>
  C1. In every state that a run commits, a payer's balances are not negative and its held balance is
  exactly the sum of the amounts of its live holds. A run here, and below, is a history of committed
  states in which authorizations and captures may overlap up to their first write, and a run of a worker
  is one step, as long as no commit changes a payment between a capture's reads of it and of its payer;
  without the latter the program does not keep its books.
\<close>

theorem held_balance_is_sum_of_holds:
  assumes "history True hs" and "s \<in> set hs" and "map_of (t_payers s) i = Some y"
  shows "0 \<le> sint (AvailableBalanceMinor y) \<and> 0 \<le> sint (HeldBalanceMinor y) \<and>
    sint (HeldBalanceMinor y) = held_total (pg_view s) i"
proof -
  have ok: "ledger_ok (pg_view s)" using orderly_ok assms(1,2) pg_okD(2) by blast
  have "map_of (l_payers (pg_view s)) i = Some y" using assms(3) by simp
  from ledger_okD(3,4) [OF ok this]
  show ?thesis unfolding payer_ok_def by simp
qed

theorem held_balance_is_sum_of_holds_witness:
  "HeldBalanceMinor (buyer 400 600 2 day) = 600 \<and> held_total (pg_view run_two) ''p'' = 600"
proof -
  obtain hs where hs: "history True (hs @ [run_authorized, run_two, snd run_overlap])" using overlap_history by blast
  have "map_of (t_payers run_two) ''p'' = Some (buyer 400 600 2 day)" by (simp add: run_two_eq)
  from held_balance_is_sum_of_holds [OF hs _ this] show ?thesis by (simp add: buyer_def)
qed

text \<open>
  C2. Money is conserved: what a payer has available and held, plus what was captured from it, is the
  same in every later state of a run.
\<close>

theorem money_is_conserved:
  assumes "history True hs" and "i \<le> j" and "j < length hs" and "funds (pg_view (hs ! i)) payer = Some x"
  shows "funds (pg_view (hs ! j)) payer = Some x"
  by (rule ledger_nextD(1) [OF orderly_next [OF assms(1-3)] assms(4)])

theorem money_is_conserved_witness:
  "funds (pg_view run_authorized) ''p'' = Some 1000 \<and> funds (pg_view (snd run_overlap)) ''p'' = Some 1000"
proof -
  obtain hs where hs: "history True (hs @ [run_authorized, run_two, snd run_overlap])" using overlap_history by blast
  have a: "funds (pg_view run_authorized) ''p'' = Some 1000" unfolding run_authorized_eq by code_simp
  from money_is_conserved [OF hs, of "length hs" "length hs + 2" "''p''" 1000] a show ?thesis by (simp add: nth_append)
qed

text \<open>
  C3. In every state of a run a stored payment belongs to a stored merchant and to a stored payer with
  its currency, and has exactly one hold. The hold names the payment, is on the payment's payer, has its
  amount and currency, and its status goes with the payment's: held while authorized, captured once
  captured or settled, released once expired.
\<close>

theorem payment_has_its_hold:
  assumes "history True hs" and "s \<in> set hs" and "map_of (t_payments s) pid = Some p"
  shows "map_of (t_merchants s) (payment_MerchantID p) \<noteq> None \<and>
    (\<exists>y. map_of (t_payers s) (payment_PayerID p) = Some y \<and> payer_Currency y = payment_Currency p) \<and>
    (\<exists>!hid. \<exists>h. map_of (t_payment_holds s) hid = Some h \<and> hold_PaymentID h = pid) \<and>
    (\<exists>h. map_of (t_payment_holds s) (AuthorizationHoldID p) = Some h \<and> hold_PaymentID h = pid \<and>
       hold_PayerID h = payment_PayerID p \<and> hold_AmountMinor h = payment_AmountMinor p \<and>
       hold_Currency h = payment_Currency p \<and> statuses_agree (payment_Status p) (hold_Status h))"
proof -
  have ok: "ledger_ok (pg_view s)" using orderly_ok assms(1,2) pg_okD(2) by blast
  have p: "map_of (l_payments (pg_view s)) pid = Some p" using assms(3) by simp
  note L = ledger_okD(5) [OF ok p, unfolded payment_linked_def pg_view_sel]
  have id: "payment_ID p = pid" using gm_wf_key [OF ledger_keys_okD(3) [OF ledger_okD(1) [OF ok]] p] .
  obtain h where hold: "map_of (t_payment_holds s) (AuthorizationHoldID p) = Some h"
    "hold_matches p h" using L by auto
  have "hid = AuthorizationHoldID p"
    if "map_of (t_payment_holds s) hid = Some g" "hold_PaymentID g = pid" for hid g
    using hold_of_payment(1) [OF ok p _ that(2)] that(1) by simp
  moreover have pid: "hold_PaymentID h = pid" using hold(2) id by (simp add: hold_matches_def)
  ultimately have "\<exists>!hid. \<exists>h. map_of (t_payment_holds s) hid = Some h \<and> hold_PaymentID h = pid"
    using hold(1) by (intro ex1I [of _ "AuthorizationHoldID p"]) blast+
  moreover have "\<exists>y. map_of (t_payers s) (payment_PayerID p) = Some y \<and> payer_Currency y = payment_Currency p"
    using L by auto
  moreover have "hold_PayerID h = payment_PayerID p \<and> hold_AmountMinor h = payment_AmountMinor p \<and>
      hold_Currency h = payment_Currency p \<and> statuses_agree (payment_Status p) (hold_Status h)"
    using hold(2) by (simp add: hold_matches_def)
  ultimately show ?thesis using L hold(1) pid by blast
qed

theorem payment_has_its_hold_witness:
  "\<exists>h. map_of (t_payment_holds run_captured) ''hold_01'' = Some h \<and> hold_PayerID h = ''p'' \<and>
     hold_Status h = HoldStatusCaptured"
proof -
  let ?p = "deal StatusCaptured (Some (day + minute)) None (day + minute)"
  obtain hs where hs: "history True hs" "run_captured \<in> set hs" using history_with [OF run_reachable(3)] by blast
  have "map_of (t_payments run_captured) ''pay_00'' = Some ?p" by (simp add: run_captured_eq)
  from payment_has_its_hold [OF hs this] show ?thesis by (auto simp: deal_def)
qed

text \<open>
  C4. Along a run a stored payment never disappears, never changes its merchant, payer, amount, currency
  or hold, and its status only moves forward: from authorized to captured or expired, from captured to
  settled. Settled and expired payments are final.
\<close>

theorem payments_move_forward:
  assumes "history True hs" and "i \<le> j" and "j < length hs" and "map_of (t_payments (hs ! i)) pid = Some p"
  shows "\<exists>p'. map_of (t_payments (hs ! j)) pid = Some p' \<and> same_deal p p' \<and>
    status_leads (payment_Status p) (payment_Status p')"
  using ledger_nextD(2) [OF orderly_next [OF assms(1-3)], of pid p] assms(4) by simp

theorem payments_move_forward_witness:
  "\<exists>p'. map_of (t_payments (snd run_overlap)) ''pay_00'' = Some p' \<and>
     status_leads StatusAuthorized (payment_Status p') \<and> payment_PayerID p' = ''p''"
proof -
  obtain hs where hs: "history True (hs @ [run_authorized, run_two, snd run_overlap])" using overlap_history by blast
  have "map_of (t_payments run_authorized) ''pay_00'' = Some (deal StatusAuthorized None None day)"
    by (simp add: run_authorized_eq)
  with payments_move_forward [OF hs, of "length hs" "length hs + 2" "''pay_00''"]
  have "\<exists>p'. map_of (t_payments (snd run_overlap)) ''pay_00'' = Some p' \<and>
      same_deal (deal StatusAuthorized None None day) p' \<and>
      status_leads (payment_Status (deal StatusAuthorized None None day)) (payment_Status p')"
    by (simp add: nth_append)
  then show ?thesis by (auto simp: deal_def same_deal_def)
qed

text \<open>
  C5. In every state of a run, a settled payment has exactly one settlement line item; and a line item
  of a stored payment is that of a settled one, takes no fee, carries the payment's amount and merchant,
  and belongs to the batch that the payment is assigned to, which is complete.
\<close>

theorem settled_payment_has_one_item:
  assumes "history True hs" and "s \<in> set hs" and "map_of (t_payments s) pid = Some p"
  shows "(payment_Status p = StatusSettled \<longrightarrow>
      (\<exists>!i. \<exists>it. map_of (t_settlement_line_items s) i = Some it \<and> item_PaymentID it = pid)) \<and>
    (\<forall>i it. map_of (t_settlement_line_items s) i = Some it \<and> item_PaymentID it = pid \<longrightarrow>
      payment_Status p = StatusSettled \<and> item_AmountMinor it = payment_AmountMinor p \<and>
      NetAmountMinor it = payment_AmountMinor p \<and> FeeAmountMinor it = 0 \<and>
      item_MerchantID it = payment_MerchantID p \<and> map_of (t_settlement_batch_id s) pid = Some (item_BatchID it) \<and>
      (\<exists>b. map_of (t_settlement_batches s) (item_BatchID it) = Some b \<and> batch_Status b = BatchStatusCompleted))"
proof (intro conjI allI impI)
  note S = settlement_okD [OF pg_okD(3) [OF orderly_ok [OF assms(1,2)]], unfolded pg_view_sel pg_slots_sel]
  show "\<exists>!i. \<exists>it. map_of (t_settlement_line_items s) i = Some it \<and> item_PaymentID it = pid"
    if settled: "payment_Status p = StatusSettled"
  proof -
    obtain i it where it: "map_of (t_settlement_line_items s) i = Some it" "item_PaymentID it = pid"
      using S(6) [OF assms(3) settled] by blast
    then show ?thesis using S(5) by (intro ex1I [of _ i]) blast+
  qed
  fix i it assume it: "map_of (t_settlement_line_items s) i = Some it \<and> item_PaymentID it = pid"
  note R = S(4) [OF conjunct1 [OF it], unfolded item_recorded_def pg_view_sel pg_slots_sel conjunct2 [OF it]]
  then obtain b where b: "map_of (t_settlement_batches s) (item_BatchID it) = Some b" by auto
  show "\<exists>b. map_of (t_settlement_batches s) (item_BatchID it) = Some b \<and> batch_Status b = BatchStatusCompleted"
    using b S(3) [OF b] by blast
  have p: "payment_Status p = StatusSettled" "item_for (item_BatchID it) p it" using R assms(3) by auto
  then show "payment_Status p = StatusSettled" "item_AmountMinor it = payment_AmountMinor p"
    "NetAmountMinor it = payment_AmountMinor p" "FeeAmountMinor it = 0" "item_MerchantID it = payment_MerchantID p"
    by (simp_all add: item_for_def)
  show "map_of (t_settlement_batch_id s) pid = Some (item_BatchID it)" using R by blast
qed

theorem settled_payment_has_one_item_witness:
  "\<exists>!i. \<exists>it. map_of (t_settlement_line_items run_settled) i = Some it \<and> item_PaymentID it = ''pay_00''"
proof -
  let ?p = "deal StatusSettled (Some (day + minute)) (Some (day + hour)) (day + hour)"
  obtain hs where hs: "history True hs" "run_settled \<in> set hs" using history_with [OF run_reachable(5)] by blast
  have p: "map_of (t_payments run_settled) ''pay_00'' = Some ?p" by (simp add: run_settled_eq)
  show ?thesis by (rule mp [OF conjunct1 [OF settled_payment_has_one_item [OF hs p]]]) (simp add: deal_def)
qed

text \<open>
  C6. Nothing is settled by mistake: in every state of a run, every line item, and every payment
  assigned to a batch, is that of a settled payment.
\<close>

theorem only_settled_payments_in_batches:
  assumes "history True hs" and "s \<in> set hs"
  shows "(map_of (t_settlement_line_items s) i = Some it \<longrightarrow>
      (\<exists>p. map_of (t_payments s) (item_PaymentID it) = Some p \<and> payment_Status p = StatusSettled)) \<and>
    (map_of (t_settlement_batch_id s) pid = Some bid \<longrightarrow>
      (\<exists>p. map_of (t_payments s) pid = Some p \<and> payment_Status p = StatusSettled))"
proof -
  note S = settlement_okD(4,7) [OF pg_okD(3) [OF orderly_ok [OF assms]], unfolded pg_view_sel pg_slots_sel item_recorded_def]
  show ?thesis using S by blast
qed

theorem only_settled_payments_in_batches_witness:
  "\<exists>p. map_of (t_payments run_settled) ''pay_00'' = Some p \<and> payment_Status p = StatusSettled"
proof -
  obtain hs where hs: "history True hs" "run_settled \<in> set hs" using history_with [OF run_reachable(5)] by blast
  have "map_of (t_settlement_batch_id run_settled) ''pay_00'' = Some ''setbat_04''"
    by (simp add: run_settled_eq)
  then show ?thesis
    using only_settled_payments_in_batches [OF hs, of _ _ "''pay_00''" "''setbat_04''"] by blast
qed

text \<open>
  C7. The outbox is complete and has nothing else: in every state of a run there is exactly one event for
  each stored payment and each status it has been through (authorized; captured or expired; settled),
  of the type of that status and with the identifier of that payment, and no event for any other pair of
  a type and an identifier.
\<close>

theorem outbox_is_complete:
  assumes "history True hs" and "s \<in> set hs"
  shows "count_list (map (\<lambda>(k, e). (EventType e, AggregateID e)) (t_outbox_events s)) (type, pid) =
    (case map_of (t_payments s) pid of
       None \<Rightarrow> 0
     | Some p \<Rightarrow> if type \<in> milestones (payment_Status p) then 1 else 0)"
  using conjunct2 [OF reachable_counts [OF orderly_reachable [OF assms]]]
  by (simp add: outbox_complete_def events_about_def events_owed_def event_label_def split: option.split)

theorem outbox_is_complete_witness:
  "count_list (map (\<lambda>(k, e). (EventType e, AggregateID e)) (t_outbox_events run_settled))
     (eventTypePaymentCaptured, ''pay_00'') = 1 \<and>
   count_list (map (\<lambda>(k, e). (EventType e, AggregateID e)) (t_outbox_events run_settled))
     (eventTypePaymentExpired, ''pay_00'') = 0"
proof -
  obtain hs where hs: "history True hs" "run_settled \<in> set hs" using history_with [OF run_reachable(5)] by blast
  have "map_option payment_Status (map_of (t_payments run_settled) ''pay_00'') = Some StatusSettled"
    by (simp add: run_settled_eq deal_def)
  moreover have "eventTypePaymentExpired \<notin> milestones StatusSettled" "eventTypePaymentCaptured \<in> milestones StatusSettled"
    by code_simp+
  ultimately show ?thesis
    using outbox_is_complete [OF hs, of eventTypePaymentCaptured "''pay_00''"]
      outbox_is_complete [OF hs, of eventTypePaymentExpired "''pay_00''"] by auto
qed

text \<open>
  C8. An event that is published stays as it is and is never claimed again, so it is not sent twice;
  but the same holds for an event that a worker has claimed and not marked: no step of the program
  takes it up again.
\<close>

theorem taken_events_are_final:
  assumes "pg_reachable s" and "pg_step\<^sup>*\<^sup>* s s'" and "map_of (t_outbox_events s) k = Some e"
    and "event_Status e = EventPublished \<or> event_Status e = EventInProgress"
  shows "map_of (t_outbox_events s') k = Some e"
proof -
  have "ledger_next (pg_view s) (pg_view s')"
    using pg_steps_good [OF assms(2) pg_reachable_ok [OF assms(1)]] unfolding good_step_def by simp
  then have "taken_events (t_outbox_events s) \<subseteq>\<^sub>m taken_events (t_outbox_events s')"
    using ledger_nextD(4) by fastforce
  moreover have "taken_events (t_outbox_events s) k = Some e"
    using assms(3,4) by (auto simp: taken_events_Some taken_def)
  ultimately have "taken_events (t_outbox_events s') k = Some e" by (metis domI map_le_def)
  then show ?thesis by (simp add: taken_events_Some)
qed

theorem taken_events_are_final_witness:
  "\<exists>e. map_of (t_outbox_events (snd (ProcessBatch publisher worker_env run_published))) ''evt_02'' = Some e \<and>
     event_Status e = EventPublished"
proof -
  obtain e where e: "map_of (t_outbox_events run_published) ''evt_02'' = Some e"
    "event_Status e = EventPublished" using run_published_event by blast
  have "pg_step run_published (snd (ProcessBatch publisher worker_env run_published))"
    by (rule pg_step.publish_events [OF publisher_worker prod.collapse [symmetric]])
  then have "pg_step\<^sup>*\<^sup>* run_published (snd (ProcessBatch publisher worker_env run_published))"
    by (rule r_into_rtranclp)
  from taken_events_are_final [OF run_reachable(6) this e(1) disjI1 [OF e(2)]]
  show ?thesis using e(2) by blast
qed

end
